(* ===== verification/Prelude.thy ===== *)
theory Prelude
  imports Main "HOL-Library.Word" "HOL-Library.FSet" "HOL-Library.Sublist"
begin

text \<open>
  Shared vocabulary of the development: machine integers, results (a value or an error),
  the fragments of Rust's string library that the modelled code calls, and the generic
  lemmas the component theories use.

  A Rust \<^verbatim>\<open>str\<close> is modelled by its UTF-8 bytes, one \<^typ>\<open>char\<close> per byte, so
  \<^const>\<open>length\<close> is Rust's \<^verbatim>\<open>len()\<close>. A \<^verbatim>\<open>Result<T, E>\<close> is a value of
  \<^typ>\<open>'e + 'a\<close>: \<^const>\<open>Inl\<close> is \<^verbatim>\<open>Err\<close> and \<^const>\<open>Inr\<close> is \<^verbatim>\<open>Ok\<close>.
\<close>

section \<open>Collections of rules\<close>

named_theorems result_simps
named_theorems boundary_simps
named_theorems text_simps

section \<open>Machine integers\<close>

type_synonym u8 = "8 word"
type_synonym u32 = "32 word"
type_synonym u64 = "64 word"
type_synonym bytes = "u8 list"

text \<open>A signed 64-bit integer is an \<^typ>\<open>int\<close> in this range.\<close>

definition i64_min :: int where
  "i64_min = - (2 ^ 63)"

definition i64_max :: int where
  "i64_max = 2 ^ 63 - 1"

definition in_i64 :: "int \<Rightarrow> bool" where
  "in_i64 x \<longleftrightarrow> i64_min \<le> x \<and> x \<le> i64_max"

definition sat_add_i64 :: "int \<Rightarrow> int \<Rightarrow> int" where
  "sat_add_i64 a b = max i64_min (min i64_max (a + b))"

definition sat_add_u32 :: "u32 \<Rightarrow> u32 \<Rightarrow> u32" where
  "sat_add_u32 a b = (if unat a + unat b < 2 ^ 32 then a + b else - 1)"

definition sat_add_u64 :: "u64 \<Rightarrow> u64 \<Rightarrow> u64" where
  "sat_add_u64 a b = (if unat a + unat b < 2 ^ 64 then a + b else - 1)"

definition sat_sub_u64 :: "u64 \<Rightarrow> u64 \<Rightarrow> u64" where
  "sat_sub_u64 a b = (if b \<le> a then a - b else 0)"

lemma unat_sat_sub_u64: "unat (sat_sub_u64 a b) = unat a - unat b"
proof (cases "b \<le> a")
  case True
  then show ?thesis by (simp add: sat_sub_u64_def unat_sub)
next
  case False
  then have "unat a < unat b" by (simp add: word_less_nat_alt not_le)
  with False show ?thesis by (simp add: sat_sub_u64_def)
qed

lemma sat_add_i64_range [simp]: "in_i64 (sat_add_i64 a b)"
  by (auto simp: in_i64_def sat_add_i64_def i64_min_def i64_max_def)

section \<open>Results\<close>

definition rbind :: "'e + 'a \<Rightarrow> ('a \<Rightarrow> 'e + 'b) \<Rightarrow> 'e + 'b" where
  "rbind m f = (case m of Inl e \<Rightarrow> Inl e | Inr a \<Rightarrow> f a)"

lemma rbind_simps [simp]:
  "rbind (Inl e) f = Inl e"
  "rbind (Inr a) f = f a"
  by (simp_all add: rbind_def)

lemma rbind_Inr_iff [result_simps]:
  "rbind m f = Inr b \<longleftrightarrow> (\<exists>a. m = Inr a \<and> f a = Inr b)"
  by (cases m) auto

lemma rbind_Inl_iff [result_simps]:
  "rbind m f = Inl e \<longleftrightarrow> m = Inl e \<or> (\<exists>a. m = Inr a \<and> f a = Inl e)"
  by (cases m) auto

definition ok_or :: "'e \<Rightarrow> 'a option \<Rightarrow> 'e + 'a" where
  "ok_or e m = (case m of None \<Rightarrow> Inl e | Some a \<Rightarrow> Inr a)"

lemma ok_or_simps [simp]:
  "ok_or e None = Inl e"
  "ok_or e (Some a) = Inr a"
  by (simp_all add: ok_or_def)

lemma ok_or_iffs [result_simps]:
  "ok_or e m = Inr a \<longleftrightarrow> m = Some a"
  "ok_or e m = Inl e' \<longleftrightarrow> m = None \<and> e' = e"
  by (cases m; auto)+

definition map_err :: "('e \<Rightarrow> 'f) \<Rightarrow> 'e + 'a \<Rightarrow> 'f + 'a" where
  "map_err g m = (case m of Inl e \<Rightarrow> Inl (g e) | Inr a \<Rightarrow> Inr a)"

lemma map_err_simps [simp]:
  "map_err g (Inl e) = Inl (g e)"
  "map_err g (Inr a) = Inr a"
  by (simp_all add: map_err_def)

lemma map_err_iffs [result_simps]:
  "map_err g m = Inr a \<longleftrightarrow> m = Inr a"
  "map_err g m = Inl f \<longleftrightarrow> (\<exists>e. m = Inl e \<and> f = g e)"
  by (cases m; auto)+

definition guard :: "bool \<Rightarrow> 'e \<Rightarrow> 'e + unit" where
  "guard b e = (if b then Inr () else Inl e)"

lemma guard_iffs [result_simps]:
  "guard b e = Inr u \<longleftrightarrow> b"
  "guard b e = Inl e' \<longleftrightarrow> \<not> b \<and> e' = e"
  by (auto simp: guard_def)

lemma guard_simps [simp]:
  "guard True e = Inr ()"
  "guard False e = Inl e"
  by (simp_all add: guard_def)

text \<open>A loop that runs a fallible step over a list and stops at the first error.\<close>

fun traverse :: "('a \<Rightarrow> 'e + 'b) \<Rightarrow> 'a list \<Rightarrow> 'e + 'b list" where
  "traverse f [] = Inr []"
| "traverse f (x # xs) =
     (case f x of
        Inl e \<Rightarrow> Inl e
      | Inr y \<Rightarrow> (case traverse f xs of Inl e \<Rightarrow> Inl e | Inr ys \<Rightarrow> Inr (y # ys)))"

lemma traverse_Cons_Inr:
  "traverse f (x # xs) = Inr zs \<longleftrightarrow>
     (\<exists>y ys. zs = y # ys \<and> f x = Inr y \<and> traverse f xs = Inr ys)"
  by (auto split: sum.splits)

lemma traverse_Inr_iff [result_simps]:
  "traverse f xs = Inr ys \<longleftrightarrow> list_all2 (\<lambda>x y. f x = Inr y) xs ys"
proof (induction xs arbitrary: ys)
  case Nil
  then show ?case by auto
next
  case (Cons x xs)
  then show ?case
    unfolding traverse_Cons_Inr by (auto simp: list_all2_Cons1)
qed

lemma traverse_append_Inl:
  "list_all2 (\<lambda>x y. f x = Inr y) us ys \<Longrightarrow> f x = Inl e \<Longrightarrow>
     traverse f (us @ x # vs) = Inl e"
  by (induction us ys rule: list_all2_induct) auto

lemma traverse_InlD:
  "traverse f xs = Inl e \<Longrightarrow>
     \<exists>us x vs ys. xs = us @ x # vs \<and> f x = Inl e \<and> list_all2 (\<lambda>x y. f x = Inr y) us ys"
proof (induction xs)
  case Nil
  then show ?case by simp
next
  case (Cons x xs)
  show ?case
  proof (cases "f x")
    case (Inl e')
    with Cons.prems show ?thesis by (intro exI [of _ "[]"]) auto
  next
    case (Inr y)
    with Cons.prems have "traverse f xs = Inl e" by (auto split: sum.splits)
    then obtain us z vs ys where "xs = us @ z # vs" "f z = Inl e"
      "list_all2 (\<lambda>x y. f x = Inr y) us ys"
      using Cons.IH by blast
    with Inr have "x # xs = (x # us) @ z # vs \<and> f z = Inl e \<and>
        list_all2 (\<lambda>x y. f x = Inr y) (x # us) (y # ys)"
      by simp
    then show ?thesis by blast
  qed
qed

lemma traverse_total:
  "(\<And>x. x \<in> set xs \<Longrightarrow> \<exists>y. f x = Inr y) \<Longrightarrow> \<exists>ys. traverse f xs = Inr ys"
proof (induction xs)
  case Nil
  then show ?case by simp
next
  case (Cons x xs)
  from Cons.prems obtain y where y: "f x = Inr y" by (meson list.set_intros(1))
  from Cons obtain ys where "traverse f xs = Inr ys" by (meson list.set_intros(2))
  with y show ?case by simp
qed

section \<open>Lists\<close>

lemma find_SomeD: "List.find P xs = Some x \<Longrightarrow> x \<in> set xs \<and> P x"
  by (induction xs) (auto split: if_splits)

lemma find_Some_split:
  "List.find P xs = Some x \<Longrightarrow>
     \<exists>us vs. xs = us @ x # vs \<and> P x \<and> (\<forall>u \<in> set us. \<not> P u)"
proof (induction xs)
  case Nil
  then show ?case by simp
next
  case (Cons y ys)
  show ?case
  proof (cases "P y")
    case True
    with Cons.prems show ?thesis by (intro exI [of _ "[]"] exI [of _ ys]) auto
  next
    case False
    with Cons.prems Cons.IH obtain us vs where
      "ys = us @ x # vs" "P x" "\<forall>u \<in> set us. \<not> P u" by auto
    with False show ?thesis by (intro exI [of _ "y # us"] exI [of _ vs]) auto
  qed
qed

lemma find_unique:
  assumes "x \<in> set xs" "P x" "\<forall>y \<in> set xs. P y \<longrightarrow> y = x"
  shows "List.find P xs = Some x"
proof (cases "List.find P xs")
  case None
  with assms(1,2) show ?thesis by (auto simp: find_None_iff)
next
  case (Some y)
  with assms(3) have "y = x" by (auto dest: find_SomeD)
  with Some show ?thesis by simp
qed

lemma find_None_iff_all: "List.find P xs = None \<longleftrightarrow> (\<forall>x \<in> set xs. \<not> P x)"
  by (induction xs) auto

lemma find_cong_simp:
  "(\<And>x. x \<in> set xs \<Longrightarrow> P x = Q x) \<Longrightarrow> List.find P xs = List.find Q xs"
  by (induction xs) auto

section \<open>Content identity\<close>

text \<open>
  The functions that mint content ids are not part of the repository. What the code relies
  on is that two records it handles do not get the same id; \<open>no_collision cid N\<close> states this
  of the records in \<open>N\<close> only, so a theorem that uses it names the records involved.
\<close>

definition no_collision :: "('n \<Rightarrow> 'x + 'c) \<Rightarrow> 'n set \<Rightarrow> bool" where
  "no_collision cid N \<longleftrightarrow>
     (\<forall>m \<in> N. \<forall>n \<in> N. \<forall>c. cid m = Inr c \<and> cid n = Inr c \<longrightarrow> m = n)"

lemma no_collisionD:
  "no_collision cid N \<Longrightarrow> cid m = Inr c \<Longrightarrow> cid n = Inr c \<Longrightarrow> m \<in> N \<Longrightarrow> n \<in> N \<Longrightarrow> m = n"
  unfolding no_collision_def by blast

lemma no_collision_subset: "no_collision cid N \<Longrightarrow> M \<subseteq> N \<Longrightarrow> no_collision cid M"
  unfolding no_collision_def by blast

section \<open>Extremes by key\<close>

text \<open>
  \<^verbatim>\<open>min_by_key\<close> is the first of the elements with the least key, \<^verbatim>\<open>max_by_key\<close> the last of
  those with the greatest, \<^verbatim>\<open>or_else\<close> the second of two options when the first is none.
\<close>

fun min_by_key :: "('a \<Rightarrow> nat) \<Rightarrow> 'a list \<Rightarrow> 'a option" where
  "min_by_key f [] = None"
| "min_by_key f (x # xs) =
     (case min_by_key f xs of
        None \<Rightarrow> Some x
      | Some y \<Rightarrow> if f x \<le> f y then Some x else Some y)"

fun max_by_key :: "('a \<Rightarrow> nat) \<Rightarrow> 'a list \<Rightarrow> 'a option" where
  "max_by_key f [] = None"
| "max_by_key f (x # xs) =
     (case max_by_key f xs of
        None \<Rightarrow> Some x
      | Some y \<Rightarrow> if f y < f x then Some x else Some y)"

definition or_else :: "'a option \<Rightarrow> 'a option \<Rightarrow> 'a option" where
  "or_else a b = (case a of Some x \<Rightarrow> Some x | None \<Rightarrow> b)"

text \<open>What the users of either rely on.\<close>

locale extreme =
  fixes pick :: "('a \<Rightarrow> nat) \<Rightarrow> 'a list \<Rightarrow> 'a option"
    and better :: "nat \<Rightarrow> nat \<Rightarrow> bool"
  assumes pick_None: "pick f xs = None \<longleftrightarrow> xs = []"
    and pick_Some: "pick f xs = Some y \<Longrightarrow> y \<in> set xs \<and> (\<forall>x \<in> set xs. better (f y) (f x))"
begin

lemma chosen: "xs \<noteq> [] \<Longrightarrow> \<exists>y \<in> set xs. pick f xs = Some y \<and> (\<forall>x \<in> set xs. better (f y) (f x))"
  using pick_None pick_Some by (metis not_None_eq)

lemma pick_filter_None: "pick f (filter P xs) = None \<longleftrightarrow> (\<forall>x \<in> set xs. \<not> P x)"
  by (simp add: pick_None filter_empty_conv)

lemma chosen_preferring:
  assumes "xs \<noteq> []"
  shows "\<exists>y \<in> set xs. or_else (pick f (filter P xs)) (pick f xs) = Some y \<and>
    ((\<exists>x \<in> set xs. P x) \<longrightarrow> P y) \<and> (\<forall>x \<in> set xs. P x \<or> \<not> P y \<longrightarrow> better (f y) (f x))"
proof (cases "pick f (filter P xs)")
  case None
  then have "\<forall>x \<in> set xs. \<not> P x" by (simp add: pick_filter_None)
  then show ?thesis using chosen [OF assms, of f] None by (auto simp: or_else_def)
next
  case (Some y)
  then show ?thesis using pick_Some [OF Some]
    by (intro bexI [of _ y]) (auto simp: or_else_def)
qed

end

lemma extreme_None:
  "min_by_key f xs = None \<longleftrightarrow> xs = []" "max_by_key f xs = None \<longleftrightarrow> xs = []"
  by (cases xs; simp split: option.splits)+

lemma min_by_key_Some:
  "min_by_key f xs = Some y \<Longrightarrow> y \<in> set xs \<and> (\<forall>x \<in> set xs. f y \<le> f x)"
proof (induction xs arbitrary: y)
  case (Cons x xs)
  then show ?case
    by (cases "min_by_key f xs") (fastforce simp: extreme_None split: if_splits)+
qed simp

lemma max_by_key_Some:
  "max_by_key f xs = Some y \<Longrightarrow>
     \<exists>as bs. xs = as @ y # bs \<and> (\<forall>x \<in> set as. f x \<le> f y) \<and> (\<forall>x \<in> set bs. f x < f y)"
proof (induction xs arbitrary: y)
  case (Cons x xs)
  show ?case
  proof (cases "max_by_key f xs")
    case None
    then show ?thesis using Cons.prems
      by (intro exI [of _ "[]"] exI [of _ "[]"]) (simp add: extreme_None)
  next
    case (Some z)
    then obtain as bs where z: "xs = as @ z # bs" "\<forall>x \<in> set as. f x \<le> f z" "\<forall>x \<in> set bs. f x < f z"
      using Cons.IH by blast
    show ?thesis
    proof (cases "f z < f x")
      case True
      then have "y = x" using Cons.prems Some by simp
      then show ?thesis using z True by (intro exI [of _ "[]"] exI [of _ xs]) auto
    next
      case False
      then have "y = z" using Cons.prems Some by simp
      then show ?thesis using z False by (intro exI [of _ "x # as"] exI [of _ bs]) auto
    qed
  qed
qed simp

interpretation least: extreme min_by_key "(\<le>)"
  by unfold_locales (simp_all add: extreme_None min_by_key_Some)

interpretation greatest: extreme max_by_key "(\<ge>)"
proof unfold_locales
  show "max_by_key f xs = None \<longleftrightarrow> xs = []" for f :: "'a \<Rightarrow> nat" and xs by (rule extreme_None)
  show "y \<in> set xs \<and> (\<forall>x \<in> set xs. f x \<le> f y)" if "max_by_key f xs = Some y"
    for f :: "'a \<Rightarrow> nat" and xs y
    using max_by_key_Some [OF that] by (auto simp: less_imp_le)
qed

text \<open>Of equals in a list sorted by another key, the greatest in that key.\<close>

lemma max_by_key_last:
  assumes "max_by_key f xs = Some y" "sorted (map g xs)" "x \<in> set xs" "f x = f y"
  shows "g x \<le> g y"
  using max_by_key_Some [OF assms(1)] assms(2-4) by (fastforce simp: sorted_append)

end
