(* ===== verification/FrameCore.thy ===== *)
theory FrameCore
  imports Prelude
begin

text \<open>
  The vocabulary of the derivation kernel \<^verbatim>\<open>agent-frame\<close>: its operation algebra
  (\<^verbatim>\<open>op.rs\<close>), byte spans and derivations (\<^verbatim>\<open>derivation.rs\<close>) and rooting
  events (\<^verbatim>\<open>root.rs\<close>).

  Identity is minted by the crate \<^verbatim>\<open>content-addressable\<close>, which is not part of the
  repository: a raw content id is a value of a type \<open>'r\<close>, a structured content id a value
  of a type \<open>'c\<close>, an encoding error a value of a type \<open>'x\<close>, and the functions that mint
  them (\<open>raw_id\<close>, \<open>deriv_cid\<close>, \<open>root_cid\<close>) are arguments of the definitions
  that call them. \<^verbatim>\<open>usize\<close> is 64 bits wide, so \<^verbatim>\<open>usize::try_from\<close> of a
  \<^verbatim>\<open>u64\<close> never fails.
\<close>

section \<open>Operations\<close>

datatype frame_op = Op_Concise | Op_Elide | Op_Generate

datatype check_class = Check_Rederive | Check_Ground | Check_GroundAttest

instantiation frame_op :: linorder
begin

fun op_rank :: "frame_op \<Rightarrow> nat" where
  "op_rank Op_Concise = 0"
| "op_rank Op_Elide = 1"
| "op_rank Op_Generate = 2"

definition less_eq_frame_op :: "frame_op \<Rightarrow> frame_op \<Rightarrow> bool" where
  "less_eq_frame_op a b \<longleftrightarrow> op_rank a \<le> op_rank b"

definition less_frame_op :: "frame_op \<Rightarrow> frame_op \<Rightarrow> bool" where
  "less_frame_op a b \<longleftrightarrow> op_rank a < op_rank b"

instance
proof
  fix a b :: frame_op
  assume "a \<le> b" and "b \<le> a"
  then show "a = b"
    by (cases a; cases b) (auto simp: less_eq_frame_op_def)
qed (auto simp: less_eq_frame_op_def less_frame_op_def)

end

fun asserts :: "frame_op \<Rightarrow> bool" where
  "asserts Op_Concise = True"
| "asserts Op_Elide = False"
| "asserts Op_Generate = True"

fun op_check :: "frame_op \<Rightarrow> check_class" where
  "op_check Op_Elide = Check_Rederive"
| "op_check Op_Concise = Check_Ground"
| "op_check Op_Generate = Check_GroundAttest"

fun depth_after :: "frame_op \<Rightarrow> u32 \<Rightarrow> u32" where
  "depth_after Op_Generate d = sat_add_u32 d 1"
| "depth_after Op_Concise d = d"
| "depth_after Op_Elide d = d"

lemma depth_after_generate_0 [simp]: "sat_add_u32 0 1 = 1"
  by (simp add: sat_add_u32_def)

lemma depth_after_generate_pos [simp]: "sat_add_u32 d 1 \<noteq> 0"
proof
  assume z: "sat_add_u32 d 1 = 0"
  then have less: "unat d + 1 < 2 ^ 32"
    by (auto simp: sat_add_u32_def split: if_splits)
  with z have "unat (d + 1) = 0" by (simp add: sat_add_u32_def)
  with less show False by (simp add: unat_word_ariths)
qed

lemma depth_after_generate_le_1:
  "sat_add_u32 d 1 \<le> 1 \<longleftrightarrow> d = 0"
proof
  assume le: "sat_add_u32 d 1 \<le> 1"
  have less: "unat d + 1 < 2 ^ 32"
  proof (rule ccontr)
    assume "\<not> unat d + 1 < 2 ^ 32"
    then have "sat_add_u32 d 1 = -1" by (simp add: sat_add_u32_def)
    moreover have "\<not> (- 1 :: u32) \<le> 1" by code_simp
    ultimately show False using le by simp
  qed
  with le have "unat (d + 1) \<le> 1" by (simp add: sat_add_u32_def word_le_nat_alt)
  with less have "unat d = 0" by (simp add: unat_word_ariths)
  then show "d = 0" by (simp add: unat_eq_0)
qed simp

text \<open>Only an operation that asserts something can raise the generation depth.\<close>

lemma depth_raised_only_by_asserting:
  "depth_after p d \<noteq> d \<Longrightarrow> asserts p"
  by (cases p) auto

section \<open>Spans\<close>

record span =
  sp_start :: u64
  sp_end :: u64

definition Span_new :: "u64 \<Rightarrow> u64 \<Rightarrow> span" where
  "Span_new s e = \<lparr>sp_start = s, sp_end = e\<rparr>"

definition span_len :: "span \<Rightarrow> u64" where
  "span_len sp = sat_sub_u64 (sp_end sp) (sp_start sp)"

definition span_is_empty :: "span \<Rightarrow> bool" where
  "span_is_empty sp \<longleftrightarrow> sp_end sp \<le> sp_start sp"

definition span_slice :: "span \<Rightarrow> bytes \<Rightarrow> bytes option" where
  "span_slice sp src =
     (let s = unat (sp_start sp); e = unat (sp_end sp)
      in if e < s \<or> length src < e then None
         else Some (take (e - s) (drop s src)))"

lemma span_slice_Some_iff:
  "span_slice sp src = Some bs \<longleftrightarrow>
     unat (sp_start sp) \<le> unat (sp_end sp) \<and> unat (sp_end sp) \<le> length src \<and>
     bs = take (unat (sp_end sp) - unat (sp_start sp)) (drop (unat (sp_start sp)) src)"
  by (auto simp: span_slice_def Let_def)

lemma span_slice_None_iff:
  "span_slice sp src = None \<longleftrightarrow>
     unat (sp_end sp) < unat (sp_start sp) \<or> length src < unat (sp_end sp)"
  by (auto simp: span_slice_def Let_def)

lemma span_slice_length:
  "span_slice sp src = Some bs \<Longrightarrow> length bs = unat (span_len sp)"
  unfolding span_slice_Some_iff span_len_def unat_sat_sub_u64 by auto

lemma span_nonempty_iff: "\<not> span_is_empty sp \<longleftrightarrow> 0 < unat (span_len sp)"
  by (auto simp: span_is_empty_def span_len_def unat_sat_sub_u64 word_le_nat_alt)

text \<open>Adjacent spans tile the source: a half-open range splits at any inner point.\<close>

lemma span_slice_tiles:
  assumes "span_slice (Span_new a b) src = Some xs"
    and "span_slice (Span_new b c) src = Some ys"
  shows "span_slice (Span_new a c) src = Some (xs @ ys)"
proof -
  from assms have le: "unat a \<le> unat b" "unat b \<le> unat c" "unat c \<le> length src"
    and xs: "xs = take (unat b - unat a) (drop (unat a) src)"
    and ys: "ys = take (unat c - unat b) (drop (unat b) src)"
    by (auto simp: span_slice_Some_iff Span_new_def)
  have "take ((unat b - unat a) + (unat c - unat b)) (drop (unat a) src) =
      take (unat b - unat a) (drop (unat a) src) @
      take (unat c - unat b) (drop (unat b - unat a) (drop (unat a) src))"
    by (rule take_add)
  moreover have "drop (unat b - unat a) (drop (unat a) src) = drop (unat b) src"
    unfolding drop_drop using le(1) by simp
  moreover have "(unat b - unat a) + (unat c - unat b) = unat c - unat a"
    using le by arith
  ultimately have "xs @ ys = take (unat c - unat a) (drop (unat a) src)"
    using xs ys by metis
  with le show ?thesis by (simp add: span_slice_Some_iff Span_new_def)
qed

section \<open>Roots\<close>

datatype root_kind = RootKind_OperatorPrompt | RootKind_UserAction | RootKind_HarnessEvent

record 'r root_event =
  re_kind :: root_kind
  re_content :: 'r
  re_seq :: u64

definition RootEvent_new :: "(bytes \<Rightarrow> 'r) \<Rightarrow> root_kind \<Rightarrow> bytes \<Rightarrow> u64 \<Rightarrow> 'r root_event" where
  "RootEvent_new raw_id k material n =
     \<lparr>re_kind = k, re_content = raw_id material, re_seq = n\<rparr>"

definition root_event_id :: "('r root_event \<Rightarrow> 'x + 'c) \<Rightarrow> 'r root_event \<Rightarrow> 'x + 'c" where
  "root_event_id root_cid ev = root_cid ev"

section \<open>Derivations\<close>

record ('c, 'r) derivation =
  d_op :: frame_op
  d_source :: 'r
  d_span :: span
  d_elided :: 'r
  d_root :: 'c

definition Derivation_over ::
    "(bytes \<Rightarrow> 'r) \<Rightarrow> frame_op \<Rightarrow> bytes \<Rightarrow> span \<Rightarrow> 'c \<Rightarrow> ('c, 'r) derivation option" where
  "Derivation_over raw_id p src sp root =
     (case span_slice sp src of
        None \<Rightarrow> None
      | Some addressed \<Rightarrow>
          Some \<lparr>d_op = p, d_source = raw_id src, d_span = sp,
                d_elided = raw_id addressed, d_root = root\<rparr>)"

definition derivation_id ::
    "(('c, 'r) derivation \<Rightarrow> 'x + 'c) \<Rightarrow> ('c, 'r) derivation \<Rightarrow> 'x + 'c" where
  "derivation_id deriv_cid d = deriv_cid d"

lemma Derivation_over_Some_iff:
  "Derivation_over raw_id p src sp root = Some d \<longleftrightarrow>
     (\<exists>bs. span_slice sp src = Some bs \<and>
       d = \<lparr>d_op = p, d_source = raw_id src, d_span = sp, d_elided = raw_id bs, d_root = root\<rparr>)"
  by (auto simp: Derivation_over_def split: option.splits)

lemma Derivation_over_None_iff:
  "Derivation_over raw_id p src sp root = None \<longleftrightarrow> span_slice sp src = None"
  by (auto simp: Derivation_over_def split: option.splits)

section \<open>The admission boundary\<close>

text \<open>
  Units, packets and events are each closed in the same way: foreign bytes decode to a raw
  form, a fallible function admits the raw form, and the admitted value encodes back to the
  raw form it was admitted from. This is the contract the three share.
\<close>

locale admission =
  fixes admit :: "'raw \<Rightarrow> 'e + 'adm"
    and to_raw :: "'adm \<Rightarrow> 'raw"
    and wf :: "'adm \<Rightarrow> bool"
  assumes admit_sound: "admit r = Inr a \<Longrightarrow> to_raw a = r \<and> wf a"
    and admit_complete: "wf a \<Longrightarrow> admit (to_raw a) = Inr a"
begin

lemma admit_iff: "admit r = Inr a \<longleftrightarrow> wf a \<and> r = to_raw a"
  using admit_sound admit_complete by blast

lemma admit_inj: "admit r = Inr a \<Longrightarrow> admit s = Inr a \<Longrightarrow> r = s"
  using admit_sound by metis

lemma to_raw_inj: "wf a \<Longrightarrow> wf b \<Longrightarrow> to_raw a = to_raw b \<Longrightarrow> a = b"
  using admit_complete by (metis sum.inject(2))

lemma refused_iff: "(\<exists>e. admit r = Inl e) \<longleftrightarrow> (\<nexists>a. wf a \<and> r = to_raw a)"
proof
  assume "\<exists>e. admit r = Inl e"
  then show "\<nexists>a. wf a \<and> r = to_raw a" using admit_complete by force
next
  assume none: "\<nexists>a. wf a \<and> r = to_raw a"
  show "\<exists>e. admit r = Inl e"
  proof (cases "admit r")
    case (Inr a)
    with none admit_sound [OF Inr] show ?thesis by auto
  qed simp
qed

lemma readmit: "admit r = Inr a \<Longrightarrow> admit (to_raw a) = Inr a"
  using admit_sound by metis

end

end
