(* ===== verification/FrameUnit.thy ===== *)
theory FrameUnit
  imports FrameCore
begin

text \<open>
  Units of the derivation kernel (\<^verbatim>\<open>agent-frame/src/unit.rs\<close>) and the one verifier
  (\<^verbatim>\<open>agent-frame/src/verify.rs\<close>): how a unit is sealed over source bytes, how a decoded
  unit is admitted, and how its three claims are recomputed from the source bytes.
\<close>

section \<open>Units\<close>

datatype life = Life_Live | Life_Superseded | Life_Withdrawn

datatype seal_error =
    SealError_NotMintableInV0 frame_op check_class
  | SealError_SpanOutOfSource u64 u64 nat
  | SealError_UnaddressedSpan u64 u64

datatype admit_error =
    AdmitError_NotMintableInV0 frame_op check_class
  | AdmitError_DepthMismatch frame_op u32 u32
  | AdmitError_UnaddressedSpan u64 u64

record ('c, 'r) raw_unit =
  ru_op :: frame_op
  ru_source :: 'r
  ru_span :: span
  ru_elided :: 'r
  ru_root :: 'c
  ru_depth :: u32
  ru_life :: life

record ('c, 'r) frame_unit =
  u_derivation :: "('c, 'r) derivation"
  u_depth :: u32
  u_life :: life

datatype 'c unit_id = UnitId 'c

definition Unit_seal ::
    "(bytes \<Rightarrow> 'r) \<Rightarrow> frame_op \<Rightarrow> bytes \<Rightarrow> span \<Rightarrow> 'c \<Rightarrow> seal_error + ('c, 'r) frame_unit" where
  "Unit_seal raw_id p src sp root =
     (if p \<noteq> Op_Elide then Inl (SealError_NotMintableInV0 p (op_check p))
      else if span_is_empty sp then Inl (SealError_UnaddressedSpan (sp_start sp) (sp_end sp))
      else case Derivation_over raw_id p src sp root of
          None \<Rightarrow> Inl (SealError_SpanOutOfSource (sp_start sp) (sp_end sp) (length src))
        | Some d \<Rightarrow>
            Inr \<lparr>u_derivation = d, u_depth = depth_after p 0, u_life = Life_Live\<rparr>)"

definition Unit_id ::
    "(('c, 'r) derivation \<Rightarrow> 'x + 'c) \<Rightarrow> ('c, 'r) frame_unit \<Rightarrow> 'x + 'c unit_id" where
  "Unit_id deriv_cid u =
     (case derivation_id deriv_cid (u_derivation u) of
        Inl e \<Rightarrow> Inl e
      | Inr c \<Rightarrow> Inr (UnitId c))"

definition Unit_op :: "('c, 'r) frame_unit \<Rightarrow> frame_op" where
  "Unit_op u = d_op (u_derivation u)"

definition Unit_root :: "('c, 'r) frame_unit \<Rightarrow> 'c" where
  "Unit_root u = d_root (u_derivation u)"

definition Unit_is_well_formed :: "('c, 'r) frame_unit \<Rightarrow> bool" where
  "Unit_is_well_formed u \<longleftrightarrow> u_depth u \<le> 1"

definition Unit_evictable :: "('c, 'r) frame_unit \<Rightarrow> bool" where
  "Unit_evictable u =
     (case u_life u of
        Life_Live \<Rightarrow> False
      | Life_Superseded \<Rightarrow> True
      | Life_Withdrawn \<Rightarrow> True)"

definition Unit_with_life :: "('c, 'r) frame_unit \<Rightarrow> life \<Rightarrow> ('c, 'r) frame_unit" where
  "Unit_with_life u l = u\<lparr>u_life := l\<rparr>"

definition Unit_to_raw :: "('c, 'r) frame_unit \<Rightarrow> ('c, 'r) raw_unit" where
  "Unit_to_raw u =
     \<lparr>ru_op = d_op (u_derivation u), ru_source = d_source (u_derivation u),
      ru_span = d_span (u_derivation u), ru_elided = d_elided (u_derivation u),
      ru_root = d_root (u_derivation u), ru_depth = u_depth u, ru_life = u_life u\<rparr>"

definition Unit_try_from :: "('c, 'r) raw_unit \<Rightarrow> admit_error + ('c, 'r) frame_unit" where
  "Unit_try_from raw =
     (if ru_op raw \<noteq> Op_Elide
      then Inl (AdmitError_NotMintableInV0 (ru_op raw) (op_check (ru_op raw)))
      else let implied = depth_after (ru_op raw) 0 in
        if ru_depth raw \<noteq> implied
        then Inl (AdmitError_DepthMismatch (ru_op raw) (ru_depth raw) implied)
        else if span_is_empty (ru_span raw)
        then Inl (AdmitError_UnaddressedSpan (sp_start (ru_span raw)) (sp_end (ru_span raw)))
        else Inr \<lparr>u_derivation =
                    \<lparr>d_op = ru_op raw, d_source = ru_source raw, d_span = ru_span raw,
                     d_elided = ru_elided raw, d_root = ru_root raw\<rparr>,
                  u_depth = ru_depth raw, u_life = ru_life raw\<rparr>)"

section \<open>Verification\<close>

record 'r mismatch =
  mm_declared :: 'r
  mm_actual :: 'r

datatype 'r verify_error =
    VerifyError_SourceMismatch "'r mismatch" nat
  | VerifyError_SpanOutOfBounds u64 u64 nat
  | VerifyError_ElisionMismatch "'r mismatch" u64 u64
  | VerifyError_SourceUnavailable 'r string

record 'r verified =
  v_source :: 'r
  v_span :: span
  v_elided :: 'r
  v_elided_len :: u64
  v_source_len :: u64

definition verify_unit ::
    "(bytes \<Rightarrow> 'r) \<Rightarrow> ('c, 'r) frame_unit \<Rightarrow> bytes \<Rightarrow> 'r verify_error + 'r verified" where
  "verify_unit raw_id u src =
     (let d = u_derivation u; actual_source = raw_id src in
      if actual_source \<noteq> d_source d
      then Inl (VerifyError_SourceMismatch
             \<lparr>mm_declared = d_source d, mm_actual = actual_source\<rparr> (length src))
      else case span_slice (d_span d) src of
          None \<Rightarrow> Inl (VerifyError_SpanOutOfBounds
                   (sp_start (d_span d)) (sp_end (d_span d)) (length src))
        | Some addressed \<Rightarrow>
            (let actual_elided = raw_id addressed in
             if actual_elided \<noteq> d_elided d
             then Inl (VerifyError_ElisionMismatch
                    \<lparr>mm_declared = d_elided d, mm_actual = actual_elided\<rparr>
                    (sp_start (d_span d)) (sp_end (d_span d)))
             else Inr \<lparr>v_source = actual_source, v_span = d_span d, v_elided = actual_elided,
                       v_elided_len = span_len (d_span d),
                       v_source_len = of_nat (length src)\<rparr>))"

definition verify_unit_with ::
    "(bytes \<Rightarrow> 'r) \<Rightarrow> ('c, 'r) frame_unit \<Rightarrow> ('r \<Rightarrow> string + bytes) \<Rightarrow>
      'r verify_error + 'r verified" where
  "verify_unit_with raw_id u resolve =
     (let i = d_source (u_derivation u) in
      case resolve i of
        Inl reason \<Rightarrow> Inl (VerifyError_SourceUnavailable i reason)
      | Inr bs \<Rightarrow> verify_unit raw_id u bs)"

section \<open>Facts about sealing, admission and verification\<close>

text \<open>What every unit of version 0 satisfies, however it came to be.\<close>

definition unit_wf :: "('c, 'r) frame_unit \<Rightarrow> bool" where
  "unit_wf u \<longleftrightarrow>
     Unit_op u = Op_Elide \<and> u_depth u = 0 \<and> \<not> span_is_empty (d_span (u_derivation u))"

lemma Unit_seal_Inr_iff:
  "Unit_seal raw_id p src sp root = Inr u \<longleftrightarrow>
     p = Op_Elide \<and> \<not> span_is_empty sp \<and>
     (\<exists>d. Derivation_over raw_id p src sp root = Some d \<and>
        u = \<lparr>u_derivation = d, u_depth = 0, u_life = Life_Live\<rparr>)"
  by (auto simp: Unit_seal_def split: option.splits)

lemma Unit_seal_wf: "Unit_seal raw_id p src sp root = Inr u \<Longrightarrow> unit_wf u"
  by (auto simp: Unit_seal_Inr_iff Derivation_over_Some_iff unit_wf_def Unit_op_def)

lemma Unit_try_from_sound: "Unit_try_from raw = Inr u \<Longrightarrow> Unit_to_raw u = raw \<and> unit_wf u"
  by (auto simp: Unit_try_from_def Unit_to_raw_def unit_wf_def Unit_op_def Let_def
      split: if_splits)

lemma Unit_try_from_complete: "unit_wf u \<Longrightarrow> Unit_try_from (Unit_to_raw u) = Inr u"
  by (auto simp: Unit_try_from_def Unit_to_raw_def unit_wf_def Unit_op_def Let_def)

interpretation unit_admission: admission Unit_try_from Unit_to_raw unit_wf
  by unfold_locales (auto dest: Unit_try_from_sound simp: Unit_try_from_complete)

lemma Unit_with_life_wf: "unit_wf u \<Longrightarrow> unit_wf (Unit_with_life u l)"
  by (auto simp: unit_wf_def Unit_with_life_def Unit_op_def)

lemma verify_unit_Inr_iff:
  "verify_unit raw_id u src = Inr v \<longleftrightarrow>
     raw_id src = d_source (u_derivation u) \<and>
     (\<exists>bs. span_slice (d_span (u_derivation u)) src = Some bs \<and>
        raw_id bs = d_elided (u_derivation u)) \<and>
     v = \<lparr>v_source = d_source (u_derivation u), v_span = d_span (u_derivation u),
          v_elided = d_elided (u_derivation u),
          v_elided_len = span_len (d_span (u_derivation u)),
          v_source_len = of_nat (length src)\<rparr>"
  by (auto simp: verify_unit_def Let_def split: option.splits if_splits)

text \<open>The units a process can hold: minted here, or admitted, then possibly marked.\<close>

inductive held_unit :: "(bytes \<Rightarrow> 'r) \<Rightarrow> ('c, 'r) frame_unit \<Rightarrow> bool"
  for raw_id :: "bytes \<Rightarrow> 'r" where
  minted: "Unit_seal raw_id p src sp root = Inr u \<Longrightarrow> held_unit raw_id u"
| decoded: "Unit_try_from raw = Inr u \<Longrightarrow> held_unit raw_id u"
| marked: "held_unit raw_id u \<Longrightarrow> held_unit raw_id (Unit_with_life u l)"

lemma held_unit_wf: "held_unit raw_id u \<Longrightarrow> unit_wf u"
  by (induction rule: held_unit.induct)
    (auto dest: Unit_seal_wf Unit_try_from_sound intro: Unit_with_life_wf)

section \<open>Properties\<close>

text \<open>
  Sealing succeeds exactly for an elision of a non-empty span that lies within the
  source, and refuses every other request with the error that names what is wrong, in the
  order the code checks: operation, emptiness, bounds.
\<close>

theorem seal_outcome:
  "Unit_seal raw_id p src sp root =
     (if p \<noteq> Op_Elide then Inl (SealError_NotMintableInV0 p (op_check p))
      else if unat (span_len sp) = 0 then Inl (SealError_UnaddressedSpan (sp_start sp) (sp_end sp))
      else if length src < unat (sp_end sp)
      then Inl (SealError_SpanOutOfSource (sp_start sp) (sp_end sp) (length src))
      else Inr \<lparr>u_derivation =
                 \<lparr>d_op = Op_Elide, d_source = raw_id src, d_span = sp,
                  d_elided = raw_id (take (unat (span_len sp)) (drop (unat (sp_start sp)) src)),
                  d_root = root\<rparr>,
               u_depth = 0, u_life = Life_Live\<rparr>)"
proof (cases "p = Op_Elide \<and> \<not> span_is_empty sp")
  case False
  then show ?thesis
    using span_nonempty_iff [of sp] by (auto simp: Unit_seal_def)
next
  case True
  then have "unat (sp_start sp) \<le> unat (sp_end sp)"
    by (simp add: span_is_empty_def word_le_nat_alt)
  with True show ?thesis
    using span_nonempty_iff [of sp]
    by (simp add: Unit_seal_def Derivation_over_def span_slice_def Let_def
        span_len_def unat_sat_sub_u64)
qed

text \<open>
  A sealed unit verifies against the bytes it was sealed over, and the report states the
  source, the span and its length; marking the unit's root superseded or withdrawn changes
  neither the verdict nor the unit's id.
\<close>

theorem seal_then_verify:
  assumes "Unit_seal raw_id p src sp root = Inr u"
  shows "verify_unit raw_id (Unit_with_life u l) src =
           Inr \<lparr>v_source = raw_id src, v_span = sp,
                v_elided = raw_id (take (unat (span_len sp)) (drop (unat (sp_start sp)) src)),
                v_elided_len = span_len sp, v_source_len = of_nat (length src)\<rparr>
       \<and> Unit_id deriv_cid (Unit_with_life u l) = Unit_id deriv_cid u
       \<and> Unit_evictable (Unit_with_life u l) = (l \<noteq> Life_Live)"
proof -
  from assms obtain bs where bs: "span_slice sp src = Some bs"
    and u: "u = \<lparr>u_derivation = \<lparr>d_op = p, d_source = raw_id src, d_span = sp,
        d_elided = raw_id bs, d_root = root\<rparr>, u_depth = 0, u_life = Life_Live\<rparr>"
    by (auto simp: Unit_seal_Inr_iff Derivation_over_Some_iff)
  have "bs = take (unat (span_len sp)) (drop (unat (sp_start sp)) src)"
    using bs by (auto simp: span_slice_Some_iff span_len_def unat_sat_sub_u64)
  with bs u show ?thesis
    by (cases l) (auto simp: verify_unit_Inr_iff Unit_with_life_def Unit_id_def
        Unit_evictable_def)
qed

lemma seal_then_verify_witness:
  "Unit_evictable (Unit_with_life
     (projr (Unit_seal (\<lambda>bs. bs) Op_Elide [1, 2, 3, 4] (Span_new 1 3) (0::nat))) Life_Withdrawn)"
proof -
  have "Unit_seal (\<lambda>bs. bs) Op_Elide [1, 2, 3, 4] (Span_new 1 3) (0::nat) =
      Inr (projr (Unit_seal (\<lambda>bs. bs) Op_Elide [1, 2, 3, 4] (Span_new 1 3) (0::nat)))"
    by code_simp
  from seal_then_verify [OF this, of Life_Withdrawn "(\<lambda>_. Inr 0) :: _ \<Rightarrow> unit + nat"]
  show ?thesis by simp
qed

text \<open>
  Verification is binding, whatever the resolver serves: if one unit verifies with two
  resolvers, then what each served hashes to the unit's source id and the addressed range to
  its elided id, so unless the served strings collide under the raw hash both resolvers
  served the same bytes and the two reports are equal.
\<close>

theorem verify_binding:
  assumes "verify_unit_with raw_id u r = Inr v" and "verify_unit_with raw_id u r' = Inr v'"
    and "inj_on raw_id {bs. r (d_source (u_derivation u)) = Inr bs \<or>
                            r' (d_source (u_derivation u)) = Inr bs}"
  shows "\<exists>src bs. r (v_source v) = Inr src \<and> r' (v_source v) = Inr src \<and> v = v' \<and>
    raw_id src = v_source v \<and> span_slice (v_span v) src = Some bs \<and> raw_id bs = v_elided v \<and>
    length bs = unat (v_elided_len v)"
proof -
  let ?i = "d_source (u_derivation u)"
  from assms(1) obtain src where r: "r ?i = Inr src" and v: "verify_unit raw_id u src = Inr v"
    by (auto simp: verify_unit_with_def Let_def split: sum.splits)
  from assms(2) obtain src' where r': "r' ?i = Inr src'" and v': "verify_unit raw_id u src' = Inr v'"
    by (auto simp: verify_unit_with_def Let_def split: sum.splits)
  from v v' have "raw_id src = raw_id src'" by (auto simp: verify_unit_Inr_iff)
  with assms(3) have eq: "src = src'" by (rule inj_onD) (simp_all add: r r')
  with v v' have "v = v'" by simp
  moreover have "raw_id src = v_source v" and "v_source v = ?i" and
    "\<exists>bs. span_slice (v_span v) src = Some bs \<and> raw_id bs = v_elided v \<and>
      length bs = unat (v_elided_len v)"
    using v by (auto simp: verify_unit_Inr_iff span_slice_length)
  ultimately show ?thesis using eq r r' by auto
qed

lemma verify_binding_witness:
  "\<exists>bs. span_slice (Span_new 1 3) [1, 2, 3, 4] = Some bs \<and> length bs = 2"
proof -
  let ?u = "\<lparr>u_derivation = \<lparr>d_op = Op_Elide, d_source = [1, 2, 3, 4 :: u8],
      d_span = Span_new 1 3, d_elided = [2, 3], d_root = (0::nat)\<rparr>,
      u_depth = 0, u_life = Life_Live\<rparr>"
  let ?v = "\<lparr>v_source = [1, 2, 3, 4 :: u8], v_span = Span_new 1 3, v_elided = [2, 3],
      v_elided_len = 2, v_source_len = 4\<rparr>"
  have v: "verify_unit_with (\<lambda>bs. bs) ?u (\<lambda>_. Inr [1, 2, 3, 4]) = Inr ?v" by code_simp
  have "inj_on (\<lambda>bs. bs) {bs. (\<lambda>_. Inr [1, 2, 3, 4] :: string + bytes)
      (d_source (u_derivation ?u)) = Inr bs \<or> (\<lambda>_. Inr [1, 2, 3, 4] :: string + bytes)
      (d_source (u_derivation ?u)) = Inr bs}"
    by (rule inj_onI)
  from verify_binding [OF v v this] show ?thesis by auto
qed

text \<open>
  The admission boundary is exact: a decoded unit is admitted if and only if it is the
  encoding of a well-formed unit; every unit a process can hold (sealed, admitted, or marked)
  is a depth-0 elision of a non-empty span, is well-formed, and is admitted back unchanged
  from its own encoding.
\<close>

theorem unit_boundary:
  assumes "held_unit raw_id u"
  shows "Unit_try_from (Unit_to_raw u) = Inr u
       \<and> Unit_is_well_formed u \<and> Unit_op u = Op_Elide \<and> u_depth u = depth_after (Unit_op u) 0
       \<and> 0 < unat (span_len (d_span (u_derivation u)))
       \<and> (\<forall>raw. Unit_try_from raw = Inr u \<longleftrightarrow> raw = Unit_to_raw u)"
proof -
  from assms have wf: "unit_wf u" by (rule held_unit_wf)
  with unit_admission.admit_iff [of _ u] show ?thesis
    using span_nonempty_iff
    by (auto simp: unit_wf_def Unit_is_well_formed_def unit_admission.admit_complete)
qed

lemma unit_boundary_witness:
  "Unit_is_well_formed
     (Unit_with_life (projr (Unit_seal (\<lambda>bs. bs) Op_Elide [7, 8] (Span_new 0 1) (0::nat)))
        Life_Superseded)"
proof -
  have "Unit_seal (\<lambda>bs. bs) Op_Elide [7, 8] (Span_new 0 1) (0::nat) =
      Inr (projr (Unit_seal (\<lambda>bs. bs) Op_Elide [7, 8] (Span_new 0 1) (0::nat)))"
    by code_simp
  then have "held_unit (\<lambda>bs. bs)
      (Unit_with_life (projr (Unit_seal (\<lambda>bs. bs) Op_Elide [7, 8] (Span_new 0 1) (0::nat)))
        Life_Superseded)"
    by (intro held_unit.marked) (rule held_unit.minted)
  from unit_boundary [OF this] show ?thesis by blast
qed

end
