(* ===== verification/FramePacket.thy ===== *)
theory FramePacket
  imports FrameUnit
begin

text \<open>
  Packets of the derivation kernel (\<^verbatim>\<open>agent-frame/src/packet.rs\<close>): Merkle nodes that
  carry an ordered list of unit ids and at most one parent link. The node type
  \<^verbatim>\<open>MerkleNode\<close> belongs to the crate \<^verbatim>\<open>content-addressable\<close>: here it is a record
  of its payload and its parent set, and the function that mints a node's id is the argument
  \<open>node_cid\<close>.
\<close>

section \<open>Packets\<close>

record ('p, 'c) merkle_node =
  mn_payload :: 'p
  mn_parents :: "'c fset"

definition MerkleNode_new :: "'p \<Rightarrow> 'c list \<Rightarrow> ('p, 'c) merkle_node" where
  "MerkleNode_new p parents = \<lparr>mn_payload = p, mn_parents = fset_of_list parents\<rparr>"

definition MerkleNode_genesis :: "'p \<Rightarrow> ('p, 'c) merkle_node" where
  "MerkleNode_genesis p = \<lparr>mn_payload = p, mn_parents = {||}\<rparr>"

datatype 'c packet_id = PacketId 'c

fun packet_content_id :: "'c packet_id \<Rightarrow> 'c" where
  "packet_content_id (PacketId c) = c"

record 'c packet_body =
  pb_units :: "'c unit_id list"

type_synonym 'c raw_packet = "('c packet_body, 'c) merkle_node"

datatype 'c packet = Packet "'c raw_packet"

datatype packet_admit_error = PacketAdmitError_NotAChain nat

fun Packet_to_raw :: "'c packet \<Rightarrow> 'c raw_packet" where
  "Packet_to_raw (Packet n) = n"

definition Packet_genesis :: "'c unit_id list \<Rightarrow> 'c packet" where
  "Packet_genesis us = Packet (MerkleNode_genesis \<lparr>pb_units = us\<rparr>)"

definition Packet_following :: "'c packet_id \<Rightarrow> 'c unit_id list \<Rightarrow> 'c packet" where
  "Packet_following prior us = Packet (MerkleNode_new \<lparr>pb_units = us\<rparr> [packet_content_id prior])"

definition Packet_units :: "'c packet \<Rightarrow> 'c unit_id list" where
  "Packet_units p = pb_units (mn_payload (Packet_to_raw p))"

definition Packet_parents :: "'c packet \<Rightarrow> 'c fset" where
  "Packet_parents p = mn_parents (Packet_to_raw p)"

definition Packet_prior :: "('c::linorder) packet \<Rightarrow> 'c packet_id option" where
  "Packet_prior p =
     (case sorted_list_of_fset (Packet_parents p) of
        [one] \<Rightarrow> Some (PacketId one)
      | _ \<Rightarrow> None)"

definition Packet_is_genesis :: "'c packet \<Rightarrow> bool" where
  "Packet_is_genesis p \<longleftrightarrow> Packet_parents p = {||}"

definition Packet_id :: "('c raw_packet \<Rightarrow> 'x + 'c) \<Rightarrow> 'c packet \<Rightarrow> 'x + 'c packet_id" where
  "Packet_id node_cid p =
     (case node_cid (Packet_to_raw p) of
        Inl e \<Rightarrow> Inl e
      | Inr c \<Rightarrow> Inr (PacketId c))"

definition Packet_try_from :: "'c raw_packet \<Rightarrow> packet_admit_error + 'c packet" where
  "Packet_try_from raw =
     (let parents = fcard (mn_parents raw) in
      if 1 < parents then Inl (PacketAdmitError_NotAChain parents) else Inr (Packet raw))"

section \<open>Facts about packets\<close>

definition packet_wf :: "'c packet \<Rightarrow> bool" where
  "packet_wf p \<longleftrightarrow> fcard (Packet_parents p) \<le> 1"

interpretation packet_admission: admission Packet_try_from Packet_to_raw packet_wf
proof
  fix r a
  assume "Packet_try_from r = Inr a"
  then show "Packet_to_raw a = r \<and> packet_wf a"
    by (auto simp: Packet_try_from_def packet_wf_def Packet_parents_def Let_def split: if_splits)
next
  fix a
  assume "packet_wf a"
  then show "Packet_try_from (Packet_to_raw a) = Inr a"
    by (cases a) (auto simp: Packet_try_from_def packet_wf_def Packet_parents_def Let_def)
qed

lemma fcard_le_1_cases:
  assumes "fcard A \<le> 1"
  obtains "A = {||}" | x where "A = {|x|}"
proof (cases "A = {||}")
  case False
  then have "fset A \<noteq> {}" by (simp add: bot_fset.rep_eq fset_inject flip: bot_fset.rep_eq)
  then have "0 < card (fset A)" by (simp add: card_gt_0_iff)
  with assms have "card (fset A) = 1" by (simp add: fcard.rep_eq)
  then obtain x where "fset A = {x}" by (auto simp: card_1_singleton_iff)
  then have "A = {|x|}" by (simp add: fset_eq_iff set_eq_iff fset_inverse)
  with that show ?thesis by blast
qed (use that in blast)

lemma sorted_list_of_fsingleton [simp]: "sorted_list_of_fset {|x|} = [x]"
  by (simp add: sorted_list_of_fset.rep_eq)

lemma sorted_list_of_fempty [simp]: "sorted_list_of_fset {||} = []"
  by (simp add: sorted_list_of_fset.rep_eq)

lemma length_sorted_list_of_fset: "length (sorted_list_of_fset A) = fcard A"
  by (simp add: sorted_list_of_fset.rep_eq fcard.rep_eq)

inductive held_packet :: "'c packet \<Rightarrow> bool" where
  "held_packet (Packet_genesis us)"
| "held_packet (Packet_following prior us)"
| "Packet_try_from raw = Inr p \<Longrightarrow> held_packet p"

lemma held_packet_wf: "held_packet p \<Longrightarrow> packet_wf p"
  by (induction rule: held_packet.induct)
    (auto simp: packet_wf_def Packet_genesis_def Packet_following_def Packet_parents_def
      MerkleNode_genesis_def MerkleNode_new_def fcard_finsert_if fcard_fempty dest: packet_admission.admit_sound)

section \<open>The chain a head id commits to\<close>

text \<open>
  The specification a packet implements (the \<^verbatim>\<open>Chain\<close> of
  \<^verbatim>\<open>formal/ContextOps/Basic.lean\<close>, which the module's documentation names as its
  referent): a genesis list of units, or a list of units sealed onto a prior chain.
  \<open>chain_head\<close> is the packet at its head, each packet built with the constructors above.
\<close>

datatype 'c chain = Chain_genesis "'c unit_id list" | Chain_sealed "'c chain" "'c unit_id list"

fun chain_head :: "('c raw_packet \<Rightarrow> 'x + 'c) \<Rightarrow> 'c chain \<Rightarrow> 'x + 'c packet" where
  "chain_head node_cid (Chain_genesis us) = Inr (Packet_genesis us)"
| "chain_head node_cid (Chain_sealed c us) =
     (case chain_head node_cid c of
        Inl e \<Rightarrow> Inl e
      | Inr p \<Rightarrow> (case Packet_id node_cid p of
            Inl e \<Rightarrow> Inl e
          | Inr i \<Rightarrow> Inr (Packet_following i us)))"

definition chain_id :: "('c raw_packet \<Rightarrow> 'x + 'c) \<Rightarrow> 'c chain \<Rightarrow> 'x + 'c packet_id" where
  "chain_id node_cid c =
     (case chain_head node_cid c of Inl e \<Rightarrow> Inl e | Inr p \<Rightarrow> Packet_id node_cid p)"

fun chain_nodes :: "('c raw_packet \<Rightarrow> 'x + 'c) \<Rightarrow> 'c chain \<Rightarrow> 'c raw_packet set" where
  "chain_nodes node_cid (Chain_genesis us) = {Packet_to_raw (Packet_genesis us)}"
| "chain_nodes node_cid (Chain_sealed c us) =
     chain_nodes node_cid c \<union>
     (case chain_head node_cid (Chain_sealed c us) of Inl e \<Rightarrow> {} | Inr p \<Rightarrow> {Packet_to_raw p})"

lemma chain_head_in_nodes:
  "chain_head node_cid c = Inr p \<Longrightarrow> Packet_to_raw p \<in> chain_nodes node_cid c"
  by (cases c) auto

lemma Packet_to_raw_inj [simp]: "Packet_to_raw p = Packet_to_raw q \<longleftrightarrow> p = q"
  by (cases p; cases q) auto

lemma Packet_id_Inr_iff:
  "Packet_id node_cid p = Inr i \<longleftrightarrow> node_cid (Packet_to_raw p) = Inr (packet_content_id i)"
  by (cases i) (auto simp: Packet_id_def split: sum.splits)

lemma packet_content_id_inj [simp]: "packet_content_id i = packet_content_id j \<longleftrightarrow> i = j"
  by (cases i; cases j) auto

lemma same_id_same_packet:
  "no_collision node_cid N \<Longrightarrow> Packet_id node_cid p = Inr i \<Longrightarrow> Packet_id node_cid q = Inr i \<Longrightarrow>
     Packet_to_raw p \<in> N \<Longrightarrow> Packet_to_raw q \<in> N \<Longrightarrow> p = q"
  unfolding Packet_id_Inr_iff by (drule (4) no_collisionD) simp

lemma Packet_following_inj [simp]:
  "Packet_following i us = Packet_following j vs \<longleftrightarrow> i = j \<and> us = vs"
  by (auto simp: Packet_following_def MerkleNode_new_def)

lemma Packet_genesis_inj [simp]: "Packet_genesis us = Packet_genesis vs \<longleftrightarrow> us = vs"
  by (auto simp: Packet_genesis_def MerkleNode_genesis_def)

lemma Packet_genesis_following [simp]:
  "Packet_genesis us \<noteq> Packet_following i vs"
  "Packet_following i vs \<noteq> Packet_genesis us"
  by (auto simp: Packet_genesis_def Packet_following_def MerkleNode_new_def MerkleNode_genesis_def)

lemma chain_head_inj:
  assumes "chain_head node_cid c = Inr p" and "chain_head node_cid c' = Inr p"
    and "no_collision node_cid (chain_nodes node_cid c \<union> chain_nodes node_cid c')"
  shows "c = c'"
  using assms
proof (induction c arbitrary: c' p)
  case (Chain_genesis us)
  then show ?case by (cases c') (auto split: sum.splits)
next
  case (Chain_sealed c us)
  then obtain p0 i where p0: "chain_head node_cid c = Inr p0" "Packet_id node_cid p0 = Inr i"
      "p = Packet_following i us"
    by (auto split: sum.splits)
  from Chain_sealed.prems(2) p0(3) obtain d p1 where c': "c' = Chain_sealed d us"
      and p1: "chain_head node_cid d = Inr p1" "Packet_id node_cid p1 = Inr i"
    by (cases c') (auto split: sum.splits)
  have "Packet_to_raw p0 \<in> chain_nodes node_cid c" "Packet_to_raw p1 \<in> chain_nodes node_cid d"
    using p0(1) p1(1) by (simp_all add: chain_head_in_nodes)
  moreover have sub: "no_collision node_cid (chain_nodes node_cid c \<union> chain_nodes node_cid d)"
    by (rule no_collision_subset [OF Chain_sealed.prems(3)]) (auto simp: c')
  ultimately have "p0 = p1" using p0(2) p1(2) same_id_same_packet by blast
  then have "chain_head node_cid d = Inr p0" using p1 by simp
  moreover note sub
  ultimately have "c = d" using Chain_sealed.IH p0(1) by blast
  with c' show ?case by simp
qed

section \<open>Properties\<close>

text \<open>
  Packets form chains only: every packet a process can hold (genesis, following, or
  admitted from a decoded node) either is a genesis with no predecessor or has exactly one
  predecessor, never neither or both; and a decoded node is admitted if and only if it has at
  most one parent, unchanged, and refused with its parent count otherwise.
\<close>

theorem packet_is_a_chain_link:
  assumes "held_packet p"
  shows "(Packet_is_genesis p \<longleftrightarrow> Packet_prior p = None)
       \<and> (\<forall>i. Packet_prior p = Some i \<longleftrightarrow> Packet_parents p = {|packet_content_id i|})
       \<and> Packet_try_from (Packet_to_raw p) = Inr p
       \<and> (\<forall>raw. Packet_try_from raw = Inr p \<longleftrightarrow> raw = Packet_to_raw p)
       \<and> (\<forall>raw :: 'c::linorder raw_packet. 1 < fcard (mn_parents raw) \<longrightarrow>
            Packet_try_from raw = Inl (PacketAdmitError_NotAChain (fcard (mn_parents raw))))"
proof -
  from assms have wf: "packet_wf p" by (rule held_packet_wf)
  then have "fcard (Packet_parents p) \<le> 1" by (simp add: packet_wf_def)
  then have "(Packet_is_genesis p \<longleftrightarrow> Packet_prior p = None) \<and>
    (\<forall>i. Packet_prior p = Some i \<longleftrightarrow> Packet_parents p = {|packet_content_id i|})"
  proof (cases rule: fcard_le_1_cases)
    case 1
    then show ?thesis by (auto simp: Packet_is_genesis_def Packet_prior_def)
  next
    case (2 x)
    then show ?thesis
      by (auto simp: Packet_is_genesis_def Packet_prior_def) (metis packet_content_id.cases
          packet_content_id.simps)
  qed
  moreover have "\<forall>raw. Packet_try_from raw = Inr p \<longleftrightarrow> raw = Packet_to_raw p"
    using packet_admission.admit_iff [of _ p] wf by simp
  ultimately show ?thesis by (auto simp: Packet_try_from_def Let_def)
qed

lemma packet_is_a_chain_link_witness:
  "Packet_prior (Packet_following (PacketId (7::nat)) [UnitId 1]) = Some (PacketId 7)"
proof -
  have "held_packet (Packet_following (PacketId (7::nat)) [UnitId 1])"
    by (rule held_packet.intros)
  from packet_is_a_chain_link [OF this]
  have "Packet_prior (Packet_following (PacketId (7::nat)) [UnitId 1]) = Some (PacketId 7) \<longleftrightarrow>
      Packet_parents (Packet_following (PacketId (7::nat)) [UnitId 1]) =
        {|packet_content_id (PacketId 7)|}"
    by blast
  then show ?thesis
    by (simp add: Packet_following_def Packet_parents_def MerkleNode_new_def)
qed

text \<open>
  A packet's id commits to its whole history: if the heads of two chains built with
  \<^const>\<open>Packet_genesis\<close> and \<^const>\<open>Packet_following\<close> have the same id, then, unless two
  of the packets involved collide, the chains are equal packet by packet; so no unit of the
  history can be changed, dropped or re-parented under an unchanged head id.
\<close>

theorem chain_id_commits:
  assumes "chain_id node_cid c = Inr i" and "chain_id node_cid c' = Inr i"
    and "no_collision node_cid (chain_nodes node_cid c \<union> chain_nodes node_cid c')"
  shows "c = c'"
proof -
  from assms(1) obtain p where p: "chain_head node_cid c = Inr p" "Packet_id node_cid p = Inr i"
    by (auto simp: chain_id_def split: sum.splits)
  from assms(2) obtain q where q: "chain_head node_cid c' = Inr q" "Packet_id node_cid q = Inr i"
    by (auto simp: chain_id_def split: sum.splits)
  have "Packet_to_raw p \<in> chain_nodes node_cid c" "Packet_to_raw q \<in> chain_nodes node_cid c'"
    using p(1) q(1) by (simp_all add: chain_head_in_nodes)
  then have "p = q" using p(2) q(2) assms(3) same_id_same_packet by blast
  with p q assms(3) show ?thesis using chain_head_inj by blast
qed

lemma chain_id_commits_witness:
  "chain_id (\<lambda>n. Inr (length (pb_units (mn_payload n)) + 10 * fcard (mn_parents n)) :: unit + nat)
     (Chain_sealed (Chain_genesis [UnitId 1]) [UnitId 2]) = Inr (PacketId 11) \<and>
   Chain_sealed (Chain_genesis [UnitId (1::nat)]) [UnitId 2] =
   Chain_sealed (Chain_genesis [UnitId 1]) [UnitId 2]"
proof -
  let ?cid = "\<lambda>n. Inr (length (pb_units (mn_payload n)) + 10 * fcard (mn_parents n)) :: unit + nat"
  let ?c = "Chain_sealed (Chain_genesis [UnitId (1::nat)]) [UnitId 2]"
  have head: "chain_head ?cid ?c = Inr (Packet_following (PacketId 1) [UnitId 2])"
    by (simp add: Packet_id_def Packet_genesis_def MerkleNode_genesis_def fcard_fempty)
  then have i: "chain_id ?cid ?c = Inr (PacketId 11)"
    unfolding chain_id_def
    by (simp add: Packet_id_def Packet_following_def MerkleNode_new_def fcard_finsert_if
        fcard_fempty)
  have "no_collision ?cid (chain_nodes ?cid ?c \<union> chain_nodes ?cid ?c)"
    using head by (auto simp: no_collision_def Packet_genesis_def MerkleNode_genesis_def
        Packet_following_def MerkleNode_new_def fcard_finsert_if fcard_fempty)
  with chain_id_commits [OF i i] i show ?thesis by blast
qed

end
