(* ===== verification/FrameEvent.thy ===== *)
theory FrameEvent
  imports FramePacket
begin

text \<open>
  Causal events of the derivation kernel (\<^verbatim>\<open>agent-frame/src/event.rs\<close>): the event
  body, the admission function that resolves and re-addresses every parent and recomputes the
  generation depth, and the check that ties an elision event to a unit proof.

  The ids of events and derivations are minted by the arguments \<open>event_cid\<close> and
  \<open>deriv_cid\<close>; the caller's event store is the argument \<open>resolve\<close>. Content ids are
  linearly ordered, because a \<^verbatim>\<open>BTreeSet\<close> is traversed in order. Indexing a
  \<^verbatim>\<open>BTreeMap\<close> at a missing key panics: the model gives that the error
  \<open>EventError_Panic\<close>, and \<open>admit_never_panics\<close> shows it is never returned.
\<close>

section \<open>Events\<close>

datatype event_origin =
    EventOrigin_Operator
  | EventOrigin_Model
  | EventOrigin_Tool
  | EventOrigin_Historical
  | EventOrigin_Harness

datatype reply_verdict = ReplyVerdict_Answer | ReplyVerdict_Narration | ReplyVerdict_Question

datatype 'c event_kind =
    EventKind_Observation
  | EventKind_Intervention
  | EventKind_Verdict reply_verdict
  | EventKind_Retrieval
  | EventKind_Elision "'c unit_id"

record ('c, 'r) event_body =
  eb_root :: 'c
  eb_origin :: event_origin
  eb_kind :: "'c event_kind"
  eb_payload :: 'r
  eb_seq :: u64
  eb_sources :: "'c fset"
  eb_depth :: u32

type_synonym ('c, 'r) raw_event = "(('c, 'r) event_body, 'c) merkle_node"

datatype ('c, 'r) event = Event "('c, 'r) raw_event"

datatype ('c, 'r, 'x) event_error =
    EventError_MissingReference 'c
  | EventError_ReferenceMismatch 'c 'c
  | EventError_Invalid string
  | EventError_DepthMismatch u32 u32
  | EventError_DepthExceeded u32
  | EventError_Content 'x
  | EventError_Elision "'r verify_error"
  | EventError_Panic

fun Event_to_raw :: "('c, 'r) event \<Rightarrow> ('c, 'r) raw_event" where
  "Event_to_raw (Event n) = n"

definition Event_body :: "('c, 'r) event \<Rightarrow> ('c, 'r) event_body" where
  "Event_body e = mn_payload (Event_to_raw e)"

definition Event_parents :: "('c, 'r) event \<Rightarrow> 'c fset" where
  "Event_parents e = mn_parents (Event_to_raw e)"

definition Event_depth :: "('c, 'r) event \<Rightarrow> u32" where
  "Event_depth e = eb_depth (Event_body e)"

definition Event_id :: "(('c, 'r) raw_event \<Rightarrow> 'x + 'c) \<Rightarrow> ('c, 'r) event \<Rightarrow> 'x + 'c" where
  "Event_id event_cid e = event_cid (Event_to_raw e)"

section \<open>Admission\<close>

definition require_harness :: "('c, 'r) event_body \<Rightarrow> ('c, 'r, 'x) event_error + unit" where
  "require_harness body =
     guard (eb_origin body = EventOrigin_Harness)
       (EventError_Invalid ''generated interventions and verdicts must have harness origin'')"

definition index_parent ::
    "('c \<times> ('c, 'r) event) list \<Rightarrow> 'c \<Rightarrow> ('c, 'r, 'x) event_error + ('c, 'r) event" where
  "index_parent parents i = ok_or EventError_Panic (map_of parents i)"

definition single_source ::
    "('c::linorder, 'r) event_body \<Rightarrow> ('c \<times> ('c, 'r) event) list \<Rightarrow>
      ('c, 'r, 'x) event_error + ('c, 'r) event" where
  "single_source body parents =
     (case sorted_list_of_fset (eb_sources body) of
        [i] \<Rightarrow> index_parent parents i
      | _ \<Rightarrow> Inl (EventError_Invalid ''operation requires exactly one derivation source''))"

definition resolve_parent ::
    "(('c, 'r) raw_event \<Rightarrow> 'x + 'c) \<Rightarrow> ('c \<Rightarrow> ('c, 'r) event option) \<Rightarrow> 'c \<Rightarrow>
      ('c, 'r, 'x) event_error + ('c \<times> ('c, 'r) event)" where
  "resolve_parent event_cid resolve i =
     (case resolve i of
        None \<Rightarrow> Inl (EventError_MissingReference i)
      | Some parent \<Rightarrow>
          (case Event_id event_cid parent of
             Inl x \<Rightarrow> Inl (EventError_Content x)
           | Inr actual \<Rightarrow>
               if actual \<noteq> i then Inl (EventError_ReferenceMismatch i actual)
               else Inr (i, parent)))"

definition source_depth ::
    "('c::linorder, 'r) event_body \<Rightarrow> ('c \<times> ('c, 'r) event) list \<Rightarrow>
      ('c, 'r, 'x) event_error + u32" where
  "source_depth body parents =
     (case traverse (index_parent parents) (sorted_list_of_fset (eb_sources body)) of
        Inl e \<Rightarrow> Inl e
      | Inr es \<Rightarrow> Inr (fold max (map Event_depth es) 0))"

definition implied_depth ::
    "('c::linorder, 'r) event_body \<Rightarrow> ('c \<times> ('c, 'r) event) list \<Rightarrow> u32 \<Rightarrow>
      ('c, 'r, 'x) event_error + u32" where
  "implied_depth body parents sdepth =
     (case eb_kind body of
        EventKind_Observation \<Rightarrow>
          if eb_origin body = EventOrigin_Harness \<or> eb_sources body \<noteq> {||}
          then Inl (EventError_Invalid
                 ''observations must be external and have no derivation sources'')
          else Inr 0
      | EventKind_Intervention \<Rightarrow>
          rbind (require_harness body) (\<lambda>_. Inr (depth_after Op_Generate sdepth))
      | EventKind_Verdict _ \<Rightarrow>
          rbind (require_harness body) (\<lambda>_.
          rbind (single_source body parents) (\<lambda>source.
            if length parents \<noteq> 1 \<or> eb_origin (Event_body source) \<noteq> EventOrigin_Model
               \<or> eb_kind (Event_body source) \<noteq> EventKind_Observation
            then Inl (EventError_Invalid
                   ''a verdict must name exactly one model reply observation as its parent'')
            else Inr (depth_after Op_Generate sdepth)))
      | EventKind_Retrieval \<Rightarrow>
          rbind (single_source body parents) (\<lambda>source.
            if eb_origin body \<noteq> eb_origin (Event_body source)
            then Inl (EventError_Invalid ''retrieval and elision must preserve source origin'')
            else Inr (depth_after Op_Elide sdepth))
      | EventKind_Elision _ \<Rightarrow>
          rbind (single_source body parents) (\<lambda>source.
            if eb_origin body \<noteq> eb_origin (Event_body source)
            then Inl (EventError_Invalid ''retrieval and elision must preserve source origin'')
            else Inr (depth_after Op_Elide sdepth)))"

definition Event_admit ::
    "(('c::linorder, 'r) raw_event \<Rightarrow> 'x + 'c) \<Rightarrow> ('c, 'r) raw_event \<Rightarrow>
      ('c \<Rightarrow> ('c, 'r) event option) \<Rightarrow> ('c, 'r, 'x) event_error + ('c, 'r) event" where
  "Event_admit event_cid raw resolve =
     (let body = mn_payload raw in
      if \<not> eb_sources body |\<subseteq>| mn_parents raw
      then Inl (EventError_Invalid ''derivation sources must also be causal parents'')
      else
        rbind (traverse (resolve_parent event_cid resolve) (sorted_list_of_fset (mn_parents raw)))
          (\<lambda>parents.
        rbind (source_depth body parents) (\<lambda>sdepth.
        rbind (implied_depth body parents sdepth) (\<lambda>implied.
          if 1 < implied then Inl (EventError_DepthExceeded implied)
          else if eb_depth body \<noteq> implied
          then Inl (EventError_DepthMismatch (eb_depth body) implied)
          else Inr (Event raw)))))"

definition Event_new ::
    "(('c::linorder, 'r) raw_event \<Rightarrow> 'x + 'c) \<Rightarrow> ('c, 'r) event_body \<Rightarrow> 'c list \<Rightarrow>
      ('c \<Rightarrow> ('c, 'r) event option) \<Rightarrow> ('c, 'r, 'x) event_error + ('c, 'r) event" where
  "Event_new event_cid body parents resolve =
     Event_admit event_cid (MerkleNode_new body parents) resolve"

definition verify_elision ::
    "(('c, 'r) raw_event \<Rightarrow> 'x + 'c) \<Rightarrow> (('c, 'r) derivation \<Rightarrow> 'x + 'c) \<Rightarrow> (bytes \<Rightarrow> 'r) \<Rightarrow>
      ('c, 'r) event \<Rightarrow> ('c, 'r) frame_unit \<Rightarrow> ('c, 'r) event \<Rightarrow> bytes \<Rightarrow>
      ('c, 'r, 'x) event_error + 'r verified" where
  "verify_elision event_cid deriv_cid raw_id ev u source bs =
     (case eb_kind (Event_body ev) of
        EventKind_Elision expected \<Rightarrow>
          rbind (map_err EventError_Content (Unit_id deriv_cid u)) (\<lambda>uid.
            if expected \<noteq> uid \<or> Unit_root u \<noteq> eb_root (Event_body ev)
            then Inl (EventError_Invalid
                   ''elision unit, source, or root does not match the event'')
            else rbind (map_err EventError_Content (Event_id event_cid source)) (\<lambda>sid.
              if \<not> sid |\<in>| eb_sources (Event_body ev)
                 \<or> eb_payload (Event_body source) \<noteq> d_source (u_derivation u)
              then Inl (EventError_Invalid
                     ''elision unit, source, or root does not match the event'')
              else map_err EventError_Elision (verify_unit raw_id u bs)))
      | _ \<Rightarrow> Inl (EventError_Invalid ''event is not an elision''))"

section \<open>Facts about admission\<close>

lemma resolve_parent_Inr_iff [result_simps]:
  "resolve_parent event_cid resolve i = Inr p \<longleftrightarrow>
     (\<exists>e. p = (i, e) \<and> resolve i = Some e \<and> Event_id event_cid e = Inr i)"
  by (auto simp: resolve_parent_def split: option.splits sum.splits if_splits)

lemma resolve_parent_not_panic:
  "resolve_parent event_cid resolve i \<noteq> Inl EventError_Panic"
  by (auto simp: resolve_parent_def split: option.splits sum.splits if_splits)

text \<open>The resolved parents, as the code's \<^verbatim>\<open>BTreeMap\<close> holds them.\<close>

lemma resolved_parents:
  assumes "traverse (resolve_parent event_cid resolve) is = Inr ps"
  shows "map fst ps = is"
    and "\<And>i. i \<in> set is \<Longrightarrow> \<exists>e. map_of ps i = Some e \<and> resolve i = Some e \<and>
           Event_id event_cid e = Inr i"
proof -
  from assms have all2: "list_all2 (\<lambda>i p. \<exists>e. p = (i, e) \<and> resolve i = Some e \<and>
      Event_id event_cid e = Inr i) is ps"
    by (simp add: traverse_Inr_iff resolve_parent_Inr_iff)
  then show keys: "map fst ps = is"
    by (induction rule: list_all2_induct) auto
  fix i
  assume "i \<in> set is"
  with keys have "i \<in> fst ` set ps" by (metis list.set_map)
  then obtain e where e: "map_of ps i = Some e"
    by (cases "map_of ps i") (auto simp: map_of_eq_None_iff)
  from all2 have "\<forall>p \<in> set ps. resolve (fst p) = Some (snd p) \<and>
      Event_id event_cid (snd p) = Inr (fst p)"
    by (induction rule: list_all2_induct) auto
  moreover from e have "(i, e) \<in> set ps" by (rule map_of_SomeD)
  ultimately have "resolve i = Some e \<and> Event_id event_cid e = Inr i"
    by force
  with e show "\<exists>e. map_of ps i = Some e \<and> resolve i = Some e \<and> Event_id event_cid e = Inr i"
    by blast
qed

lemma fold_max_ge: "(m::'a::linorder) \<le> fold max xs m"
  by (induction xs arbitrary: m) (auto intro: order_trans max.cobounded2)

lemma fold_max_le_iff: "fold max xs (m::'a::linorder) \<le> b \<longleftrightarrow> m \<le> b \<and> (\<forall>x \<in> set xs. x \<le> b)"
  by (induction xs arbitrary: m) auto

text \<open>The single source an operation is allowed, and the depth it brings.\<close>

lemma single_source_Inr_iff:
  "single_source body ps = Inr e \<longleftrightarrow>
     (\<exists>i. eb_sources body = {|i|} \<and> map_of ps i = Some e)"
proof
  assume "single_source body ps = Inr e"
  then obtain i where i: "sorted_list_of_fset (eb_sources body) = [i]"
    and e: "map_of ps i = Some e"
    by (auto simp: single_source_def index_parent_def result_simps split: list.splits)
  have "fcard (eb_sources body) \<le> 1"
    using arg_cong [OF i, of length] by (simp add: length_sorted_list_of_fset)
  then have "eb_sources body = {|i|}"
    by (cases rule: fcard_le_1_cases) (use i in auto)
  with e show "\<exists>i. eb_sources body = {|i|} \<and> map_of ps i = Some e" by blast
qed (auto simp: single_source_def index_parent_def)

lemma source_depth_single:
  "eb_sources body = {|i|} \<Longrightarrow> map_of ps i = Some e \<Longrightarrow> source_depth body ps = Inr (Event_depth e)"
  by (simp add: source_depth_def index_parent_def max_def)

text \<open>What one admission establishes, read off the code's branches.\<close>

definition admitted_by ::
    "(('c::linorder, 'r) raw_event \<Rightarrow> 'x + 'c) \<Rightarrow> ('c \<Rightarrow> ('c, 'r) event option) \<Rightarrow>
      ('c, 'r) event \<Rightarrow> bool" where
  "admitted_by event_cid resolve e \<longleftrightarrow>
     eb_sources (Event_body e) |\<subseteq>| Event_parents e \<and>
     (\<forall>i. i |\<in>| Event_parents e \<longrightarrow>
        (\<exists>p. resolve i = Some p \<and> Event_id event_cid p = Inr i)) \<and>
     (case eb_kind (Event_body e) of
        EventKind_Observation \<Rightarrow>
          eb_origin (Event_body e) \<noteq> EventOrigin_Harness \<and> eb_sources (Event_body e) = {||} \<and>
          Event_depth e = 0
      | EventKind_Intervention \<Rightarrow>
          eb_origin (Event_body e) = EventOrigin_Harness \<and> Event_depth e = 1 \<and>
          (\<forall>i p. i |\<in>| eb_sources (Event_body e) \<longrightarrow> resolve i = Some p \<longrightarrow> Event_depth p = 0)
      | EventKind_Verdict _ \<Rightarrow>
          eb_origin (Event_body e) = EventOrigin_Harness \<and> Event_depth e = 1 \<and>
          (\<exists>i p. Event_parents e = {|i|} \<and> eb_sources (Event_body e) = {|i|} \<and>
             resolve i = Some p \<and> Event_depth p = 0 \<and>
             eb_origin (Event_body p) = EventOrigin_Model \<and>
             eb_kind (Event_body p) = EventKind_Observation)
      | _ \<Rightarrow>
          (\<exists>i p. eb_sources (Event_body e) = {|i|} \<and> resolve i = Some p \<and>
             eb_origin (Event_body e) = eb_origin (Event_body p) \<and>
             Event_depth e = Event_depth p \<and> Event_depth e \<le> 1))"

lemma Event_admit_Inr_iff:
  fixes event_cid :: "('c::linorder, 'r) raw_event \<Rightarrow> 'x + 'c"
  shows "Event_admit event_cid raw resolve = Inr e \<longleftrightarrow>
     e = Event raw \<and> eb_sources (mn_payload raw) |\<subseteq>| mn_parents raw \<and>
     (\<exists>ps sd. traverse (resolve_parent event_cid resolve)
          (sorted_list_of_fset (mn_parents raw)) = Inr ps \<and>
        source_depth (mn_payload raw) ps = (Inr sd :: ('c, 'r, 'x) event_error + u32) \<and>
        implied_depth (mn_payload raw) ps sd =
          (Inr (eb_depth (mn_payload raw)) :: ('c, 'r, 'x) event_error + u32) \<and>
        eb_depth (mn_payload raw) \<le> 1)"
  unfolding Event_admit_def Let_def
  by (auto simp: rbind_Inr_iff not_less split: if_splits)

text \<open>The indexing of resolved parents finds every derivation source.\<close>

lemma source_depth_total:
  fixes body :: "('c::linorder, 'r) event_body" and event_cid :: "('c, 'r) raw_event \<Rightarrow> 'x + 'c"
  assumes ps: "traverse (resolve_parent event_cid resolve) (sorted_list_of_fset ids) = Inr ps"
    and sub: "eb_sources body |\<subseteq>| ids"
  shows "\<exists>sd. source_depth body ps = (Inr sd :: ('c, 'r, 'x) event_error + u32) \<and>
      (\<forall>b. sd \<le> b \<longleftrightarrow> (\<forall>i p. i |\<in>| eb_sources body \<longrightarrow> resolve i = Some p \<longrightarrow> Event_depth p \<le> b))"
proof -
  define look where "look i = the (resolve i)" for i
  have known: "map_of ps i = Some (look i) \<and> resolve i = Some (look i)"
    if "i |\<in>| eb_sources body" for i
  proof -
    from that sub have "i |\<in>| ids" by auto
    then have "i \<in> set (sorted_list_of_fset ids)" by simp
    from resolved_parents(2) [OF ps this] show ?thesis by (auto simp: look_def)
  qed
  have "traverse (index_parent ps) (sorted_list_of_fset (eb_sources body)) =
      (Inr (map look (sorted_list_of_fset (eb_sources body))) :: ('c, 'r, 'x) event_error + _)"
    using known
    by (simp add: traverse_Inr_iff list_all2_map2 list_all2_same index_parent_def)
  then have "source_depth body ps =
      (Inr (fold max (map Event_depth (map look (sorted_list_of_fset (eb_sources body)))) 0)
        :: ('c, 'r, 'x) event_error + u32)"
    by (simp add: source_depth_def)
  moreover have "fold max (map Event_depth (map look (sorted_list_of_fset (eb_sources body)))) 0 \<le> b
      \<longleftrightarrow> (\<forall>i p. i |\<in>| eb_sources body \<longrightarrow> resolve i = Some p \<longrightarrow> Event_depth p \<le> b)" for b
    unfolding fold_max_le_iff using known by auto
  ultimately show ?thesis by blast
qed

text \<open>With the parents resolved, the depth rules are the clauses of \<open>admitted_by\<close>.\<close>

lemma u32_le_1_cases: "(d::u32) \<le> 1 \<longleftrightarrow> d = 0 \<or> d = 1"
proof
  assume "d \<le> 1"
  then have "unat d \<le> 1" by (simp add: word_le_nat_alt)
  then have "unat d = unat (0::u32) \<or> unat d = unat (1::u32)" by auto
  then show "d = 0 \<or> d = 1" by (auto simp only: word_unat_eq_iff)
qed auto

lemma depth_after_generate_eq: "sat_add_u32 sd 1 \<le> 1 \<Longrightarrow> sat_add_u32 sd 1 = d \<longleftrightarrow> d = 1"
  by (auto simp: depth_after_generate_le_1)

lemma single_source_total:
  assumes "traverse (resolve_parent event_cid resolve) (sorted_list_of_fset ids) = Inr ps"
    and "eb_sources body |\<subseteq>| ids"
  shows "single_source body ps = Inr p \<longleftrightarrow>
      (\<exists>i. eb_sources body = {|i|} \<and> resolve i = Some p)"
  unfolding single_source_Inr_iff
proof (intro iffI; elim exE conjE)
  fix i
  assume i: "eb_sources body = {|i|}"
  with assms(2) have "i \<in> set (sorted_list_of_fset ids)" by auto
  from resolved_parents(2) [OF assms(1) this]
  have eq: "map_of ps i = resolve i" by auto
  { assume "map_of ps i = Some p"
    with i eq show "\<exists>i. eb_sources body = {|i|} \<and> resolve i = Some p" by auto
  next
    assume "resolve i = Some p"
    with i eq show "\<exists>i. eb_sources body = {|i|} \<and> map_of ps i = Some p" by auto }
qed

lemma event_accessors [simp]:
  "Event_body (Event raw) = mn_payload raw"
  "Event_parents (Event raw) = mn_parents raw"
  "Event_depth (Event raw) = eb_depth (mn_payload raw)"
  by (simp_all add: Event_body_def Event_parents_def Event_depth_def)

lemma traverse_resolve_total:
  assumes "\<And>i. i |\<in>| ids \<Longrightarrow> \<exists>p. resolve i = Some p \<and> Event_id event_cid p = Inr i"
  shows "\<exists>ps. traverse (resolve_parent event_cid resolve) (sorted_list_of_fset ids) = Inr ps"
proof (rule traverse_total)
  fix i
  assume "i \<in> set (sorted_list_of_fset ids)"
  then have "i |\<in>| ids" by simp
  then show "\<exists>y. resolve_parent event_cid resolve i = Inr y"
    using assms unfolding resolve_parent_Inr_iff by blast
qed

lemma resolved_parents_length:
  "traverse (resolve_parent event_cid resolve) (sorted_list_of_fset ids) = Inr ps \<Longrightarrow>
     length ps = fcard ids"
  using length_sorted_list_of_fset [of ids]
  by (auto simp: traverse_Inr_iff dest: list_all2_lengthD)

lemma verdict_single_parent:
  "S |\<subseteq>| P \<Longrightarrow> S = {|i|} \<Longrightarrow> fcard P = Suc 0 \<longleftrightarrow> P = {|i|}"
proof
  assume sub: "S |\<subseteq>| P" "S = {|i|}" and one: "fcard P = Suc 0"
  then have "fcard P \<le> 1" by simp
  then show "P = {|i|}"
    by (cases rule: fcard_le_1_cases) (use sub one in \<open>auto simp: fcard_fempty\<close>)
qed (simp add: fcard_finsert_if fcard_fempty)

lemma implied_depth_iff:
  fixes body :: "('c::linorder, 'r) event_body" and event_cid :: "('c, 'r) raw_event \<Rightarrow> 'x + 'c"
  assumes ps: "traverse (resolve_parent event_cid resolve) (sorted_list_of_fset ids) = Inr ps"
    and sub: "eb_sources body |\<subseteq>| ids"
    and sd: "source_depth body ps = (Inr sd :: ('c, 'r, 'x) event_error + u32)"
  shows "implied_depth body ps sd = (Inr d :: ('c, 'r, 'x) event_error + u32) \<and> d \<le> 1 \<longleftrightarrow>
     (case eb_kind body of
        EventKind_Observation \<Rightarrow>
          eb_origin body \<noteq> EventOrigin_Harness \<and> eb_sources body = {||} \<and> d = 0
      | EventKind_Intervention \<Rightarrow> eb_origin body = EventOrigin_Harness \<and> d = 1 \<and> sd = 0
      | EventKind_Verdict _ \<Rightarrow>
          eb_origin body = EventOrigin_Harness \<and> d = 1 \<and>
          (\<exists>i p. ids = {|i|} \<and> eb_sources body = {|i|} \<and> resolve i = Some p \<and>
             sd = 0 \<and> eb_origin (Event_body p) = EventOrigin_Model \<and>
             eb_kind (Event_body p) = EventKind_Observation)
      | _ \<Rightarrow> (\<exists>i p. eb_sources body = {|i|} \<and> resolve i = Some p \<and>
             eb_origin body = eb_origin (Event_body p) \<and> d = sd \<and> d \<le> 1))"
proof -
  note one = single_source_total [OF ps sub]
  have gen: "sat_add_u32 sd 1 = d \<and> d \<le> 1 \<longleftrightarrow> d = 1 \<and> sd = 0"
    using depth_after_generate_le_1 [of sd] by auto
  show ?thesis
  proof (cases "eb_kind body")
    case EventKind_Observation
    then show ?thesis by (auto simp: implied_depth_def)
  next
    case EventKind_Intervention
    then show ?thesis using gen
      by (auto simp: implied_depth_def require_harness_def result_simps)
  next
    case (EventKind_Verdict v)
    have len: "length ps = Suc 0 \<longleftrightarrow> fcard ids = Suc 0"
      using resolved_parents_length [OF ps] by simp
    from EventKind_Verdict show ?thesis
      using gen verdict_single_parent [OF sub] 
      by (auto simp: implied_depth_def require_harness_def result_simps one len
          split: if_splits)
  next
    case EventKind_Retrieval
    then show ?thesis by (auto simp: implied_depth_def result_simps one split: if_splits)
  next
    case (EventKind_Elision u)
    then show ?thesis by (auto simp: implied_depth_def result_simps one split: if_splits)
  qed
qed

lemma admit_iff_admitted_by:
  "Event_admit event_cid raw resolve = Inr e \<longleftrightarrow>
     e = Event raw \<and> admitted_by event_cid resolve (Event raw)"
proof -
  let ?body = "mn_payload raw" and ?ids = "mn_parents raw"
  let ?trav = "traverse (resolve_parent event_cid resolve) (sorted_list_of_fset ?ids)"
  consider (sub) "\<not> eb_sources ?body |\<subseteq>| ?ids"
    | (missing) err where "eb_sources ?body |\<subseteq>| ?ids" "?trav = Inl err"
    | (ok) ps where "eb_sources ?body |\<subseteq>| ?ids" "?trav = Inr ps"
    by (cases ?trav) auto
  then show ?thesis
  proof cases
    case sub
    then show ?thesis by (auto simp: Event_admit_Inr_iff admitted_by_def)
  next
    case missing
    then have "\<not> (\<forall>i. i |\<in>| ?ids \<longrightarrow> (\<exists>p. resolve i = Some p \<and> Event_id event_cid p = Inr i))"
      using traverse_resolve_total [of ?ids resolve event_cid] by auto
    with missing show ?thesis by (simp add: Event_admit_Inr_iff admitted_by_def)
  next
    case ok
    then have links: "\<forall>i. i |\<in>| ?ids \<longrightarrow> (\<exists>p. resolve i = Some p \<and> Event_id event_cid p = Inr i)"
      using resolved_parents(2) by fastforce
    from source_depth_total [OF ok(2,1)] obtain sd where
      sd: "source_depth ?body ps = (Inr sd :: ('a, 'b, 'c) event_error + u32)"
      and bound: "\<And>b. sd \<le> b \<longleftrightarrow>
        (\<forall>i p. i |\<in>| eb_sources ?body \<longrightarrow> resolve i = Some p \<longrightarrow> Event_depth p \<le> b)"
      by blast
    have single: "sd = Event_depth p" if "eb_sources ?body = {|i|}" "resolve i = Some p" for i p
      using that bound by (auto intro: antisym)
    have zero: "sd = 0 \<longleftrightarrow>
        (\<forall>i p. i |\<in>| eb_sources ?body \<longrightarrow> resolve i = Some p \<longrightarrow> Event_depth p = 0)"
      using bound [of 0] by simp
    have swap: "(\<exists>i p. eb_sources ?body = {|i|} \<and> resolve i = Some p \<and> F i p sd) \<longleftrightarrow>
        (\<exists>i p. eb_sources ?body = {|i|} \<and> resolve i = Some p \<and> F i p (Event_depth p))" for F
      by (intro ex_cong1 conj_cong refl) (drule (1) single, simp)
    have "Event_admit event_cid raw resolve = Inr e \<longleftrightarrow> e = Event raw \<and>
        (implied_depth ?body ps sd = (Inr (eb_depth ?body) :: ('a, 'b, 'c) event_error + u32)
          \<and> eb_depth ?body \<le> 1)"
      using ok sd by (auto simp: Event_admit_Inr_iff)
    also have "\<dots> \<longleftrightarrow> e = Event raw \<and> admitted_by event_cid resolve (Event raw)"
      unfolding implied_depth_iff [OF ok(2,1) sd] admitted_by_def event_accessors
      using ok(1) links zero
        swap [of "\<lambda>i p sd. ?ids = {|i|} \<and> sd = 0 \<and> eb_origin (Event_body p) = EventOrigin_Model
          \<and> eb_kind (Event_body p) = EventKind_Observation"]
        swap [of "\<lambda>i p sd. eb_origin ?body = eb_origin (Event_body p) \<and> eb_depth ?body = sd
          \<and> eb_depth ?body \<le> 1"]
      by (cases "eb_kind ?body") (simp_all add: conj_ac)
    finally show ?thesis .
  qed
qed

lemma single_source_not_panic:
  assumes "traverse (resolve_parent event_cid resolve) (sorted_list_of_fset ids) = Inr ps"
    and "eb_sources body |\<subseteq>| ids"
  shows "single_source body ps \<noteq> Inl EventError_Panic"
proof (cases "\<exists>i. sorted_list_of_fset (eb_sources body) = [i]")
  case True
  then obtain i where i: "sorted_list_of_fset (eb_sources body) = [i]" by blast
  then have "i \<in> set (sorted_list_of_fset (eb_sources body))" by simp
  with assms(2) have "i \<in> set (sorted_list_of_fset ids)" by auto
  from resolved_parents(2) [OF assms(1) this] i show ?thesis
    by (auto simp: single_source_def index_parent_def)
next
  case False
  then show ?thesis by (auto simp: single_source_def split: list.splits)
qed

lemma implied_depth_not_panic:
  assumes "traverse (resolve_parent event_cid resolve) (sorted_list_of_fset ids) = Inr ps"
    and "eb_sources body |\<subseteq>| ids"
  shows "implied_depth body ps sd \<noteq> Inl EventError_Panic"
  using single_source_not_panic [OF assms]
  by (cases "eb_kind body")
    (auto simp: implied_depth_def require_harness_def result_simps split: if_splits)

text \<open>
  The events a session can hold: each was admitted with a resolver that serves only events
  the session already holds.
\<close>

inductive session_event :: "(('c::linorder, 'r) raw_event \<Rightarrow> 'x + 'c) \<Rightarrow> ('c, 'r) event \<Rightarrow> bool"
  for event_cid :: "('c::linorder, 'r) raw_event \<Rightarrow> 'x + 'c" where
  "Event_admit event_cid raw resolve = Inr e \<Longrightarrow>
     \<forall>i p. resolve i = Some p \<longrightarrow> session_event event_cid p \<Longrightarrow> session_event event_cid e"

lemma verify_elision_Inr_iff:
  "verify_elision event_cid deriv_cid raw_id ev u source bs = Inr v \<longleftrightarrow>
     (\<exists>uid sid. eb_kind (Event_body ev) = EventKind_Elision uid \<and>
        Unit_id deriv_cid u = Inr uid \<and> Unit_root u = eb_root (Event_body ev) \<and>
        Event_id event_cid source = Inr sid \<and> sid |\<in>| eb_sources (Event_body ev) \<and>
        eb_payload (Event_body source) = d_source (u_derivation u) \<and>
        verify_unit raw_id u bs = Inr v)"
  by (cases "eb_kind (Event_body ev)")
    (auto simp: verify_elision_def result_simps split: if_splits)

section \<open>Properties\<close>

text \<open>
  Admission never panics: whatever node was decoded and whatever the resolver returns,
  the two places where the code indexes its map of resolved parents find the key, because
  derivation sources were checked to be causal parents and every causal parent was resolved.
\<close>

theorem admit_never_panics:
  fixes event_cid :: "('c::linorder, 'r) raw_event \<Rightarrow> 'x + 'c"
  shows "Event_admit event_cid raw resolve \<noteq> Inl EventError_Panic"
proof (cases "eb_sources (mn_payload raw) |\<subseteq>| mn_parents raw")
  case True
  show ?thesis
  proof (cases "traverse (resolve_parent event_cid resolve) (sorted_list_of_fset (mn_parents raw))")
    case (Inl err)
    then have "err \<noteq> EventError_Panic"
      using traverse_InlD resolve_parent_not_panic by fastforce
    with Inl True show ?thesis by (auto simp: Event_admit_def Let_def)
  next
    case (Inr ps)
    from source_depth_total [OF Inr True] obtain sd where
      sd: "source_depth (mn_payload raw) ps = (Inr sd :: ('c, 'r, 'x) event_error + u32)" by blast
    show ?thesis
      using implied_depth_not_panic [OF Inr True]
      by (simp add: Event_admit_def Let_def rbind_Inl_iff Inr sd True)
  qed
qed (simp add: Event_admit_def Let_def)

text \<open>
  Admission is exact: a node is admitted, unchanged, if and only if its sources are among
  its parents, every parent resolves to an event that re-addresses to the requested id, and
  the kind's rule holds: an observation is external, without sources, at depth 0; an
  intervention is the harness's, at depth 1, and generated from depth-0 sources only; a
  verdict is the harness's, at depth 1, over exactly one model observation, its only parent;
  a retrieval or elision has one source and repeats its origin and its depth, at most 1.
\<close>

theorem event_admission_exact:
  "Event_admit event_cid raw resolve = Inr e \<longleftrightarrow>
     e = Event raw \<and> admitted_by event_cid resolve (Event raw)"
  by (rule admit_iff_admitted_by)

text \<open>
  C14. Provenance cannot be laundered: in any session whose resolver serves only admitted
  events, an event has generation depth 1 exactly when its origin is the harness and depth 0
  otherwise, however long the chain of retrievals and elisions it was passed through; so no
  generated text becomes external by being re-read, and no external text becomes generated.
\<close>

theorem no_laundering:
  assumes "session_event event_cid e"
  shows "Event_depth e = (if eb_origin (Event_body e) = EventOrigin_Harness then 1 else 0)"
  using assms
proof (induction rule: session_event.induct)
  case (1 raw resolve e)
  then have "admitted_by event_cid resolve e" by (auto simp: admit_iff_admitted_by)
  with 1 show ?case
    by (cases "eb_kind (Event_body e)") (auto simp: admitted_by_def)
qed

lemma no_laundering_witness:
  "Event_depth (projr (Event_new (\<lambda>n. Inr (eb_seq (mn_payload n)) :: unit + u64)
     \<lparr>eb_root = (9::u64), eb_origin = EventOrigin_Tool, eb_kind = EventKind_Observation,
      eb_payload = (''out'' :: string), eb_seq = 1, eb_sources = {||}, eb_depth = 0\<rparr> []
     (\<lambda>_. None))) = 0"
proof -
  let ?cid = "\<lambda>n. Inr (eb_seq (mn_payload n)) :: unit + u64"
  let ?body = "\<lparr>eb_root = (9::u64), eb_origin = EventOrigin_Tool,
      eb_kind = EventKind_Observation, eb_payload = (''out'' :: string), eb_seq = 1,
      eb_sources = {||}, eb_depth = 0\<rparr>"
  have new: "Event_new ?cid ?body [] (\<lambda>_. None) = Inr (Event (MerkleNode_new ?body []))"
    by (simp add: Event_new_def admit_iff_admitted_by admitted_by_def MerkleNode_new_def)
  then have "session_event ?cid (Event (MerkleNode_new ?body []))"
    unfolding Event_new_def by (rule session_event.intros) simp
  from no_laundering [OF this] new show ?thesis
    by (simp add: MerkleNode_new_def)
qed

text \<open>
  A verified elision is backed by its source: if an admitted elision event verifies a
  unit and bytes against a source event, then, unless two events collide, that source is the
  one admission resolved, the bytes hash to the source's payload, the unit's range of them
  hashes to the elided id, and the event repeats the source's origin and depth.
\<close>

theorem elision_backed:
  assumes "Event_admit event_cid raw resolve = Inr ev"
    and "verify_elision event_cid deriv_cid raw_id ev u source bs = Inr v"
    and "no_collision event_cid
           {n. n = Event_to_raw source \<or> (\<exists>i p. resolve i = Some p \<and> n = Event_to_raw p)}"
  shows "(\<exists>i. eb_sources (Event_body ev) = {|i|} \<and> resolve i = Some source) \<and>
    raw_id bs = eb_payload (Event_body source) \<and> v_source v = eb_payload (Event_body source) \<and>
    (\<exists>r. span_slice (v_span v) bs = Some r \<and> raw_id r = v_elided v) \<and>
    Unit_root u = eb_root (Event_body ev) \<and>
    eb_origin (Event_body ev) = eb_origin (Event_body source) \<and>
    Event_depth ev = Event_depth source"
proof -
  from assms(1) have adm: "admitted_by event_cid resolve ev"
    by (auto simp: admit_iff_admitted_by)
  from assms(2) obtain uid sid where kind: "eb_kind (Event_body ev) = EventKind_Elision uid"
    and root: "Unit_root u = eb_root (Event_body ev)"
    and sid: "Event_id event_cid source = Inr sid" "sid |\<in>| eb_sources (Event_body ev)"
    and pay: "eb_payload (Event_body source) = d_source (u_derivation u)"
    and v: "verify_unit raw_id u bs = Inr v"
    by (auto simp: verify_elision_Inr_iff)
  from adm kind obtain i p where one: "eb_sources (Event_body ev) = {|i|}" "resolve i = Some p"
    and keeps: "eb_origin (Event_body ev) = eb_origin (Event_body p)" "Event_depth ev = Event_depth p"
    by (auto simp: admitted_by_def)
  from one sid have "sid = i" by simp
  moreover from adm one have "Event_id event_cid p = Inr i"
    by (auto simp: admitted_by_def)
  ultimately have "Event_to_raw source = Event_to_raw p"
    using sid(1) one(2) no_collisionD [OF assms(3), of "Event_to_raw source" i "Event_to_raw p"]
    by (auto simp: Event_id_def)
  then have "p = source" by (cases p; cases source) simp
  with one keeps root pay v show ?thesis by (auto simp: verify_unit_Inr_iff)
qed

lemma elision_backed_witness:
  "\<exists>i. {|1::u64|} = {|i|} \<and>
    (\<lambda>j. if j = 1 then Some (Event (MerkleNode_new
       \<lparr>eb_root = 9, eb_origin = EventOrigin_Tool, eb_kind = EventKind_Observation,
        eb_payload = [1, 2, 3, 4 :: u8], eb_seq = 1, eb_sources = {||}, eb_depth = 0\<rparr> []))
     else None) i = Some (Event (MerkleNode_new
       \<lparr>eb_root = 9, eb_origin = EventOrigin_Tool, eb_kind = EventKind_Observation,
        eb_payload = [1, 2, 3, 4], eb_seq = 1, eb_sources = {||}, eb_depth = 0\<rparr> []))"
proof -
  let ?cid = "\<lambda>n. Inr (eb_seq (mn_payload n)) :: unit + u64"
  let ?src = "Event (MerkleNode_new \<lparr>eb_root = 9::u64, eb_origin = EventOrigin_Tool,
      eb_kind = EventKind_Observation, eb_payload = [1, 2, 3, 4 :: u8], eb_seq = 1,
      eb_sources = {||}, eb_depth = 0\<rparr> [])"
  let ?body = "\<lparr>eb_root = 9::u64, eb_origin = EventOrigin_Tool,
      eb_kind = EventKind_Elision (UnitId 5), eb_payload = [0 :: u8], eb_seq = 2,
      eb_sources = {|1|}, eb_depth = 0\<rparr>"
  let ?raw = "MerkleNode_new ?body [1]"
  let ?u = "\<lparr>u_derivation = \<lparr>d_op = Op_Elide, d_source = [1, 2, 3, 4 :: u8],
      d_span = Span_new 1 3, d_elided = [2, 3], d_root = (9::u64)\<rparr>,
      u_depth = 0, u_life = Life_Live\<rparr>"
  let ?resolve = "\<lambda>j. if j = 1 then Some ?src else None"
  have adm: "Event_admit ?cid ?raw ?resolve = Inr (Event ?raw)"
    by (simp add: admit_iff_admitted_by admitted_by_def MerkleNode_new_def Event_id_def)
  have v: "verify_unit (\<lambda>bs. bs) ?u [1, 2, 3, 4] = Inr \<lparr>v_source = [1, 2, 3, 4 :: u8],
      v_span = Span_new 1 3, v_elided = [2, 3], v_elided_len = 2, v_source_len = 4\<rparr>"
    by code_simp
  have ok: "verify_elision ?cid (\<lambda>_. Inr 5) (\<lambda>bs. bs) (Event ?raw) ?u ?src [1, 2, 3, 4] =
      Inr \<lparr>v_source = [1, 2, 3, 4 :: u8], v_span = Span_new 1 3, v_elided = [2, 3],
        v_elided_len = 2, v_source_len = 4\<rparr>"
    unfolding verify_elision_Inr_iff
    using v by (simp add: MerkleNode_new_def Event_id_def Unit_id_def derivation_id_def Unit_root_def)
  have "no_collision ?cid {n. n = Event_to_raw ?src \<or>
      (\<exists>i p. ?resolve i = Some p \<and> n = Event_to_raw p)}"
    by (auto simp: no_collision_def split: if_splits)
  from elision_backed [OF adm ok this] show ?thesis
    by (simp add: MerkleNode_new_def)
qed

end
