(* ===== verification/RustText.thy ===== *)
theory RustText
  imports Prelude
begin

text \<open>
  The parts of Rust's string library that the modelled code calls, over UTF-8 bytes:
  \<^verbatim>\<open>trim\<close>, \<^verbatim>\<open>split\<close>, \<^verbatim>\<open>split_once\<close>, \<^verbatim>\<open>rsplit_once\<close>,
  \<^verbatim>\<open>strip_prefix\<close>, \<^verbatim>\<open>lines\<close>, \<^verbatim>\<open>join\<close>, \<^verbatim>\<open>parse\<close> and
  \<^verbatim>\<open>to_string\<close> of integers, and the ASCII character classes; with their round trips.
\<close>

section \<open>Character classes\<close>

definition is_ascii_digit :: "char \<Rightarrow> bool" where
  "is_ascii_digit c \<longleftrightarrow> (48::nat) \<le> of_char c \<and> of_char c \<le> (57::nat)"

definition is_ascii_alpha :: "char \<Rightarrow> bool" where
  "is_ascii_alpha c \<longleftrightarrow>
     (65::nat) \<le> of_char c \<and> of_char c \<le> (90::nat) \<or>
     (97::nat) \<le> of_char c \<and> of_char c \<le> (122::nat)"

definition is_ascii_alphanumeric :: "char \<Rightarrow> bool" where
  "is_ascii_alphanumeric c \<longleftrightarrow> is_ascii_digit c \<or> is_ascii_alpha c"

definition is_ascii_hexdigit :: "char \<Rightarrow> bool" where
  "is_ascii_hexdigit c \<longleftrightarrow>
     is_ascii_digit c \<or> (65::nat) \<le> of_char c \<and> of_char c \<le> (70::nat) \<or>
     (97::nat) \<le> of_char c \<and> of_char c \<le> (102::nat)"

section \<open>Trimming\<close>

text \<open>The UTF-8 encodings of the code points with the property \<^verbatim>\<open>White_Space\<close>.\<close>

definition white_space :: "string list" where
  "white_space = map (map char_of)
     ([[9], [10], [11], [12], [13], [32], [0xC2, 0x85], [0xC2, 0xA0], [0xE1, 0x9A, 0x80],
       [0xE2, 0x80, 0x80], [0xE2, 0x80, 0x81], [0xE2, 0x80, 0x82], [0xE2, 0x80, 0x83],
       [0xE2, 0x80, 0x84], [0xE2, 0x80, 0x85], [0xE2, 0x80, 0x86], [0xE2, 0x80, 0x87],
       [0xE2, 0x80, 0x88], [0xE2, 0x80, 0x89], [0xE2, 0x80, 0x8A], [0xE2, 0x80, 0xA8],
       [0xE2, 0x80, 0xA9], [0xE2, 0x80, 0xAF], [0xE2, 0x81, 0x9F], [0xE3, 0x80, 0x80]]
      :: nat list list)"

definition ws_split :: "string list \<Rightarrow> string \<Rightarrow> string option" where
  "ws_split ws s =
     (case List.find (\<lambda>w. w \<noteq> [] \<and> prefix w s) ws of
        None \<Rightarrow> None
      | Some w \<Rightarrow> Some (drop (length w) s))"

lemma ws_split_length [termination_simp]:
  "ws_split ws s = Some t \<Longrightarrow> length t < length s"
  by (auto simp: ws_split_def prefix_def split: option.splits dest!: find_SomeD)

function trim_start_of :: "string list \<Rightarrow> string \<Rightarrow> string" where
  "trim_start_of ws s = (case ws_split ws s of None \<Rightarrow> s | Some t \<Rightarrow> trim_start_of ws t)"
  by pat_completeness auto
termination
  by (relation "measure (\<lambda>(ws, s). length s)") (auto simp: ws_split_length)

declare trim_start_of.simps [simp del]

definition trim_start :: "string \<Rightarrow> string" where
  "trim_start s = trim_start_of white_space s"

definition trim_end :: "string \<Rightarrow> string" where
  "trim_end s = rev (trim_start_of (map rev white_space) (rev s))"

definition trim :: "string \<Rightarrow> string" where
  "trim s = trim_end (trim_start s)"

section \<open>Splitting\<close>

definition strip_prefix :: "string \<Rightarrow> string \<Rightarrow> string option" where
  "strip_prefix p s = (if prefix p s then Some (drop (length p) s) else None)"

fun split_on :: "char \<Rightarrow> string \<Rightarrow> string list" where
  "split_on c [] = [[]]"
| "split_on c (x # xs) =
     (if x = c then [] # split_on c xs
      else (case split_on c xs of [] \<Rightarrow> [[x]] | y # ys \<Rightarrow> (x # y) # ys))"

fun split_once :: "char \<Rightarrow> string \<Rightarrow> (string \<times> string) option" where
  "split_once c [] = None"
| "split_once c (x # xs) =
     (if x = c then Some ([], xs)
      else (case split_once c xs of None \<Rightarrow> None | Some (a, b) \<Rightarrow> Some (x # a, b)))"

definition rsplit_once :: "char \<Rightarrow> string \<Rightarrow> (string \<times> string) option" where
  "rsplit_once c s =
     (case split_once c (rev s) of None \<Rightarrow> None | Some (a, b) \<Rightarrow> Some (rev b, rev a))"

fun join_on :: "char \<Rightarrow> string list \<Rightarrow> string" where
  "join_on c [] = []"
| "join_on c [x] = x"
| "join_on c (x # y # zs) = x @ c # join_on c (y # zs)"

lemma split_on_ne [simp]: "split_on c s \<noteq> []"
  by (induction s) (auto split: list.splits)

lemma split_on_no_sep [simp]: "c \<notin> set s \<Longrightarrow> split_on c s = [s]"
  by (induction s) auto

lemma split_on_append:
  "c \<notin> set a \<Longrightarrow> split_on c (a @ c # b) = a # split_on c b"
  by (induction a) auto

lemma split_on_no_sep_in: "x \<in> set (split_on c s) \<Longrightarrow> c \<notin> set x"
  by (induction s arbitrary: x) (auto split: if_splits list.splits)

lemma join_split: "join_on c (split_on c s) = s"
proof (induction s)
  case step: (Cons x s)
  show ?case
  proof (cases "split_on c s")
    case (Cons y ys)
    with step.IH show ?thesis by (cases ys) auto
  qed simp
qed simp

lemma split_join:
  "xs \<noteq> [] \<Longrightarrow> \<forall>x \<in> set xs. c \<notin> set x \<Longrightarrow> split_on c (join_on c xs) = xs"
  by (induction c xs rule: join_on.induct) (auto simp: split_on_append)

lemma join_on_snoc: "xs \<noteq> [] \<Longrightarrow> join_on c (xs @ [y]) = join_on c xs @ c # y"
  by (induction c xs rule: join_on.induct) auto

lemma split_on_eq_iff:
  "split_on c s = xs \<longleftrightarrow> xs \<noteq> [] \<and> (\<forall>x \<in> set xs. c \<notin> set x) \<and> s = join_on c xs"
proof
  assume xs: "split_on c s = xs"
  show "xs \<noteq> [] \<and> (\<forall>x \<in> set xs. c \<notin> set x) \<and> s = join_on c xs"
    unfolding xs [symmetric] by (auto simp: join_split dest: split_on_no_sep_in)
qed (use split_join in blast)

lemma split_once_Some_iff:
  "split_once c s = Some (a, b) \<longleftrightarrow> c \<notin> set a \<and> s = a @ c # b"
proof (induction s arbitrary: a)
  case step: (Cons x xs)
  show ?case
  proof (cases "x = c")
    case True
    then show ?thesis by (cases a) auto
  next
    case False
    then show ?thesis
    proof (cases a)
      case (Cons y ys)
      have "split_once c (x # xs) = Some (a, b) \<longleftrightarrow> y = x \<and> split_once c xs = Some (ys, b)"
        using False Cons by (auto split: option.splits)
      also have "\<dots> \<longleftrightarrow> c \<notin> set a \<and> x # xs = a @ c # b"
        unfolding step.IH using False Cons by auto
      finally show ?thesis .
    qed (auto split: option.splits)
  qed
qed simp

lemma split_once_None_iff: "split_once c s = None \<longleftrightarrow> c \<notin> set s"
  by (induction s) (auto split: option.splits)

lemma rsplit_once_Some_iff:
  "rsplit_once c s = Some (a, b) \<longleftrightarrow> c \<notin> set b \<and> s = a @ c # b"
proof -
  have "rsplit_once c s = Some (a, b) \<longleftrightarrow> split_once c (rev s) = Some (rev b, rev a)"
    by (auto simp: rsplit_once_def split: option.splits)
  also have "\<dots> \<longleftrightarrow> c \<notin> set b \<and> rev s = rev b @ c # rev a"
    by (simp add: split_once_Some_iff)
  also have "rev s = rev b @ c # rev a \<longleftrightarrow> s = a @ c # b"
    by (metis append.assoc append_Cons append_Nil rev.simps(2) rev_append rev_rev_ident)
  finally show ?thesis .
qed

lemma rsplit_once_None_iff: "rsplit_once c s = None \<longleftrightarrow> c \<notin> set s"
  using split_once_None_iff [of c "rev s"]
  by (cases "split_once c (rev s)") (auto simp: rsplit_once_def)

lemma strip_prefix_Some_iff: "strip_prefix p s = Some t \<longleftrightarrow> s = p @ t"
  by (auto simp: strip_prefix_def prefix_def)

section \<open>Integers as text\<close>

fun parse_digits :: "nat \<Rightarrow> string \<Rightarrow> nat option" where
  "parse_digits acc [] = Some acc"
| "parse_digits acc (c # cs) =
     (if is_ascii_digit c then parse_digits (10 * acc + (of_char c - 48)) cs else None)"

definition parse_unsigned :: "string \<Rightarrow> nat option" where
  "parse_unsigned s = (if s = [] then None else parse_digits 0 s)"

definition parse_bounded :: "nat \<Rightarrow> string \<Rightarrow> nat option" where
  "parse_bounded limit s =
     (let digits = (case s of c # cs \<Rightarrow> if c = CHR ''+'' then cs else s | [] \<Rightarrow> s) in
      case parse_unsigned digits of
        None \<Rightarrow> None
      | Some n \<Rightarrow> if n < limit then Some n else None)"

definition parse_u32 :: "string \<Rightarrow> nat option" where
  "parse_u32 s = parse_bounded (2 ^ 32) s"

definition parse_usize :: "string \<Rightarrow> nat option" where
  "parse_usize s = parse_bounded (2 ^ 64) s"

definition parse_i64 :: "string \<Rightarrow> int option" where
  "parse_i64 s =
     (let (neg, digits) =
        (case s of
           c # cs \<Rightarrow> if c = CHR ''-'' then (True, cs) else if c = CHR ''+'' then (False, cs)
                      else (False, s)
         | [] \<Rightarrow> (False, s)) in
      case parse_unsigned digits of
        None \<Rightarrow> None
      | Some n \<Rightarrow>
          (let i = (if neg then - int n else int n) in if in_i64 i then Some i else None))"

definition digit_char :: "nat \<Rightarrow> char" where
  "digit_char d = char_of (48 + d)"

fun show_nat :: "nat \<Rightarrow> string" where
  "show_nat n = (if n < 10 then [digit_char n] else show_nat (n div 10) @ [digit_char (n mod 10)])"

declare show_nat.simps [simp del]

definition show_int :: "int \<Rightarrow> string" where
  "show_int i = (if i < 0 then CHR ''-'' # show_nat (nat (- i)) else show_nat (nat i))"

lemma of_digit_char: "d < 10 \<Longrightarrow> (of_char (digit_char d) :: nat) = 48 + d"
  by (simp add: digit_char_def of_char_of)

lemma is_ascii_digit_char [simp]: "d < 10 \<Longrightarrow> is_ascii_digit (digit_char d)"
  by (simp add: is_ascii_digit_def of_digit_char)

lemma parse_digits_append:
  "parse_digits acc (xs @ ys) =
     (case parse_digits acc xs of None \<Rightarrow> None | Some n \<Rightarrow> parse_digits n ys)"
  by (induction acc xs rule: parse_digits.induct) auto

lemma parse_show_nat: "parse_digits 0 (show_nat n) = Some n"
proof (induction n rule: show_nat.induct)
  case (1 n)
  show ?case
  proof (cases "n < 10")
    case True
    then show ?thesis by (subst show_nat.simps) (simp add: of_digit_char)
  next
    case False
    with 1 show ?thesis
      by (subst show_nat.simps) (simp add: parse_digits_append of_digit_char)
  qed
qed

lemma parse_digits_Some_all:
  "parse_digits acc s = Some n \<Longrightarrow> list_all is_ascii_digit s"
  by (induction acc s rule: parse_digits.induct) (auto split: if_splits)

lemma parse_digits_total:
  "list_all is_ascii_digit s \<Longrightarrow> \<exists>n. parse_digits acc s = Some n"
  by (induction s arbitrary: acc) auto

lemma show_nat_digits: "list_all is_ascii_digit (show_nat n)"
  using parse_show_nat parse_digits_Some_all by blast

lemma show_nat_ne [simp]: "show_nat n \<noteq> []"
  by (subst show_nat.simps) simp

lemma parse_unsigned_show [simp]: "parse_unsigned (show_nat n) = Some n"
  by (simp add: parse_unsigned_def parse_show_nat)

lemma show_nat_hd: "show_nat n = c # cs \<Longrightarrow> is_ascii_digit c"
  using show_nat_digits [of n] by auto

lemma not_digit [simp]: "\<not> is_ascii_digit CHR ''+''" "\<not> is_ascii_digit CHR ''-''"
  by code_simp+

lemma parse_show_bounded: "n < limit \<Longrightarrow> parse_bounded limit (show_nat n) = Some n"
proof (cases "show_nat n")
  case (Cons c cs)
  then have "c \<noteq> CHR ''+''" using show_nat_hd by force
  moreover assume "n < limit"
  ultimately show ?thesis
    using parse_unsigned_show [of n] Cons by (simp add: parse_bounded_def)
qed simp

text \<open>Rust's \<^verbatim>\<open>to_string\<close> of an \<^verbatim>\<open>i64\<close> parses back.\<close>

lemma parse_show_i64: "in_i64 i \<Longrightarrow> parse_i64 (show_int i) = Some i"
proof (cases "i < 0")
  case True
  moreover assume "in_i64 i"
  ultimately show ?thesis by (simp add: parse_i64_def show_int_def)
next
  case False
  obtain c cs where c: "show_nat (nat i) = c # cs" by (cases "show_nat (nat i)") auto
  then have "c \<noteq> CHR ''+''" "c \<noteq> CHR ''-''" using show_nat_hd by force+
  moreover have "parse_unsigned (c # cs) = Some (nat i)"
    using parse_unsigned_show [of "nat i"] c by simp
  moreover assume "in_i64 i"
  ultimately show ?thesis using False c by (simp add: parse_i64_def show_int_def)
qed

lemma parse_i64_range: "parse_i64 s = Some i \<Longrightarrow> in_i64 i"
  by (auto simp: parse_i64_def Let_def split: list.splits if_splits option.splits prod.splits)

section \<open>Facts about trimming\<close>

lemma ws_split_None_iff:
  "ws_split ws s = None \<longleftrightarrow> (\<forall>w \<in> set ws. w \<noteq> [] \<longrightarrow> \<not> prefix w s)"
  by (auto simp: ws_split_def find_None_iff_all split: option.splits dest: find_SomeD)

lemma trim_start_of_stops: "ws_split ws (trim_start_of ws s) = None"
proof (induction ws s rule: trim_start_of.induct)
  case (1 ws s)
  then show ?case by (subst trim_start_of.simps) (auto split: option.splits)
qed

lemma trim_start_of_id: "ws_split ws s = None \<Longrightarrow> trim_start_of ws s = s"
  by (subst trim_start_of.simps) simp

text \<open>What trimming removes is white space, and nothing else is removed.\<close>

lemma trim_start_of_split:
  "\<exists>us. set us \<subseteq> set ws \<and> s = concat us @ trim_start_of ws s"
proof (induction ws s rule: trim_start_of.induct)
  case (1 ws s)
  show ?case
  proof (cases "ws_split ws s")
    case None
    then show ?thesis
      by (subst trim_start_of.simps) (auto intro: exI [of _ "[]"])
  next
    case (Some t)
    then obtain w where w: "w \<in> set ws" "s = w @ t"
      by (auto simp: ws_split_def prefix_def split: option.splits dest!: find_SomeD)
    from 1 [OF Some] obtain us where "set us \<subseteq> set ws" "t = concat us @ trim_start_of ws t"
      by blast
    with w have "set (w # us) \<subseteq> set ws \<and> s = concat (w # us) @ trim_start_of ws t" by simp
    with Some show ?thesis by (subst trim_start_of.simps) (metis option.simps(5))
  qed
qed

definition plain_char :: "char \<Rightarrow> bool" where
  "plain_char c \<longleftrightarrow> (33::nat) \<le> of_char c \<and> of_char c \<le> (126::nat)"

lemma white_space_not_plain:
  "\<forall>w \<in> set white_space. w \<noteq> [] \<and> \<not> plain_char (hd w) \<and> \<not> plain_char (last w)"
  by code_simp

text \<open>Text between two visible ASCII characters is not trimmed.\<close>

lemma trim_plain:
  assumes "s \<noteq> []" "plain_char (hd s)" "plain_char (last s)"
  shows "trim s = s"
proof -
  have no_prefix: "\<not> prefix w t"
    if "w \<noteq> []" "t \<noteq> []" "\<not> plain_char (hd w)" "plain_char (hd t)" for w t :: string
    using that by (cases w; cases t) auto
  have "ws_split white_space s = None"
    unfolding ws_split_None_iff using no_prefix assms white_space_not_plain by blast
  then have front: "trim_start s = s" by (simp add: trim_start_def trim_start_of_id)
  have "ws_split (map rev white_space) (rev s) = None"
    unfolding ws_split_None_iff
  proof (intro ballI impI)
    fix w
    assume "w \<in> set (map rev white_space)" and ne: "w \<noteq> []"
    then obtain v where v: "v \<in> set white_space" "w = rev v" by auto
    with white_space_not_plain ne have "\<not> plain_char (hd w)" by (auto simp: hd_rev)
    moreover have "plain_char (hd (rev s))" using assms by (simp add: hd_rev)
    ultimately show "\<not> prefix w (rev s)" using no_prefix ne assms(1) by simp
  qed
  then show ?thesis unfolding trim_def front trim_end_def by (simp add: trim_start_of_id)
qed

lemma plain_if_digit: "is_ascii_digit c \<Longrightarrow> plain_char c"
  by (simp add: is_ascii_digit_def plain_char_def)

lemma trim_show_int [simp]: "trim (show_int i) = show_int i"
proof -
  have digit: "is_ascii_digit (hd (show_nat n))" "is_ascii_digit (last (show_nat n))" for n
    using show_nat_digits [of n] show_nat_ne [of n] by (auto simp: list_all_iff)
  show ?thesis
  proof (rule trim_plain)
    show "show_int i \<noteq> []" by (simp add: show_int_def)
    have "plain_char CHR ''-''" by code_simp
    with digit show "plain_char (hd (show_int i))" "plain_char (last (show_int i))"
      by (auto simp: show_int_def plain_if_digit)
  qed
qed

section \<open>Lines\<close>

definition strip_cr :: "string \<Rightarrow> string" where
  "strip_cr l = (if l \<noteq> [] \<and> last l = char_of (13::nat) then butlast l else l)"

definition newline :: char where
  "newline = char_of (10::nat)"

fun lines_of :: "string list \<Rightarrow> string list" where
  "lines_of [] = []"
| "lines_of [l] = (if l = [] then [] else [l])"
| "lines_of (l # ls) = strip_cr l # lines_of ls"

definition str_lines :: "string \<Rightarrow> string list" where
  "str_lines s = lines_of (split_on newline s)"

definition lines_terminated :: "string list \<Rightarrow> string" where
  "lines_terminated ls = concat (map (\<lambda>l. l @ [newline]) ls)"

lemma split_terminated:
  "\<forall>l \<in> set ls. newline \<notin> set l \<Longrightarrow> split_on newline (lines_terminated ls) = ls @ [[]]"
  by (induction ls) (auto simp: lines_terminated_def split_on_append)

lemma lines_of_terminated: "lines_of (ls @ [[]]) = map strip_cr ls"
proof (induction ls)
  case (Cons l ls)
  then show ?case by (cases ls) auto
qed simp

text \<open>Terminating each line and reading the lines back drops only carriage returns.\<close>

lemma str_lines_terminated:
  "\<forall>l \<in> set ls. newline \<notin> set l \<Longrightarrow> str_lines (lines_terminated ls) = map strip_cr ls"
  by (simp add: str_lines_def split_terminated lines_of_terminated)

section \<open>Searching and splitting\<close>

text \<open>\<^verbatim>\<open>s.split(pat).next()\<close>: the text before the first occurrence.\<close>

fun before_str :: "string \<Rightarrow> string \<Rightarrow> string" where
  "before_str pat [] = []"
| "before_str pat (c # cs) = (if prefix pat (c # cs) then [] else c # before_str pat cs)"

definition flush :: "string \<Rightarrow> string list" where
  "flush cur = (if cur = [] then [] else [cur])"

text \<open>\<^verbatim>\<open>split_whitespace\<close>, collecting the current word in \<open>cur\<close>.\<close>

function ws_words :: "string \<Rightarrow> string \<Rightarrow> string list" where
  "ws_words cur s =
     (case s of
        [] \<Rightarrow> flush cur
      | c # cs \<Rightarrow>
          (case ws_split white_space s of
             Some t \<Rightarrow> flush cur @ ws_words [] t
           | None \<Rightarrow> ws_words (cur @ [c]) cs))"
  by pat_completeness auto
termination
  by (relation "measure (\<lambda>(cur, s). length s)") (auto dest: ws_split_length)

declare ws_words.simps [simp del]

definition split_whitespace :: "string \<Rightarrow> string list" where
  "split_whitespace s = ws_words [] s"

text \<open>The text after the first occurrence of a pattern.\<close>

fun after_str :: "string \<Rightarrow> string \<Rightarrow> string option" where
  "after_str pat [] = (if pat = [] then Some [] else None)"
| "after_str pat (c # cs) =
     (if prefix pat (c # cs) then Some (drop (length pat) (c # cs)) else after_str pat cs)"

text \<open>The em dash of the messages, in UTF-8.\<close>

definition dash :: string where
  "dash = map char_of [226, 128, 148 :: nat]"

text \<open>\<^verbatim>\<open>to_ascii_lowercase\<close>, byte by byte, and the start of a character.\<close>

definition ascii_lower :: "char \<Rightarrow> char" where
  "ascii_lower c =
     (let n = of_char c :: nat in if 65 \<le> n \<and> n \<le> 90 then char_of (n + 32) else c)"

definition continues_char :: "char \<Rightarrow> bool" where
  "continues_char c \<longleftrightarrow> (128::nat) \<le> of_char c \<and> of_char c < (192::nat)"

section \<open>Replacing and joining\<close>

text \<open>
  \<^verbatim>\<open>str::replace\<close>: occurrences that do not overlap, from the left; an empty pattern matches at
  every character boundary, before a byte that continues no character and at the end.
\<close>

fun replace_empty :: "string \<Rightarrow> string \<Rightarrow> string" where
  "replace_empty new [] = new"
| "replace_empty new (c # cs) =
     (if continues_char c then c # replace_empty new cs else new @ c # replace_empty new cs)"

fun replace_found :: "string \<Rightarrow> string \<Rightarrow> string \<Rightarrow> string" where
  "replace_found pat new [] = []"
| "replace_found pat new (c # cs) =
     (if pat \<noteq> [] \<and> prefix pat (c # cs)
      then new @ replace_found pat new (drop (length pat) (c # cs))
      else c # replace_found pat new cs)"

definition str_replace :: "string \<Rightarrow> string \<Rightarrow> string \<Rightarrow> string" where
  "str_replace pat new s = (if pat = [] then replace_empty new s else replace_found pat new s)"

text \<open>\<^verbatim>\<open>join\<close> with a text between.\<close>

fun join_str :: "string \<Rightarrow> string list \<Rightarrow> string" where
  "join_str sep [] = []"
| "join_str sep [s] = s"
| "join_str sep (s # t # ts) = s @ sep @ join_str sep (t # ts)"

lemma replace_found_absent: "\<not> sublist pat s \<Longrightarrow> replace_found pat new s = s"
  by (induction s) (auto simp: sublist_Cons_right)

lemma str_replace_absent: "\<not> sublist pat s \<Longrightarrow> str_replace pat new s = s"
  by (cases "pat = []") (simp_all add: str_replace_def replace_found_absent)

lemma trim_nil [simp]: "trim [] = []"
  by (simp add: trim_def trim_start_def trim_end_def trim_start_of_id ws_split_None_iff)

end
