(* ===== verification/InteractionIds.thy ===== *)
theory InteractionIds
  imports RustText
begin

text \<open>
  Identifiers of the interaction protocol (\<^verbatim>\<open>newt-interaction/src/ids.rs\<close>,
  \<^verbatim>\<open>error.rs\<close>, and the validated names of \<^verbatim>\<open>definition.rs\<close>,
  \<^verbatim>\<open>response.rs\<close> and \<^verbatim>\<open>binding.rs\<close>). A content id has the type
  \<open>'c\<close>; its parser \<open>cid_parse\<close> and its rendering \<open>cid_show\<close> belong to the crate
  \<^verbatim>\<open>content-addressable\<close> and are arguments.
\<close>

section \<open>Errors\<close>

datatype 'x protocol_error =
    ProtocolError_Identity 'x
  | ProtocolError_NonCanonicalId string
  | ProtocolError_InvalidId string string
  | ProtocolError_UnsupportedFeature string bool
  | ProtocolError_NonCanonical string nat
  | ProtocolError_Malformed string
  | ProtocolError_UnknownSchema string string

section \<open>Content-derived ids\<close>

datatype 'c definition_id = DefinitionId 'c
datatype 'c instance_id = InstanceId 'c
datatype 'c response_id = ResponseId 'c

definition content_id_parse ::
    "(string \<Rightarrow> 'c option) \<Rightarrow> ('c \<Rightarrow> string) \<Rightarrow> string \<Rightarrow> string \<Rightarrow> 'x protocol_error + 'c" where
  "content_id_parse cid_parse cid_show kind text =
     (case cid_parse text of
        None \<Rightarrow> Inl (ProtocolError_InvalidId kind (''`'' @ text @ ''` is not a content id''))
      | Some i \<Rightarrow>
          if cid_show i \<noteq> text then Inl (ProtocolError_NonCanonicalId text) else Inr i)"

definition DefinitionId_parse ::
    "(string \<Rightarrow> 'c option) \<Rightarrow> ('c \<Rightarrow> string) \<Rightarrow> string \<Rightarrow> 'x protocol_error + 'c definition_id" where
  "DefinitionId_parse cid_parse cid_show text =
     rbind (content_id_parse cid_parse cid_show ''definition id'' text)
       (\<lambda>c. Inr (DefinitionId c))"

definition InstanceId_parse ::
    "(string \<Rightarrow> 'c option) \<Rightarrow> ('c \<Rightarrow> string) \<Rightarrow> string \<Rightarrow> 'x protocol_error + 'c instance_id" where
  "InstanceId_parse cid_parse cid_show text =
     rbind (content_id_parse cid_parse cid_show ''instance id'' text) (\<lambda>c. Inr (InstanceId c))"

definition ResponseId_parse ::
    "(string \<Rightarrow> 'c option) \<Rightarrow> ('c \<Rightarrow> string) \<Rightarrow> string \<Rightarrow> 'x protocol_error + 'c response_id" where
  "ResponseId_parse cid_parse cid_show text =
     rbind (content_id_parse cid_parse cid_show ''response id'' text) (\<lambda>c. Inr (ResponseId c))"

fun DefinitionId_show :: "('c \<Rightarrow> string) \<Rightarrow> 'c definition_id \<Rightarrow> string" where
  "DefinitionId_show cid_show (DefinitionId c) = cid_show c"

fun InstanceId_show :: "('c \<Rightarrow> string) \<Rightarrow> 'c instance_id \<Rightarrow> string" where
  "InstanceId_show cid_show (InstanceId c) = cid_show c"

fun ResponseId_show :: "('c \<Rightarrow> string) \<Rightarrow> 'c response_id \<Rightarrow> string" where
  "ResponseId_show cid_show (ResponseId c) = cid_show c"

section \<open>Author-assigned names and handles\<close>

datatype control_id = ControlId string
datatype option_id = OptionId string
datatype nonce = Nonce string
datatype idempotency_key = IdempotencyKey string
datatype secret_ref = SecretRef string
datatype handler_id = HandlerId string
datatype surface_feature = SurfaceFeature string

definition name_char :: "char \<Rightarrow> bool" where
  "name_char c \<longleftrightarrow> is_ascii_alphanumeric c \<or> c = CHR ''-'' \<or> c = CHR ''_''"

definition validated_name :: "string \<Rightarrow> string \<Rightarrow> 'x protocol_error + string" where
  "validated_name kind name =
     (if name = [] then Inl (ProtocolError_InvalidId kind ''must not be empty'')
      else if \<not> list_all name_char name
      then Inl (ProtocolError_InvalidId kind
             (''`'' @ name @ ''` has characters outside [A-Za-z0-9_-]''))
      else Inr name)"

definition nonempty_name :: "string \<Rightarrow> string \<Rightarrow> 'x protocol_error + string" where
  "nonempty_name kind s =
     (if s = [] then Inl (ProtocolError_InvalidId kind ''must not be empty'') else Inr s)"

definition ControlId_new :: "string \<Rightarrow> 'x protocol_error + control_id" where
  "ControlId_new s = rbind (validated_name ''control id'' s) (\<lambda>n. Inr (ControlId n))"

definition OptionId_new :: "string \<Rightarrow> 'x protocol_error + option_id" where
  "OptionId_new s = rbind (validated_name ''option id'' s) (\<lambda>n. Inr (OptionId n))"

definition Nonce_new :: "string \<Rightarrow> 'x protocol_error + nonce" where
  "Nonce_new s = rbind (nonempty_name ''nonce'' s) (\<lambda>n. Inr (Nonce n))"

definition IdempotencyKey_new :: "string \<Rightarrow> 'x protocol_error + idempotency_key" where
  "IdempotencyKey_new s = rbind (nonempty_name ''idempotency key'' s) (\<lambda>n. Inr (IdempotencyKey n))"

definition SecretRef_new :: "string \<Rightarrow> 'x protocol_error + secret_ref" where
  "SecretRef_new s = rbind (nonempty_name ''secret reference'' s) (\<lambda>n. Inr (SecretRef n))"

definition HandlerId_new :: "string \<Rightarrow> 'x protocol_error + handler_id" where
  "HandlerId_new s = rbind (nonempty_name ''handler id'' s) (\<lambda>n. Inr (HandlerId n))"

definition SurfaceFeature_new :: "string \<Rightarrow> 'x protocol_error + surface_feature" where
  "SurfaceFeature_new s = rbind (nonempty_name ''surface feature'' s) (\<lambda>n. Inr (SurfaceFeature n))"

fun ControlId_as_str :: "control_id \<Rightarrow> string" where "ControlId_as_str (ControlId s) = s"
fun OptionId_as_str :: "option_id \<Rightarrow> string" where "OptionId_as_str (OptionId s) = s"
fun Nonce_as_str :: "nonce \<Rightarrow> string" where "Nonce_as_str (Nonce s) = s"
fun IdempotencyKey_as_str :: "idempotency_key \<Rightarrow> string" where
  "IdempotencyKey_as_str (IdempotencyKey s) = s"
fun SecretRef_as_str :: "secret_ref \<Rightarrow> string" where "SecretRef_as_str (SecretRef s) = s"
fun HandlerId_as_str :: "handler_id \<Rightarrow> string" where "HandlerId_as_str (HandlerId s) = s"
fun SurfaceFeature_as_str :: "surface_feature \<Rightarrow> string" where
  "SurfaceFeature_as_str (SurfaceFeature s) = s"

definition KNOWN_features :: "string list" where
  "KNOWN_features = [''secret-input'', ''diagrams'', ''multi-control'']"

definition SurfaceFeature_is_known :: "surface_feature \<Rightarrow> bool" where
  "SurfaceFeature_is_known f \<longleftrightarrow> SurfaceFeature_as_str f \<in> set KNOWN_features"

section \<open>Revisions\<close>

datatype revision = Revision u64

definition Revision_FIRST :: revision where
  "Revision_FIRST = Revision 0"

fun Revision_get :: "revision \<Rightarrow> u64" where
  "Revision_get (Revision n) = n"

definition Revision_next :: "revision \<Rightarrow> revision" where
  "Revision_next r = Revision (sat_add_u64 (Revision_get r) 1)"

section \<open>The contract of a validated name\<close>

text \<open>
  A validated newtype has one constructor, which decoding goes through as well: it accepts
  exactly the strings its rule allows, stores the string unchanged, and has no other values.
\<close>

locale validated_newtype =
  fixes new :: "string \<Rightarrow> 'e + 'i"
    and as_str :: "'i \<Rightarrow> string"
    and valid :: "string \<Rightarrow> bool"
  assumes accepts: "valid s \<Longrightarrow> \<exists>i. new s = Inr i \<and> as_str i = s"
    and refuses: "\<not> valid s \<Longrightarrow> \<exists>e. new s = Inl e"
    and as_str_inj: "as_str i = as_str j \<Longrightarrow> i = j"
begin

lemma new_iff: "new s = Inr i \<longleftrightarrow> valid s \<and> as_str i = s"
proof
  assume new: "new s = Inr i"
  then have "valid s" using refuses by fastforce
  with new accepts show "valid s \<and> as_str i = s" by fastforce
next
  assume "valid s \<and> as_str i = s"
  then obtain j where "new s = Inr j" "as_str j = as_str i" using accepts by blast
  then show "new s = Inr i" using as_str_inj by blast
qed

lemma wire_round_trip: "new s = Inr i \<Longrightarrow> new (as_str i) = Inr i"
  unfolding new_iff by simp

lemma new_inj: "new s = Inr i \<Longrightarrow> new t = Inr i \<Longrightarrow> s = t"
  unfolding new_iff by simp

lemma valid_value: "new s = Inr i \<Longrightarrow> valid (as_str i)"
  unfolding new_iff by simp

end

definition valid_name :: "string \<Rightarrow> bool" where
  "valid_name s \<longleftrightarrow> s \<noteq> [] \<and> list_all name_char s"

definition valid_handle :: "string \<Rightarrow> bool" where
  "valid_handle s \<longleftrightarrow> s \<noteq> []"

lemmas name_defs = validated_name_def nonempty_name_def valid_name_def valid_handle_def

lemma name_injs [intro]:
  "ControlId_as_str a = ControlId_as_str b \<Longrightarrow> a = b"
  "OptionId_as_str c = OptionId_as_str d \<Longrightarrow> c = d"
  "Nonce_as_str e = Nonce_as_str f \<Longrightarrow> e = f"
  "IdempotencyKey_as_str g = IdempotencyKey_as_str h \<Longrightarrow> g = h"
  "SecretRef_as_str i = SecretRef_as_str j \<Longrightarrow> i = j"
  "HandlerId_as_str k = HandlerId_as_str l \<Longrightarrow> k = l"
  "SurfaceFeature_as_str m = SurfaceFeature_as_str n \<Longrightarrow> m = n"
proof goal_cases
  case 1
  then show ?case by (cases a; cases b) simp
next
  case 2
  then show ?case by (cases c; cases d) simp
next
  case 3
  then show ?case by (cases e; cases f) simp
next
  case 4
  then show ?case by (cases g; cases h) simp
next
  case 5
  then show ?case by (cases i; cases j) simp
next
  case 6
  then show ?case by (cases k; cases l) simp
next
  case 7
  then show ?case by (cases m; cases n) simp
qed

interpretation control_name: validated_newtype ControlId_new ControlId_as_str valid_name
  by unfold_locales (auto simp: ControlId_new_def name_defs)

interpretation option_name: validated_newtype OptionId_new OptionId_as_str valid_name
  by unfold_locales (auto simp: OptionId_new_def name_defs)

interpretation nonce_handle: validated_newtype Nonce_new Nonce_as_str valid_handle
  by unfold_locales (auto simp: Nonce_new_def name_defs)

interpretation key_handle:
  validated_newtype IdempotencyKey_new IdempotencyKey_as_str valid_handle
  by unfold_locales (auto simp: IdempotencyKey_new_def name_defs)

interpretation secret_handle: validated_newtype SecretRef_new SecretRef_as_str valid_handle
  by unfold_locales (auto simp: SecretRef_new_def name_defs)

interpretation handler_handle: validated_newtype HandlerId_new HandlerId_as_str valid_handle
  by unfold_locales (auto simp: HandlerId_new_def name_defs)

interpretation feature_handle:
  validated_newtype SurfaceFeature_new SurfaceFeature_as_str valid_handle
  by unfold_locales (auto simp: SurfaceFeature_new_def name_defs)

lemma content_id_parse_Inr_iff:
  "content_id_parse cid_parse cid_show k t = Inr c \<longleftrightarrow> cid_parse t = Some c \<and> cid_show c = t"
  by (auto simp: content_id_parse_def split: option.splits)

lemma ResponseId_parse_Inr_iff:
  "ResponseId_parse cid_parse cid_show t = Inr r \<longleftrightarrow>
     (\<exists>c. r = ResponseId c \<and> cid_parse t = Some c \<and> cid_show c = t)"
  by (auto simp: ResponseId_parse_def rbind_Inr_iff content_id_parse_Inr_iff)

section \<open>Properties\<close>

text \<open>
  Two strings never name one record: whatever the content-id parser accepts, the
  definition, instance and response id parsers accept a string only when it is the id's own
  rendering, so each id has at most one accepted spelling.
\<close>

theorem one_spelling_per_id:
  "(DefinitionId_parse cid_parse cid_show s = Inr d \<longrightarrow> s = DefinitionId_show cid_show d) \<and>
   (InstanceId_parse cid_parse cid_show s = Inr i \<longrightarrow> s = InstanceId_show cid_show i) \<and>
   (ResponseId_parse cid_parse cid_show s = Inr r \<longrightarrow> s = ResponseId_show cid_show r)"
  by (auto simp: DefinitionId_parse_def InstanceId_parse_def ResponseId_parse_def rbind_Inr_iff
      content_id_parse_Inr_iff)

lemma one_spelling_per_id_witness:
  "''abc'' = DefinitionId_show (\<lambda>c. c) (DefinitionId ''abc'')"
proof -
  have "DefinitionId_parse Some (\<lambda>c. c) ''abc'' =
      (Inr (DefinitionId ''abc'') :: unit protocol_error + string definition_id)"
    by code_simp
  from one_spelling_per_id [THEN conjunct1, rule_format, OF this] show ?thesis .
qed

text \<open>
  A name or handle is valid wherever it came from: the constructor, which decoding uses
  too, accepts exactly the strings the rule allows (letters, digits, dash and underscore for
  controls and options; any non-empty text for the other five), keeps the text unchanged, and
  so re-encoding and decoding a value gives it back.
\<close>

theorem names_are_validated:
  "(ControlId_new s = Inr c \<longleftrightarrow> s \<noteq> [] \<and> list_all name_char s \<and> ControlId_as_str c = s) \<and>
   (OptionId_new s = Inr p \<longleftrightarrow> s \<noteq> [] \<and> list_all name_char s \<and> OptionId_as_str p = s) \<and>
   (Nonce_new s = Inr n \<longleftrightarrow> s \<noteq> [] \<and> Nonce_as_str n = s) \<and>
   (IdempotencyKey_new s = Inr k \<longleftrightarrow> s \<noteq> [] \<and> IdempotencyKey_as_str k = s) \<and>
   (SecretRef_new s = Inr r \<longleftrightarrow> s \<noteq> [] \<and> SecretRef_as_str r = s) \<and>
   (HandlerId_new s = Inr h \<longleftrightarrow> s \<noteq> [] \<and> HandlerId_as_str h = s) \<and>
   (SurfaceFeature_new s = Inr f \<longleftrightarrow> s \<noteq> [] \<and> SurfaceFeature_as_str f = s)"
  by (simp add: control_name.new_iff option_name.new_iff nonce_handle.new_iff
      key_handle.new_iff secret_handle.new_iff handler_handle.new_iff feature_handle.new_iff
      valid_name_def valid_handle_def)

end
