(* ===== verification/InteractionDefinition.thy ===== *)
theory InteractionDefinition
  imports InteractionIds
begin

text \<open>
  The semantic definition of an interaction (\<^verbatim>\<open>newt-interaction/src/definition.rs\<close> and
  \<^verbatim>\<open>tag.rs\<close>): its records, the shape rule that separates a decision from a pick, and
  \<^verbatim>\<open>ControlKind::check_text\<close>, which decides whether typed text is a well-formed answer
  to a control. A definition may come from untrusted markup, so its bounds and steps are any
  \<^verbatim>\<open>i64\<close>; they are \<^typ>\<open>int\<close>s here, and the grid offset is computed without
  wrapping, as the code does in \<^verbatim>\<open>i128\<close>.
\<close>

section \<open>Records\<close>

definition DEFINITION_SCHEMA_V1 :: string where
  "DEFINITION_SCHEMA_V1 = ''newt.interaction.definition/v1''"

datatype definition_tag = DefinitionTag

datatype interaction_kind =
    InteractionKind_Choice
  | InteractionKind_Prompt
  | InteractionKind_Confirm
  | InteractionKind_Form
  | InteractionKind_Notice

datatype semantic_role =
    SemanticRole_Allow
  | SemanticRole_Deny
  | SemanticRole_Cancel
  | SemanticRole_Exit
  | SemanticRole_Value

datatype requirement = Requirement_Required | Requirement_Optional

record choice_option =
  co_id :: option_id
  co_role :: semantic_role
  co_label :: string
  co_key :: string
  co_aliases :: "string list"

datatype temporal_precision =
    TemporalPrecision_Date
  | TemporalPrecision_Time
  | TemporalPrecision_DateTime
  | TemporalPrecision_Month
  | TemporalPrecision_Week

datatype path_kind = PathKind_File | PathKind_Directory

datatype control_kind =
    ControlKind_Choice "choice_option list"
  | ControlKind_Text
  | ControlKind_Toggle
  | ControlKind_Secret
  | ControlKind_Number "int option" "int option" "int option"
  | ControlKind_Range int int int
  | ControlKind_Temporal temporal_precision
  | ControlKind_Color
  | ControlKind_Path path_kind "string list"

record control =
  ctl_id :: control_id
  ctl_kind :: control_kind
  ctl_label :: string
  ctl_requirement :: requirement

record feature_demand =
  fd_feature :: surface_feature
  fd_requirement :: requirement

record interaction_definition =
  def_schema :: definition_tag
  def_kind :: interaction_kind
  def_revision :: revision
  def_markdown :: string
  def_controls :: "control list"
  def_features :: "feature_demand list"
  def_note :: "string option"

definition definition_id ::
    "(interaction_definition \<Rightarrow> 'x + 'c) \<Rightarrow> interaction_definition \<Rightarrow>
      'x protocol_error + 'c definition_id" where
  "definition_id def_cid d =
     rbind (map_err ProtocolError_Identity (def_cid d)) (\<lambda>c. Inr (DefinitionId c))"

section \<open>Decision shape\<close>

definition decides :: "semantic_role \<Rightarrow> bool" where
  "decides r \<longleftrightarrow> r = SemanticRole_Deny \<or> r = SemanticRole_Cancel"

definition controls_are_decision_shaped :: "control list \<Rightarrow> bool" where
  "controls_are_decision_shaped controls =
     (case controls of
        [c] \<Rightarrow>
          (case ctl_kind c of
             ControlKind_Choice opts \<Rightarrow>
               (case opts of
                  [a, b] \<Rightarrow>
                    co_role a = SemanticRole_Allow \<and> decides (co_role b) \<or>
                    co_role b = SemanticRole_Allow \<and> decides (co_role a)
                | _ \<Rightarrow> False)
           | _ \<Rightarrow> False)
      | _ \<Rightarrow> False)"

definition is_decision_shaped :: "interaction_definition \<Rightarrow> bool" where
  "is_decision_shaped d = controls_are_decision_shaped (def_controls d)"

definition is_lone_toggle :: "interaction_definition \<Rightarrow> bool" where
  "is_lone_toggle d =
     (case def_controls d of [c] \<Rightarrow> ctl_kind c = ControlKind_Toggle | _ \<Rightarrow> False)"

text \<open>
  The constructor. Its two \<^verbatim>\<open>debug_assert!\<close> guards panic when debug assertions are
  compiled in (\<open>debug\<close>); a panic is \<^const>\<open>Inl\<close> of the guard's number.
\<close>

definition InteractionDefinition_new ::
    "bool \<Rightarrow> interaction_kind \<Rightarrow> string \<Rightarrow> control list \<Rightarrow> nat + interaction_definition" where
  "InteractionDefinition_new debug kind markdown controls =
     (let built = \<lparr>def_schema = DefinitionTag, def_kind = kind, def_revision = Revision_FIRST,
                   def_markdown = markdown, def_controls = controls, def_features = [],
                   def_note = None\<rparr> in
      if debug \<and> \<not> (\<not> is_decision_shaped built \<or> kind = InteractionKind_Confirm) then Inl 1
      else if debug \<and> \<not> (kind \<noteq> InteractionKind_Confirm \<or> controls = [] \<or>
                          is_decision_shaped built \<or> is_lone_toggle built) then Inl 2
      else Inr built)"

section \<open>Checking an answer\<close>

fun pattern :: "temporal_precision \<Rightarrow> string" where
  "pattern TemporalPrecision_Date = ''YYYY-MM-DD''"
| "pattern TemporalPrecision_Time = ''HH:MM[:SS]''"
| "pattern TemporalPrecision_DateTime = ''YYYY-MM-DDTHH:MM[:SS]''"
| "pattern TemporalPrecision_Month = ''YYYY-MM''"
| "pattern TemporalPrecision_Week = ''YYYY-Www''"

definition describe_number :: "int option \<Rightarrow> int option \<Rightarrow> int option \<Rightarrow> string" where
  "describe_number lo hi st =
     (let range =
        (case (lo, hi) of
           (Some a, Some b) \<Rightarrow> ''an integer in '' @ show_int a @ ''..='' @ show_int b
         | (Some a, None) \<Rightarrow> ''an integer '' @ show_int a @ '' or greater''
         | (None, Some b) \<Rightarrow> ''an integer '' @ show_int b @ '' or less''
         | (None, None) \<Rightarrow> ''an integer'') in
      case st of
        Some s \<Rightarrow> if 1 < s then range @ '', in steps of '' @ show_int s else range
      | None \<Rightarrow> range)"

definition check_integer ::
    "string \<Rightarrow> int option \<Rightarrow> int option \<Rightarrow> int option \<Rightarrow> string \<Rightarrow> string + unit" where
  "check_integer text lo hi st expected =
     (case parse_i64 text of
        None \<Rightarrow> Inl expected
      | Some v \<Rightarrow>
          if (case lo of None \<Rightarrow> False | Some a \<Rightarrow> v < a) \<or>
             (case hi of None \<Rightarrow> False | Some b \<Rightarrow> b < v) then Inl expected
          else (case st of
              None \<Rightarrow> Inr ()
            | Some s \<Rightarrow>
                if 1 < s then
                  (let base = (case lo of None \<Rightarrow> 0 | Some a \<Rightarrow> a); offset = v - base in
                   if offset mod s \<noteq> 0 then Inl expected else Inr ())
                else Inr ()))"

definition check_color :: "string \<Rightarrow> string + unit" where
  "check_color text =
     rbind (ok_or ''#rrggbb'' (strip_prefix ''#'' text)) (\<lambda>hex.
       guard (length hex = 6 \<and> list_all is_ascii_hexdigit hex) ''#rrggbb'')"

definition number_in :: "string \<Rightarrow> nat \<Rightarrow> nat \<Rightarrow> nat \<Rightarrow> nat option" where
  "number_in field width lo hi =
     (if length field \<noteq> width \<or> \<not> list_all is_ascii_digit field then None
      else case parse_u32 field of
          None \<Rightarrow> None
        | Some n \<Rightarrow> if lo \<le> n \<and> n \<le> hi then Some n else None)"

text \<open>One step of the code's \<^verbatim>\<open>parts\<close> iterator: the next field must be a number.\<close>

definition next_number ::
    "string \<Rightarrow> nat \<Rightarrow> nat \<Rightarrow> string list \<Rightarrow> string + string list" where
  "next_number expected lo hi parts =
     (case parts of
        [] \<Rightarrow> Inl expected
      | p # rest \<Rightarrow>
          (case number_in p 2 lo hi of None \<Rightarrow> Inl expected | Some _ \<Rightarrow> Inr rest))"

definition check_date_part :: "string \<Rightarrow> temporal_precision \<Rightarrow> string \<Rightarrow> string + unit" where
  "check_date_part expected precision date =
     (case split_on CHR ''-'' date of
        [] \<Rightarrow> Inl expected
      | year # parts \<Rightarrow>
          if length year \<noteq> 4 \<or> \<not> list_all is_ascii_digit year then Inl expected
          else rbind
            (case precision of
               TemporalPrecision_Week \<Rightarrow>
                 (case parts of
                    [] \<Rightarrow> Inl expected
                  | week # rest \<Rightarrow>
                      rbind (ok_or expected (strip_prefix ''W'' week)) (\<lambda>n.
                      rbind (ok_or expected (number_in n 2 1 53)) (\<lambda>_. Inr rest)))
             | TemporalPrecision_Month \<Rightarrow> next_number expected 1 12 parts
             | _ \<Rightarrow> rbind (next_number expected 1 12 parts) (next_number expected 1 31))
            (\<lambda>rest. guard (rest = []) expected))"

definition check_time_part :: "string \<Rightarrow> string \<Rightarrow> string + unit" where
  "check_time_part expected time =
     rbind (next_number expected 0 23 (split_on CHR '':'' time)) (\<lambda>parts.
     rbind (next_number expected 0 59 parts) (\<lambda>parts.
     rbind (case parts of [] \<Rightarrow> Inr [] | _ # _ \<Rightarrow> next_number expected 0 60 parts) (\<lambda>parts.
       guard (parts = []) expected)))"

definition check_temporal :: "string \<Rightarrow> temporal_precision \<Rightarrow> string + unit" where
  "check_temporal text precision =
     (let expected = pattern precision in
      rbind
        (case precision of
           TemporalPrecision_DateTime \<Rightarrow>
             (case split_once CHR ''T'' text of
                None \<Rightarrow> Inl expected
              | Some (d, t) \<Rightarrow> Inr (Some d, Some t))
         | TemporalPrecision_Time \<Rightarrow> Inr (None, Some text)
         | _ \<Rightarrow> Inr (Some text, None))
        (\<lambda>(date, time).
           rbind (case date of None \<Rightarrow> Inr () | Some d \<Rightarrow> check_date_part expected precision d)
             (\<lambda>_. case time of None \<Rightarrow> Inr () | Some t \<Rightarrow> check_time_part expected t)))"

definition check_text :: "control_kind \<Rightarrow> string \<Rightarrow> string + unit" where
  "check_text kind txt =
     (let text = trim txt in
      case kind of
        ControlKind_Choice _ \<Rightarrow> Inr ()
      | ControlKind_Toggle \<Rightarrow> Inr ()
      | ControlKind_Secret \<Rightarrow> Inr ()
      | ControlKind_Text \<Rightarrow> Inr ()
      | ControlKind_Number lo hi st \<Rightarrow> check_integer text lo hi st (describe_number lo hi st)
      | ControlKind_Range lo hi st \<Rightarrow>
          check_integer text (Some lo) (Some hi) (Some st)
            (describe_number (Some lo) (Some hi) (Some st))
      | ControlKind_Temporal precision \<Rightarrow> check_temporal text precision
      | ControlKind_Color \<Rightarrow> check_color text
      | ControlKind_Path _ _ \<Rightarrow> ok_or ''a path'' (if text \<noteq> [] then Some () else None))"

definition hint :: "control_kind \<Rightarrow> string" where
  "hint kind =
     (case kind of
        ControlKind_Choice _ \<Rightarrow> ''''
      | ControlKind_Text \<Rightarrow> ''''
      | ControlKind_Toggle \<Rightarrow> '' [y/n]''
      | ControlKind_Secret \<Rightarrow> '' (secret, not echoed)''
      | ControlKind_Number lo hi st \<Rightarrow>
          (case (lo, hi) of
             (None, None) \<Rightarrow> '' [number]''
           | _ \<Rightarrow> '' ['' @ describe_number lo hi st @ '']'')
      | ControlKind_Range lo hi _ \<Rightarrow> '' ['' @ show_int lo @ ''..='' @ show_int hi @ '']''
      | ControlKind_Temporal precision \<Rightarrow> '' ['' @ pattern precision @ '']''
      | ControlKind_Color \<Rightarrow> '' [#rrggbb]''
      | ControlKind_Path kind _ \<Rightarrow>
          (case kind of
             PathKind_File \<Rightarrow> '' [file path]''
           | PathKind_Directory \<Rightarrow> '' [directory path]''))"

fun travels_as_text :: "control_kind \<Rightarrow> bool" where
  "travels_as_text ControlKind_Text = True"
| "travels_as_text (ControlKind_Number _ _ _) = True"
| "travels_as_text (ControlKind_Range _ _ _) = True"
| "travels_as_text (ControlKind_Temporal _) = True"
| "travels_as_text ControlKind_Color = True"
| "travels_as_text (ControlKind_Path _ _) = True"
| "travels_as_text (ControlKind_Choice _) = False"
| "travels_as_text ControlKind_Toggle = False"
| "travels_as_text ControlKind_Secret = False"

section \<open>The grammar of answers\<close>

text \<open>
  The specification of \<^const>\<open>check_text\<close>: the trimmed text of a well-formed answer to
  each kind of control, stated without reference to how the code scans it.
\<close>

definition two :: "nat \<Rightarrow> string" where
  "two n = [digit_char (n div 10), digit_char (n mod 10)]"

definition year_text :: "string \<Rightarrow> bool" where
  "year_text y \<longleftrightarrow> length y = 4 \<and> list_all is_ascii_digit y"

definition date_text :: "string \<Rightarrow> bool" where
  "date_text s \<longleftrightarrow>
     (\<exists>y m d. year_text y \<and> 1 \<le> m \<and> m \<le> 12 \<and> 1 \<le> d \<and> d \<le> 31 \<and>
        s = y @ ''-'' @ two m @ ''-'' @ two d)"

definition month_text :: "string \<Rightarrow> bool" where
  "month_text s \<longleftrightarrow> (\<exists>y m. year_text y \<and> 1 \<le> m \<and> m \<le> 12 \<and> s = y @ ''-'' @ two m)"

definition week_text :: "string \<Rightarrow> bool" where
  "week_text s \<longleftrightarrow> (\<exists>y w. year_text y \<and> 1 \<le> w \<and> w \<le> 53 \<and> s = y @ ''-W'' @ two w)"

definition time_text :: "string \<Rightarrow> bool" where
  "time_text s \<longleftrightarrow>
     (\<exists>h m. h \<le> 23 \<and> m \<le> 59 \<and>
        (s = two h @ '':'' @ two m \<or> (\<exists>n \<le> 60. s = two h @ '':'' @ two m @ '':'' @ two n)))"

definition temporal_text :: "temporal_precision \<Rightarrow> string \<Rightarrow> bool" where
  "temporal_text p s \<longleftrightarrow>
     (case p of
        TemporalPrecision_Date \<Rightarrow> date_text s
      | TemporalPrecision_Time \<Rightarrow> time_text s
      | TemporalPrecision_DateTime \<Rightarrow> (\<exists>d t. date_text d \<and> time_text t \<and> s = d @ ''T'' @ t)
      | TemporalPrecision_Month \<Rightarrow> month_text s
      | TemporalPrecision_Week \<Rightarrow> week_text s)"

definition integer_text :: "int option \<Rightarrow> int option \<Rightarrow> int option \<Rightarrow> string \<Rightarrow> bool" where
  "integer_text lo hi st s \<longleftrightarrow>
     (\<exists>v. parse_i64 s = Some v \<and> (\<forall>a. lo = Some a \<longrightarrow> a \<le> v) \<and> (\<forall>b. hi = Some b \<longrightarrow> v \<le> b) \<and>
        (\<forall>k. st = Some k \<longrightarrow> 1 < k \<longrightarrow> k dvd v - (case lo of None \<Rightarrow> 0 | Some a \<Rightarrow> a)))"

definition answer_text :: "control_kind \<Rightarrow> string \<Rightarrow> bool" where
  "answer_text kind s \<longleftrightarrow>
     (case kind of
        ControlKind_Number lo hi st \<Rightarrow> integer_text lo hi st s
      | ControlKind_Range lo hi st \<Rightarrow> integer_text (Some lo) (Some hi) (Some st) s
      | ControlKind_Temporal p \<Rightarrow> temporal_text p s
      | ControlKind_Color \<Rightarrow> (\<exists>h. s = ''#'' @ h \<and> length h = 6 \<and> list_all is_ascii_hexdigit h)
      | ControlKind_Path _ _ \<Rightarrow> s \<noteq> []
      | _ \<Rightarrow> True)"

definition expectation :: "control_kind \<Rightarrow> string" where
  "expectation kind =
     (case kind of
        ControlKind_Number lo hi st \<Rightarrow> describe_number lo hi st
      | ControlKind_Range lo hi st \<Rightarrow> describe_number (Some lo) (Some hi) (Some st)
      | ControlKind_Temporal p \<Rightarrow> pattern p
      | ControlKind_Color \<Rightarrow> ''#rrggbb''
      | ControlKind_Path _ _ \<Rightarrow> ''a path''
      | _ \<Rightarrow> '''')"

lemma digit_char_of_digit: "is_ascii_digit c \<Longrightarrow> digit_char (of_char c - 48) = c"
  by (simp add: is_ascii_digit_def digit_char_def)

lemma digit_value_less: "is_ascii_digit c \<Longrightarrow> of_char c - 48 < (10::nat)"
  by (auto simp: is_ascii_digit_def)

lemma two_digits: "n < 100 \<Longrightarrow> list_all is_ascii_digit (two n)"
  by (simp add: two_def)

lemma not_digit_sep [simp]:
  "\<not> is_ascii_digit CHR '':''" "\<not> is_ascii_digit CHR ''T''" "\<not> is_ascii_digit CHR ''W''"
  by code_simp+

lemma digits_no_sep: "list_all is_ascii_digit s \<Longrightarrow> \<not> is_ascii_digit c \<Longrightarrow> c \<notin> set s"
  by (auto simp: list_all_iff)

lemma parse_u32_two: "n < 100 \<Longrightarrow> parse_u32 (two n) = Some n"
proof -
  assume n: "n < 100"
  then have "n div 10 < 10" by simp
  then have "digit_char (n div 10) \<noteq> CHR ''+''"
    using is_ascii_digit_char not_digit(1) by metis
  with n show ?thesis
    by (simp add: parse_u32_def parse_bounded_def parse_unsigned_def two_def of_digit_char)
qed

lemma number_in_two_iff:
  assumes "hi < 100"
  shows "number_in f 2 lo hi = Some n \<longleftrightarrow> f = two n \<and> lo \<le> n \<and> n \<le> hi"
proof
  assume num: "number_in f 2 lo hi = Some n"
  then have len: "length f = 2" and dig: "list_all is_ascii_digit f"
    and val: "parse_u32 f = Some n" "lo \<le> n" "n \<le> hi"
    by (auto simp: number_in_def split: if_splits option.splits)
  from len obtain a b where f: "f = [a, b]"
    by (auto simp: numeral_2_eq_2 length_Suc_conv)
  with dig have ab: "is_ascii_digit a" "is_ascii_digit b" by simp_all
  let ?m = "10 * (of_char a - 48) + (of_char b - 48) :: nat"
  have "f = two ?m"
    using digit_char_of_digit ab digit_value_less [OF ab(1)] digit_value_less [OF ab(2)]
    by (simp add: f two_def)
  moreover have "?m < 100" using digit_value_less [OF ab(1)] digit_value_less [OF ab(2)] by arith
  ultimately show "f = two n \<and> lo \<le> n \<and> n \<le> hi" using val parse_u32_two by force
next
  assume "f = two n \<and> lo \<le> n \<and> n \<le> hi"
  with assms show "number_in f 2 lo hi = Some n"
    using two_digits [of n] by (simp add: number_in_def parse_u32_two) (simp add: two_def)
qed

lemma next_number_Inr_iff:
  assumes "hi < 100"
  shows "next_number e lo hi parts = Inr rest \<longleftrightarrow>
    (\<exists>n. parts = two n # rest \<and> lo \<le> n \<and> n \<le> hi)"
proof (cases parts)
  case (Cons p ps)
  have "(\<exists>n. number_in p 2 lo hi = Some n) \<longleftrightarrow> (\<exists>n. p = two n \<and> lo \<le> n \<and> n \<le> hi)"
    using number_in_two_iff [OF assms] by blast
  with Cons show ?thesis by (auto simp: next_number_def split: option.splits)
qed (simp add: next_number_def)

lemma next_number_Inl: "next_number e lo hi parts = Inl x \<Longrightarrow> x = e"
  by (auto simp: next_number_def split: list.splits option.splits)

lemma two_no_sep:
  "n < 100 \<Longrightarrow> \<not> is_ascii_digit c \<Longrightarrow> c \<notin> set (two n)"
  using two_digits digits_no_sep by blast

lemma year_no_sep: "year_text y \<Longrightarrow> \<not> is_ascii_digit c \<Longrightarrow> c \<notin> set y"
  unfolding year_text_def using digits_no_sep by blast

lemma guard_nil_iff: "guard (xs = []) e = Inr () \<longleftrightarrow> xs = []"
  by (simp add: guard_def)

lemma check_date_part_date:
  assumes "p \<noteq> TemporalPrecision_Week" "p \<noteq> TemporalPrecision_Month"
  shows "check_date_part e p s = Inr () \<longleftrightarrow> date_text s"
proof -
  have "check_date_part e p s = Inr () \<longleftrightarrow>
      (\<exists>y m d. year_text y \<and> 1 \<le> m \<and> m \<le> 12 \<and> 1 \<le> d \<and> d \<le> 31 \<and>
        split_on CHR ''-'' s = [y, two m, two d])"
    using assms
    by (cases p) (auto simp: check_date_part_def year_text_def result_simps
        next_number_Inr_iff guard_nil_iff split: list.splits if_splits)
  also have "\<dots> \<longleftrightarrow> date_text s"
    unfolding date_text_def split_on_eq_iff
    by (intro ex_cong1 conj_cong refl) (auto simp: two_no_sep year_no_sep)
  finally show ?thesis .
qed

lemma check_date_part_month:
  "check_date_part e TemporalPrecision_Month s = Inr () \<longleftrightarrow> month_text s"
proof -
  have "check_date_part e TemporalPrecision_Month s = Inr () \<longleftrightarrow>
      (\<exists>y m. year_text y \<and> 1 \<le> m \<and> m \<le> 12 \<and> split_on CHR ''-'' s = [y, two m])"
    by (auto simp: check_date_part_def year_text_def result_simps
        next_number_Inr_iff guard_nil_iff split: list.splits if_splits)
  also have "\<dots> \<longleftrightarrow> month_text s"
    unfolding month_text_def split_on_eq_iff
    by (intro ex_cong1 conj_cong refl) (auto simp: two_no_sep year_no_sep)
  finally show ?thesis .
qed

lemma check_date_part_week:
  "check_date_part e TemporalPrecision_Week s = Inr () \<longleftrightarrow> week_text s"
proof -
  have "check_date_part e TemporalPrecision_Week s = Inr () \<longleftrightarrow>
      (\<exists>y w. year_text y \<and> 1 \<le> w \<and> w \<le> 53 \<and> split_on CHR ''-'' s = [y, ''W'' @ two w])"
    by (auto simp: check_date_part_def year_text_def result_simps number_in_two_iff
        strip_prefix_Some_iff guard_nil_iff split: list.splits if_splits)
  also have "\<dots> \<longleftrightarrow> week_text s"
    unfolding week_text_def split_on_eq_iff
    by (intro ex_cong1 conj_cong refl) (auto simp: two_no_sep year_no_sep)
  finally show ?thesis .
qed

lemma seconds_part:
  "rbind (case parts of [] \<Rightarrow> Inr [] | _ # _ \<Rightarrow> next_number e 0 60 parts)
     (\<lambda>parts. guard (parts = []) e) = Inr () \<longleftrightarrow> parts = [] \<or> (\<exists>n \<le> 60. parts = [two n])"
  by (cases parts) (auto simp: result_simps next_number_Inr_iff guard_nil_iff)

lemma check_time_part_iff: "check_time_part e s = Inr () \<longleftrightarrow> time_text s"
proof -
  have "check_time_part e s = Inr () \<longleftrightarrow>
      (\<exists>h m. h \<le> 23 \<and> m \<le> 59 \<and> (split_on CHR '':'' s = [two h, two m] \<or>
         (\<exists>n \<le> 60. split_on CHR '':'' s = [two h, two m, two n])))"
    unfolding check_time_part_def rbind_Inr_iff [of "next_number _ _ _ _"] seconds_part
    by (simp add: next_number_Inr_iff) blast
  also have "\<dots> \<longleftrightarrow> time_text s"
    unfolding time_text_def split_on_eq_iff
    by (intro ex_cong1 conj_cong disj_cong refl) (auto simp: two_no_sep)
  finally show ?thesis .
qed

lemma check_temporal_iff: "check_temporal s p = Inr () \<longleftrightarrow> temporal_text p s"
proof (cases p)
  case TemporalPrecision_DateTime
  have "check_temporal s p = Inr () \<longleftrightarrow>
      (\<exists>d t. split_once CHR ''T'' s = Some (d, t) \<and> date_text d \<and> time_text t)"
    using TemporalPrecision_DateTime
    by (auto simp: check_temporal_def Let_def result_simps check_date_part_date
        check_time_part_iff split: option.splits)
  also have "\<dots> \<longleftrightarrow> (\<exists>d t. date_text d \<and> time_text t \<and> s = d @ ''T'' @ t)"
  proof -
    have "CHR ''T'' \<notin> set d" if date: "date_text d" for d
    proof -
      from date obtain y m n where "year_text y" "m \<le> 12" "n \<le> 31"
        and d: "d = y @ ''-'' @ two m @ ''-'' @ two n"
        by (auto simp: date_text_def)
      then have "CHR ''T'' \<notin> set y" "CHR ''T'' \<notin> set (two m)" "CHR ''T'' \<notin> set (two n)"
        using year_no_sep [of y "CHR ''T''"] two_no_sep [of _ "CHR ''T''"] by simp_all
      then show ?thesis unfolding d by simp
    qed
    then show ?thesis unfolding split_once_Some_iff by auto
  qed
  finally show ?thesis by (simp add: temporal_text_def TemporalPrecision_DateTime)
qed (auto simp: check_temporal_def Let_def temporal_text_def result_simps check_date_part_date
    check_date_part_month check_date_part_week check_time_part_iff)

lemma check_date_part_Inl: "check_date_part e p s = Inl x \<Longrightarrow> x = e"
  by (auto simp: check_date_part_def result_simps dest: next_number_Inl
      split: list.splits if_splits temporal_precision.splits)

lemma seconds_part_Inl:
  "rbind (case parts of [] \<Rightarrow> Inr [] | _ # _ \<Rightarrow> next_number e 0 60 parts)
     (\<lambda>parts. guard (parts = []) e) = Inl x \<Longrightarrow> x = e"
  by (cases parts) (auto simp: result_simps dest: next_number_Inl)

lemma check_time_part_Inl: "check_time_part e s = Inl x \<Longrightarrow> x = e"
  unfolding check_time_part_def rbind_Inl_iff [of "next_number _ _ _ _"]
  using next_number_Inl seconds_part_Inl by blast

lemma check_temporal_Inl: "check_temporal s p = Inl x \<Longrightarrow> x = pattern p"
  by (cases p) (auto simp: check_temporal_def Let_def result_simps
      dest: check_date_part_Inl check_time_part_Inl split: option.splits)

lemma check_integer_iff: "check_integer s lo hi st e = Inr () \<longleftrightarrow> integer_text lo hi st s"
  by (auto simp: check_integer_def integer_text_def Let_def not_less mod_eq_0_iff_dvd
      split: option.splits if_splits)

lemma check_integer_Inl: "check_integer s lo hi st e = Inl x \<Longrightarrow> x = e"
  by (auto simp: check_integer_def Let_def split: option.splits if_splits)

lemma check_color_iff:
  "check_color s = Inr () \<longleftrightarrow> (\<exists>h. s = ''#'' @ h \<and> length h = 6 \<and> list_all is_ascii_hexdigit h)"
  by (auto simp: check_color_def result_simps strip_prefix_Some_iff)

lemma check_color_Inl: "check_color s = Inl x \<Longrightarrow> x = ''#rrggbb''"
  by (auto simp: check_color_def result_simps)

lemma check_text_iff: "check_text k s = Inr () \<longleftrightarrow> answer_text k (trim s)"
  by (cases k) (auto simp: check_text_def answer_text_def check_integer_iff check_temporal_iff
      check_color_iff)

lemma check_text_Inl: "check_text k s = Inl x \<Longrightarrow> x = expectation k"
  by (cases k) (auto simp: check_text_def expectation_def split: if_splits
      dest: check_integer_Inl check_temporal_Inl check_color_Inl)

section \<open>Properties\<close>

text \<open>
  C40. Typed answers are checked against the grammar of their control, for every definition
  an author may write: after trimming, the text is accepted if and only if it is a date, time,
  date-time, month or ISO week of the asked precision with every field in range, an integer in
  bounds and on the grid, a seven-character color, a non-empty path, or anything at all for
  the other kinds; a refused text is refused with the control's own expectation.
\<close>

theorem check_text_grammar:
  "check_text k s = (if answer_text k (trim s) then Inr () else Inl (expectation k))"
proof (cases "check_text k s")
  case (Inl x)
  then have "\<not> answer_text k (trim s)" using check_text_iff [of k s] by auto
  with Inl check_text_Inl [OF Inl] show ?thesis by simp
next
  case (Inr u)
  then show ?thesis using check_text_iff [of k s] by auto
qed

text \<open>
  No bound or step a definition declares locks out a value it should accept: an
  \<^verbatim>\<open>i64\<close> written the way Rust prints it is accepted by a range control exactly when it
  lies between the ends and on the grid counted from the lower end, at both extremes of the
  type as well; a step of one or less, hostile ones included, puts no grid at all.
\<close>

theorem range_accepts_exactly:
  assumes "in_i64 v"
  shows "(check_text (ControlKind_Range lo hi st) (show_int v) = Inr () \<longleftrightarrow>
            lo \<le> v \<and> v \<le> hi \<and> (st \<le> 1 \<or> st dvd v - lo)) \<and>
         (check_text (ControlKind_Number None None (Some st)) (show_int v) = Inr () \<longleftrightarrow>
            st \<le> 1 \<or> st dvd v)"
  using parse_show_i64 [OF assms]
  by (auto simp: check_text_iff answer_text_def integer_text_def)

lemma range_accepts_exactly_witness:
  "check_text (ControlKind_Range i64_min i64_max 5) (show_int i64_max) = Inr ()"
proof -
  have "in_i64 i64_max" by code_simp
  moreover have "(5::int) dvd i64_max - i64_min" by code_simp
  moreover have "i64_min \<le> i64_max" by code_simp
  ultimately show ?thesis using range_accepts_exactly [of i64_max i64_min i64_max 5] by simp
qed

end
