(* ===== verification/InteractionLifecycle.thy ===== *)
theory InteractionLifecycle
  imports InteractionDefinition
begin

text \<open>
  Offers, responses and the host-minted lifecycle
  (\<^verbatim>\<open>newt-interaction/src/instance.rs\<close>, \<^verbatim>\<open>response.rs\<close>,
  \<^verbatim>\<open>lifecycle.rs\<close>). Record ids are minted by the arguments \<open>def_cid\<close>,
  \<open>inst_cid\<close> and \<open>resp_cid\<close>. \<^verbatim>\<open>HostMint\<close> has a private field in the code; here it
  is a one-element type, so holding one carries no information.
\<close>

section \<open>Offers\<close>

definition INSTANCE_SCHEMA_V1 :: string where
  "INSTANCE_SCHEMA_V1 = ''newt.interaction.instance/v1''"

datatype instance_tag = InstanceTag

datatype lifecycle_state =
    LifecycleState_Draft
  | LifecycleState_Published
  | LifecycleState_Answered
  | LifecycleState_Cancelled
  | LifecycleState_Expired
  | LifecycleState_Unsupported

datatype audience = Audience_Terminal | Audience_Web

record responder_policy =
  rp_audiences :: "audience list"
  rp_requires_assertion :: bool

record scope =
  sc_workspace_key :: string
  sc_conversation_id :: string

record provenance =
  pv_origin :: string
  pv_minted_tick :: int

record 'c interaction_instance =
  in_schema :: instance_tag
  in_nonce :: nonce
  in_definition :: "'c definition_id"
  in_revision :: revision
  in_ttl_ticks :: int
  in_scope :: scope
  in_responder_policy :: responder_policy
  in_provenance :: provenance

definition instance_id ::
    "('c interaction_instance \<Rightarrow> 'x + 'c) \<Rightarrow> 'c interaction_instance \<Rightarrow>
      'x protocol_error + 'c instance_id" where
  "instance_id inst_cid i =
     rbind (map_err ProtocolError_Identity (inst_cid i)) (\<lambda>c. Inr (InstanceId c))"

section \<open>Responses\<close>

definition RESPONSE_SCHEMA_V1 :: string where
  "RESPONSE_SCHEMA_V1 = ''newt.interaction.response/v1''"

datatype response_tag = ResponseTag

datatype control_value =
    ControlValue_Choice option_id
  | ControlValue_Text string
  | ControlValue_Toggle bool
  | ControlValue_Secret secret_ref

datatype assertion_kind =
    AssertionKind_TerminalOperator
  | AssertionKind_SignedAssertion
  | AssertionKind_Unauthenticated

record responder_provenance =
  pr_kind :: assertion_kind
  pr_subject :: string
  pr_audience :: audience
  pr_assertion :: "string option"

record submission =
  sub_control :: control_id
  sub_value :: control_value

record 'c response =
  rs_schema :: response_tag
  rs_definition :: "'c definition_id"
  rs_instance :: "'c instance_id"
  rs_revision :: revision
  rs_values :: "submission list"
  rs_idempotency_key :: idempotency_key
  rs_provenance :: responder_provenance

definition response_id ::
    "('c response \<Rightarrow> 'x + 'c) \<Rightarrow> 'c response \<Rightarrow> 'x protocol_error + 'c response_id" where
  "response_id resp_cid r =
     rbind (map_err ProtocolError_Identity (resp_cid r)) (\<lambda>c. Inr (ResponseId c))"

section \<open>The lifecycle\<close>

datatype host_mint = HostMint

datatype 'x lifecycle_error =
    LifecycleError_DefinitionMismatch string string
  | LifecycleError_RevisionMismatch u64 u64
  | LifecycleError_AlreadyTerminal lifecycle_state
  | LifecycleError_IllegalTransition lifecycle_state lifecycle_state
  | LifecycleError_Protocol "'x protocol_error"

record 'c lifecycle =
  lc_instance :: "'c instance_id"
  lc_state :: lifecycle_state

fun terminal :: "lifecycle_state \<Rightarrow> bool" where
  "terminal LifecycleState_Draft = False"
| "terminal LifecycleState_Published = False"
| "terminal LifecycleState_Answered = True"
| "terminal LifecycleState_Cancelled = True"
| "terminal LifecycleState_Expired = True"
| "terminal LifecycleState_Unsupported = True"

definition transition ::
    "'c lifecycle \<Rightarrow> lifecycle_state \<Rightarrow> 'x lifecycle_error + 'c lifecycle" where
  "transition l to =
     (if terminal (lc_state l) then Inl (LifecycleError_AlreadyTerminal (lc_state l))
      else if \<not> terminal to then Inl (LifecycleError_IllegalTransition (lc_state l) to)
      else Inr \<lparr>lc_instance = lc_instance l, lc_state = to\<rparr>)"

definition expire :: "'c lifecycle \<Rightarrow> 'x lifecycle_error + 'c lifecycle" where
  "expire l = transition l LifecycleState_Expired"

definition has_elapsed :: "'c interaction_instance \<Rightarrow> int \<Rightarrow> bool" where
  "has_elapsed i now_tick \<longleftrightarrow>
     sat_add_i64 (pv_minted_tick (in_provenance i)) (in_ttl_ticks i) \<le> now_tick"

definition publish ::
    "(interaction_definition \<Rightarrow> 'x + 'c) \<Rightarrow> ('c interaction_instance \<Rightarrow> 'x + 'c) \<Rightarrow>
      ('c \<Rightarrow> string) \<Rightarrow> host_mint \<Rightarrow> 'c interaction_instance \<Rightarrow> interaction_definition \<Rightarrow>
      'x lifecycle_error + 'c lifecycle" where
  "publish def_cid inst_cid cid_show mint i d =
     rbind (map_err LifecycleError_Protocol (definition_id def_cid d)) (\<lambda>presented.
     if in_definition i \<noteq> presented
     then Inl (LifecycleError_DefinitionMismatch
            (DefinitionId_show cid_show (in_definition i)) (DefinitionId_show cid_show presented))
     else if in_revision i \<noteq> def_revision d
     then Inl (LifecycleError_RevisionMismatch
            (Revision_get (in_revision i)) (Revision_get (def_revision d)))
     else rbind (map_err LifecycleError_Protocol (instance_id inst_cid i)) (\<lambda>iid.
       Inr \<lparr>lc_instance = iid, lc_state = LifecycleState_Published\<rparr>))"

section \<open>Facts about the lifecycle\<close>

lemma transition_Inr_iff:
  "transition l to = Inr l' \<longleftrightarrow>
     \<not> terminal (lc_state l) \<and> terminal to \<and> l' = \<lparr>lc_instance = lc_instance l, lc_state = to\<rparr>"
  by (auto simp: transition_def)

lemma terminal_absorbs:
  "terminal (lc_state l) \<Longrightarrow> transition l to = Inl (LifecycleError_AlreadyTerminal (lc_state l))"
  by (simp add: transition_def)

lemma publish_Inr_iff:
  "publish def_cid inst_cid cid_show mint i d = Inr l \<longleftrightarrow>
     (\<exists>iid. definition_id def_cid d = Inr (in_definition i) \<and> in_revision i = def_revision d \<and>
        instance_id inst_cid i = Inr iid \<and>
        l = \<lparr>lc_instance = iid, lc_state = LifecycleState_Published\<rparr>)"
  by (auto simp: publish_def result_simps split: if_splits)

text \<open>
  The lifecycles a host can hold for one offer, with the transitions it asked for: the offer
  is published, then transitions are applied, each to the last lifecycle obtained.
\<close>

inductive offer_run ::
    "(interaction_definition \<Rightarrow> 'x + 'c) \<Rightarrow> ('c interaction_instance \<Rightarrow> 'x + 'c) \<Rightarrow>
      ('c \<Rightarrow> string) \<Rightarrow> 'c interaction_instance \<Rightarrow> interaction_definition \<Rightarrow>
      lifecycle_state list \<Rightarrow> 'c lifecycle \<Rightarrow> bool"
  for def_cid :: "interaction_definition \<Rightarrow> 'x + 'c" and inst_cid cid_show i d where
  published: "publish def_cid inst_cid cid_show mint i d = Inr l \<Longrightarrow>
    offer_run def_cid inst_cid cid_show i d [] l"
| moved: "offer_run def_cid inst_cid cid_show i d tos l \<Longrightarrow>
    (transition l to :: 'x lifecycle_error + 'c lifecycle) = Inr l' \<Longrightarrow>
    offer_run def_cid inst_cid cid_show i d (tos @ [to]) l'"

inductive_cases offer_run_nil: "offer_run def_cid inst_cid cid_show i d [] l"

section \<open>Properties\<close>

text \<open>
  C13. An offer is decided at most once: a lifecycle the host obtained by publishing an offer
  and applying any transitions is still published and untouched, or took exactly one
  transition, to a terminal state, after which every further transition is refused; it always
  names the published offer, which binds the definition and revision the host presented, and
  it is never a draft again.
\<close>

theorem offer_decided_at_most_once:
  assumes "offer_run def_cid inst_cid cid_show i d tos l"
  shows "instance_id inst_cid i = Inr (lc_instance l) \<and>
    definition_id def_cid d = Inr (in_definition i) \<and> in_revision i = def_revision d \<and>
    (tos = [] \<and> lc_state l = LifecycleState_Published \<or>
     (\<exists>t. tos = [t] \<and> terminal t \<and> lc_state l = t \<and>
        (\<forall>to. transition l to = Inl (LifecycleError_AlreadyTerminal t))))"
  using assms
proof (induction rule: offer_run.induct)
  case (published mint l)
  then show ?case by (auto simp: publish_Inr_iff)
next
  case (moved tos l to l')
  then show ?case by (auto simp: transition_Inr_iff terminal_absorbs)
qed

lemma offer_decided_at_most_once_witness:
  "\<exists>l. offer_run (\<lambda>_. Inr 3 :: unit + nat) (\<lambda>_. Inr 4) (\<lambda>_. ''x'')
      \<lparr>in_schema = InstanceTag, in_nonce = Nonce ''n'', in_definition = DefinitionId 3,
       in_revision = Revision 0, in_ttl_ticks = 5,
       in_scope = \<lparr>sc_workspace_key = ''w'', sc_conversation_id = ''c''\<rparr>,
       in_responder_policy = \<lparr>rp_audiences = [], rp_requires_assertion = False\<rparr>,
       in_provenance = \<lparr>pv_origin = ''o'', pv_minted_tick = 0\<rparr>\<rparr>
      \<lparr>def_schema = DefinitionTag, def_kind = InteractionKind_Notice, def_revision = Revision 0,
       def_markdown = ''m'', def_controls = [], def_features = [], def_note = None\<rparr>
      [LifecycleState_Expired] l \<and> lc_state l = LifecycleState_Expired"
proof -
  let ?i = "\<lparr>in_schema = InstanceTag, in_nonce = Nonce ''n'', in_definition = DefinitionId (3::nat),
       in_revision = Revision 0, in_ttl_ticks = 5,
       in_scope = \<lparr>sc_workspace_key = ''w'', sc_conversation_id = ''c''\<rparr>,
       in_responder_policy = \<lparr>rp_audiences = [], rp_requires_assertion = False\<rparr>,
       in_provenance = \<lparr>pv_origin = ''o'', pv_minted_tick = 0\<rparr>\<rparr>"
  let ?d = "\<lparr>def_schema = DefinitionTag, def_kind = InteractionKind_Notice,
       def_revision = Revision 0, def_markdown = ''m'', def_controls = [], def_features = [],
       def_note = None\<rparr>"
  let ?l = "\<lparr>lc_instance = InstanceId (4::nat), lc_state = LifecycleState_Published\<rparr>"
  have "publish (\<lambda>_. Inr 3 :: unit + nat) (\<lambda>_. Inr 4) (\<lambda>_. ''x'') HostMint ?i ?d = Inr ?l"
    by (simp add: publish_Inr_iff definition_id_def instance_id_def)
  then have "offer_run (\<lambda>_. Inr 3 :: unit + nat) (\<lambda>_. Inr 4) (\<lambda>_. ''x'') ?i ?d [] ?l"
    by (rule offer_run.published)
  moreover have "(transition ?l LifecycleState_Expired :: unit lifecycle_error + nat lifecycle) =
      Inr \<lparr>lc_instance = InstanceId 4, lc_state = LifecycleState_Expired\<rparr>"
    by code_simp
  ultimately have run: "offer_run (\<lambda>_. Inr 3 :: unit + nat) (\<lambda>_. Inr 4) (\<lambda>_. ''x'') ?i ?d
      ([] @ [LifecycleState_Expired]) \<lparr>lc_instance = InstanceId 4, lc_state = LifecycleState_Expired\<rparr>"
    by (rule offer_run.moved)
  from offer_decided_at_most_once [OF run] run show ?thesis by auto
qed

text \<open>
  Expiry is exact at the clock's ends: an offer has elapsed at a tick if and only if the
  tick has reached mint time plus time-to-live, computed without wrapping, or the tick is the
  largest one there is, so an offer whose deadline overflows never expires early; and once
  elapsed, an offer stays elapsed.
\<close>

theorem elapsed_exact:
  assumes "in_i64 now_tick"
  shows "(has_elapsed i now_tick \<longleftrightarrow>
            pv_minted_tick (in_provenance i) + in_ttl_ticks i \<le> now_tick \<or> now_tick = i64_max) \<and>
         (\<forall>later. has_elapsed i now_tick \<longrightarrow> now_tick \<le> later \<longrightarrow> has_elapsed i later)"
  using assms by (auto simp: has_elapsed_def sat_add_i64_def in_i64_def)

lemma elapsed_exact_witness:
  "\<not> has_elapsed \<lparr>in_schema = InstanceTag, in_nonce = Nonce ''n'',
       in_definition = DefinitionId (3::nat), in_revision = Revision 0, in_ttl_ticks = i64_max,
       in_scope = \<lparr>sc_workspace_key = ''w'', sc_conversation_id = ''c''\<rparr>,
       in_responder_policy = \<lparr>rp_audiences = [], rp_requires_assertion = False\<rparr>,
       in_provenance = \<lparr>pv_origin = ''o'', pv_minted_tick = 7\<rparr>\<rparr> 1000"
proof -
  have "in_i64 1000" by code_simp
  moreover have "\<not> (7 + i64_max \<le> 1000)" "(1000::int) \<noteq> i64_max" by code_simp+
  ultimately show ?thesis by (simp add: elapsed_exact)
qed
end
