(* ===== verification/InteractionDowngrade.thy ===== *)
theory InteractionDowngrade
  imports InteractionLifecycle
begin

text \<open>
  Reading records this build may not understand, and planning the presentation of a definition
  on a surface (\<^verbatim>\<open>newt-interaction/src/downgrade.rs\<close>). The codec of the crate
  \<^verbatim>\<open>content-addressable\<close> appears as two arguments: \<open>probe\<close> reads the schema tag,
  \<open>checked\<close> decodes and verifies that re-encoding reproduces the input.
\<close>

section \<open>Decoding\<close>

text \<open>The codec errors the code tells apart; every other one is \<open>ContentError_Other\<close>.\<close>

datatype 'y content_error =
    ContentError_NonCanonical
  | ContentError_LossyDecode
  | ContentError_DecodingError 'y
  | ContentError_Other 'y

datatype unknown_reason =
    UnknownReason_ForwardVersion
  | UnknownReason_WrongRecordType
  | UnknownReason_UnknownSchema
  | UnknownReason_Uninterpretable

record raw_record =
  raw_schema :: string
  raw_bytes :: bytes
  raw_reason :: unknown_reason

datatype 't decoded = Decoded_Known 't | Decoded_Unknown raw_record

definition family :: "string \<Rightarrow> string option" where
  "family tag = map_option fst (rsplit_once CHR ''/'' tag)"

definition classify_tag :: "string \<Rightarrow> string \<Rightarrow> unknown_reason" where
  "classify_tag seen expected =
     (case (family seen, family expected) of
        (Some seen_family, Some expected_family) \<Rightarrow>
          if seen_family = expected_family then UnknownReason_ForwardVersion
          else if prefix ''newt.interaction.'' seen_family then UnknownReason_WrongRecordType
          else UnknownReason_UnknownSchema
      | (Some seen_family, None) \<Rightarrow>
          if prefix ''newt.interaction.'' seen_family then UnknownReason_WrongRecordType
          else UnknownReason_UnknownSchema
      | (None, _) \<Rightarrow> UnknownReason_UnknownSchema)"

definition decode ::
    "(bytes \<Rightarrow> string + string) \<Rightarrow> (bytes \<Rightarrow> 'y content_error + 't) \<Rightarrow> bytes \<Rightarrow> string \<Rightarrow>
      'y content_error protocol_error + 't decoded" where
  "decode probe checked bs expected =
     (case probe bs of
        Inl e \<Rightarrow> Inl (ProtocolError_Malformed (''no readable schema tag: '' @ e))
      | Inr schema \<Rightarrow>
          if schema \<noteq> expected
          then Inr (Decoded_Unknown \<lparr>raw_schema = schema, raw_bytes = bs,
                 raw_reason = classify_tag schema expected\<rparr>)
          else (case checked bs of
              Inr rec \<Rightarrow> Inr (Decoded_Known rec)
            | Inl ContentError_NonCanonical \<Rightarrow>
                Inl (ProtocolError_NonCanonical schema (length bs))
            | Inl ContentError_LossyDecode \<Rightarrow>
                Inr (Decoded_Unknown \<lparr>raw_schema = schema, raw_bytes = bs,
                  raw_reason = UnknownReason_Uninterpretable\<rparr>)
            | Inl (ContentError_DecodingError _) \<Rightarrow>
                Inr (Decoded_Unknown \<lparr>raw_schema = schema, raw_bytes = bs,
                  raw_reason = UnknownReason_Uninterpretable\<rparr>)
            | Inl (ContentError_Other e) \<Rightarrow>
                Inl (ProtocolError_Identity (ContentError_Other e))))"

definition decode_definition ::
    "(bytes \<Rightarrow> string + string) \<Rightarrow> (bytes \<Rightarrow> 'y content_error + interaction_definition) \<Rightarrow> bytes \<Rightarrow>
      'y content_error protocol_error + interaction_definition decoded" where
  "decode_definition probe checked bs = decode probe checked bs DEFINITION_SCHEMA_V1"

definition decode_instance ::
    "(bytes \<Rightarrow> string + string) \<Rightarrow> (bytes \<Rightarrow> 'y content_error + 'c interaction_instance) \<Rightarrow>
      bytes \<Rightarrow> 'y content_error protocol_error + 'c interaction_instance decoded" where
  "decode_instance probe checked bs = decode probe checked bs INSTANCE_SCHEMA_V1"

definition decode_response ::
    "(bytes \<Rightarrow> string + string) \<Rightarrow> (bytes \<Rightarrow> 'y content_error + 'c response) \<Rightarrow> bytes \<Rightarrow>
      'y content_error protocol_error + 'c response decoded" where
  "decode_response probe checked bs = decode probe checked bs RESPONSE_SCHEMA_V1"

section \<open>Presentation\<close>

record presentation =
  ps_degradations :: "surface_feature list"

definition is_faithful :: "presentation \<Rightarrow> bool" where
  "is_faithful p \<longleftrightarrow> ps_degradations p = []"

text \<open>The code's \<^verbatim>\<open>iter_mut().find\<close>: the first demand for the feature is replaced.\<close>

fun strengthen :: "surface_feature \<Rightarrow> feature_demand list \<Rightarrow> feature_demand list" where
  "strengthen f [] = []"
| "strengthen f (d # ds) =
     (if fd_feature d = f then d\<lparr>fd_requirement := Requirement_Required\<rparr> # ds
      else d # strengthen f ds)"

definition add_demand :: "feature_demand list \<Rightarrow> control \<Rightarrow> feature_demand list" where
  "add_demand demands c =
     (case (case ctl_kind c of ControlKind_Secret \<Rightarrow> Some ''secret-input'' | _ \<Rightarrow> None) of
        None \<Rightarrow> demands
      | Some name \<Rightarrow>
          (case (SurfaceFeature_new name :: unit protocol_error + surface_feature) of
             Inl _ \<Rightarrow> demands
           | Inr f \<Rightarrow>
               if \<exists>d \<in> set demands. fd_feature d = f
               then (if ctl_requirement c = Requirement_Required then strengthen f demands
                     else demands)
               else demands @ [\<lparr>fd_feature = f, fd_requirement = ctl_requirement c\<rparr>]))"

definition intrinsic_demands :: "interaction_definition \<Rightarrow> feature_demand list" where
  "intrinsic_demands d = foldl add_demand [] (def_controls d)"

fun plan_demands ::
    "surface_feature list \<Rightarrow> feature_demand list \<Rightarrow> surface_feature list \<Rightarrow>
      'x protocol_error + presentation" where
  "plan_demands supported [] degradations = Inr \<lparr>ps_degradations = degradations\<rparr>"
| "plan_demands supported (d # ds) degradations =
     (if fd_feature d \<in> set supported then plan_demands supported ds degradations
      else (case fd_requirement d of
          Requirement_Required \<Rightarrow>
            Inl (ProtocolError_UnsupportedFeature (SurfaceFeature_as_str (fd_feature d))
              (SurfaceFeature_is_known (fd_feature d)))
        | Requirement_Optional \<Rightarrow>
            plan_demands supported ds (degradations @ [fd_feature d])))"

definition plan_presentation ::
    "interaction_definition \<Rightarrow> surface_feature list \<Rightarrow> 'x protocol_error + presentation" where
  "plan_presentation d supported =
     plan_demands supported (intrinsic_demands d @ def_features d) []"

section \<open>Facts about planning\<close>

definition secret_demand :: "control list \<Rightarrow> feature_demand list" where
  "secret_demand cs =
     (if \<exists>c \<in> set cs. ctl_kind c = ControlKind_Secret
      then [\<lparr>fd_feature = SurfaceFeature ''secret-input'',
             fd_requirement =
               (if \<exists>c \<in> set cs. ctl_kind c = ControlKind_Secret \<and>
                     ctl_requirement c = Requirement_Required
                then Requirement_Required else Requirement_Optional)\<rparr>]
      else [])"

lemma add_demand_secret:
  "add_demand ds c =
     (if ctl_kind c = ControlKind_Secret then
        (if \<exists>d \<in> set ds. fd_feature d = SurfaceFeature ''secret-input'' then
           (if ctl_requirement c = Requirement_Required
            then strengthen (SurfaceFeature ''secret-input'') ds else ds)
         else ds @ [\<lparr>fd_feature = SurfaceFeature ''secret-input'',
                     fd_requirement = ctl_requirement c\<rparr>])
      else ds)"
  by (cases "ctl_kind c") (simp_all add: add_demand_def SurfaceFeature_new_def nonempty_name_def)

lemma requirement_cases: "r \<noteq> Requirement_Required \<longleftrightarrow> r = Requirement_Optional"
  by (cases r) auto

lemma intrinsic_demands_eq: "intrinsic_demands d = secret_demand (def_controls d)"
proof -
  have "foldl add_demand [] cs = secret_demand cs" for cs
  proof (induction cs rule: rev_induct)
    case (snoc c cs)
    then show ?case
      by (cases "ctl_requirement c")
        (auto simp: secret_demand_def add_demand_secret requirement_cases)
  qed (simp add: secret_demand_def)
  then show ?thesis by (simp add: intrinsic_demands_def)
qed

definition unmet :: "surface_feature list \<Rightarrow> feature_demand \<Rightarrow> bool" where
  "unmet supported d \<longleftrightarrow> fd_feature d \<notin> set supported"

lemma plan_demands_eq:
  "plan_demands supported ds degs =
     (case List.find (\<lambda>d. unmet supported d \<and> fd_requirement d = Requirement_Required) ds of
        Some d \<Rightarrow> Inl (ProtocolError_UnsupportedFeature (SurfaceFeature_as_str (fd_feature d))
                    (SurfaceFeature_is_known (fd_feature d)))
      | None \<Rightarrow> Inr \<lparr>ps_degradations = degs @ map fd_feature (filter (unmet supported) ds)\<rparr>)"
proof (induction supported ds degs rule: plan_demands.induct)
  case (2 supported d ds degs)
  then show ?case
    by (cases "fd_requirement d") (auto simp: unmet_def [of supported d] split: option.splits)
qed simp

lemma plan_demands_Inr_iff:
  "plan_demands supported ds [] = Inr p \<longleftrightarrow>
     (\<forall>dm \<in> set ds. fd_requirement dm = Requirement_Required \<longrightarrow> fd_feature dm \<in> set supported) \<and>
     ps_degradations p = map fd_feature (filter (unmet supported) ds)"
proof (cases "List.find (\<lambda>d. unmet supported d \<and> fd_requirement d = Requirement_Required) ds")
  case None
  then have "\<forall>dm \<in> set ds. fd_requirement dm = Requirement_Required \<longrightarrow>
      fd_feature dm \<in> set supported"
    by (auto simp: find_None_iff_all unmet_def)
  with None show ?thesis by (cases p) (auto simp: plan_demands_eq)
next
  case (Some d)
  then show ?thesis by (auto simp: plan_demands_eq unmet_def [of supported d] dest: find_SomeD)
qed

section \<open>Properties\<close>

text \<open>
  Presentation fails closed and degrades visibly: a definition with a required secret
  control is refused on a surface without secret input, whatever its declared features say; a
  plan succeeds exactly when no required demand, intrinsic or declared, is unmet, recognised by
  this build or not, and then lists every unmet optional demand, in order, and nothing else.
\<close>

theorem presentation_fails_closed:
  "((\<exists>c \<in> set (def_controls d). ctl_kind c = ControlKind_Secret \<and>
        ctl_requirement c = Requirement_Required) \<and>
      SurfaceFeature ''secret-input'' \<notin> set supported \<longrightarrow>
    plan_presentation d supported = Inl (ProtocolError_UnsupportedFeature ''secret-input'' True)) \<and>
   (plan_presentation d supported = Inr p \<longleftrightarrow>
     (\<forall>dm \<in> set (secret_demand (def_controls d) @ def_features d).
        fd_requirement dm = Requirement_Required \<longrightarrow> fd_feature dm \<in> set supported) \<and>
     ps_degradations p =
       map fd_feature (filter (unmet supported) (secret_demand (def_controls d) @ def_features d)))"
proof (intro conjI impI, elim conjE bexE)
  fix c
  assume "c \<in> set (def_controls d)" "ctl_kind c = ControlKind_Secret"
    "ctl_requirement c = Requirement_Required" "SurfaceFeature ''secret-input'' \<notin> set supported"
  moreover have "SurfaceFeature_is_known (SurfaceFeature ''secret-input'')" by code_simp
  ultimately show "plan_presentation d supported =
      Inl (ProtocolError_UnsupportedFeature ''secret-input'' True)"
    by (auto simp: plan_presentation_def intrinsic_demands_eq secret_demand_def plan_demands_eq
        unmet_def)
next
  show "plan_presentation d supported = Inr p \<longleftrightarrow>
     (\<forall>dm \<in> set (secret_demand (def_controls d) @ def_features d).
        fd_requirement dm = Requirement_Required \<longrightarrow> fd_feature dm \<in> set supported) \<and>
     ps_degradations p =
       map fd_feature (filter (unmet supported) (secret_demand (def_controls d) @ def_features d))"
    unfolding plan_presentation_def intrinsic_demands_eq by (rule plan_demands_Inr_iff)
qed
lemma presentation_fails_closed_witness:
  "plan_presentation
     \<lparr>def_schema = DefinitionTag, def_kind = InteractionKind_Form, def_revision = Revision 0,
      def_markdown = '''',
      def_controls = [\<lparr>ctl_id = ControlId ''p'', ctl_kind = ControlKind_Secret, ctl_label = '''',
        ctl_requirement = Requirement_Required\<rparr>],
      def_features = [\<lparr>fd_feature = SurfaceFeature ''diagrams'',
        fd_requirement = Requirement_Optional\<rparr>], def_note = None\<rparr> [] =
   (Inl (ProtocolError_UnsupportedFeature ''secret-input'' True) :: unit protocol_error + _)"
  by (rule presentation_fails_closed [THEN conjunct1, rule_format]) simp

lemma family_Some_iff: "family tag = Some h \<longleftrightarrow> (\<exists>v. CHR ''/'' \<notin> set v \<and> tag = h @ ''/'' @ v)"
  unfolding family_def map_option_eq_Some by (auto simp: rsplit_once_Some_iff)

lemma family_prefix_iff:
  "(\<exists>h v. s = p @ h @ ''/'' @ v \<and> CHR ''/'' \<notin> set v \<and> h \<noteq> x) \<longleftrightarrow>
     (\<exists>f. family s = Some f \<and> prefix p f \<and> f \<noteq> p @ x)"
proof
  assume "\<exists>h v. s = p @ h @ ''/'' @ v \<and> CHR ''/'' \<notin> set v \<and> h \<noteq> x"
  then obtain h v where "s = (p @ h) @ ''/'' @ v" "CHR ''/'' \<notin> set v" "h \<noteq> x" by auto
  then have "family s = Some (p @ h) \<and> prefix p (p @ h) \<and> p @ h \<noteq> p @ x"
    unfolding family_Some_iff by auto
  then show "\<exists>f. family s = Some f \<and> prefix p f \<and> f \<noteq> p @ x" by blast
next
  assume "\<exists>f. family s = Some f \<and> prefix p f \<and> f \<noteq> p @ x"
  then obtain f v where f: "s = f @ ''/'' @ v" "CHR ''/'' \<notin> set v" "prefix p f" "f \<noteq> p @ x"
    unfolding family_Some_iff by blast
  then obtain h where "f = p @ h" by (auto simp: prefix_def)
  with f have "s = (p @ h) @ ''/'' @ v" "CHR ''/'' \<notin> set v" "h \<noteq> x" by auto
  then show "\<exists>h v. s = p @ h @ ''/'' @ v \<and> CHR ''/'' \<notin> set v \<and> h \<noteq> x"
    by (intro exI [of _ h] exI [of _ v]) simp
qed

lemma classify_definition_tag:
  "classify_tag seen DEFINITION_SCHEMA_V1 =
     (case family seen of
        None \<Rightarrow> UnknownReason_UnknownSchema
      | Some h \<Rightarrow>
          if h = ''newt.interaction.definition'' then UnknownReason_ForwardVersion
          else if prefix ''newt.interaction.'' h then UnknownReason_WrongRecordType
          else UnknownReason_UnknownSchema)"
proof -
  have "family DEFINITION_SCHEMA_V1 = Some ''newt.interaction.definition''" by code_simp
  then show ?thesis by (simp add: classify_tag_def split: option.split)
qed

lemma decode_Inr_cases:
  assumes "decode probe checked bs expected = Inr out"
  obtains (known) v where "out = Decoded_Known v" "probe bs = Inr expected" "checked bs = Inr v"
  | (other) schema where "schema \<noteq> expected" "probe bs = Inr schema"
      "out = Decoded_Unknown \<lparr>raw_schema = schema, raw_bytes = bs,
         raw_reason = classify_tag schema expected\<rparr>"
  | (uninterpretable) "probe bs = Inr expected"
      "out = Decoded_Unknown \<lparr>raw_schema = expected, raw_bytes = bs,
         raw_reason = UnknownReason_Uninterpretable\<rparr>"
proof (cases "probe bs")
  case (Inr schema)
  show ?thesis
  proof (cases "schema = expected")
    case True
    with Inr assms show ?thesis
      using known uninterpretable
      by (cases "checked bs") (auto simp: decode_def split: content_error.splits)
  qed (use Inr assms other in \<open>auto simp: decode_def\<close>)
qed (use assms in \<open>simp add: decode_def\<close>)

text \<open>
  A record is understood completely or preserved whole. If the codec's checked door
  returns a value only when re-encoding it gives the input back, then decoding a definition
  yields a value whose encoding is exactly the input, under the exact version tag, or keeps
  every input byte and the tag it carries and says why: our tag with an unaccountable body,
  another version of the definition family, another record of this protocol, or foreign data.
\<close>

theorem decode_definition_accounts:
  assumes "\<And>b v. checked b = Inr v \<Longrightarrow> encode v = b"
    and "decode_definition probe checked bs = Inr out"
  shows "case out of
      Decoded_Known v \<Rightarrow> probe bs = Inr DEFINITION_SCHEMA_V1 \<and> encode v = bs
    | Decoded_Unknown r \<Rightarrow>
        raw_bytes r = bs \<and> probe bs = Inr (raw_schema r) \<and>
        (raw_reason r = UnknownReason_Uninterpretable \<longleftrightarrow> raw_schema r = DEFINITION_SCHEMA_V1) \<and>
        (raw_reason r = UnknownReason_ForwardVersion \<longleftrightarrow> raw_schema r \<noteq> DEFINITION_SCHEMA_V1 \<and>
           family (raw_schema r) = Some ''newt.interaction.definition'') \<and>
        (raw_reason r = UnknownReason_WrongRecordType \<longleftrightarrow>
           (\<exists>h v. raw_schema r = ''newt.interaction.'' @ h @ ''/'' @ v \<and> CHR ''/'' \<notin> set v \<and>
              h \<noteq> ''definition''))"
  using assms(2) unfolding decode_definition_def
proof (cases rule: decode_Inr_cases)
  case (known v)
  with assms(1) show ?thesis by simp
next
  case (other schema)
  have wrong: "(\<exists>h v. schema = ''newt.interaction.'' @ h @ ''/'' @ v \<and> CHR ''/'' \<notin> set v \<and>
        h \<noteq> ''definition'') \<longleftrightarrow>
      (\<exists>f. family schema = Some f \<and> prefix ''newt.interaction.'' f \<and>
        f \<noteq> ''newt.interaction.definition'')"
    unfolding family_prefix_iff by simp
  from other(1,2) show ?thesis
    unfolding other(3) decoded.case raw_record.select_convs wrong classify_definition_tag
    by (auto split: option.splits)
next
  case uninterpretable
  have "family DEFINITION_SCHEMA_V1 = Some ''newt.interaction.definition''" by code_simp
  then have "\<not> (\<exists>h v. DEFINITION_SCHEMA_V1 = ''newt.interaction.'' @ h @ ''/'' @ v \<and>
      CHR ''/'' \<notin> set v \<and> h \<noteq> ''definition'')"
    unfolding family_prefix_iff by simp
  with uninterpretable show ?thesis by simp
qed

lemma decode_definition_accounts_witness:
  "raw_bytes \<lparr>raw_schema = ''newt.interaction.instance/v1'', raw_bytes = [1, 2],
     raw_reason = UnknownReason_WrongRecordType\<rparr> = [1, 2]"
proof -
  let ?probe = "\<lambda>_. Inr ''newt.interaction.instance/v1'' :: string + string"
  let ?checked = "\<lambda>_. Inl ContentError_LossyDecode :: unit content_error + interaction_definition"
  have "decode_definition ?probe ?checked [1, 2] =
      Inr (Decoded_Unknown \<lparr>raw_schema = ''newt.interaction.instance/v1'', raw_bytes = [1, 2],
        raw_reason = UnknownReason_WrongRecordType\<rparr>)"
    by code_simp
  moreover have "\<And>b v. ?checked b = Inr v \<Longrightarrow> (\<lambda>_. []) v = b" by simp
  ultimately show ?thesis
    using decode_definition_accounts [of ?checked "\<lambda>_. []" ?probe "[1, 2]"] by simp
qed

end
