(* ===== verification/InteractionBinding.thy ===== *)
theory InteractionBinding
  imports InteractionLifecycle
begin

text \<open>
  Response validation (\<^verbatim>\<open>newt-interaction/src/binding.rs\<close>): typed input resolved to an
  option, one submitted value checked against its control, and the whole response checked
  against the offer, the definition, the lifecycle and the caller's registered handlers.
\<close>

section \<open>Vocabulary\<close>

record registered_action =
  ra_option :: option_id
  ra_handler :: handler_id
  ra_audiences :: "audience list"

record responder_context =
  cx_workspace_key :: string
  cx_registered :: "registered_action list"

record resolved_action =
  ac_control :: control_id
  ac_option :: option_id
  ac_handler :: handler_id

record 'c accepted =
  acc_response :: "'c response_id"
  acc_instance :: "'c instance_id"
  acc_actions :: "resolved_action list"

datatype 'x refusal =
    Refusal_NotPublished lifecycle_state
  | Refusal_InstanceMismatch string string
  | Refusal_DefinitionMismatch string string
  | Refusal_DigestMismatch string string
  | Refusal_StaleRevision u64 u64
  | Refusal_WorkspaceMismatch string string
  | Refusal_AudienceMismatch audience
  | Refusal_AssertionRequired
  | Refusal_ExtraControl string
  | Refusal_DuplicateControl string
  | Refusal_MissingRequiredControl string
  | Refusal_WrongControlType string string string
  | Refusal_MalformedValue string string string
  | Refusal_UnknownOption string string
  | Refusal_UnknownAction string
  | Refusal_ActionNotEligible string audience
  | Refusal_Protocol "'x protocol_error"

fun kind_name :: "control_kind \<Rightarrow> string" where
  "kind_name (ControlKind_Choice _) = ''choice''"
| "kind_name ControlKind_Text = ''text''"
| "kind_name ControlKind_Toggle = ''toggle''"
| "kind_name ControlKind_Secret = ''secret''"
| "kind_name (ControlKind_Number _ _ _) = ''number''"
| "kind_name (ControlKind_Range _ _ _) = ''range''"
| "kind_name (ControlKind_Temporal _) = ''temporal''"
| "kind_name ControlKind_Color = ''color''"
| "kind_name (ControlKind_Path _ _) = ''path''"

fun value_name :: "control_value \<Rightarrow> string" where
  "value_name (ControlValue_Choice _) = ''choice''"
| "value_name (ControlValue_Text _) = ''text''"
| "value_name (ControlValue_Toggle _) = ''toggle''"
| "value_name (ControlValue_Secret _) = ''secret''"

section \<open>Operations\<close>

definition single :: "choice_option list \<Rightarrow> option_id option" where
  "single matches = (case matches of [m] \<Rightarrow> Some (co_id m) | _ \<Rightarrow> None)"

definition canonical_match :: "string \<Rightarrow> choice_option \<Rightarrow> bool" where
  "canonical_match input opt \<longleftrightarrow> OptionId_as_str (co_id opt) = input \<or> co_key opt = input"

definition alias_match :: "string \<Rightarrow> choice_option \<Rightarrow> bool" where
  "alias_match input opt \<longleftrightarrow> input \<in> set (co_aliases opt)"

definition resolve_typed :: "choice_option list \<Rightarrow> string \<Rightarrow> option_id option" where
  "resolve_typed opts raw =
     (let input = trim raw; canonical = filter (canonical_match input) opts in
      if canonical \<noteq> [] then single canonical
      else single (filter (alias_match input) opts))"

definition check_value :: "control \<Rightarrow> control_value \<Rightarrow> 'x refusal + option_id option" where
  "check_value c v =
     (let wrong = Inl (Refusal_WrongControlType (ControlId_as_str (ctl_id c))
                    (kind_name (ctl_kind c)) (value_name v)) in
      case v of
        ControlValue_Choice opt \<Rightarrow>
          (case ctl_kind c of
             ControlKind_Choice opts \<Rightarrow>
               if opt \<in> set (map co_id opts) then Inr (Some opt)
               else Inl (Refusal_UnknownOption (ControlId_as_str (ctl_id c)) (OptionId_as_str opt))
           | _ \<Rightarrow> wrong)
      | ControlValue_Toggle _ \<Rightarrow> if ctl_kind c = ControlKind_Toggle then Inr None else wrong
      | ControlValue_Secret _ \<Rightarrow> if ctl_kind c = ControlKind_Secret then Inr None else wrong
      | ControlValue_Text text \<Rightarrow>
          if travels_as_text (ctl_kind c) then
            (case check_text (ctl_kind c) text of
               Inr _ \<Rightarrow> Inr None
             | Inl expected \<Rightarrow>
                 Inl (Refusal_MalformedValue (ControlId_as_str (ctl_id c)) expected text))
          else wrong)"

definition assertion_satisfied :: "'c response \<Rightarrow> bool" where
  "assertion_satisfied r =
     (case pr_kind (rs_provenance r) of
        AssertionKind_Unauthenticated \<Rightarrow> False
      | AssertionKind_TerminalOperator \<Rightarrow> pr_assertion (rs_provenance r) \<noteq> None
      | AssertionKind_SignedAssertion \<Rightarrow> pr_assertion (rs_provenance r) \<noteq> None)"

text \<open>The body of the loop over the submitted values, from the value check on.\<close>

definition route_option ::
    "registered_action list \<Rightarrow> audience \<Rightarrow> control \<Rightarrow> option_id option \<Rightarrow>
      'x refusal + resolved_action list" where
  "route_option registered aud c opt =
     (case opt of
        None \<Rightarrow> Inr []
      | Some o1 \<Rightarrow>
          (case List.find (\<lambda>r. ra_option r = o1) registered of
             None \<Rightarrow> Inl (Refusal_UnknownAction (OptionId_as_str o1))
           | Some r \<Rightarrow>
               if aud \<notin> set (ra_audiences r)
               then Inl (Refusal_ActionNotEligible (OptionId_as_str o1) aud)
               else Inr [\<lparr>ac_control = ctl_id c, ac_option = o1, ac_handler = ra_handler r\<rparr>]))"

fun check_submissions ::
    "control list \<Rightarrow> registered_action list \<Rightarrow> audience \<Rightarrow> submission list \<Rightarrow>
      control_id list \<Rightarrow> resolved_action list \<Rightarrow>
      'x refusal + (control_id list \<times> resolved_action list)" where
  "check_submissions controls registered aud [] answered actions = Inr (answered, actions)"
| "check_submissions controls registered aud (s # rest) answered actions =
     (case List.find (\<lambda>c. ctl_id c = sub_control s) controls of
        None \<Rightarrow> Inl (Refusal_ExtraControl (ControlId_as_str (sub_control s)))
      | Some c \<Rightarrow>
          if sub_control s \<in> set answered
          then Inl (Refusal_DuplicateControl (ControlId_as_str (sub_control s)))
          else rbind (check_value c (sub_value s)) (\<lambda>opt.
            rbind (route_option registered aud c opt) (\<lambda>acts.
              check_submissions controls registered aud rest
                (answered @ [sub_control s]) (actions @ acts))))"

fun check_required :: "control list \<Rightarrow> control_id list \<Rightarrow> 'x refusal + unit" where
  "check_required [] answered = Inr ()"
| "check_required (c # cs) answered =
     (if ctl_requirement c = Requirement_Required \<and> ctl_id c \<notin> set answered
      then Inl (Refusal_MissingRequiredControl (ControlId_as_str (ctl_id c)))
      else check_required cs answered)"

definition validate_response ::
    "(interaction_definition \<Rightarrow> 'x + 'c) \<Rightarrow> ('c interaction_instance \<Rightarrow> 'x + 'c) \<Rightarrow>
      ('c response \<Rightarrow> 'x + 'c) \<Rightarrow> ('c \<Rightarrow> string) \<Rightarrow> interaction_definition \<Rightarrow>
      'c interaction_instance \<Rightarrow> 'c lifecycle \<Rightarrow> 'c response \<Rightarrow> responder_context \<Rightarrow>
      'x refusal + 'c accepted" where
  "validate_response def_cid inst_cid resp_cid cid_show d i l r cx =
     (if lc_state l \<noteq> LifecycleState_Published then Inl (Refusal_NotPublished (lc_state l))
      else rbind (map_err Refusal_Protocol (instance_id inst_cid i)) (\<lambda>iid.
      if rs_instance r \<noteq> iid
      then Inl (Refusal_InstanceMismatch
             (InstanceId_show cid_show (rs_instance r)) (InstanceId_show cid_show iid))
      else if lc_instance l \<noteq> iid
      then Inl (Refusal_InstanceMismatch
             (InstanceId_show cid_show (lc_instance l)) (InstanceId_show cid_show iid))
      else if rs_definition r \<noteq> in_definition i
      then Inl (Refusal_DefinitionMismatch
             (DefinitionId_show cid_show (rs_definition r))
             (DefinitionId_show cid_show (in_definition i)))
      else rbind (map_err Refusal_Protocol (definition_id def_cid d)) (\<lambda>presented.
      if rs_definition r \<noteq> presented
      then Inl (Refusal_DigestMismatch
             (DefinitionId_show cid_show (rs_definition r))
             (DefinitionId_show cid_show presented))
      else if rs_revision r \<noteq> def_revision d
      then Inl (Refusal_StaleRevision
             (Revision_get (rs_revision r)) (Revision_get (def_revision d)))
      else if sc_workspace_key (in_scope i) \<noteq> cx_workspace_key cx
      then Inl (Refusal_WorkspaceMismatch
             (sc_workspace_key (in_scope i)) (cx_workspace_key cx))
      else let aud = pr_audience (rs_provenance r) in
      if aud \<notin> set (rp_audiences (in_responder_policy i)) then Inl (Refusal_AudienceMismatch aud)
      else if rp_requires_assertion (in_responder_policy i) \<and> \<not> assertion_satisfied r
      then Inl Refusal_AssertionRequired
      else rbind (check_submissions (def_controls d) (cx_registered cx) aud (rs_values r) [] [])
        (\<lambda>(answered, actions).
      rbind (check_required (def_controls d) answered) (\<lambda>_.
      rbind (map_err Refusal_Protocol (response_id resp_cid r)) (\<lambda>rid.
        Inr \<lparr>acc_response = rid, acc_instance = iid, acc_actions = actions\<rparr>))))))"
section \<open>What an accepted response satisfies\<close>

text \<open>A value of the declared type, measured against the control's grammar.\<close>

definition value_ok :: "control \<Rightarrow> control_value \<Rightarrow> bool" where
  "value_ok c v \<longleftrightarrow>
     (case (ctl_kind c, v) of
        (ControlKind_Choice opts, ControlValue_Choice opt) \<Rightarrow> \<exists>x \<in> set opts. co_id x = opt
      | (ControlKind_Toggle, ControlValue_Toggle _) \<Rightarrow> True
      | (ControlKind_Secret, ControlValue_Secret _) \<Rightarrow> True
      | (k, ControlValue_Text t) \<Rightarrow> travels_as_text k \<and> answer_text k (trim t)
      | _ \<Rightarrow> False)"

definition registered_for :: "registered_action list \<Rightarrow> audience \<Rightarrow> option_id \<Rightarrow> handler_id \<Rightarrow> bool" where
  "registered_for registered aud opt h \<longleftrightarrow>
     (\<exists>us r vs. registered = us @ r # vs \<and> ra_option r = opt \<and>
        (\<forall>u \<in> set us. ra_option u \<noteq> opt) \<and> aud \<in> set (ra_audiences r) \<and> ra_handler r = h)"

definition submission_ok ::
    "control list \<Rightarrow> registered_action list \<Rightarrow> audience \<Rightarrow> submission \<Rightarrow> bool" where
  "submission_ok controls registered aud s \<longleftrightarrow>
     (\<exists>us c vs. controls = us @ c # vs \<and> ctl_id c = sub_control s \<and>
        (\<forall>u \<in> set us. ctl_id u \<noteq> sub_control s) \<and> value_ok c (sub_value s)) \<and>
     (\<forall>opt. sub_value s = ControlValue_Choice opt \<longrightarrow> (\<exists>h. registered_for registered aud opt h))"

definition submission_actions :: "registered_action list \<Rightarrow> submission \<Rightarrow> resolved_action list" where
  "submission_actions registered s =
     (case sub_value s of
        ControlValue_Choice opt \<Rightarrow>
          (case List.find (\<lambda>r. ra_option r = opt) registered of
             None \<Rightarrow> []
           | Some r \<Rightarrow> [\<lparr>ac_control = sub_control s, ac_option = opt, ac_handler = ra_handler r\<rparr>])
      | _ \<Rightarrow> [])"

lemma find_Some_iff_split:
  "List.find P xs = Some x \<longleftrightarrow>
     (\<exists>us vs. xs = us @ x # vs \<and> P x \<and> (\<forall>u \<in> set us. \<not> P u))"
proof
  assume "\<exists>us vs. xs = us @ x # vs \<and> P x \<and> (\<forall>u \<in> set us. \<not> P u)"
  then obtain us vs where xs: "xs = us @ x # vs" and P: "P x" "\<forall>u \<in> set us. \<not> P u" by blast
  from P show "List.find P xs = Some x" unfolding xs by (induction us) auto
qed (rule find_Some_split)

lemma registered_for_iff_find:
  "registered_for registered aud opt h \<longleftrightarrow>
     (\<exists>r. List.find (\<lambda>r. ra_option r = opt) registered = Some r \<and> aud \<in> set (ra_audiences r) \<and>
        ra_handler r = h)"
  unfolding registered_for_def find_Some_iff_split by blast

lemma check_value_Inr_iff:
  "check_value c v = Inr res \<longleftrightarrow>
     value_ok c v \<and> res = (case v of ControlValue_Choice opt \<Rightarrow> Some opt | _ \<Rightarrow> None)"
proof (cases v)
  case (ControlValue_Text t)
  have "check_text (ctl_kind c) t = Inr u \<longleftrightarrow> answer_text (ctl_kind c) (trim t)" for u
    using check_text_iff [of "ctl_kind c" t] by simp
  with ControlValue_Text show ?thesis
    by (cases "ctl_kind c") (auto simp: check_value_def Let_def value_ok_def split: sum.splits)
qed (auto simp: check_value_def Let_def value_ok_def split: control_kind.splits if_splits)

lemma route_option_Inr_iff:
  "route_option registered aud c opt = Inr acts \<longleftrightarrow>
     (case opt of
        None \<Rightarrow> acts = []
      | Some o1 \<Rightarrow> (\<exists>r. List.find (\<lambda>r. ra_option r = o1) registered = Some r \<and>
          aud \<in> set (ra_audiences r) \<and>
          acts = [\<lparr>ac_control = ctl_id c, ac_option = o1, ac_handler = ra_handler r\<rparr>]))"
  by (auto simp: route_option_def split: option.splits)

lemma one_submission_iff:
  "(\<exists>c opt. List.find (\<lambda>c. ctl_id c = sub_control s) controls = Some c \<and>
      check_value c (sub_value s) = Inr opt \<and> route_option registered aud c opt = Inr acts) \<longleftrightarrow>
   submission_ok controls registered aud s \<and> acts = submission_actions registered s"
  (is "?l \<longleftrightarrow> ?r")
proof (cases "sub_value s")
  case (ControlValue_Choice opt)
  have "?l \<longleftrightarrow> (\<exists>c. List.find (\<lambda>c. ctl_id c = sub_control s) controls = Some c \<and>
      value_ok c (sub_value s) \<and>
      (\<exists>r. List.find (\<lambda>r. ra_option r = opt) registered = Some r \<and> aud \<in> set (ra_audiences r) \<and>
        acts = [\<lparr>ac_control = sub_control s, ac_option = opt, ac_handler = ra_handler r\<rparr>]))"
    using ControlValue_Choice
    by (auto simp: check_value_Inr_iff route_option_Inr_iff dest: find_SomeD)
      (drule find_SomeD [where P = "\<lambda>c. ctl_id c = _"], simp)
  also have "\<dots> \<longleftrightarrow> ?r"
    using ControlValue_Choice
    by (auto simp: submission_ok_def submission_actions_def registered_for_iff_find
        find_Some_iff_split [of "\<lambda>c. ctl_id c = sub_control s"] split: option.splits)
  finally show ?thesis .
qed (auto simp: check_value_Inr_iff route_option_Inr_iff submission_ok_def submission_actions_def
    find_Some_iff_split)

lemma check_submissions_Cons_iff:
  "check_submissions controls registered aud (s # rest) answered actions =
       (Inr out :: 'x refusal + control_id list \<times> resolved_action list) \<longleftrightarrow>
     sub_control s \<notin> set answered \<and> submission_ok controls registered aud s \<and>
     check_submissions controls registered aud rest (answered @ [sub_control s])
       (actions @ submission_actions registered s) =
       (Inr out :: 'x refusal + control_id list \<times> resolved_action list)"
proof -
  have "check_submissions controls registered aud (s # rest) answered actions =
       (Inr out :: 'x refusal + control_id list \<times> resolved_action list) \<longleftrightarrow>
     sub_control s \<notin> set answered \<and>
     (\<exists>acts. (\<exists>c opt. List.find (\<lambda>c. ctl_id c = sub_control s) controls = Some c \<and>
        check_value c (sub_value s) = (Inr opt :: 'x refusal + option_id option) \<and>
        route_option registered aud c opt = (Inr acts :: 'x refusal + resolved_action list)) \<and>
        check_submissions controls registered aud rest (answered @ [sub_control s])
          (actions @ acts) = (Inr out :: 'x refusal + control_id list \<times> resolved_action list))"
    by (auto simp: rbind_Inr_iff split: option.splits if_splits)
  then show ?thesis unfolding one_submission_iff by auto
qed

lemma check_submissions_Inr_iff:
  "check_submissions controls registered aud ss answered actions = Inr (a, b) \<longleftrightarrow>
     (\<forall>s \<in> set ss. submission_ok controls registered aud s) \<and>
     distinct (map sub_control ss) \<and> set answered \<inter> sub_control ` set ss = {} \<and>
     a = answered @ map sub_control ss \<and>
     b = actions @ concat (map (submission_actions registered) ss)"
proof (induction ss arbitrary: answered actions)
  case Nil
  then show ?case by auto
next
  case (Cons s ss)
  have "set (answered @ [sub_control s]) \<inter> sub_control ` set ss = {} \<longleftrightarrow>
      set answered \<inter> sub_control ` set ss = {} \<and> sub_control s \<notin> sub_control ` set ss"
    by auto
  then show ?case unfolding check_submissions_Cons_iff Cons.IH by simp blast
qed

lemma check_required_Inr_iff:
  "check_required cs answered = Inr () \<longleftrightarrow>
     (\<forall>c \<in> set cs. ctl_requirement c = Requirement_Required \<longrightarrow> ctl_id c \<in> set answered)"
  by (induction cs) auto

text \<open>The specification of an acceptable response, in the order of the code's comments.\<close>

definition acceptable ::
    "interaction_definition \<Rightarrow> 'c interaction_instance \<Rightarrow> 'c lifecycle \<Rightarrow> 'c response \<Rightarrow>
      responder_context \<Rightarrow> bool" where
  "acceptable d i l r cx \<longleftrightarrow>
     lc_state l = LifecycleState_Published \<and>
     rs_instance r = lc_instance l \<and> rs_definition r = in_definition i \<and>
     rs_revision r = def_revision d \<and>
     sc_workspace_key (in_scope i) = cx_workspace_key cx \<and>
     pr_audience (rs_provenance r) \<in> set (rp_audiences (in_responder_policy i)) \<and>
     (rp_requires_assertion (in_responder_policy i) \<longrightarrow>
        pr_kind (rs_provenance r) \<noteq> AssertionKind_Unauthenticated \<and>
        pr_assertion (rs_provenance r) \<noteq> None) \<and>
     distinct (map sub_control (rs_values r)) \<and>
     (\<forall>s \<in> set (rs_values r).
        submission_ok (def_controls d) (cx_registered cx) (pr_audience (rs_provenance r)) s) \<and>
     (\<forall>c \<in> set (def_controls d). ctl_requirement c = Requirement_Required \<longrightarrow>
        ctl_id c \<in> set (map sub_control (rs_values r)))"

lemma assertion_satisfied_iff:
  "assertion_satisfied r \<longleftrightarrow>
     pr_kind (rs_provenance r) \<noteq> AssertionKind_Unauthenticated \<and>
     pr_assertion (rs_provenance r) \<noteq> None"
  by (cases "pr_kind (rs_provenance r)") (auto simp: assertion_satisfied_def)

lemma if_Inl_iff: "(if b then Inl e else m) = Inr a \<longleftrightarrow> \<not> b \<and> m = Inr a"
  by simp

lemma validate_unfold:
  fixes def_cid :: "interaction_definition \<Rightarrow> 'x + 'c"
  shows "validate_response def_cid inst_cid resp_cid cid_show d i l r cx = Inr acc \<longleftrightarrow>
     (\<exists>ans acts rid. lc_state l = LifecycleState_Published \<and>
     instance_id inst_cid i = Inr (rs_instance r) \<and>
     lc_instance l = rs_instance r \<and> rs_definition r = in_definition i \<and>
     definition_id def_cid d = Inr (rs_definition r) \<and> rs_revision r = def_revision d \<and>
     sc_workspace_key (in_scope i) = cx_workspace_key cx \<and>
     pr_audience (rs_provenance r) \<in> set (rp_audiences (in_responder_policy i)) \<and>
     (rp_requires_assertion (in_responder_policy i) \<longrightarrow> assertion_satisfied r) \<and>
     check_submissions (def_controls d) (cx_registered cx)
          (pr_audience (rs_provenance r)) (rs_values r) [] [] =
            (Inr (ans, acts) :: 'x refusal + control_id list \<times> resolved_action list) \<and>
        check_required (def_controls d) ans = (Inr () :: 'x refusal + unit) \<and>
        response_id resp_cid r = Inr rid \<and>
        acc = \<lparr>acc_response = rid, acc_instance = rs_instance r, acc_actions = acts\<rparr>)"
  unfolding validate_response_def Let_def if_Inl_iff rbind_Inr_iff map_err_iffs split_paired_Ex
    prod.case sum.inject not_not de_Morgan_conj
  by (simp add: ex_simps [symmetric] del: ex_simps, safe; blast?)

lemma validate_iff:
  "validate_response def_cid inst_cid resp_cid cid_show d i l r cx = Inr acc \<longleftrightarrow>
     (\<exists>rid. acceptable d i l r cx \<and>
        instance_id inst_cid i = Inr (rs_instance r) \<and>
        definition_id def_cid d = Inr (rs_definition r) \<and>
        response_id resp_cid r = Inr rid \<and>
        acc = \<lparr>acc_response = rid, acc_instance = rs_instance r,
               acc_actions = concat (map (submission_actions (cx_registered cx)) (rs_values r))\<rparr>)"
  (is "_ \<longleftrightarrow> ?r")
proof -
  let ?ans = "map sub_control (rs_values r)"
  let ?acts = "concat (map (submission_actions (cx_registered cx)) (rs_values r))"
  have "validate_response def_cid inst_cid resp_cid cid_show d i l r cx = Inr acc \<longleftrightarrow>
     (\<exists>rid. lc_state l = LifecycleState_Published \<and>
     instance_id inst_cid i = Inr (rs_instance r) \<and>
     lc_instance l = rs_instance r \<and> rs_definition r = in_definition i \<and>
     definition_id def_cid d = Inr (rs_definition r) \<and> rs_revision r = def_revision d \<and>
     sc_workspace_key (in_scope i) = cx_workspace_key cx \<and>
     pr_audience (rs_provenance r) \<in> set (rp_audiences (in_responder_policy i)) \<and>
     (rp_requires_assertion (in_responder_policy i) \<longrightarrow> assertion_satisfied r) \<and>
     (\<forall>s \<in> set (rs_values r).
        submission_ok (def_controls d) (cx_registered cx) (pr_audience (rs_provenance r)) s) \<and>
     distinct ?ans \<and>
     (\<forall>c \<in> set (def_controls d).
        ctl_requirement c = Requirement_Required \<longrightarrow> ctl_id c \<in> set ?ans) \<and>
     response_id resp_cid r = Inr rid \<and>
     acc = \<lparr>acc_response = rid, acc_instance = rs_instance r, acc_actions = ?acts\<rparr>)"
    unfolding validate_unfold check_submissions_Inr_iff check_required_Inr_iff append_Nil
    by simp
  also have "\<dots> \<longleftrightarrow> ?r"
    unfolding acceptable_def assertion_satisfied_iff by (rule ex_cong1) auto
  finally show ?thesis .
qed

lemma filter_single_iff:
  "filter P xs = [x] \<longleftrightarrow>
     (\<exists>us vs. xs = us @ x # vs \<and> P x \<and> (\<forall>y \<in> set us \<union> set vs. \<not> P y))"
proof
  assume one: "filter P xs = [x]"
  then obtain us vs where "xs = us @ x # vs" "\<forall>u \<in> set us. \<not> P u" "P x" "filter P vs = []"
    unfolding filter_eq_Cons_iff by auto
  then show "\<exists>us vs. xs = us @ x # vs \<and> P x \<and> (\<forall>y \<in> set us \<union> set vs. \<not> P y)"
    by (auto simp: filter_empty_conv)
qed (auto simp: filter_empty_conv)

lemma single_Some_iff: "single ms = Some p \<longleftrightarrow> (\<exists>m. ms = [m] \<and> p = co_id m)"
  by (auto simp: single_def split: list.splits)

lemma resolve_typed_iff:
  "resolve_typed opts raw = Some p \<longleftrightarrow>
     (\<exists>x. p = co_id x \<and>
       ((\<exists>us vs. opts = us @ x # vs \<and> canonical_match (trim raw) x \<and>
           (\<forall>y \<in> set us \<union> set vs. \<not> canonical_match (trim raw) y)) \<or>
        (\<forall>y \<in> set opts. \<not> canonical_match (trim raw) y) \<and>
        (\<exists>us vs. opts = us @ x # vs \<and> alias_match (trim raw) x \<and>
           (\<forall>y \<in> set us \<union> set vs. \<not> alias_match (trim raw) y))))"
  unfolding filter_single_iff [symmetric] filter_empty_conv [symmetric]
  by (auto simp: resolve_typed_def Let_def single_Some_iff split: if_splits)

lemma filter_canonical_cong:
  "map (\<lambda>x. (co_id x, co_key x)) opts' = map (\<lambda>x. (co_id x, co_key x)) opts \<Longrightarrow>
     map co_id (filter (canonical_match s) opts') = map co_id (filter (canonical_match s) opts)"
proof (induction opts arbitrary: opts')
  case (Cons x xs)
  then obtain y ys where opts': "opts' = y # ys" by (cases opts') simp_all
  with Cons.prems have "co_id y = co_id x" "co_key y = co_key x" by simp_all
  moreover from Cons.prems opts' Cons.IH [of ys]
  have "map co_id (filter (canonical_match s) ys) = map co_id (filter (canonical_match s) xs)"
    by simp
  moreover from calculation(1,2) have "canonical_match s y = canonical_match s x"
    by (simp add: canonical_match_def)
  ultimately show ?case by (simp add: opts')
qed simp

lemma single_eq: "single ms = (case map co_id ms of [p] \<Rightarrow> Some p | _ \<Rightarrow> None)"
  by (cases ms; cases "tl ms") (auto simp: single_def)

lemma single_map: "map co_id ms = map co_id ns \<Longrightarrow> single ms = single ns"
  unfolding single_eq by (rule arg_cong)

text \<open>A concrete offer, response and caller, used by the witnesses.\<close>

definition sample_definition :: interaction_definition where
  "sample_definition = \<lparr>def_schema = DefinitionTag, def_kind = InteractionKind_Confirm,
     def_revision = Revision 0, def_markdown = ''Proceed?'',
     def_controls = [\<lparr>ctl_id = ControlId ''q'',
       ctl_kind = ControlKind_Choice
         [\<lparr>co_id = OptionId ''allow'', co_role = SemanticRole_Allow, co_label = ''yes'',
           co_key = ''y'', co_aliases = [''Y'']\<rparr>,
          \<lparr>co_id = OptionId ''deny'', co_role = SemanticRole_Deny, co_label = ''no'',
           co_key = ''n'', co_aliases = [''N'']\<rparr>],
       ctl_label = ''q'', ctl_requirement = Requirement_Required\<rparr>],
     def_features = [], def_note = None\<rparr>"

definition sample_instance :: "nat interaction_instance" where
  "sample_instance = \<lparr>in_schema = InstanceTag, in_nonce = Nonce ''n'',
     in_definition = DefinitionId 3, in_revision = Revision 0, in_ttl_ticks = 5,
     in_scope = \<lparr>sc_workspace_key = ''w'', sc_conversation_id = ''c''\<rparr>,
     in_responder_policy = \<lparr>rp_audiences = [Audience_Terminal], rp_requires_assertion = False\<rparr>,
     in_provenance = \<lparr>pv_origin = ''o'', pv_minted_tick = 0\<rparr>\<rparr>"

definition sample_lifecycle :: "nat lifecycle" where
  "sample_lifecycle = \<lparr>lc_instance = InstanceId 4, lc_state = LifecycleState_Published\<rparr>"

definition sample_response :: "nat response" where
  "sample_response = \<lparr>rs_schema = ResponseTag, rs_definition = DefinitionId 3,
     rs_instance = InstanceId 4, rs_revision = Revision 0,
     rs_values = [\<lparr>sub_control = ControlId ''q'',
       sub_value = ControlValue_Choice (OptionId ''deny'')\<rparr>],
     rs_idempotency_key = IdempotencyKey ''k'',
     rs_provenance = \<lparr>pr_kind = AssertionKind_Unauthenticated, pr_subject = ''s'',
       pr_audience = Audience_Terminal, pr_assertion = None\<rparr>\<rparr>"

definition sample_context :: responder_context where
  "sample_context = \<lparr>cx_workspace_key = ''w'',
     cx_registered = [\<lparr>ra_option = OptionId ''deny'', ra_handler = HandlerId ''h'',
       ra_audiences = [Audience_Terminal]\<rparr>]\<rparr>"

definition sample_action :: resolved_action where
  "sample_action = \<lparr>ac_control = ControlId ''q'', ac_option = OptionId ''deny'',
     ac_handler = HandlerId ''h''\<rparr>"

section \<open>Properties\<close>

text \<open>
  C8. Response validation is exact: a response is accepted if and only if the offer is
  published, response, offer, lifecycle and definition name one another by their exact ids and
  revision, the workspace fence and the responder policy hold, the submitted controls are
  distinct controls of the definition with values their kinds accept and options some
  registered handler is eligible for, every required control is answered, and the ids can be
  minted; the accepted record then names this response, this offer and those handlers.
\<close>

theorem response_accepted_iff:
  "validate_response def_cid inst_cid resp_cid cid_show d i l r cx = Inr acc \<longleftrightarrow>
     (\<exists>rid. acceptable d i l r cx \<and>
        instance_id inst_cid i = Inr (rs_instance r) \<and>
        definition_id def_cid d = Inr (rs_definition r) \<and>
        response_id resp_cid r = Inr rid \<and>
        acc = \<lparr>acc_response = rid, acc_instance = rs_instance r,
               acc_actions = concat (map (submission_actions (cx_registered cx)) (rs_values r))\<rparr>)"
  by (rule validate_iff)

text \<open>
  Authority comes from the caller's registrations alone: every action of an accepted
  response is for a choice control of the definition, for an option that control offers and
  the response picked, and for the handler of the first registration of that option, which
  lists the responder's audience; labels, roles and keys of the definition decide nothing.
\<close>

theorem actions_only_registered:
  assumes "validate_response def_cid inst_cid resp_cid cid_show d i l r cx = Inr acc"
    and "a \<in> set (acc_actions acc)"
  shows "(\<exists>c opts. c \<in> set (def_controls d) \<and> ctl_id c = ac_control a \<and>
            ctl_kind c = ControlKind_Choice opts \<and> ac_option a \<in> set (map co_id opts)) \<and>
         \<lparr>sub_control = ac_control a, sub_value = ControlValue_Choice (ac_option a)\<rparr>
           \<in> set (rs_values r) \<and>
         registered_for (cx_registered cx) (pr_audience (rs_provenance r))
           (ac_option a) (ac_handler a)"
proof -
  from assms obtain s where s: "s \<in> set (rs_values r)"
    and a: "a \<in> set (submission_actions (cx_registered cx) s)"
    and acc: "acceptable d i l r cx"
    by (auto simp: validate_iff)
  from a obtain opt reg where opt: "sub_value s = ControlValue_Choice opt"
    and reg: "List.find (\<lambda>r. ra_option r = opt) (cx_registered cx) = Some reg"
    and act: "a = \<lparr>ac_control = sub_control s, ac_option = opt, ac_handler = ra_handler reg\<rparr>"
  proof (cases "sub_value s")
    case (ControlValue_Choice opt)
    with a that show ?thesis
      by (cases "List.find (\<lambda>r. ra_option r = opt) (cx_registered cx)")
        (auto simp: submission_actions_def)
  qed (use a in \<open>auto simp: submission_actions_def\<close>)
  from acc s have ok: "submission_ok (def_controls d) (cx_registered cx)
      (pr_audience (rs_provenance r)) s"
    by (simp add: acceptable_def)
  then obtain us c vs where "def_controls d = us @ c # vs" "ctl_id c = sub_control s"
      "value_ok c (sub_value s)"
    unfolding submission_ok_def by blast
  with opt have c: "c \<in> set (def_controls d)" "ctl_id c = sub_control s"
      "value_ok c (ControlValue_Choice opt)"
    by simp_all
  from c(3) obtain opts where "ctl_kind c = ControlKind_Choice opts" "opt \<in> set (map co_id opts)"
    by (cases "ctl_kind c") (auto simp: value_ok_def)
  moreover have "registered_for (cx_registered cx) (pr_audience (rs_provenance r)) opt
      (ra_handler reg)"
    using ok opt reg by (auto simp: submission_ok_def registered_for_iff_find)
  moreover have "\<lparr>sub_control = sub_control s, sub_value = ControlValue_Choice opt\<rparr> = s"
    using opt by simp
  ultimately show ?thesis using c(1,2) s act by auto
qed

lemma actions_only_registered_witness:
  "registered_for (cx_registered sample_context) Audience_Terminal (OptionId ''deny'')
     (HandlerId ''h'')"
proof -
  have "validate_response (\<lambda>_. Inr 3 :: unit + nat) (\<lambda>_. Inr 4) (\<lambda>_. Inr 5) (\<lambda>_. ''x'')
      sample_definition sample_instance sample_lifecycle sample_response sample_context =
      Inr \<lparr>acc_response = ResponseId 5, acc_instance = InstanceId 4,
           acc_actions = [sample_action]\<rparr>"
    by code_simp
  from actions_only_registered [OF this, of sample_action] show ?thesis
    by (simp add: sample_action_def sample_response_def)
qed

text \<open>
  A decided offer is closed: once the host has applied any transition to a published
  offer (answered, cancelled, expired or unsupported), every response to it is refused with
  that state, whatever it contains.
\<close>

theorem decided_offer_refuses:
  assumes "offer_run def_cid inst_cid cid_show i d tos l" and "tos \<noteq> []"
  shows "validate_response def_cid' inst_cid' resp_cid cid_show' d' i' l r cx =
           Inl (Refusal_NotPublished (last tos))"
  using assms
proof (cases rule: offer_run.cases)
  case (moved tos' l' to)
  then have "lc_state l = last tos \<and> terminal (last tos)" by (auto simp: transition_Inr_iff)
  then have "lc_state l = last tos \<and> last tos \<noteq> LifecycleState_Published" by auto
  then show ?thesis by (simp add: validate_response_def)
qed simp

text \<open>
  Typed input picks an option only without ambiguity, canonical names first: the input
  resolves to an option exactly when that option is the only one whose id or key it spells, or
  no option's id or key is spelled and it is the only one with that alias; so when some id or
  key matches, the aliases an author adds or changes cannot change the result.
\<close>

theorem typed_input_unambiguous:
  "(resolve_typed opts raw = Some p \<longleftrightarrow>
     (\<exists>x. p = co_id x \<and>
       ((\<exists>us vs. opts = us @ x # vs \<and> canonical_match (trim raw) x \<and>
           (\<forall>y \<in> set us \<union> set vs. \<not> canonical_match (trim raw) y)) \<or>
        (\<forall>y \<in> set opts. \<not> canonical_match (trim raw) y) \<and>
        (\<exists>us vs. opts = us @ x # vs \<and> alias_match (trim raw) x \<and>
           (\<forall>y \<in> set us \<union> set vs. \<not> alias_match (trim raw) y))))) \<and>
   ((\<exists>y \<in> set opts. canonical_match (trim raw) y) \<and>
      map (\<lambda>x. (co_id x, co_key x)) opts' = map (\<lambda>x. (co_id x, co_key x)) opts \<longrightarrow>
    resolve_typed opts' raw = resolve_typed opts raw)"
proof (intro conjI impI, rule resolve_typed_iff, elim conjE)
  assume some: "\<exists>y \<in> set opts. canonical_match (trim raw) y"
    and same: "map (\<lambda>x. (co_id x, co_key x)) opts' = map (\<lambda>x. (co_id x, co_key x)) opts"
  note eq = filter_canonical_cong [OF same, of "trim raw"]
  from some have "filter (canonical_match (trim raw)) opts \<noteq> []" by (auto simp: filter_empty_conv)
  moreover from this eq have "filter (canonical_match (trim raw)) opts' \<noteq> []" by auto
  ultimately show "resolve_typed opts' raw = resolve_typed opts raw"
    using single_map [OF eq] by (simp add: resolve_typed_def Let_def)
qed

lemma typed_input_unambiguous_witness:
  "resolve_typed
     [\<lparr>co_id = OptionId ''a'', co_role = SemanticRole_Deny, co_label = '''', co_key = ''n'',
       co_aliases = []\<rparr>,
      \<lparr>co_id = OptionId ''b'', co_role = SemanticRole_Allow, co_label = '''', co_key = ''y'',
       co_aliases = [''n'']\<rparr>] ''n'' = Some (OptionId ''a'')"
proof -
  let ?a = "\<lparr>co_id = OptionId ''a'', co_role = SemanticRole_Deny, co_label = '''', co_key = ''n'',
       co_aliases = []\<rparr>"
  let ?b = "\<lambda>al. \<lparr>co_id = OptionId ''b'', co_role = SemanticRole_Allow, co_label = '''',
       co_key = ''y'', co_aliases = al\<rparr>"
  have "resolve_typed [?a, ?b []] ''n'' = Some (OptionId ''a'')" by code_simp
  moreover have "\<exists>y \<in> set [?a, ?b []]. canonical_match (trim ''n'') y"
    by (rule bexI [of _ ?a]) (code_simp, simp)
  moreover have "map (\<lambda>x. (co_id x, co_key x)) [?a, ?b [''n'']] =
      map (\<lambda>x. (co_id x, co_key x)) [?a, ?b []]"
    by simp
  ultimately show ?thesis
    using typed_input_unambiguous [THEN conjunct2, rule_format, OF conjI,
        of "[?a, ?b []]" "''n''" "[?a, ?b [''n'']]"]
    by simp
qed

lemma decided_offer_refuses_witness:
  "validate_response (\<lambda>_. Inr 3 :: unit + nat) (\<lambda>_. Inr 4) (\<lambda>_. Inr 5) (\<lambda>_. ''x'')
     sample_definition sample_instance
     \<lparr>lc_instance = InstanceId 4, lc_state = LifecycleState_Cancelled\<rparr> sample_response
     sample_context = Inl (Refusal_NotPublished LifecycleState_Cancelled)"
proof -
  have "publish (\<lambda>_. Inr 3 :: unit + nat) (\<lambda>_. Inr 4) (\<lambda>_. ''x'') HostMint sample_instance
      sample_definition = Inr sample_lifecycle"
    by code_simp
  then have "offer_run (\<lambda>_. Inr 3 :: unit + nat) (\<lambda>_. Inr 4) (\<lambda>_. ''x'') sample_instance
      sample_definition [] sample_lifecycle"
    by (rule offer_run.published)
  moreover have "(transition sample_lifecycle LifecycleState_Cancelled ::
      unit lifecycle_error + nat lifecycle) =
      Inr \<lparr>lc_instance = InstanceId 4, lc_state = LifecycleState_Cancelled\<rparr>"
    by code_simp
  ultimately have "offer_run (\<lambda>_. Inr 3 :: unit + nat) (\<lambda>_. Inr 4) (\<lambda>_. ''x'') sample_instance
      sample_definition ([] @ [LifecycleState_Cancelled])
      \<lparr>lc_instance = InstanceId 4, lc_state = LifecycleState_Cancelled\<rparr>"
    by (rule offer_run.moved)
  from decided_offer_refuses [OF this] show ?thesis by simp
qed

end
