(* ===== verification/InteractionResolution.thy ===== *)
theory InteractionResolution
  imports InteractionBinding
begin

text \<open>
  Exactly-once resolution: the contract (\<^verbatim>\<open>newt-interaction/src/resolution.rs\<close>) and
  its implementation over the conversation database
  (\<^verbatim>\<open>newt-core/src/interaction_resolution.rs\<close>). The table
  \<^verbatim>\<open>interaction_resolutions\<close> is a map from its primary key, the rendered instance id,
  to its row. SQLite's failures are an argument: each of the four statements a call issues may
  fail, and a transaction that is dropped before its commit succeeds leaves the table as it
  was. Every call is one immediate transaction, so calls of any number of connections are
  interleaved as a sequence of whole calls.
\<close>

section \<open>Vocabulary\<close>

record 'c resolution_record =
  rr_instance :: "'c instance_id"
  rr_response :: "'c response_id"
  rr_key :: idempotency_key

datatype 'c resolution =
    Resolution_Won
  | Resolution_Lost "'c response_id"
  | Resolution_Replayed "'c response_id"

record 'c idempotency_conflict =
  ic_key :: string
  ic_existing :: "'c response_id"
  ic_presented :: "'c response_id"

datatype ('c, 'e) resolution_error =
    ResolutionError_IdempotencyConflict "'c idempotency_conflict"
  | ResolutionError_Store 'e

datatype store_failure =
    StoreFailure_Sql
  | StoreFailure_OutsideFence string
  | StoreFailure_NotCanonical string

section \<open>The database\<close>

record resolution_row =
  row_workspace :: string
  row_response :: string
  row_key :: string
  row_tick :: int

type_synonym resolution_table = "string \<Rightarrow> resolution_row option"

record sql_faults =
  fault_begin :: bool
  fault_insert :: bool
  fault_query :: bool
  fault_commit :: bool

definition no_faults :: sql_faults where
  "no_faults = \<lparr>fault_begin = False, fault_insert = False, fault_query = False,
     fault_commit = False\<rparr>"

text \<open>
  \<^verbatim>\<open>ConversationStore::resolve\<close>, on a store fenced to \<open>fence\<close> whose clock reads
  \<open>tick\<close>.
\<close>

definition store_resolve ::
    "(string \<Rightarrow> 'c option) \<Rightarrow> ('c \<Rightarrow> string) \<Rightarrow> sql_faults \<Rightarrow> string \<Rightarrow> int \<Rightarrow>
      resolution_table \<Rightarrow> 'c resolution_record \<Rightarrow>
      resolution_table \<times> (('c, store_failure) resolution_error + 'c resolution)" where
  "store_resolve cid_parse cid_show faults fence tick db r =
     (let inst = InstanceId_show cid_show (rr_instance r);
          resp = ResponseId_show cid_show (rr_response r);
          key = IdempotencyKey_as_str (rr_key r) in
      if fault_begin faults then (db, Inl (ResolutionError_Store StoreFailure_Sql))
      else if fault_insert faults then (db, Inl (ResolutionError_Store StoreFailure_Sql))
      else (case db inst of
          None \<Rightarrow>
            if fault_commit faults then (db, Inl (ResolutionError_Store StoreFailure_Sql))
            else (db(inst \<mapsto> \<lparr>row_workspace = fence, row_response = resp, row_key = key,
                               row_tick = tick\<rparr>),
                  Inr Resolution_Won)
        | Some row \<Rightarrow>
            if fault_query faults then (db, Inl (ResolutionError_Store StoreFailure_Sql))
            else if fault_commit faults then (db, Inl (ResolutionError_Store StoreFailure_Sql))
            else if row_workspace row \<noteq> fence
            then (db, Inl (ResolutionError_Store (StoreFailure_OutsideFence inst)))
            else (case (ResponseId_parse cid_parse cid_show (row_response row) ::
                    unit protocol_error + 'c response_id) of
                Inl _ \<Rightarrow> (db, Inl (ResolutionError_Store (StoreFailure_NotCanonical
                               (row_response row))))
              | Inr winner \<Rightarrow>
                  if winner = rr_response r then (db, Inr (Resolution_Replayed winner))
                  else if row_key row = key
                  then (db, Inl (ResolutionError_IdempotencyConflict
                         \<lparr>ic_key = row_key row, ic_existing = winner,
                          ic_presented = rr_response r\<rparr>))
                  else (db, Inr (Resolution_Lost winner)))))"

definition store_winner ::
    "(string \<Rightarrow> 'c option) \<Rightarrow> ('c \<Rightarrow> string) \<Rightarrow> bool \<Rightarrow> string \<Rightarrow> resolution_table \<Rightarrow>
      'c instance_id \<Rightarrow> store_failure + 'c response_id option" where
  "store_winner cid_parse cid_show fault fence db i =
     (if fault then Inl StoreFailure_Sql
      else (case db (InstanceId_show cid_show i) of
          None \<Rightarrow> Inr None
        | Some row \<Rightarrow>
            if row_workspace row \<noteq> fence then Inr None
            else (case (ResponseId_parse cid_parse cid_show (row_response row) ::
                    unit protocol_error + 'c response_id) of
                Inl _ \<Rightarrow> Inl (StoreFailure_NotCanonical (row_response row))
              | Inr winner \<Rightarrow> Inr (Some winner))))"

section \<open>The contract\<close>

text \<open>
  The trait \<^verbatim>\<open>ResolutionStore\<close> as its callers use it. A call \<open>q\<close> carries the record it
  presents, and with it whatever the environment decides (which connection, which failures);
  \<open>recorded s k\<close> is what the store holds for instance \<open>k\<close>.
\<close>

locale resolution_store =
  fixes call :: "'s \<Rightarrow> 'q \<Rightarrow> 's \<times> 'r"
    and key_of :: "'q \<Rightarrow> 'k"
    and presented :: "'q \<Rightarrow> 'w"
    and won :: "'r \<Rightarrow> bool"
    and recorded :: "'s \<Rightarrow> 'k \<Rightarrow> 'w option"
  assumes win: "call s q = (s', r) \<Longrightarrow> won r \<Longrightarrow>
      recorded s (key_of q) = None \<and> recorded s' (key_of q) = Some (presented q)"
    and frame: "call s q = (s', r) \<Longrightarrow> k \<noteq> key_of q \<or> \<not> won r \<Longrightarrow> recorded s' k = recorded s k"
begin

fun calls :: "'s \<Rightarrow> 'q list \<Rightarrow> 's \<times> 'r list" where
  "calls s [] = (s, [])"
| "calls s (q # qs) =
     (let (s1, r) = call s q; (s2, rs) = calls s1 qs in (s2, r # rs))"

definition wins :: "'q list \<Rightarrow> 'r list \<Rightarrow> 'k \<Rightarrow> 'q list" where
  "wins qs rs k = map fst (filter (\<lambda>(q, r). key_of q = k \<and> won r) (zip qs rs))"

lemma calls_exactly_once:
  "calls s qs = (s', rs) \<Longrightarrow>
     (case recorded s k of
        Some w \<Rightarrow> wins qs rs k = [] \<and> recorded s' k = Some w
      | None \<Rightarrow>
          (wins qs rs k = [] \<and> recorded s' k = None \<or>
           (\<exists>q. wins qs rs k = [q] \<and> recorded s' k = Some (presented q))))"
proof (induction qs arbitrary: s s' rs)
  case Nil
  then show ?case by (auto simp: wins_def split: option.splits)
next
  case (Cons q qs)
  obtain s1 r where one: "call s q = (s1, r)" by fastforce
  obtain s2 rs' where rest: "calls s1 qs = (s2, rs')" by fastforce
  from Cons.prems one rest have eq: "s' = s2" "rs = r # rs'" by auto
  note IH = Cons.IH [OF rest]
  show ?case
  proof (cases "key_of q = k \<and> won r")
    case True
    with win [OF one] have "recorded s k = None" "recorded s1 k = Some (presented q)" by auto
    with IH True eq show ?thesis by (simp add: wins_def)
  next
    case False
    with frame [OF one, of k] have "recorded s1 k = recorded s k" by auto
    moreover have "wins (q # qs) rs k = wins qs rs' k" using False eq by (auto simp: wins_def)
    ultimately show ?thesis using IH eq by (cases "recorded s k") simp_all
  qed
qed

lemma at_most_one_win: "calls s qs = (s', rs) \<Longrightarrow> length (wins qs rs k) \<le> 1"
  using calls_exactly_once [of s qs s' rs k] by (auto split: option.splits)

lemma winner_is_kept: "calls s qs = (s', rs) \<Longrightarrow> recorded s k = Some w \<Longrightarrow> recorded s' k = Some w"
  using calls_exactly_once [of s qs s' rs k] by simp

end

section \<open>The implementation meets the contract\<close>

record 'c resolve_call =
  rc_faults :: sql_faults
  rc_fence :: string
  rc_tick :: int
  rc_record :: "'c resolution_record"

definition resolve_call ::
    "(string \<Rightarrow> 'c option) \<Rightarrow> ('c \<Rightarrow> string) \<Rightarrow> resolution_table \<Rightarrow> 'c resolve_call \<Rightarrow>
      resolution_table \<times> (('c, store_failure) resolution_error + 'c resolution)" where
  "resolve_call cid_parse cid_show db q =
     store_resolve cid_parse cid_show (rc_faults q) (rc_fence q) (rc_tick q) db (rc_record q)"

definition call_key :: "('c \<Rightarrow> string) \<Rightarrow> 'c resolve_call \<Rightarrow> string" where
  "call_key cid_show q = InstanceId_show cid_show (rr_instance (rc_record q))"

definition call_row :: "('c \<Rightarrow> string) \<Rightarrow> 'c resolve_call \<Rightarrow> resolution_row" where
  "call_row cid_show q =
     \<lparr>row_workspace = rc_fence q,
      row_response = ResponseId_show cid_show (rr_response (rc_record q)),
      row_key = IdempotencyKey_as_str (rr_key (rc_record q)), row_tick = rc_tick q\<rparr>"

lemma store_resolve_Won_iff:
  "snd (store_resolve cid_parse cid_show faults fence tick db r) = Inr Resolution_Won \<longleftrightarrow>
     \<not> fault_begin faults \<and> \<not> fault_insert faults \<and> \<not> fault_commit faults \<and>
     db (InstanceId_show cid_show (rr_instance r)) = None"
  by (auto simp: store_resolve_def Let_def split: option.splits sum.splits)

lemma store_resolve_db:
  "fst (store_resolve cid_parse cid_show faults fence tick db r) =
     (if snd (store_resolve cid_parse cid_show faults fence tick db r) = Inr Resolution_Won
      then db(InstanceId_show cid_show (rr_instance r) \<mapsto>
             \<lparr>row_workspace = fence, row_response = ResponseId_show cid_show (rr_response r),
              row_key = IdempotencyKey_as_str (rr_key r), row_tick = tick\<rparr>)
      else db)"
  by (auto simp: store_resolve_def Let_def split: option.splits sum.splits)

interpretation sqlite: resolution_store
  "resolve_call cid_parse cid_show" "call_key cid_show" "call_row cid_show"
  "\<lambda>r. r = Inr Resolution_Won" "\<lambda>db k. db k"
  for cid_parse :: "string \<Rightarrow> 'c option" and cid_show
proof
  fix db q db' r
  assume "resolve_call cid_parse cid_show db q = (db', r)"
  then have r: "r = snd (resolve_call cid_parse cid_show db q)"
    and db': "db' = fst (resolve_call cid_parse cid_show db q)" by simp_all
  { assume "r = Inr Resolution_Won"
    then show "db (call_key cid_show q) = None \<and>
        db' (call_key cid_show q) = Some (call_row cid_show q)"
      unfolding r db' resolve_call_def store_resolve_db
      by (simp add: store_resolve_Won_iff call_key_def call_row_def)
  next
    fix k
    assume "k \<noteq> call_key cid_show q \<or> r \<noteq> Inr Resolution_Won"
    then show "db' k = db k"
      unfolding r db' resolve_call_def store_resolve_db
      by (auto simp: call_key_def) }
qed

text \<open>The calls of all processes against the database, in the order their transactions ran.\<close>

fun resolve_calls ::
    "(string \<Rightarrow> 'c option) \<Rightarrow> ('c \<Rightarrow> string) \<Rightarrow> resolution_table \<Rightarrow> 'c resolve_call list \<Rightarrow>
      resolution_table \<times> (('c, store_failure) resolution_error + 'c resolution) list" where
  "resolve_calls cid_parse cid_show db [] = (db, [])"
| "resolve_calls cid_parse cid_show db (q # qs) =
     (let (db1, r) = resolve_call cid_parse cid_show db q;
          (db2, rs) = resolve_calls cid_parse cid_show db1 qs in (db2, r # rs))"

definition winning_calls ::
    "('c \<Rightarrow> string) \<Rightarrow> 'c resolve_call list \<Rightarrow>
      (('c, store_failure) resolution_error + 'c resolution) list \<Rightarrow> string \<Rightarrow>
      'c resolve_call list" where
  "winning_calls cid_show qs rs k =
     map fst (filter (\<lambda>(q, r). call_key cid_show q = k \<and> r = Inr Resolution_Won) (zip qs rs))"

lemma resolve_calls_eq: "resolve_calls cid_parse cid_show db qs = sqlite.calls cid_parse cid_show db qs"
  by (induction qs arbitrary: db) (simp_all add: sqlite.calls.simps)

lemma winning_calls_eq: "winning_calls cid_show qs rs k = sqlite.wins cid_show qs rs k"
  by (simp add: winning_calls_def sqlite.wins_def)

section \<open>Properties\<close>

text \<open>
  C1. Resolution is exactly once. Whatever calls the processes make against the database, in
  whatever order, with whatever failures of SQLite, an instance without a row gets at most one
  winning call, and then the row is that call's and stays; an instance that already has a row
  gets none and keeps it; and without a winning call the table has no row for it.
\<close>

theorem resolved_exactly_once:
  assumes "resolve_calls cid_parse cid_show db qs = (db', rs)"
  shows "case db k of
      Some row \<Rightarrow> winning_calls cid_show qs rs k = [] \<and> db' k = Some row
    | None \<Rightarrow>
        (winning_calls cid_show qs rs k = [] \<and> db' k = None \<or>
         (\<exists>q. winning_calls cid_show qs rs k = [q] \<and> db' k = Some (call_row cid_show q)))"
  using sqlite.calls_exactly_once assms unfolding resolve_calls_eq winning_calls_eq .

lemma resolved_exactly_once_witness:
  "winning_calls (\<lambda>c. c)
     [\<lparr>rc_faults = no_faults, rc_fence = ''w'', rc_tick = 1,
        rc_record = \<lparr>rr_instance = InstanceId ''i'', rr_response = ResponseId ''a'',
          rr_key = IdempotencyKey ''k''\<rparr>\<rparr>,
      \<lparr>rc_faults = no_faults, rc_fence = ''w'', rc_tick = 2,
        rc_record = \<lparr>rr_instance = InstanceId ''i'', rr_response = ResponseId ''b'',
          rr_key = IdempotencyKey ''l''\<rparr>\<rparr>]
     [Inr Resolution_Won, Inr (Resolution_Lost (ResponseId ''a''))] ''i'' =
   [\<lparr>rc_faults = no_faults, rc_fence = ''w'', rc_tick = 1,
      rc_record = \<lparr>rr_instance = InstanceId ''i'', rr_response = ResponseId ''a'',
        rr_key = IdempotencyKey ''k''\<rparr>\<rparr>]"
proof -
  let ?q = "\<lparr>rc_faults = no_faults, rc_fence = ''w'', rc_tick = 1,
      rc_record = \<lparr>rr_instance = InstanceId ''i'', rr_response = ResponseId ''a'',
        rr_key = IdempotencyKey ''k''\<rparr>\<rparr>"
  let ?q' = "\<lparr>rc_faults = no_faults, rc_fence = ''w'', rc_tick = 2,
      rc_record = \<lparr>rr_instance = InstanceId ''i'', rr_response = ResponseId ''b'',
        rr_key = IdempotencyKey ''l''\<rparr>\<rparr>"
  let ?rs = "[Inr Resolution_Won, Inr (Resolution_Lost (ResponseId ''a''))]"
  have run: "resolve_calls Some (\<lambda>c. c) (\<lambda>_. None) [?q, ?q'] =
      ((\<lambda>_. None)(''i'' \<mapsto> call_row (\<lambda>c. c) ?q), ?rs)"
    by (simp add: resolve_call_def store_resolve_def no_faults_def call_row_def
        ResponseId_parse_def content_id_parse_def Let_def)
  from resolved_exactly_once [OF run, of "''i''"]
  have "winning_calls (\<lambda>c. c) [?q, ?q'] ?rs ''i'' = [] \<or>
      (\<exists>q. winning_calls (\<lambda>c. c) [?q, ?q'] ?rs ''i'' = [q])"
    by auto
  then show ?thesis by (auto simp: winning_calls_def call_key_def)
qed

lemma resolve_outcome:
  "\<not> fault_begin faults \<Longrightarrow> \<not> fault_insert faults \<Longrightarrow> \<not> fault_query faults \<Longrightarrow>
   \<not> fault_commit faults \<Longrightarrow> db (InstanceId_show cid_show (rr_instance r)) = Some row \<Longrightarrow>
   row_workspace row = fence \<Longrightarrow> row_response row = ResponseId_show cid_show w \<Longrightarrow>
   (\<And>c. cid_parse (cid_show c) = Some c) \<Longrightarrow>
   store_resolve cid_parse cid_show faults fence tick db r =
     (db, if w = rr_response r then Inr (Resolution_Replayed w)
          else if row_key row = IdempotencyKey_as_str (rr_key r)
          then Inl (ResolutionError_IdempotencyConflict
                 \<lparr>ic_key = row_key row, ic_existing = w, ic_presented = rr_response r\<rparr>)
          else Inr (Resolution_Lost w))"
  by (cases w) (simp add: store_resolve_def Let_def ResponseId_parse_def content_id_parse_def)

text \<open>
  Every later call learns the winner. Once some call has won an instance, a call for that
  instance from the same workspace whose statements succeed changes nothing and reports, with
  the winning response: a replay if it presents that response, a conflict if it reuses the
  winner's key for another response, and a loss otherwise; and \<^verbatim>\<open>winner\<close> returns that
  response. The codec's rendering of a content id is assumed to parse back.
\<close>

theorem later_calls_learn_the_winner:
  assumes "\<And>c. cid_parse (cid_show c) = Some c"
    and "resolve_calls cid_parse cid_show (\<lambda>_. None) qs = (db, rs)"
    and "winning_calls cid_show qs rs (call_key cid_show q) = [w]"
    and "rc_fence q = rc_fence w" and "rc_faults q = no_faults"
  shows "resolve_call cid_parse cid_show db q =
      (db, if rr_response (rc_record w) = rr_response (rc_record q)
           then Inr (Resolution_Replayed (rr_response (rc_record w)))
           else if rr_key (rc_record w) = rr_key (rc_record q)
           then Inl (ResolutionError_IdempotencyConflict
                  \<lparr>ic_key = IdempotencyKey_as_str (rr_key (rc_record w)),
                   ic_existing = rr_response (rc_record w),
                   ic_presented = rr_response (rc_record q)\<rparr>)
           else Inr (Resolution_Lost (rr_response (rc_record w)))) \<and>
    store_winner cid_parse cid_show False (rc_fence q) db (rr_instance (rc_record q)) =
      Inr (Some (rr_response (rc_record w)))"
proof -
  from sqlite.calls_exactly_once [OF assms(2) [unfolded resolve_calls_eq], of "call_key cid_show q"]
    assms(3)
  have row: "db (InstanceId_show cid_show (rr_instance (rc_record q))) = Some (call_row cid_show w)"
    by (auto simp: winning_calls_eq call_key_def)
  have key: "IdempotencyKey_as_str (rr_key (rc_record w)) =
      IdempotencyKey_as_str (rr_key (rc_record q)) \<longleftrightarrow> rr_key (rc_record w) = rr_key (rc_record q)"
    by (auto intro: name_injs)
  have "resolve_call cid_parse cid_show db q =
      (db, if rr_response (rc_record w) = rr_response (rc_record q)
           then Inr (Resolution_Replayed (rr_response (rc_record w)))
           else if row_key (call_row cid_show w) = IdempotencyKey_as_str (rr_key (rc_record q))
           then Inl (ResolutionError_IdempotencyConflict
                  \<lparr>ic_key = row_key (call_row cid_show w),
                   ic_existing = rr_response (rc_record w),
                   ic_presented = rr_response (rc_record q)\<rparr>)
           else Inr (Resolution_Lost (rr_response (rc_record w))))"
    unfolding resolve_call_def
    by (rule resolve_outcome) (simp_all add: row assms no_faults_def call_row_def)
  moreover have "store_winner cid_parse cid_show False (rc_fence q) db
      (rr_instance (rc_record q)) = Inr (Some (rr_response (rc_record w)))"
    using row assms(1,4)
    by (cases "rr_response (rc_record w)")
      (simp add: store_winner_def call_row_def ResponseId_parse_def content_id_parse_def)
  ultimately show ?thesis by (simp add: call_row_def key)
qed

lemma later_calls_learn_the_winner_witness:
  "snd (resolve_call Some (\<lambda>c. c)
     ((\<lambda>_. None)(''i'' \<mapsto> \<lparr>row_workspace = ''w'', row_response = ''a'', row_key = ''k'',
        row_tick = 1\<rparr>))
     \<lparr>rc_faults = no_faults, rc_fence = ''w'', rc_tick = 2,
      rc_record = \<lparr>rr_instance = InstanceId ''i'', rr_response = ResponseId ''b'',
        rr_key = IdempotencyKey ''l''\<rparr>\<rparr>) = Inr (Resolution_Lost (ResponseId ''a''))"
proof -
  let ?q = "\<lparr>rc_faults = no_faults, rc_fence = ''w'', rc_tick = 1,
      rc_record = \<lparr>rr_instance = InstanceId ''i'', rr_response = ResponseId ''a'',
        rr_key = IdempotencyKey ''k''\<rparr>\<rparr>"
  let ?q' = "\<lparr>rc_faults = no_faults, rc_fence = ''w'', rc_tick = 2,
      rc_record = \<lparr>rr_instance = InstanceId ''i'', rr_response = ResponseId ''b'',
        rr_key = IdempotencyKey ''l''\<rparr>\<rparr>"
  have run: "resolve_calls Some (\<lambda>c. c) (\<lambda>_. None) [?q] =
      ((\<lambda>_. None)(''i'' \<mapsto> call_row (\<lambda>c. c) ?q), [Inr Resolution_Won])"
    by (simp add: resolve_call_def store_resolve_def no_faults_def call_row_def)
  have "winning_calls (\<lambda>c. c) [?q] [Inr Resolution_Won] (call_key (\<lambda>c. c) ?q') = [?q]"
    by (simp add: winning_calls_def call_key_def)
  from later_calls_learn_the_winner [OF _ run this] show ?thesis
    by (simp add: call_row_def)
qed

end
