(* ===== verification/PatchApply.thy ===== *)
theory PatchApply
  imports RustText
begin

text \<open>
  Hunk location and application of the fuzzy patch applier
  (\<^verbatim>\<open>newt-tools/src/patch.rs\<close>). Line numbers are \<^verbatim>\<open>usize\<close> values, kept as
  naturals: no file has \<^verbatim>\<open>2^64 - 64\<close> lines, so the outward walk does not overflow.
  Reading \<^verbatim>\<open>old_lines[old_idx]\<close> beyond the end panics in the code and is the error
  \<open>PatchError_Panic\<close> here.
\<close>

section \<open>Data model\<close>

datatype diff_line = DiffLine_Context string | DiffLine_Add string | DiffLine_Remove string

record hunk =
  h_old_start :: nat
  h_lines :: "diff_line list"

record file_patch =
  fp_path :: string
  fp_hunks :: "hunk list"

datatype 'io patch_error =
    PatchError_ExpectedPlus nat
  | PatchError_NoHunks string
  | PatchError_InvalidPlus string
  | PatchError_NoTarget string
  | PatchError_MalformedHeader string
  | PatchError_ParseInt string
  | PatchError_NoPatches
  | PatchError_Escapes string
  | PatchError_ContextMismatch nat string
  | PatchError_BeyondEnd nat nat
  | PatchError_Overlaps nat nat
  | PatchError_Backend string
  | PatchError_Read 'io
  | PatchError_Write 'io
  | PatchError_Panic

datatype fuzz_level = FuzzLevel_Exact | FuzzLevel_TrailingWs | FuzzLevel_Trim

definition SEARCH_WINDOW :: nat where
  "SEARCH_WINDOW = 64"

section \<open>Locating a hunk\<close>

fun lines_match :: "string \<Rightarrow> string \<Rightarrow> fuzz_level \<Rightarrow> bool" where
  "lines_match expected actual FuzzLevel_Exact = (expected = actual)"
| "lines_match expected actual FuzzLevel_TrailingWs = (trim_end expected = trim_end actual)"
| "lines_match expected actual FuzzLevel_Trim = (trim expected = trim actual)"

fun old_text :: "diff_line \<Rightarrow> string option" where
  "old_text (DiffLine_Context t) = Some t"
| "old_text (DiffLine_Remove t) = Some t"
| "old_text (DiffLine_Add _) = None"

definition hunk_old_side :: "hunk \<Rightarrow> string list" where
  "hunk_old_side h = List.map_filter old_text (h_lines h)"

definition old_side_matches_at :: "string list \<Rightarrow> string list \<Rightarrow> nat \<Rightarrow> fuzz_level \<Rightarrow> bool" where
  "old_side_matches_at old_side old_lines at level =
     (if length old_lines < at + length old_side then False
      else list_all (\<lambda>(e, a). lines_match e a level)
             (zip old_side (take (length old_side) (drop at old_lines))))"

definition hunk_hint :: "hunk \<Rightarrow> string list \<Rightarrow> nat" where
  "hunk_hint h old_lines =
     (if h_old_start h = 0 then 0 else min (h_old_start h - 1) (length old_lines))"

definition candidate_positions :: "nat \<Rightarrow> nat list" where
  "candidate_positions hint =
     hint # concat (map (\<lambda>d. (hint + d) # (if d \<le> hint then [hint - d] else []))
       [1..<SEARCH_WINDOW + 1])"

definition abs_diff :: "nat \<Rightarrow> nat \<Rightarrow> nat" where
  "abs_diff a b = (if a \<le> b then b - a else a - b)"

text \<open>One whitespace-tolerant pass: every position that matches, in file order.\<close>

definition matching_positions :: "string list \<Rightarrow> string list \<Rightarrow> fuzz_level \<Rightarrow> nat list" where
  "matching_positions old_side old_lines level =
     filter (\<lambda>at. old_side_matches_at old_side old_lines at level)
       [0..<length old_lines - length old_side + 1]"

definition fuzzy_pass :: "nat \<Rightarrow> string list \<Rightarrow> string list \<Rightarrow> fuzz_level \<Rightarrow> nat option" where
  "fuzzy_pass hint old_side old_lines level =
     (let matches = matching_positions old_side old_lines level in
      if length matches = 1
      then List.find (\<lambda>at. abs_diff at hint \<le> SEARCH_WINDOW) matches
      else None)"

definition locate_hunk :: "hunk \<Rightarrow> string list \<Rightarrow> (nat \<times> fuzz_level) option" where
  "locate_hunk h old_lines =
     (let old_side = hunk_old_side h in
      if old_side = [] then Some (min (h_old_start h - 1) (length old_lines), FuzzLevel_Exact)
      else let hint = hunk_hint h old_lines in
        case List.find (\<lambda>at. old_side_matches_at old_side old_lines at FuzzLevel_Exact)
               (candidate_positions hint) of
          Some at \<Rightarrow> Some (at, FuzzLevel_Exact)
        | None \<Rightarrow>
            (case fuzzy_pass hint old_side old_lines FuzzLevel_TrailingWs of
               Some at \<Rightarrow> Some (at, FuzzLevel_TrailingWs)
             | None \<Rightarrow>
                 (case fuzzy_pass hint old_side old_lines FuzzLevel_Trim of
                    Some at \<Rightarrow> Some (at, FuzzLevel_Trim)
                  | None \<Rightarrow> None)))"

section \<open>Applying hunks\<close>

definition index_line :: "string list \<Rightarrow> nat \<Rightarrow> 'io patch_error + string" where
  "index_line old_lines i = (if i < length old_lines then Inr (old_lines ! i) else Inl PatchError_Panic)"

fun apply_lines ::
    "string list \<Rightarrow> diff_line list \<Rightarrow> string list \<Rightarrow> nat \<Rightarrow>
      'io patch_error + (string list \<times> nat)" where
  "apply_lines old_lines [] result old_idx = Inr (result, old_idx)"
| "apply_lines old_lines (DiffLine_Context t # ds) result old_idx =
     rbind (index_line old_lines old_idx) (\<lambda>l.
       apply_lines old_lines ds (result @ [l]) (Suc old_idx))"
| "apply_lines old_lines (DiffLine_Remove t # ds) result old_idx =
     apply_lines old_lines ds result (Suc old_idx)"
| "apply_lines old_lines (DiffLine_Add t # ds) result old_idx =
     apply_lines old_lines ds (result @ [t]) old_idx"

text \<open>The copy loops: all lines from \<open>old_idx\<close> up to a limit.\<close>

fun copy_lines :: "string list \<Rightarrow> nat \<Rightarrow> nat \<Rightarrow> string list \<Rightarrow> 'io patch_error + string list" where
  "copy_lines old_lines 0 old_idx result = Inr result"
| "copy_lines old_lines (Suc n) old_idx result =
     rbind (index_line old_lines old_idx) (\<lambda>l.
       copy_lines old_lines n (Suc old_idx) (result @ [l]))"

definition first_anchor :: "hunk \<Rightarrow> string" where
  "first_anchor h = (case hunk_old_side h of [] \<Rightarrow> [] | t # _ \<Rightarrow> t)"

fun apply_hunk_list ::
    "string list \<Rightarrow> hunk list \<Rightarrow> string list \<Rightarrow> nat \<Rightarrow>
      'io patch_error + (string list \<times> nat)" where
  "apply_hunk_list old_lines [] result old_idx = Inr (result, old_idx)"
| "apply_hunk_list old_lines (h # hs) result old_idx =
     (case locate_hunk h old_lines of
        None \<Rightarrow> Inl (PatchError_ContextMismatch (h_old_start h) (first_anchor h))
      | Some (hunk_start, _) \<Rightarrow>
          if length old_lines < hunk_start
          then Inl (PatchError_BeyondEnd (h_old_start h) (length old_lines))
          else if hunk_start < old_idx
          then Inl (PatchError_Overlaps (h_old_start h) (hunk_start + 1))
          else rbind (copy_lines old_lines (hunk_start - old_idx) old_idx result) (\<lambda>result.
            rbind (apply_lines old_lines (h_lines h) result hunk_start) (\<lambda>(result, old_idx).
              apply_hunk_list old_lines hs result old_idx)))"

definition ends_with_newline :: "string \<Rightarrow> bool" where
  "ends_with_newline s \<longleftrightarrow> s \<noteq> [] \<and> last s = newline"

definition apply_hunks :: "string \<Rightarrow> hunk list \<Rightarrow> 'io patch_error + string" where
  "apply_hunks original hs =
     (let old_lines = (if original = [] then [] else str_lines original) in
      rbind (apply_hunk_list old_lines hs [] 0) (\<lambda>(result, old_idx).
      rbind (copy_lines old_lines (length old_lines - old_idx) old_idx result) (\<lambda>result.
        Inr (join_on newline result @
             (if original = [] \<or> ends_with_newline original then [newline] else [])))))"

section \<open>Facts about locating\<close>

lemma lines_match_refl [simp]: "lines_match l l level"
  by (cases level) auto

lemma old_side_matches_at_iff:
  "old_side_matches_at old_side old_lines at level \<longleftrightarrow>
     at + length old_side \<le> length old_lines \<and>
     list_all2 (\<lambda>e a. lines_match e a level) old_side
       (take (length old_side) (drop at old_lines))"
  by (auto simp: old_side_matches_at_def list_all2_iff list_all_iff not_less)

lemma in_candidates:
  "at \<in> set (candidate_positions hint) \<longleftrightarrow> abs_diff at hint \<le> SEARCH_WINDOW"
proof
  assume "at \<in> set (candidate_positions hint)"
  then show "abs_diff at hint \<le> SEARCH_WINDOW"
    by (auto simp: candidate_positions_def abs_diff_def SEARCH_WINDOW_def split: if_splits)
next
  assume win: "abs_diff at hint \<le> SEARCH_WINDOW"
  consider "at = hint" | "hint < at" | "at < hint" by arith
  then show "at \<in> set (candidate_positions hint)"
  proof cases
    case 1
    then show ?thesis by (simp add: candidate_positions_def)
  next
    case 2
    with win have d: "at - hint \<in> set [1..<SEARCH_WINDOW + 1]" "at = hint + (at - hint)"
      by (auto simp: abs_diff_def)
    then show ?thesis by (auto simp: candidate_positions_def intro!: bexI [OF _ d(1)])
  next
    case 3
    with win have d: "hint - at \<in> set [1..<SEARCH_WINDOW + 1]" "at = hint - (hint - at)"
      "hint - at \<le> hint"
      by (auto simp: abs_diff_def)
    then show ?thesis by (auto simp: candidate_positions_def intro!: bexI [OF _ d(1)])
  qed
qed

lemma matching_positions_iff:
  "at \<in> set (matching_positions old_side old_lines level) \<longleftrightarrow>
     old_side_matches_at old_side old_lines at level"
proof -
  have "old_side_matches_at old_side old_lines at level \<Longrightarrow>
      at < length old_lines - length old_side + 1"
    by (auto simp: old_side_matches_at_iff)
  then show ?thesis by (auto simp: matching_positions_def simp del: upt_Suc)
qed

lemma fuzzy_pass_SomeD:
  assumes "fuzzy_pass hint old_side old_lines level = Some at"
  shows "old_side_matches_at old_side old_lines at level" "abs_diff at hint \<le> SEARCH_WINDOW"
    "\<forall>at'. old_side_matches_at old_side old_lines at' level \<longrightarrow> at' = at"
proof -
  let ?ms = "matching_positions old_side old_lines level"
  from assms have one: "length ?ms = 1"
    and at: "List.find (\<lambda>at. abs_diff at hint \<le> SEARCH_WINDOW) ?ms = Some at"
    by (auto simp: fuzzy_pass_def Let_def split: if_splits)
  then obtain m where m: "?ms = [m]" by (auto simp: length_Suc_conv)
  from find_SomeD [OF at] m have "m = at" "abs_diff at hint \<le> SEARCH_WINDOW" by auto
  with m show "old_side_matches_at old_side old_lines at level"
    "abs_diff at hint \<le> SEARCH_WINDOW"
    "\<forall>at'. old_side_matches_at old_side old_lines at' level \<longrightarrow> at' = at"
    using matching_positions_iff [of _ old_side old_lines level] by auto
qed

lemma locate_hunk_sound:
  assumes "locate_hunk h old_lines = Some (at, level)"
  shows "old_side_matches_at (hunk_old_side h) old_lines at level"
    and "at + length (hunk_old_side h) \<le> length old_lines"
proof -
  show m: "old_side_matches_at (hunk_old_side h) old_lines at level"
  proof (cases "hunk_old_side h = []")
    case True
    with assms show ?thesis by (auto simp: locate_hunk_def old_side_matches_at_def)
  next
    case False
    with assms show ?thesis
      by (auto simp: locate_hunk_def Let_def split: option.splits dest: find_SomeD
          intro: fuzzy_pass_SomeD(1))
  qed
  then show "at + length (hunk_old_side h) \<le> length old_lines"
    by (simp add: old_side_matches_at_iff)
qed

lemma locate_hunk_level:
  assumes "locate_hunk h old_lines = Some (at, level)" "hunk_old_side h \<noteq> []"
  shows "abs_diff at (hunk_hint h old_lines) \<le> SEARCH_WINDOW"
    and "level \<noteq> FuzzLevel_Exact \<Longrightarrow>
      \<forall>at'. old_side_matches_at (hunk_old_side h) old_lines at' level \<longrightarrow> at' = at"
    and "level \<noteq> FuzzLevel_Exact \<Longrightarrow>
      \<forall>at'. abs_diff at' (hunk_hint h old_lines) \<le> SEARCH_WINDOW \<longrightarrow>
        \<not> old_side_matches_at (hunk_old_side h) old_lines at' FuzzLevel_Exact"
  using assms
  by (auto simp: locate_hunk_def Let_def find_None_iff_all in_candidates
      split: option.splits dest: find_SomeD fuzzy_pass_SomeD)

lemma locate_hunk_at_hint:
  assumes "hunk_old_side h \<noteq> []"
    and "old_side_matches_at (hunk_old_side h) old_lines (hunk_hint h old_lines) FuzzLevel_Exact"
  shows "locate_hunk h old_lines = Some (hunk_hint h old_lines, FuzzLevel_Exact)"
  using assms by (simp add: locate_hunk_def Let_def candidate_positions_def)

lemma locate_hunk_too_long:
  assumes "length old_lines < length (hunk_old_side h)"
  shows "locate_hunk h old_lines = None"
proof -
  have none: "\<not> old_side_matches_at (hunk_old_side h) old_lines at level" for at level
    using assms by (simp add: old_side_matches_at_iff)
  then have "matching_positions (hunk_old_side h) old_lines level = []" for level
    by (simp add: matching_positions_def)
  with none assms show ?thesis
    by (auto simp: locate_hunk_def Let_def fuzzy_pass_def find_None_iff_all split: option.splits
        dest: find_SomeD)
qed

section \<open>What applying hunks means\<close>

text \<open>
  The specification: a hunk's lines consume a segment of the old file and produce a segment
  of the new one. A context line takes the file's line to both sides, a removed line consumes
  one, an added line produces one.
\<close>

fun line_result :: "diff_line list \<Rightarrow> string list \<Rightarrow> string list" where
  "line_result [] seg = []"
| "line_result (DiffLine_Context t # ds) seg = hd seg # line_result ds (tl seg)"
| "line_result (DiffLine_Remove t # ds) seg = line_result ds (tl seg)"
| "line_result (DiffLine_Add t # ds) seg = t # line_result ds seg"

text \<open>
  The old lines are cut into gaps and segments, one segment per hunk, in order and without
  overlap; each segment matches its hunk's old side where \<^const>\<open>locate_hunk\<close> placed it,
  and is replaced by the hunk's result; the gaps are kept.
\<close>

inductive patched :: "string list \<Rightarrow> nat \<Rightarrow> hunk list \<Rightarrow> string list \<Rightarrow> string list \<Rightarrow> bool"
  for old_lines :: "string list" where
  rest: "patched old_lines pos [] rest rest"
| hunk: "locate_hunk h old_lines = Some (pos + length gap, level) \<Longrightarrow>
    length seg = length (hunk_old_side h) \<Longrightarrow>
    list_all2 (\<lambda>e a. lines_match e a level) (hunk_old_side h) seg \<Longrightarrow>
    patched old_lines (pos + length gap + length seg) hs tail new \<Longrightarrow>
    patched old_lines pos (h # hs) (gap @ seg @ tail) (gap @ line_result (h_lines h) seg @ new)"

lemma copy_lines_eq:
  "i + n \<le> length old_lines \<Longrightarrow>
     copy_lines old_lines n i result = Inr (result @ take n (drop i old_lines))"
proof (induction n arbitrary: i result)
  case (Suc n)
  then have "drop i old_lines = old_lines ! i # drop (Suc i) old_lines"
    by (simp add: Cons_nth_drop_Suc)
  with Suc show ?case by (simp add: index_line_def)
qed simp

lemma apply_lines_eq:
  "i + length (List.map_filter old_text ds) \<le> length old_lines \<Longrightarrow>
     apply_lines old_lines ds result i =
       Inr (result @ line_result ds
              (take (length (List.map_filter old_text ds)) (drop i old_lines)),
            i + length (List.map_filter old_text ds))"
proof (induction old_lines ds result i rule: apply_lines.induct)
  case (2 old_lines t ds result i)
  then have "drop i old_lines = old_lines ! i # drop (Suc i) old_lines"
    by (simp add: Cons_nth_drop_Suc map_filter_simps)
  with 2 show ?case by (simp add: index_line_def map_filter_simps)
next
  case (3 old_lines t ds result i)
  then have "drop i old_lines = old_lines ! i # drop (Suc i) old_lines"
    by (simp add: Cons_nth_drop_Suc map_filter_simps)
  with 3 show ?case by (simp add: map_filter_simps)
qed (simp_all add: map_filter_simps)

lemma apply_one_hunk:
  assumes loc: "locate_hunk h old_lines = Some (at, level)" and le: "k \<le> at"
  shows "(apply_hunk_list old_lines (h # hs) result k :: 'io patch_error + string list \<times> nat) =
     apply_hunk_list old_lines hs
       (result @ take (at - k) (drop k old_lines) @
        line_result (h_lines h) (take (length (hunk_old_side h)) (drop at old_lines)))
       (at + length (hunk_old_side h))"
proof -
  note fits = locate_hunk_sound(2) [OF loc]
  then have "copy_lines old_lines (at - k) k result =
      (Inr (result @ take (at - k) (drop k old_lines)) :: 'io patch_error + string list)"
    using le by (intro copy_lines_eq) simp
  moreover have "apply_lines old_lines (h_lines h) r at =
      (Inr (r @ line_result (h_lines h) (take (length (hunk_old_side h)) (drop at old_lines)),
           at + length (hunk_old_side h)) :: 'io patch_error + string list \<times> nat)" for r
    using fits unfolding hunk_old_side_def by (rule apply_lines_eq)
  ultimately show ?thesis using loc le fits by simp
qed

lemma drop_gap_seg:
  "k \<le> at \<Longrightarrow> drop k xs = take (at - k) (drop k xs) @ take n (drop at xs) @ drop (at + n) xs"
proof -
  assume "k \<le> at"
  then have "drop at xs = drop (at - k) (drop k xs)" by simp
  moreover have "drop (at + n) xs = drop n (drop at xs)" by (simp add: add.commute)
  ultimately show ?thesis by (metis append_take_drop_id)
qed

lemma apply_hunk_list_patched:
  "apply_hunk_list old_lines hs result k = (Inr (res, k') :: 'io patch_error + string list \<times> nat) \<Longrightarrow>
     k \<le> length old_lines \<Longrightarrow>
     k' \<le> length old_lines \<and>
     (\<exists>new. res = result @ new \<and>
        patched old_lines k hs (drop k old_lines) (new @ drop k' old_lines))"
proof (induction hs arbitrary: result k)
  case Nil
  then show ?case by (auto intro: patched.rest)
next
  case (Cons h hs)
  from Cons.prems obtain at level where loc: "locate_hunk h old_lines = Some (at, level)"
    and le: "k \<le> at"
    by (auto split: option.splits if_splits)
  let ?gap = "take (at - k) (drop k old_lines)"
  let ?n = "length (hunk_old_side h)"
  let ?seg = "take ?n (drop at old_lines)"
  note fits = locate_hunk_sound(2) [OF loc]
  from Cons.prems(1) have "apply_hunk_list old_lines hs
      (result @ ?gap @ line_result (h_lines h) ?seg) (at + ?n) =
      (Inr (res, k') :: 'io patch_error + string list \<times> nat)"
    by (simp only: apply_one_hunk [OF loc le])
  from Cons.IH [OF this fits] obtain new where k': "k' \<le> length old_lines"
    and res: "res = result @ ?gap @ line_result (h_lines h) ?seg @ new"
    and IH: "patched old_lines (at + ?n) hs (drop (at + ?n) old_lines) (new @ drop k' old_lines)"
    by auto
  have len: "length ?gap = at - k" "length ?seg = ?n" using fits le Cons.prems(2) by simp_all
  have "patched old_lines k (h # hs) (?gap @ ?seg @ drop (at + ?n) old_lines)
      (?gap @ line_result (h_lines h) ?seg @ (new @ drop k' old_lines))"
  proof (rule patched.hunk [where level = level])
    have e: "k + length ?gap = at" using len le by simp
    show "locate_hunk h old_lines = Some (k + length ?gap, level)" unfolding e by (rule loc)
    show "length ?seg = length (hunk_old_side h)" by (rule len)
    show "list_all2 (\<lambda>e a. lines_match e a level) (hunk_old_side h) ?seg"
      using locate_hunk_sound(1) [OF loc] by (simp add: old_side_matches_at_iff)
    show "patched old_lines (k + length ?gap + length ?seg) hs (drop (at + ?n) old_lines)
        (new @ drop k' old_lines)"
      unfolding e len(2) by (rule IH)
  qed
  then show ?case using k' res drop_gap_seg [OF le, of old_lines ?n] by auto
qed

lemma patched_apply_hunk_list:
  "patched old_lines pos hs xs new \<Longrightarrow> xs = drop pos old_lines \<Longrightarrow> pos \<le> length old_lines \<Longrightarrow>
     \<exists>k' new'. apply_hunk_list old_lines hs result pos =
         (Inr (result @ new', k') :: 'io patch_error + string list \<times> nat) \<and>
       k' \<le> length old_lines \<and> new = new' @ drop k' old_lines"
proof (induction pos hs xs new arbitrary: result rule: patched.induct)
  case (rest pos xs)
  then show ?case by auto
next
  case (hunk h pos gap level seg hs tail new)
  let ?at = "pos + length gap" and ?n = "length (hunk_old_side h)"
  have "pos \<le> ?at" by simp
  from drop_gap_seg [OF this, of old_lines ?n] hunk.prems
  have parts: "gap @ seg @ tail = take (length gap) (drop pos old_lines) @
      take ?n (drop ?at old_lines) @ drop (?at + ?n) old_lines"
    by simp
  have fits: "?at + ?n \<le> length old_lines" using locate_hunk_sound(2) [OF hunk.hyps(1)] .
  then have "gap = take (length gap) (drop pos old_lines)"
    using parts by (metis append_eq_conv_conj hunk.prems(1))
  moreover from this parts have "seg @ tail = take ?n (drop ?at old_lines) @ drop (?at + ?n) old_lines"
    by (metis same_append_eq)
  then have seg: "seg = take ?n (drop ?at old_lines)" "tail = drop (?at + ?n) old_lines"
    using fits hunk.hyps(2) by (simp_all add: append_eq_append_conv)
  ultimately have step: "(apply_hunk_list old_lines (h # hs) result pos :: 'io patch_error + string list \<times> nat) =
      apply_hunk_list old_lines hs (result @ gap @ line_result (h_lines h) seg) (?at + ?n)"
    using apply_one_hunk [OF hunk.hyps(1), of pos hs result] by simp
  from hunk.IH [of "result @ gap @ line_result (h_lines h) seg"] seg(2) fits hunk.hyps(2)
  obtain k' new' where "apply_hunk_list old_lines hs
      (result @ gap @ line_result (h_lines h) seg) (?at + ?n) =
      (Inr ((result @ gap @ line_result (h_lines h) seg) @ new', k') :: 'io patch_error + string list \<times> nat)"
    "k' \<le> length old_lines" "new = new' @ drop k' old_lines"
    by auto
  then show ?case unfolding step by (intro exI [of _ k'] exI [of _ "gap @ line_result (h_lines h) seg @ new'"]) simp
qed

definition file_lines :: "string \<Rightarrow> string list" where
  "file_lines original = (if original = [] then [] else str_lines original)"

definition render_lines :: "string \<Rightarrow> string list \<Rightarrow> string" where
  "render_lines original new =
     join_on newline new @
     (if original = [] \<or> ends_with_newline original then [newline] else [])"

lemma apply_hunks_iff:
  "apply_hunks original hs = Inr out \<longleftrightarrow>
     (\<exists>new. patched (file_lines original) 0 hs (file_lines original) new \<and>
        out = render_lines original new)"
  (is "?l \<longleftrightarrow> ?r")
proof
  assume ?l
  then obtain res k' where run: "apply_hunk_list (file_lines original) hs [] 0 =
      (Inr (res, k') :: 'a patch_error + string list \<times> nat)"
    and copy: "\<exists>all. copy_lines (file_lines original) (length (file_lines original) - k') k' res =
      (Inr all :: 'a patch_error + string list) \<and> out = render_lines original all"
    by (auto simp: apply_hunks_def Let_def result_simps file_lines_def [symmetric]
        render_lines_def)
  from apply_hunk_list_patched [OF run] obtain new where
    k': "k' \<le> length (file_lines original)" "res = new" and
    p: "patched (file_lines original) 0 hs (file_lines original)
      (new @ drop k' (file_lines original))"
    by auto
  then have "copy_lines (file_lines original) (length (file_lines original) - k') k' res =
      (Inr (new @ drop k' (file_lines original)) :: 'a patch_error + string list)"
    by (simp add: copy_lines_eq)
  with copy p show ?r by auto
next
  assume ?r
  then obtain new where p: "patched (file_lines original) 0 hs (file_lines original) new"
    and out: "out = render_lines original new" by blast
  from patched_apply_hunk_list [OF p, of "[]"] obtain k' new' where
    run: "apply_hunk_list (file_lines original) hs [] 0 =
      (Inr (new', k') :: 'a patch_error + string list \<times> nat)"
    and k': "k' \<le> length (file_lines original)" "new = new' @ drop k' (file_lines original)"
    by auto
  then have "copy_lines (file_lines original) (length (file_lines original) - k') k' new' =
      (Inr new :: 'a patch_error + string list)"
    by (simp add: copy_lines_eq)
  with run out show ?l
    by (simp add: apply_hunks_def Let_def file_lines_def [symmetric] render_lines_def)
qed

lemma apply_hunk_list_Inl:
  "apply_hunk_list old_lines hs result k = (Inl e :: 'io patch_error + string list \<times> nat) \<Longrightarrow>
     k \<le> length old_lines \<Longrightarrow>
     \<exists>h \<in> set hs.
       locate_hunk h old_lines = None \<and>
         e = PatchError_ContextMismatch (h_old_start h) (first_anchor h) \<or>
       (\<exists>at level. locate_hunk h old_lines = Some (at, level) \<and>
         e = PatchError_Overlaps (h_old_start h) (at + 1))"
proof (induction hs arbitrary: result k)
  case (Cons h hs)
  show ?case
  proof (cases "locate_hunk h old_lines")
    case None
    with Cons.prems show ?thesis by auto
  next
    case (Some p)
    then obtain at level where loc: "locate_hunk h old_lines = Some (at, level)"
      by (cases p) auto
    note fits = locate_hunk_sound(2) [OF loc]
    show ?thesis
    proof (cases "k \<le> at")
      case True
      from Cons.prems(1) have "\<exists>r. apply_hunk_list old_lines hs r (at + length (hunk_old_side h)) =
          (Inl e :: 'io patch_error + string list \<times> nat)"
        unfolding apply_one_hunk [OF loc True] by blast
      with Cons.IH fits show ?thesis by fastforce
    next
      case False
      with Cons.prems loc fits show ?thesis by auto
    qed
  qed
qed simp

lemma apply_hunks_Inl:
  assumes "apply_hunks original hs = (Inl e :: 'io patch_error + string)"
  shows "apply_hunk_list (file_lines original) hs [] 0 =
      (Inl e :: 'io patch_error + string list \<times> nat)"
proof (cases "apply_hunk_list (file_lines original) hs [] 0 ::
    'io patch_error + string list \<times> nat")
  case (Inl e')
  with assms show ?thesis
    by (simp add: apply_hunks_def Let_def file_lines_def [symmetric])
next
  case (Inr p)
  obtain res k' where p: "p = (res, k')" by fastforce
  from apply_hunk_list_patched [OF Inr [unfolded p]]
  have "k' \<le> length (file_lines original)" by simp
  then have "copy_lines (file_lines original) (length (file_lines original) - k') k' res =
      (Inr (res @ drop k' (file_lines original)) :: 'io patch_error + string list)"
    by (simp add: copy_lines_eq)
  with assms Inr p show ?thesis
    by (simp add: apply_hunks_def Let_def file_lines_def [symmetric])
qed

section \<open>Clean diffs\<close>

fun new_text :: "diff_line \<Rightarrow> string option" where
  "new_text (DiffLine_Context t) = Some t"
| "new_text (DiffLine_Add t) = Some t"
| "new_text (DiffLine_Remove _) = None"

definition hunk_new_side :: "hunk \<Rightarrow> string list" where
  "hunk_new_side h = List.map_filter new_text (h_lines h)"

text \<open>
  A list of hunks that describes, line for line and with the right line numbers, how a list of
  lines becomes another: each hunk's header counts the lines before it and its old side stands
  there. Only hunks with an old side are covered.
\<close>

inductive clean_diff :: "nat \<Rightarrow> hunk list \<Rightarrow> string list \<Rightarrow> string list \<Rightarrow> bool" where
  clean_rest: "clean_diff pos [] rest rest"
| clean_hunk: "h_old_start h = pos + length gap + 1 \<Longrightarrow> hunk_old_side h \<noteq> [] \<Longrightarrow>
    clean_diff (pos + length gap + length (hunk_old_side h)) hs tail new \<Longrightarrow>
    clean_diff pos (h # hs) (gap @ hunk_old_side h @ tail) (gap @ hunk_new_side h @ new)"

lemma line_result_old_side:
  "line_result ds (List.map_filter old_text ds) = List.map_filter new_text ds"
  by (induction ds "List.map_filter old_text ds" rule: line_result.induct)
    (simp_all add: map_filter_simps)

lemma clean_diff_patched:
  "clean_diff pos hs xs new \<Longrightarrow> xs = drop pos old_lines \<Longrightarrow> pos \<le> length old_lines \<Longrightarrow>
     patched old_lines pos hs xs new"
proof (induction pos hs xs new rule: clean_diff.induct)
  case (clean_rest pos rest)
  show ?case by (rule patched.rest)
next
  case (clean_hunk h pos gap hs tail new)
  let ?n = "length (hunk_old_side h)" and ?at = "pos + length gap"
  from clean_hunk.prems have tail: "hunk_old_side h @ tail = drop ?at old_lines"
    by (metis add.commute append_eq_conv_conj drop_drop)
  then have len: "?at + ?n \<le> length old_lines"
  proof -
    have "?n + length tail = length old_lines - ?at"
      using arg_cong [OF tail, of length] by simp
    with clean_hunk.hyps(2) show ?thesis by (cases "hunk_old_side h") auto
  qed
  have hint: "hunk_hint h old_lines = ?at"
    using clean_hunk.hyps(1) len by (simp add: hunk_hint_def)
  have "old_side_matches_at (hunk_old_side h) old_lines ?at FuzzLevel_Exact"
    using len unfolding old_side_matches_at_iff tail [symmetric]
    by (simp add: list_all2_refl)
  with hint have loc: "locate_hunk h old_lines = Some (?at, FuzzLevel_Exact)"
    using locate_hunk_at_hint [OF clean_hunk.hyps(2)] by simp
  have "tail = drop (?at + ?n) old_lines"
    using tail by (metis add.commute append_eq_conv_conj drop_drop)
  with clean_hunk.IH len have rest: "patched old_lines (?at + ?n) hs tail new" by simp
  have "line_result (h_lines h) (hunk_old_side h) = hunk_new_side h"
    unfolding hunk_old_side_def hunk_new_side_def by (rule line_result_old_side)
  moreover have "patched old_lines pos (h # hs) (gap @ hunk_old_side h @ tail)
      (gap @ line_result (h_lines h) (hunk_old_side h) @ new)"
    using loc rest by (intro patched.hunk) (simp_all add: list_all2_refl)
  ultimately show ?case by simp
qed

section \<open>Properties\<close>

text \<open>
  C19. Where a hunk lands is justified: its old side lies within the file at the reported
  place and matches there at the reported tolerance; with an old side to search for, the place
  is within 64 lines of the header's hint; and a whitespace-tolerant place is used only when
  no exact one exists in that window and it is the only match in the whole file.
\<close>

theorem hunk_location_justified:
  assumes "locate_hunk h old_lines = Some (at, level)"
  shows "at + length (hunk_old_side h) \<le> length old_lines \<and>
    list_all2 (\<lambda>e a. lines_match e a level) (hunk_old_side h)
      (take (length (hunk_old_side h)) (drop at old_lines)) \<and>
    (hunk_old_side h \<noteq> [] \<longrightarrow>
       abs_diff at (hunk_hint h old_lines) \<le> SEARCH_WINDOW \<and>
       (level \<noteq> FuzzLevel_Exact \<longrightarrow>
          (\<forall>at'. old_side_matches_at (hunk_old_side h) old_lines at' level \<longrightarrow> at' = at) \<and>
          (\<forall>at'. abs_diff at' (hunk_hint h old_lines) \<le> SEARCH_WINDOW \<longrightarrow>
             \<not> old_side_matches_at (hunk_old_side h) old_lines at' FuzzLevel_Exact)))"
  using locate_hunk_sound [OF assms] locate_hunk_level [OF assms]
  by (simp add: old_side_matches_at_iff)

lemma hunk_location_justified_witness:
  "abs_diff 1 (hunk_hint \<lparr>h_old_start = 2, h_lines = [DiffLine_Remove ''b'']\<rparr> [''a'', ''b''])
     \<le> SEARCH_WINDOW"
proof -
  let ?h = "\<lparr>h_old_start = 2, h_lines = [DiffLine_Remove ''b'']\<rparr>"
  have side: "hunk_old_side ?h = [''b'']" by (simp add: hunk_old_side_def map_filter_simps)
  have hint: "hunk_hint ?h [''a'', ''b''] = 1" by (simp add: hunk_hint_def)
  have "locate_hunk ?h [''a'', ''b''] = Some (1, FuzzLevel_Exact)"
    using locate_hunk_at_hint [of ?h "[''a'', ''b'']"]
    by (simp add: side hint old_side_matches_at_iff)
  from hunk_location_justified [OF this] side show ?thesis by simp
qed

text \<open>
  C3. Applying hunks is exactly replacing segments: it succeeds if and only if the old lines
  can be cut into gaps and segments, one per hunk in order and without overlap, each where the
  hunk was located, and then the output is the gaps with each segment replaced by the hunk's
  result, the file's own text kept for every context line, and a final newline when the
  original had one or was empty.
\<close>

theorem apply_hunks_exact:
  "apply_hunks original hs = Inr out \<longleftrightarrow>
     (\<exists>new. patched (file_lines original) 0 hs (file_lines original) new \<and>
        out = render_lines original new)"
  by (rule apply_hunks_iff)

text \<open>
  Applying hunks never panics, and never reports a start beyond the file: whatever the
  hunks and the file, the only errors are a hunk that cannot be located and a hunk located
  before the end of an earlier one, each naming a hunk of the patch.
\<close>

theorem apply_hunks_errors:
  assumes "apply_hunks original hs = (Inl e :: 'io patch_error + string)"
  shows "\<exists>h \<in> set hs.
     locate_hunk h (file_lines original) = None \<and>
       e = PatchError_ContextMismatch (h_old_start h) (first_anchor h) \<or>
     (\<exists>at level. locate_hunk h (file_lines original) = Some (at, level) \<and>
       e = PatchError_Overlaps (h_old_start h) (at + 1))"
  using apply_hunk_list_Inl [OF apply_hunks_Inl [OF assms]] by simp

lemma apply_hunks_errors_witness:
  "locate_hunk \<lparr>h_old_start = 2, h_lines = [DiffLine_Remove ''y'', DiffLine_Remove ''z'']\<rparr>
     (file_lines ''a'') = None"
proof -
  let ?h = "\<lparr>h_old_start = 2, h_lines = [DiffLine_Remove ''y'', DiffLine_Remove ''z'']\<rparr>"
  have lines: "file_lines ''a'' = [''a'']" by code_simp
  have side: "hunk_old_side ?h = [''y'', ''z'']"
    by (simp add: hunk_old_side_def map_filter_simps)
  have "locate_hunk ?h [''a''] = None" by (rule locate_hunk_too_long) (simp add: side)
  then have "apply_hunks ''a'' [?h] =
      (Inl (PatchError_ContextMismatch 2 ''y'') :: unit patch_error + string)"
    using lines by (simp add: apply_hunks_def file_lines_def first_anchor_def side)
  from apply_hunks_errors [OF this] show ?thesis by auto
qed

text \<open>
  A clean diff applies cleanly: hunks that describe how the lines of the original become
  a list of new lines, with the right line numbers, are applied without searching and give
  exactly those lines, whatever other places in the file their old sides also match.
\<close>

theorem clean_diff_applies:
  assumes "clean_diff 0 hs (file_lines original) new"
  shows "apply_hunks original hs = Inr (render_lines original new)"
  using clean_diff_patched [OF assms] by (auto simp: apply_hunks_iff)

lemma clean_diff_applies_witness:
  "(apply_hunks ''ab'' [\<lparr>h_old_start = 1, h_lines = [DiffLine_Remove ''ab'', DiffLine_Add ''b'']\<rparr>]
     :: unit patch_error + string) = Inr ''b''"
proof -
  let ?h = "\<lambda>n. \<lparr>h_old_start = n, h_lines = [DiffLine_Remove ''ab'', DiffLine_Add ''b'']\<rparr>"
  have sides: "hunk_old_side (?h n) = [''ab'']" "hunk_new_side (?h n) = [''b'']" for n
    by (simp_all add: hunk_old_side_def hunk_new_side_def map_filter_simps)
  have lines: "file_lines ''ab'' = [''ab'']" by code_simp
  have "clean_diff 0 [?h 1] ([] @ hunk_old_side (?h 1) @ []) ([] @ hunk_new_side (?h 1) @ [])"
    by (rule clean_hunk) (simp_all only: sides, simp_all add: clean_rest)
  then have "clean_diff 0 [?h 1] (file_lines ''ab'') [''b'']" by (simp only: sides lines) simp
  moreover have "render_lines ''ab'' [''b''] = ''b''" by code_simp
  ultimately show ?thesis using clean_diff_applies by metis
qed

lemma line_result_set:
  "length seg = length (List.map_filter old_text ds) \<Longrightarrow>
     set (line_result ds seg) \<subseteq> set seg \<union> {t. DiffLine_Add t \<in> set ds}"
proof (induction ds seg rule: line_result.induct)
  case (2 t ds seg)
  then show ?case by (cases seg) (auto simp: map_filter_simps)
next
  case (3 t ds seg)
  then show ?case by (cases seg) (auto simp: map_filter_simps)
qed (auto simp: map_filter_simps)

lemma patched_set:
  "patched old_lines pos hs xs new \<Longrightarrow>
     set new \<subseteq> set xs \<union> {t. \<exists>h \<in> set hs. DiffLine_Add t \<in> set (h_lines h)}"
proof (induction pos hs xs new rule: patched.induct)
  case (hunk h pos gap level seg hs tail new)
  then have "set (line_result (h_lines h) seg) \<subseteq>
      set seg \<union> {t. DiffLine_Add t \<in> set (h_lines h)}"
    by (intro line_result_set) (simp add: hunk_old_side_def)
  with hunk.IH show ?case by auto
qed auto

lemma join_on_set: "set (join_on c ls) \<subseteq> insert c (\<Union> (set ` set ls))"
  by (induction c ls rule: join_on.induct) auto

text \<open>
  Line endings are not kept: applying any hunks whose added lines contain no carriage
  return to a file of CRLF-terminated lines gives a file without a single carriage return, so
  every untouched line of a CRLF file is rewritten as well.
\<close>

theorem crlf_endings_are_lost:
  assumes "original = lines_terminated (map (\<lambda>l. l @ [char_of (13::nat)]) ls)"
    and "\<forall>l \<in> set ls. newline \<notin> set l \<and> char_of (13::nat) \<notin> set l"
    and "\<forall>h \<in> set hs. \<forall>t. DiffLine_Add t \<in> set (h_lines h) \<longrightarrow> char_of (13::nat) \<notin> set t"
    and "apply_hunks original hs = Inr out"
  shows "char_of (13::nat) \<notin> set out"
proof -
  have nl: "newline \<noteq> char_of (13::nat)" by (simp add: newline_def)
  with assms(2) have "str_lines original = map strip_cr (map (\<lambda>l. l @ [char_of (13::nat)]) ls)"
    unfolding assms(1) by (intro str_lines_terminated) auto
  also have "\<dots> = ls" by (simp add: strip_cr_def map_idI)
  finally have lines: "set (file_lines original) \<subseteq> set ls" by (auto simp: file_lines_def)
  from assms(4) obtain new where
    p: "patched (file_lines original) 0 hs (file_lines original) new"
    and out: "out = render_lines original new"
    by (auto simp: apply_hunks_iff)
  from patched_set [OF p] lines assms(2,3) have "\<forall>l \<in> set new. char_of (13::nat) \<notin> set l"
    by blast
  then have "char_of (13::nat) \<notin> set (join_on newline new)"
    using join_on_set [of newline new] nl by auto
  with nl show ?thesis by (simp add: out render_lines_def)
qed

lemma crlf_endings_are_lost_witness:
  "char_of (13::nat) \<notin> set (join_on newline [''a'', ''b''] @ [newline])"
proof -
  let ?o = "lines_terminated (map (\<lambda>l. l @ [char_of (13::nat)]) [''a'', ''b''])"
  have "file_lines ?o = [''a'', ''b'']" by code_simp
  moreover have "render_lines ?o [''a'', ''b''] = join_on newline [''a'', ''b''] @ [newline]"
    by code_simp
  ultimately have run: "apply_hunks ?o [] = (Inr (join_on newline [''a'', ''b''] @ [newline]) ::
      unit patch_error + string)"
    unfolding apply_hunks_iff by (intro exI [of _ "[''a'', ''b'']"]) (simp add: patched.rest)
  have plain: "\<forall>l \<in> set [''a'', ''b'']. newline \<notin> set l \<and> char_of (13::nat) \<notin> set l"
    by code_simp
  show ?thesis by (rule crlf_endings_are_lost [OF refl plain _ run]) simp
qed

lemma insertion_only:
  "List.map_filter old_text ds = [] \<Longrightarrow> line_result ds [] = List.map_filter new_text ds"
  by (induction ds "[] :: string list" rule: line_result.induct) (simp_all add: map_filter_simps)

text \<open>
  A hunk without an old side inserts before the line its header names: with start
  \<open>n\<close>, from 1 to the number of lines, the first \<open>n - 1\<close> lines stay before the added
  text. A unified diff without context names the line the text goes after.
\<close>

theorem insertion_hunk_goes_before:
  assumes "hunk_old_side h = []" and "1 \<le> h_old_start h"
    and "h_old_start h \<le> length (file_lines original)"
  shows "apply_hunks original [h] = Inr (render_lines original
     (take (h_old_start h - 1) (file_lines original) @ hunk_new_side h @
      drop (h_old_start h - 1) (file_lines original)))"
proof -
  let ?old = "file_lines original" and ?n = "h_old_start h - 1"
  have gap: "length (take ?n ?old) = ?n" using assms(3) by simp
  have loc: "locate_hunk h ?old = Some (0 + length (take ?n ?old), FuzzLevel_Exact)"
    using assms by (simp add: locate_hunk_def)
  have "patched ?old 0 [h] (take ?n ?old @ [] @ drop ?n ?old)
      (take ?n ?old @ line_result (h_lines h) [] @ drop ?n ?old)"
    using loc by (rule patched.hunk) (simp_all add: assms(1) patched.rest)
  moreover have "line_result (h_lines h) [] = hunk_new_side h"
    using assms(1) unfolding hunk_old_side_def hunk_new_side_def by (rule insertion_only)
  ultimately have "patched ?old 0 [h] ?old (take ?n ?old @ hunk_new_side h @ drop ?n ?old)"
    by simp
  then show ?thesis by (auto simp: apply_hunks_iff)
qed

lemma insertion_hunk_goes_before_witness:
  "(apply_hunks (lines_terminated [''a'', ''b'']) [\<lparr>h_old_start = 1, h_lines = [DiffLine_Add ''x'']\<rparr>]
     :: unit patch_error + string) = Inr (lines_terminated [''x'', ''a'', ''b''])"
proof -
  let ?h = "\<lambda>n. \<lparr>h_old_start = n, h_lines = [DiffLine_Add ''x'']\<rparr>"
  have sides: "hunk_old_side (?h n) = []" "hunk_new_side (?h n) = [''x'']" for n
    by (simp_all add: hunk_old_side_def hunk_new_side_def map_filter_simps)
  have lines: "file_lines (lines_terminated [''a'', ''b'']) = [''a'', ''b'']" by code_simp
  have "(apply_hunks (lines_terminated [''a'', ''b'']) [?h 1] :: unit patch_error + string) =
      Inr (render_lines (lines_terminated [''a'', ''b'']) ([] @ [''x''] @ [''a'', ''b'']))"
    using insertion_hunk_goes_before [of "?h 1" "lines_terminated [''a'', ''b'']"]
    by (simp add: sides lines)
  moreover have "render_lines (lines_terminated [''a'', ''b'']) ([] @ [''x''] @ [''a'', ''b'']) =
      lines_terminated [''x'', ''a'', ''b'']"
    by code_simp
  ultimately show ?thesis by simp
qed

end
