(* ===== verification/PatchParse.thy ===== *)
theory PatchParse
  imports PatchApply
begin

text \<open>
  The unified-diff parser of \<^verbatim>\<open>newt-tools/src/patch.rs\<close>, and the printer it inverts.
  The code walks an index through the lines of the diff; here the lines from the index on are
  the argument, and the index is kept where an error reports it.
\<close>

section \<open>The parser\<close>

definition extract_path :: "string \<Rightarrow> 'io patch_error + string" where
  "extract_path line =
     (case strip_prefix ''+++ '' line of
        None \<Rightarrow> Inl (PatchError_InvalidPlus line)
      | Some rest \<Rightarrow>
          (let path = (case strip_prefix ''b/'' rest of Some p \<Rightarrow> p | None \<Rightarrow> rest) in
           if path = [] \<or> path = ''/dev/null'' then Inl (PatchError_NoTarget line)
           else Inr path))"

definition parse_number :: "string \<Rightarrow> 'io patch_error + nat" where
  "parse_number s = ok_or (PatchError_ParseInt s) (parse_usize s)"

definition parse_range :: "string \<Rightarrow> 'io patch_error + (nat \<times> nat)" where
  "parse_range s =
     (case split_once CHR '','' s of
        Some (start, count) \<Rightarrow>
          rbind (parse_number start) (\<lambda>a. rbind (parse_number count) (\<lambda>b. Inr (a, b)))
      | None \<Rightarrow> rbind (parse_number s) (\<lambda>a. Inr (a, 1)))"

definition strip_or_self :: "string \<Rightarrow> string \<Rightarrow> string" where
  "strip_or_self p s = (case strip_prefix p s of Some t \<Rightarrow> t | None \<Rightarrow> s)"

definition parse_hunk_header :: "string \<Rightarrow> 'io patch_error + (nat \<times> nat \<times> nat \<times> nat)" where
  "parse_hunk_header header =
     (case strip_prefix ''@@ '' header of
        None \<Rightarrow> Inl (PatchError_MalformedHeader header)
      | Some s \<Rightarrow>
          (case split_whitespace (before_str '' @@'' s) of
             [p0, p1] \<Rightarrow>
               rbind (parse_range (strip_or_self ''-'' p0)) (\<lambda>(old_start, old_count).
               rbind (parse_range (strip_or_self ''+'' p1)) (\<lambda>(new_start, new_count).
                 Inr (old_start, old_count, new_start, new_count)))
           | _ \<Rightarrow> Inl (PatchError_MalformedHeader header)))"

definition parse_diff_line :: "string \<Rightarrow> diff_line list" where
  "parse_diff_line line =
     (case line of
        c # rest \<Rightarrow>
          if c = CHR '' '' then [DiffLine_Context rest]
          else if c = CHR ''+'' then [DiffLine_Add rest]
          else if c = CHR ''-'' then [DiffLine_Remove rest]
          else if line = [char_of (92::nat)] @ '' No newline at end of file'' then []
          else [DiffLine_Context line]
      | [] \<Rightarrow> [DiffLine_Context line])"

fun hunk_body :: "string list \<Rightarrow> diff_line list \<times> nat" where
  "hunk_body [] = ([], 0)"
| "hunk_body (line # rest) =
     (if prefix ''@@ '' line \<or> prefix ''--- '' line then ([], 0)
      else (let (ds, n) = hunk_body rest in (parse_diff_line line @ ds, Suc n)))"

definition parse_hunk :: "string list \<Rightarrow> 'io patch_error + (hunk \<times> nat)" where
  "parse_hunk lines =
     (case lines of
        [] \<Rightarrow> Inl PatchError_Panic
      | header # rest \<Rightarrow>
          rbind (parse_hunk_header header) (\<lambda>(old_start, _, _, _).
            let (ds, n) = hunk_body rest in
            Inr (\<lparr>h_old_start = old_start, h_lines = ds\<rparr>, Suc n)))"

lemma parse_hunk_consumes:
  "parse_hunk lines = Inr (h, n) \<Longrightarrow> 0 < n \<and> lines \<noteq> []"
  by (cases lines; cases "hunk_body (tl lines)") (auto simp: parse_hunk_def result_simps)

text \<open>The inner loop: the hunks from here on, and how many lines they took.\<close>

function parse_hunks :: "string list \<Rightarrow> 'io patch_error + (hunk list \<times> nat)" where
  "parse_hunks lines =
     (case lines of
        [] \<Rightarrow> Inr ([], 0)
      | line # _ \<Rightarrow>
          if prefix ''@@ '' line then
            (case parse_hunk lines of
               Inl e \<Rightarrow> Inl e
             | Inr (h, n) \<Rightarrow>
                 (case parse_hunks (drop n lines) of
                    Inl e \<Rightarrow> Inl e
                  | Inr (hs, m) \<Rightarrow> Inr (h # hs, n + m)))
          else Inr ([], 0))"
  by pat_completeness auto
termination
  by (relation "measure length") (auto dest: parse_hunk_consumes)

declare parse_hunks.simps [simp del]

text \<open>The outer loop, with \<open>i\<close> the index of the first of the remaining lines.\<close>

function parse_files :: "nat \<Rightarrow> string list \<Rightarrow> 'io patch_error + file_patch list" where
  "parse_files i lines =
     (case lines of
        [] \<Rightarrow> Inr []
      | line # rest \<Rightarrow>
          if prefix ''--- '' line then
            (case rest of
               [] \<Rightarrow> Inl (PatchError_ExpectedPlus (i + 1))
             | plus_line # rest' \<Rightarrow>
                 if \<not> prefix ''+++ '' plus_line then Inl (PatchError_ExpectedPlus (i + 1))
                 else
                   (case extract_path plus_line of
                      Inl e \<Rightarrow> Inl e
                    | Inr path \<Rightarrow>
                        (case parse_hunks rest' of
                           Inl e \<Rightarrow> Inl e
                         | Inr (hs, n) \<Rightarrow>
                             if hs = [] then Inl (PatchError_NoHunks path)
                             else
                               (case parse_files (i + 2 + n) (drop n rest') of
                                  Inl e \<Rightarrow> Inl e
                                | Inr ps \<Rightarrow>
                                    Inr (\<lparr>fp_path = path, fp_hunks = hs\<rparr> # ps)))))
          else parse_files (i + 1) rest)"
  by pat_completeness auto
termination
  by (relation "measure (\<lambda>(i, lines). length lines)") auto

declare parse_files.simps [simp del]

definition parse_unified_diff :: "string \<Rightarrow> 'io patch_error + file_patch list" where
  "parse_unified_diff diff = parse_files 0 (str_lines diff)"

text \<open>The strict backend's splitter: preamble dropped, one section per header line.\<close>

fun split_sections :: "string list \<Rightarrow> string option \<Rightarrow> string list" where
  "split_sections [] cur = (case cur of None \<Rightarrow> [] | Some buf \<Rightarrow> [buf])"
| "split_sections (line # rest) cur =
     (if prefix ''--- '' line then
        (case cur of None \<Rightarrow> [] | Some prev \<Rightarrow> [prev]) @
        split_sections rest (Some (line @ [newline]))
      else split_sections rest (map_option (\<lambda>buf. buf @ line @ [newline]) cur))"

definition split_file_sections :: "string \<Rightarrow> string list" where
  "split_file_sections diff = split_sections (str_lines diff) None"

section \<open>The printer\<close>

fun print_diff_line :: "diff_line \<Rightarrow> string" where
  "print_diff_line (DiffLine_Context t) = CHR '' '' # t"
| "print_diff_line (DiffLine_Add t) = CHR ''+'' # t"
| "print_diff_line (DiffLine_Remove t) = CHR ''-'' # t"

definition print_header :: "hunk \<Rightarrow> string" where
  "print_header h =
     ''@@ -'' @ show_nat (h_old_start h) @ '','' @ show_nat (length (hunk_old_side h)) @
     '' +'' @ show_nat (h_old_start h) @ '','' @ show_nat (length (hunk_new_side h)) @ '' @@''"

definition print_hunk :: "hunk \<Rightarrow> string list" where
  "print_hunk h = print_header h # map print_diff_line (h_lines h)"

definition print_file :: "file_patch \<Rightarrow> string list" where
  "print_file fp =
     (''--- a/'' @ fp_path fp) # (''+++ b/'' @ fp_path fp) # concat (map print_hunk (fp_hunks fp))"

definition print_diff :: "file_patch list \<Rightarrow> string" where
  "print_diff ps = lines_terminated (concat (map print_file ps))"

text \<open>
  What can be printed so that it reads back: text without line breaks and, for removed lines,
  not beginning with two dashes and a space.
\<close>

definition plain_text :: "string \<Rightarrow> bool" where
  "plain_text t \<longleftrightarrow> newline \<notin> set t \<and> (t = [] \<or> last t \<noteq> char_of (13::nat))"

fun printable_line :: "diff_line \<Rightarrow> bool" where
  "printable_line (DiffLine_Context t) = plain_text t"
| "printable_line (DiffLine_Add t) = plain_text t"
| "printable_line (DiffLine_Remove t) = (plain_text t \<and> \<not> prefix ''-- '' t)"

definition printable_hunk :: "hunk \<Rightarrow> bool" where
  "printable_hunk h \<longleftrightarrow>
     h_old_start h < 2 ^ 64 \<and> length (h_lines h) < 2 ^ 64 \<and> list_all printable_line (h_lines h)"

definition printable_file :: "file_patch \<Rightarrow> bool" where
  "printable_file fp \<longleftrightarrow>
     plain_text (fp_path fp) \<and> fp_path fp \<noteq> [] \<and> fp_path fp \<noteq> ''/dev/null'' \<and>
     fp_hunks fp \<noteq> [] \<and> list_all printable_hunk (fp_hunks fp)"

section \<open>Facts about the header\<close>

lemma ws_split_plain: "plain_char c \<Longrightarrow> ws_split white_space (c # cs) = None"
  unfolding ws_split_None_iff
proof (intro ballI impI)
  fix w
  assume c: "plain_char c" and w: "w \<in> set white_space" "w \<noteq> []"
  with white_space_not_plain have "\<not> plain_char (hd w)" by blast
  with c w(2) show "\<not> prefix w (c # cs)" by (cases w) auto
qed

lemma ws_words_plain: "list_all plain_char xs \<Longrightarrow> ws_words cur (xs @ s) = ws_words (cur @ xs) s"
proof (induction xs arbitrary: cur)
  case (Cons x xs)
  then show ?case by (subst ws_words.simps) (simp add: ws_split_plain)
qed simp

lemma ws_split_space: "ws_split white_space (CHR '' '' # s) = Some s"
  by (simp add: ws_split_def white_space_def char_of_eq_iff)

lemma ws_words_space: "ws_words cur (CHR '' '' # s) = flush cur @ ws_words [] s"
  by (subst ws_words.simps) (simp add: ws_split_space)

lemma split_two_words:
  assumes "list_all plain_char a" "a \<noteq> []" "list_all plain_char b" "b \<noteq> []"
  shows "split_whitespace (a @ '' '' @ b) = [a, b]"
proof -
  have "ws_words [] (b @ []) = [b]"
    unfolding ws_words_plain [OF assms(3)] using assms(4)
    by (subst ws_words.simps) (simp add: flush_def)
  then show ?thesis
    using assms(2) by (simp add: split_whitespace_def ws_words_plain [OF assms(1)]
        ws_words_space flush_def)
qed

lemma before_marker: "CHR ''@'' \<notin> set x \<Longrightarrow> before_str '' @@'' (x @ '' @@'') = x"
proof (induction x)
  case (Cons c cs)
  have "\<not> prefix '' @@'' ((c # cs) @ '' @@'')"
    using Cons.prems by (cases cs) auto
  with Cons show ?case by simp
qed simp

lemma show_nat_chars:
  "list_all plain_char (show_nat n)" "CHR ''@'' \<notin> set (show_nat n)" "CHR '','' \<notin> set (show_nat n)"
proof -
  have at: "\<not> is_ascii_digit CHR ''@''" "\<not> is_ascii_digit CHR '',''" by code_simp+
  show "list_all plain_char (show_nat n)" "CHR ''@'' \<notin> set (show_nat n)"
    "CHR '','' \<notin> set (show_nat n)"
    using show_nat_digits [of n] at plain_if_digit by (auto simp: list_all_iff)
qed

lemma parse_number_show: "n < 2 ^ 64 \<Longrightarrow> parse_number (show_nat n) = Inr n"
  by (simp add: parse_number_def parse_usize_def parse_show_bounded del: power_numeral)

lemma parse_range_show:
  "a < 2 ^ 64 \<Longrightarrow> b < 2 ^ 64 \<Longrightarrow> parse_range (show_nat a @ '','' @ show_nat b) = Inr (a, b)"
proof -
  assume ab: "a < 2 ^ 64" "b < 2 ^ 64"
  have "split_once CHR '','' (show_nat a @ '','' @ show_nat b) = Some (show_nat a, show_nat b)"
    using show_nat_chars(3) by (simp add: split_once_Some_iff)
  with ab show ?thesis by (simp add: parse_range_def parse_number_show del: power_numeral)
qed

lemma parse_header_print:
  assumes "s < 2 ^ 64" "c < 2 ^ 64" "s' < 2 ^ 64" "c' < 2 ^ 64"
  shows "parse_hunk_header (''@@ -'' @ show_nat s @ '','' @ show_nat c @ '' +'' @ show_nat s' @
      '','' @ show_nat c' @ '' @@'') =
      (Inr (s, c, s', c') :: 'io patch_error + nat \<times> nat \<times> nat \<times> nat)"
proof -
  let ?a = "''-'' @ show_nat s @ '','' @ show_nat c"
  let ?b = "''+'' @ show_nat s' @ '','' @ show_nat c'"
  have plain: "plain_char CHR ''-''" "plain_char CHR ''+''" "plain_char CHR '',''" by code_simp+
  have "before_str '' @@'' ((?a @ '' '' @ ?b) @ '' @@'') = ?a @ '' '' @ ?b"
    using show_nat_chars(2) by (intro before_marker) simp
  moreover have "split_whitespace (?a @ '' '' @ ?b) = [?a, ?b]"
    using show_nat_chars(1) plain by (intro split_two_words) simp_all
  moreover have "strip_or_self ''-'' ?a = show_nat s @ '','' @ show_nat c"
    "strip_or_self ''+'' ?b = show_nat s' @ '','' @ show_nat c'"
    by (simp_all add: strip_or_self_def strip_prefix_def)
  moreover have "parse_range (show_nat s @ '','' @ show_nat c) =
      (Inr (s, c) :: 'io patch_error + nat \<times> nat)"
    "parse_range (show_nat s' @ '','' @ show_nat c') =
      (Inr (s', c') :: 'io patch_error + nat \<times> nat)"
    using assms by (simp_all only: parse_range_show)
  ultimately show ?thesis
    by (simp add: parse_hunk_header_def strip_prefix_def)
qed

section \<open>Reading a printed diff back\<close>

lemma parse_print_line: "parse_diff_line (print_diff_line d) = [d]"
  by (cases d) (simp_all add: parse_diff_line_def)

lemma printed_line_stays:
  "printable_line d \<Longrightarrow>
     \<not> prefix ''@@ '' (print_diff_line d) \<and> \<not> prefix ''--- '' (print_diff_line d)"
  by (cases d) auto

definition stops :: "string list \<Rightarrow> bool" where
  "stops rest \<longleftrightarrow> (case rest of [] \<Rightarrow> True | l # _ \<Rightarrow> prefix ''@@ '' l \<or> prefix ''--- '' l)"

lemma hunk_body_print:
  "list_all printable_line ds \<Longrightarrow> stops rest \<Longrightarrow>
     hunk_body (map print_diff_line ds @ rest) = (ds, length ds)"
proof (induction ds)
  case Nil
  then show ?case by (cases rest) (auto simp: stops_def)
next
  case (Cons d ds)
  then show ?case using printed_line_stays [of d] by (simp add: parse_print_line)
qed

lemma map_filter_length: "length (List.map_filter f xs) \<le> length xs"
  by (induction xs) (simp_all add: map_filter_simps split: option.split)

lemma parse_header_of_hunk:
  assumes "h_old_start h < 2 ^ 64" "length (h_lines h) < 2 ^ 64"
  shows "parse_hunk_header (print_header h) =
     Inr (h_old_start h, length (hunk_old_side h), h_old_start h, length (hunk_new_side h))"
  unfolding print_header_def
proof (rule parse_header_print)
  show "h_old_start h < 2 ^ 64" by (rule assms(1))
  then show "h_old_start h < 2 ^ 64" .
  show "length (hunk_old_side h) < 2 ^ 64"
    using map_filter_length [of old_text "h_lines h"] assms(2) unfolding hunk_old_side_def
    by (rule le_less_trans)
  show "length (hunk_new_side h) < 2 ^ 64"
    using map_filter_length [of new_text "h_lines h"] assms(2) unfolding hunk_new_side_def
    by (rule le_less_trans)
qed

lemma parse_hunk_print:
  assumes "printable_hunk h" "stops rest"
  shows "parse_hunk (print_hunk h @ rest) = Inr (h, length (print_hunk h))"
proof -
  have "h_old_start h < 2 ^ 64" "length (h_lines h) < 2 ^ 64" "list_all printable_line (h_lines h)"
    using assms(1) by (auto simp: printable_hunk_def)
  with assms(2) show ?thesis
    by (simp add: parse_hunk_def print_hunk_def parse_header_of_hunk hunk_body_print del: power_numeral)
qed

lemma stops_print_hunks: "stops rest \<Longrightarrow> stops (concat (map print_hunk hs) @ rest)"
  by (cases hs) (simp_all add: stops_def print_hunk_def print_header_def)

definition file_starts :: "string list \<Rightarrow> bool" where
  "file_starts rest \<longleftrightarrow> (case rest of [] \<Rightarrow> True | l # _ \<Rightarrow> prefix ''--- '' l)"

lemma file_starts_stops: "file_starts rest \<Longrightarrow> stops rest"
  by (cases rest) (auto simp: file_starts_def stops_def)

lemma not_both: "prefix ''--- '' l \<Longrightarrow> \<not> prefix ''@@ '' l"
  by (cases l) auto

lemma parse_hunks_print:
  "list_all printable_hunk hs \<Longrightarrow> file_starts rest \<Longrightarrow>
     parse_hunks (concat (map print_hunk hs) @ rest) =
       (Inr (hs, length (concat (map print_hunk hs))) :: 'io patch_error + hunk list \<times> nat)"
proof (induction hs)
  case Nil
  then show ?case
    by (subst parse_hunks.simps) (auto simp: file_starts_def not_both split: list.splits)
next
  case (Cons h hs)
  let ?more = "concat (map print_hunk hs) @ rest"
  have "stops ?more" using Cons.prems by (simp add: stops_print_hunks file_starts_stops)
  with Cons.prems have one: "printable_hunk h" "stops ?more" by simp_all
  have head: "print_hunk h @ ?more = print_header h # (map print_diff_line (h_lines h) @ ?more)"
    "prefix ''@@ '' (print_header h)"
    by (simp_all add: print_hunk_def print_header_def)
  have drop_hunk: "drop (length (print_hunk h))
      (print_header h # map print_diff_line (h_lines h) @ ?more) = ?more"
    by (simp add: print_hunk_def)
  have "parse_hunks (print_hunk h @ ?more) = 
      (Inr (h # hs, length (print_hunk h) + length (concat (map print_hunk hs)))
        :: 'io patch_error + hunk list \<times> nat)"
    using head(2) Cons.prems
    by (subst parse_hunks.simps)
      (simp add: head(1) parse_hunk_print [OF one, unfolded head(1)] drop_hunk Cons.IH)
  then show ?case by simp
qed

lemma file_starts_print: "file_starts (concat (map print_file ps))"
  by (cases ps) (simp_all add: file_starts_def print_file_def)

lemma extract_path_print:
  "p \<noteq> [] \<Longrightarrow> p \<noteq> ''/dev/null'' \<Longrightarrow> extract_path (''+++ b/'' @ p) = Inr p"
  by (simp add: extract_path_def strip_prefix_def)

lemma parse_files_print:
  "list_all printable_file ps \<Longrightarrow> parse_files i (concat (map print_file ps)) =
     (Inr ps :: 'io patch_error + file_patch list)"
proof (induction ps arbitrary: i)
  case Nil
  then show ?case by (subst parse_files.simps) simp
next
  case (Cons fp ps)
  let ?rest = "concat (map print_hunk (fp_hunks fp)) @ concat (map print_file ps)"
  from Cons.prems have fp: "fp_path fp \<noteq> []" "fp_path fp \<noteq> ''/dev/null''" "fp_hunks fp \<noteq> []"
    "list_all printable_hunk (fp_hunks fp)"
    by (simp_all add: printable_file_def)
  have "parse_files i ((''--- a/'' @ fp_path fp) # (''+++ b/'' @ fp_path fp) # ?rest) =
      (Inr (\<lparr>fp_path = fp_path fp, fp_hunks = fp_hunks fp\<rparr> # ps) :: 'io patch_error + _)"
    using Cons.prems
    by (subst parse_files.simps) (simp add: extract_path_print [OF fp(1,2), simplified]
        parse_hunks_print [OF fp(4) file_starts_print] fp(3) Cons.IH)
  then show ?case by (simp add: print_file_def [of fp])
qed

lemma plain_line:
  "plain_text t \<Longrightarrow> newline \<notin> set (c # t) \<longleftrightarrow> c \<noteq> newline"
  by (auto simp: plain_text_def)

lemma strip_cr_id: "l = [] \<or> last l \<noteq> char_of (13::nat) \<Longrightarrow> strip_cr l = l"
  by (auto simp: strip_cr_def)

text \<open>A line that is printed holds no line break and does not end in a carriage return.\<close>

definition whole_line :: "string \<Rightarrow> bool" where
  "whole_line l \<longleftrightarrow> newline \<notin> set l \<and> strip_cr l = l"

lemma whole_line_append: "newline \<notin> set p \<Longrightarrow> p \<noteq> [] \<Longrightarrow> last p \<noteq> char_of (13::nat) \<Longrightarrow>
    plain_text t \<Longrightarrow> whole_line (p @ t)"
  by (cases t rule: rev_cases) (auto simp: whole_line_def strip_cr_def plain_text_def)

lemma newline_not_visible [simp]:
  "newline \<noteq> CHR '' ''" "newline \<noteq> CHR ''+''" "newline \<noteq> CHR ''-''" "newline \<noteq> CHR ''@''"
  "newline \<noteq> CHR '',''" "newline \<noteq> CHR ''a''" "newline \<noteq> CHR ''b''" "newline \<noteq> CHR ''/''"
  by code_simp+

lemma visible_not_cr [simp]:
  "CHR '' '' \<noteq> char_of (13::nat)" "CHR ''+'' \<noteq> char_of (13::nat)"
  "CHR ''-'' \<noteq> char_of (13::nat)" "CHR ''@'' \<noteq> char_of (13::nat)"
  "CHR ''/'' \<noteq> char_of (13::nat)"
  by code_simp+

lemma visible_chars:
  "CHR ''x'' \<noteq> char_of (13::nat)" "CHR ''y'' \<noteq> char_of (13::nat)"
  "CHR ''z'' \<noteq> char_of (13::nat)" "CHR ''s'' \<noteq> char_of (13::nat)"
  by code_simp+

lemma whole_line_digits:
  "newline \<notin> set p \<Longrightarrow> whole_line (p @ '' @@'')"
  using visible_not_cr(4) by (simp add: whole_line_def strip_cr_def)

lemma digits_no_newline: "newline \<notin> set (show_nat n)"
proof -
  have "\<not> is_ascii_digit newline" by code_simp
  then show ?thesis using show_nat_digits [of n] by (auto simp: list_all_iff)
qed

lemma whole_line_header: "whole_line (print_header h)"
proof -
  have "print_header h = (''@@ -'' @ show_nat (h_old_start h) @ '','' @
      show_nat (length (hunk_old_side h)) @ '' +'' @ show_nat (h_old_start h) @ '','' @
      show_nat (length (hunk_new_side h))) @ '' @@''"
    by (simp add: print_header_def)
  moreover have "newline \<notin> set (''@@ -'' @ show_nat (h_old_start h) @ '','' @
      show_nat (length (hunk_old_side h)) @ '' +'' @ show_nat (h_old_start h) @ '','' @
      show_nat (length (hunk_new_side h)))"
    using digits_no_newline by simp
  ultimately show ?thesis by (metis whole_line_digits)
qed

lemma whole_line_printed: "printable_line d \<Longrightarrow> whole_line (print_diff_line d)"
  using whole_line_append [of "'' ''"] whole_line_append [of "''+''"]
    whole_line_append [of "''-''"]
  by (cases d) auto

lemma whole_lines_print:
  assumes "list_all printable_file ps"
  shows "\<forall>l \<in> set (concat (map print_file ps)). whole_line l"
proof -
  have "\<forall>l \<in> set (print_hunk h). whole_line l" if "printable_hunk h" for h
    using that whole_line_header [of h] whole_line_printed
    by (auto simp: print_hunk_def printable_hunk_def list_all_iff)
  then have "\<forall>l \<in> set (print_file fp). whole_line l" if "printable_file fp" for fp
    using that whole_line_append [of "''--- a/''" "fp_path fp"]
      whole_line_append [of "''+++ b/''" "fp_path fp"]
    by (auto simp: print_file_def printable_file_def list_all_iff)
  with assms show ?thesis by (auto simp: list_all_iff)
qed

lemma parse_printed:
  assumes "list_all printable_file ps"
  shows "parse_unified_diff (print_diff ps) = Inr ps"
proof -
  let ?ls = "concat (map print_file ps)"
  from whole_lines_print [OF assms] have "\<forall>l \<in> set ?ls. newline \<notin> set l"
    and cr: "map strip_cr ?ls = ?ls"
    by (auto simp: whole_line_def intro!: map_idI)
  then have "str_lines (print_diff ps) = ?ls"
    unfolding print_diff_def by (simp only: str_lines_terminated)
  then show ?thesis unfolding parse_unified_diff_def by (simp only: parse_files_print [OF assms])
qed

section \<open>Properties\<close>

text \<open>
  C17. The parser inverts the printer: a unified diff printed from any file patches with
  non-empty hunk lists, with line numbers that fit the machine, line texts and paths without
  line breaks, and no removed text that begins with two dashes and a space, is parsed back to
  exactly those file patches, in order.
\<close>

theorem parse_print_diff:
  assumes "list_all printable_file ps"
  shows "parse_unified_diff (print_diff ps) = Inr ps"
  using assms by (rule parse_printed)

lemma parse_print_diff_witness:
  "parse_unified_diff (print_diff [\<lparr>fp_path = ''a.rs'', fp_hunks =
     [\<lparr>h_old_start = 3, h_lines = [DiffLine_Context ''x'', DiffLine_Remove ''--y'',
        DiffLine_Add ''++ z'']\<rparr>]\<rparr>]) =
   (Inr [\<lparr>fp_path = ''a.rs'', fp_hunks =
     [\<lparr>h_old_start = 3, h_lines = [DiffLine_Context ''x'', DiffLine_Remove ''--y'',
        DiffLine_Add ''++ z'']\<rparr>]\<rparr>] :: unit patch_error + _)"
proof (rule parse_print_diff)
  show "list_all printable_file [\<lparr>fp_path = ''a.rs'', fp_hunks =
     [\<lparr>h_old_start = 3, h_lines = [DiffLine_Context ''x'', DiffLine_Remove ''--y'',
        DiffLine_Add ''++ z'']\<rparr>]\<rparr>]"
    by (simp add: printable_file_def printable_hunk_def plain_text_def newline_def char_of_eq_iff
        visible_chars)
qed

text \<open>
  A removed line whose text begins with two dashes and a space cuts its hunk short: in
  the diff it reads as the header of another file, so the parser returns the hunk with the
  lines before it only, and leaves that line and the rest of the hunk to the caller.
\<close>

theorem removed_dashes_cut_the_hunk:
  assumes "h_lines h = ds @ DiffLine_Remove (''-- '' @ t) # later"
    and "list_all printable_line ds" "h_old_start h < 2 ^ 64" "length (h_lines h) < 2 ^ 64"
  shows "parse_hunk (print_hunk h @ rest) =
    Inr (\<lparr>h_old_start = h_old_start h, h_lines = ds\<rparr>, Suc (length ds))"
proof -
  let ?rest = "print_diff_line (DiffLine_Remove (''-- '' @ t)) # map print_diff_line later @ rest"
  have "hunk_body (map print_diff_line ds @ ?rest) = (ds, length ds)"
    using assms(2) by (rule hunk_body_print) (simp add: stops_def)
  then show ?thesis
    by (simp add: parse_hunk_def print_hunk_def parse_header_of_hunk [OF assms(3,4)] assms(1))
qed

lemma removed_dashes_cut_the_hunk_witness:
  "parse_hunk (print_hunk \<lparr>h_old_start = 3, h_lines = [DiffLine_Context ''x''] @
     DiffLine_Remove (''-- '' @ ''drop table'') # [DiffLine_Add ''y'']\<rparr> @ []) =
     (Inr (\<lparr>h_old_start = 3, h_lines = [DiffLine_Context ''x'']\<rparr>, Suc (length [DiffLine_Context ''x'']))
        :: unit patch_error + _)"
  by (subst removed_dashes_cut_the_hunk [where ds = "[DiffLine_Context ''x'']" and t = "''drop table''"
        and later = "[DiffLine_Add ''y'']"])
    (simp_all add: plain_text_def newline_def char_of_eq_iff visible_chars)

end
