(* ===== verification/RustPath.thy ===== *)
theory RustPath
  imports RustText
begin

text \<open>
  The part of \<^verbatim>\<open>std::path\<close> that the modelled code calls, on Unix. A path is used
  through its components; \<open>path_components\<close> is \<^verbatim>\<open>Path::components\<close>: repeated
  separators and inner \<^verbatim>\<open>.\<close> segments vanish, a leading separator is a root and a leading
  \<^verbatim>\<open>.\<close> is kept.
\<close>

section \<open>Components\<close>

datatype path_component = RootDir | CurDir | ParentDir | Normal string

type_synonym path = "path_component list"

definition component_of :: "string \<Rightarrow> path_component" where
  "component_of seg = (if seg = ''..'' then ParentDir else Normal seg)"

definition path_components :: "string \<Rightarrow> path" where
  "path_components s =
     (let segs = split_on CHR ''/'' s;
          body = map component_of (filter (\<lambda>seg. seg \<noteq> [] \<and> seg \<noteq> ''.'') segs)
      in if prefix ''/'' s then RootDir # body
         else if hd segs = ''.'' then CurDir # body
         else body)"

definition path_parent :: "path \<Rightarrow> path option" where
  "path_parent p = (if p = [] \<or> last p = RootDir then None else Some (butlast p))"

definition path_file_name :: "path \<Rightarrow> string option" where
  "path_file_name p =
     (if p = [] then None else (case last p of Normal n \<Rightarrow> Some n | _ \<Rightarrow> None))"

definition path_starts_with :: "path \<Rightarrow> path \<Rightarrow> bool" where
  "path_starts_with p base \<longleftrightarrow> prefix base p"

definition path_is_absolute :: "path \<Rightarrow> bool" where
  "path_is_absolute p \<longleftrightarrow> p \<noteq> [] \<and> hd p = RootDir"

text \<open>\<^verbatim>\<open>PathBuf::push\<close> of one component: an absolute one replaces the path.\<close>

definition path_push :: "path \<Rightarrow> path_component \<Rightarrow> path" where
  "path_push p c = (if c = RootDir then [RootDir] else p @ [c])"

text \<open>A path of plain names only.\<close>

definition plain_path :: "path \<Rightarrow> bool" where
  "plain_path p \<longleftrightarrow> list_all (\<lambda>c. \<exists>n. c = Normal n) p"

text \<open>A component that is a name or \<^verbatim>\<open>..\<close>; only these occur after the first component.\<close>

fun inner_component :: "path_component \<Rightarrow> bool" where
  "inner_component RootDir = False"
| "inner_component CurDir = False"
| "inner_component ParentDir = True"
| "inner_component (Normal n) = True"

lemma inner_component_of [simp]: "inner_component (component_of s)"
  by (simp add: component_of_def)

lemma path_components_shape:
  obtains body where "list_all inner_component body"
    and "path_components s = body \<or> path_components s = RootDir # body \<or>
      path_components s = CurDir # body"
proof -
  let ?body = "map component_of (filter (\<lambda>seg. seg \<noteq> [] \<and> seg \<noteq> ''.'') (split_on CHR ''/'' s))"
  have "list_all inner_component ?body" by (simp add: list_all_iff)
  moreover have "path_components s = ?body \<or> path_components s = RootDir # ?body \<or>
      path_components s = CurDir # ?body"
    by (simp add: path_components_def Let_def)
  ultimately show ?thesis by (rule that)
qed

section \<open>What a path names, lexically\<close>

text \<open>
  The place an absolute path names when no component is a symbolic link: the stack of names
  below the root, where \<^verbatim>\<open>..\<close> at the root stays there, as POSIX has it.
\<close>

fun step_place :: "string list \<Rightarrow> path_component \<Rightarrow> string list" where
  "step_place ns RootDir = []"
| "step_place ns CurDir = ns"
| "step_place ns ParentDir = butlast ns"
| "step_place ns (Normal n) = ns @ [n]"

definition place :: "path \<Rightarrow> string list" where
  "place p = foldl step_place [] p"

lemma place_append: "place (p @ q) = foldl step_place (place p) q"
  by (simp add: place_def)

lemma place_snoc [simp]: "place (p @ [c]) = step_place (place p) c"
  by (simp add: place_def)

lemma place_Nil [simp]: "place [] = []"
  by (simp add: place_def)

lemma foldl_plain: "foldl step_place ns (map Normal ms) = ns @ ms"
  by (induction ms arbitrary: ns) simp_all

section \<open>Spelling a path\<close>

fun component_text :: "path_component \<Rightarrow> string" where
  "component_text RootDir = []"
| "component_text CurDir = ''.''"
| "component_text ParentDir = ''..''"
| "component_text (Normal n) = n"

definition path_text :: "path \<Rightarrow> string" where
  "path_text p =
     (if p = [RootDir] then ''/'' else join_on CHR ''/'' (map component_text p))"

text \<open>A name that can be one entry of a directory.\<close>

definition proper_name :: "string \<Rightarrow> bool" where
  "proper_name n \<longleftrightarrow> n \<noteq> [] \<and> n \<noteq> ''.'' \<and> n \<noteq> ''..'' \<and> CHR ''/'' \<notin> set n"

fun proper_component :: "path_component \<Rightarrow> bool" where
  "proper_component (Normal n) = proper_name n"
| "proper_component c = True"

definition proper_path :: "path \<Rightarrow> bool" where
  "proper_path p \<longleftrightarrow> list_all proper_component p"

lemma proper_component_of:
  "s \<noteq> [] \<Longrightarrow> s \<noteq> ''.'' \<Longrightarrow> CHR ''/'' \<notin> set s \<Longrightarrow> proper_component (component_of s)"
  by (simp add: component_of_def proper_name_def)

lemma proper_path_components [simp]: "proper_path (path_components s)"
proof -
  have "\<forall>seg \<in> set (filter (\<lambda>seg. seg \<noteq> [] \<and> seg \<noteq> ''.'') (split_on CHR ''/'' s)).
      proper_component (component_of seg)"
    using split_on_no_sep_in [of _ "CHR ''/''" s] by (auto intro!: proper_component_of)
  then show ?thesis
    by (simp add: path_components_def Let_def proper_path_def list_all_iff)
qed

lemma proper_path_Nil [simp]: "proper_path []"
  by (simp add: proper_path_def)

lemma proper_path_append [simp]: "proper_path (p @ q) \<longleftrightarrow> proper_path p \<and> proper_path q"
  by (simp add: proper_path_def)

lemma proper_path_Cons [simp]: "proper_path (c # p) \<longleftrightarrow> proper_component c \<and> proper_path p"
  by (simp add: proper_path_def)

lemma proper_path_butlast: "proper_path p \<Longrightarrow> proper_path (butlast p)"
  by (auto simp: proper_path_def list_all_iff dest: in_set_butlastD)

lemma proper_path_parent: "proper_path p \<Longrightarrow> path_parent p = Some q \<Longrightarrow> proper_path q"
  by (auto simp: path_parent_def proper_path_butlast split: if_splits)

lemma proper_file_name: "proper_path p \<Longrightarrow> path_file_name p = Some n \<Longrightarrow> proper_name n"
  by (cases p rule: rev_cases) (auto simp: path_file_name_def split: path_component.splits)

lemma components_of_text:
  assumes "p \<noteq> []" "list_all inner_component p" "proper_path p"
  shows "path_components (path_text (RootDir # p)) = RootDir # p"
proof -
  have spelled: "path_text (RootDir # p) = join_on CHR ''/'' ([] # map component_text p)"
    using assms(1) by (simp add: path_text_def)
  have each: "CHR ''/'' \<notin> set (component_text c) \<and> component_text c \<noteq> [] \<and> component_text c \<noteq> ''.'' \<and>
      component_of (component_text c) = c" if c: "c \<in> set p" for c
  proof -
    from c assms(2,3) have "inner_component c" "proper_component c"
      by (simp_all add: list_all_iff proper_path_def)
    then show ?thesis by (cases c) (simp_all add: proper_name_def component_of_def)
  qed
  then have split: "split_on CHR ''/'' (path_text (RootDir # p)) = [] # map component_text p"
    unfolding spelled by (intro split_join) auto
  have body: "map component_of (filter (\<lambda>seg. seg \<noteq> [] \<and> seg \<noteq> ''.'') ([] # map component_text p)) = p"
    using each by (simp add: filter_map comp_def map_idI)
  have "prefix ''/'' (path_text (RootDir # p))"
    using assms(1) by (cases p) (simp_all add: path_text_def)
  then show ?thesis
    unfolding path_components_def Let_def split body by simp
qed

lemma empty_path: "path_components [] = []"
  by code_simp

end
