(* ===== verification/Caveats.thy ===== *)
theory Caveats
  imports RustPath
begin

text \<open>
  The enforcement layer over the authority lattice: \<^verbatim>\<open>newt-core/src/caveats.rs\<close>,
  \<^verbatim>\<open>newt-core/src/fs_aliases.rs\<close> and the adaptor of
  \<^verbatim>\<open>agent-toolchain/src/caveats.rs\<close>. The types \<^verbatim>\<open>Scope\<close>, \<^verbatim>\<open>CountBound\<close> and
  \<^verbatim>\<open>Caveats\<close> are public data of the crate agent-mesh-protocol and have the variants the
  code matches on; the lattice operations of that crate are not used here.

  On macOS a path is first rewritten by a table of system aliases; the table, one flag per
  alias, is an argument, and the empty table is Linux.
\<close>

section \<open>Scopes\<close>

datatype 'a scope = Scope_All | Scope_Only "'a fset"

datatype count_bound = CountBound_Unlimited | CountBound_AtMost u64

record 'g caveats =
  cv_fs_read :: "string scope"
  cv_fs_write :: "string scope"
  cv_exec :: "string scope"
  cv_net :: "string scope"
  cv_max_calls :: count_bound
  cv_generation :: "'g scope"

fun permits :: "'a scope \<Rightarrow> 'a \<Rightarrow> bool" where
  "permits Scope_All x = True"
| "permits (Scope_Only s) x = (x |\<in>| s)"

fun permits_one_more :: "count_bound \<Rightarrow> u64 \<Rightarrow> bool" where
  "permits_one_more CountBound_Unlimited used = True"
| "permits_one_more (CountBound_AtMost n) used = (used < n)"

definition permits_fs_read :: "'g caveats \<Rightarrow> string \<Rightarrow> bool" where
  "permits_fs_read c p = permits (cv_fs_read c) p"

definition permits_fs_write :: "'g caveats \<Rightarrow> string \<Rightarrow> bool" where
  "permits_fs_write c p = permits (cv_fs_write c) p"

definition permits_exec :: "'g caveats \<Rightarrow> string \<Rightarrow> bool" where
  "permits_exec c cmd = permits (cv_exec c) cmd"

definition permits_net :: "'g caveats \<Rightarrow> string \<Rightarrow> bool" where
  "permits_net c h = permits (cv_net c) h"

section \<open>System aliases\<close>

definition ALIASES :: "(string \<times> string) list" where
  "ALIASES = [(''/tmp'', ''/private/tmp''), (''/var'', ''/private/var''), (''/etc'', ''/private/etc'')]"

fun rewrite_with :: "(bool \<times> string \<times> string) list \<Rightarrow> string \<Rightarrow> string" where
  "rewrite_with [] path = path"
| "rewrite_with ((enabled, alias, target) # rest) path =
     (if enabled \<and>
         (path = alias \<or>
          (case strip_prefix alias path of Some tail \<Rightarrow> prefix ''/'' tail | None \<Rightarrow> False))
      then target @ drop (length alias) path
      else rewrite_with rest path)"

definition rewrite_alias :: "bool list \<Rightarrow> string \<Rightarrow> string" where
  "rewrite_alias table path = rewrite_with (zip table ALIASES) path"

section \<open>Locking the file axes to the workspace\<close>

definition map_roots :: "bool list \<Rightarrow> string scope \<Rightarrow> string scope" where
  "map_roots table sc =
     (case sc of Scope_All \<Rightarrow> Scope_All | Scope_Only s \<Rightarrow> Scope_Only (rewrite_alias table |`| s))"

definition lock_fs_to_workspace ::
    "bool list \<Rightarrow> 'g caveats \<Rightarrow> string \<Rightarrow> string list \<Rightarrow> string list \<Rightarrow> 'g caveats" where
  "lock_fs_to_workspace table c workspace read_grants write_grants =
     (let read_roots = fset_of_list (workspace # read_grants @ write_grants);
          fs_read = (case cv_fs_read c of
            Scope_All \<Rightarrow> Scope_Only read_roots
          | Scope_Only s \<Rightarrow> Scope_Only (s |\<union>| read_roots));
          fs_write = (case cv_fs_write c of
            Scope_All \<Rightarrow> Scope_Only (fset_of_list (workspace # write_grants))
          | Scope_Only s \<Rightarrow> Scope_Only (s |\<union>| fset_of_list write_grants))
      in c\<lparr>cv_fs_read := map_roots table fs_read, cv_fs_write := map_roots table fs_write\<rparr>)"

text \<open>
  The grants come from two environment variables, split at colons; \<open>own_git_read\<close> is the
  list of the workspace's own git directories, which the git layer computes.
\<close>

definition parse_paths :: "string option \<Rightarrow> string list" where
  "parse_paths var =
     (case var of None \<Rightarrow> [] | Some s \<Rightarrow> filter (\<lambda>p. p \<noteq> []) (split_on CHR '':'' s))"

definition apply_cli_fs_grants ::
    "bool list \<Rightarrow> string option \<Rightarrow> string option \<Rightarrow> string list \<Rightarrow> 'g caveats \<Rightarrow> string \<Rightarrow>
      'g caveats" where
  "apply_cli_fs_grants table read_var write_var own_git_read c workspace =
     lock_fs_to_workspace table c workspace (parse_paths read_var @ own_git_read)
       (parse_paths write_var)"

definition spawn_net_scope :: "string scope \<Rightarrow> string scope" where
  "spawn_net_scope net =
     (case net of
        Scope_Only s \<Rightarrow> if s \<noteq> {||} then Scope_Only {||} else net
      | Scope_All \<Rightarrow> net)"

section \<open>Path containment\<close>

fun norm_step :: "path \<Rightarrow> path_component \<Rightarrow> path" where
  "norm_step out CurDir = out"
| "norm_step out ParentDir =
     (case path_parent out of Some p \<Rightarrow> p | None \<Rightarrow> path_push out ParentDir)"
| "norm_step out c = path_push out c"

definition norm_path :: "path \<Rightarrow> path" where
  "norm_path p = foldl norm_step [] p"

definition lexically_normalize :: "bool list \<Rightarrow> string \<Rightarrow> path" where
  "lexically_normalize table s = norm_path (path_components (rewrite_alias table s))"

definition permits_path :: "bool list \<Rightarrow> string scope \<Rightarrow> string \<Rightarrow> bool" where
  "permits_path table sc full_path =
     (case sc of
        Scope_All \<Rightarrow> True
      | Scope_Only s \<Rightarrow>
          if s = {||} then False
          else let candidate = lexically_normalize table full_path in
            fBex s (\<lambda>root. path_starts_with candidate (lexically_normalize table root)))"

section \<open>Normal forms of absolute paths\<close>

text \<open>
  Normalising an absolute path leaves the root, at most one \<^verbatim>\<open>..\<close> that would climb above
  it, and names; the names are the place the path denotes.
\<close>

definition abs_form :: "path \<Rightarrow> string list \<Rightarrow> bool" where
  "abs_form out ns \<longleftrightarrow>
     out = RootDir # map Normal ns \<or> out = RootDir # ParentDir # map Normal ns"

lemma abs_form_step:
  assumes "abs_form out ns" "inner_component c"
  shows "abs_form (norm_step out c) (step_place ns c)"
proof (cases c)
  case ParentDir
  with assms(1) show ?thesis
    by (cases ns rule: rev_cases) (auto simp: abs_form_def path_parent_def path_push_def butlast_append)
qed (use assms in \<open>auto simp: abs_form_def path_push_def\<close>)

lemma abs_form_foldl:
  "abs_form out ns \<Longrightarrow> list_all inner_component cs \<Longrightarrow>
     abs_form (foldl norm_step out cs) (foldl step_place ns cs)"
  by (induction cs arbitrary: out ns) (simp_all add: abs_form_step)

lemma norm_abs_form:
  assumes "path_is_absolute (path_components s)"
  shows "abs_form (norm_path (path_components s)) (place (path_components s))"
proof -
  obtain body where body: "list_all inner_component body"
    and s: "path_components s = body \<or> path_components s = RootDir # body \<or>
      path_components s = CurDir # body"
    by (rule path_components_shape)
  have "hd body \<noteq> RootDir" if "body \<noteq> []" using that body by (cases body) auto
  with assms s have "path_components s = RootDir # body"
    by (auto simp: path_is_absolute_def)
  moreover have "abs_form [RootDir] []" by (simp add: abs_form_def)
  ultimately show ?thesis
    using abs_form_foldl [OF _ body, of "[RootDir]" "[]"]
    by (simp add: norm_path_def place_def path_push_def)
qed

lemma prefix_map_Normal: "prefix (map Normal xs) (map Normal ys) \<longleftrightarrow> prefix xs ys"
proof (induction xs arbitrary: ys)
  case (Cons x xs)
  then show ?case by (cases ys) auto
qed simp

lemma abs_form_prefix:
  assumes "abs_form r ns" "abs_form p ms" "prefix r p"
  shows "prefix ns ms"
proof -
  have climb: "\<not> prefix (ParentDir # q) (map Normal ms)" for q by (cases ms) auto
  have name: "prefix (map Normal ns) (ParentDir # q) \<Longrightarrow> prefix ns ms" for q by (cases ns) auto
  show ?thesis
    using assms name [of "map Normal ms"] climb [of "map Normal ns"]
    unfolding abs_form_def by (auto simp: prefix_map_Normal)
qed

text \<open>
  No \<^verbatim>\<open>..\<close> of the path meets the root: with \<open>d\<close> names on the stack, each climb has a
  name to remove.
\<close>

fun never_climbs :: "nat \<Rightarrow> path \<Rightarrow> bool" where
  "never_climbs d [] = True"
| "never_climbs d (RootDir # cs) = never_climbs 0 cs"
| "never_climbs d (CurDir # cs) = never_climbs d cs"
| "never_climbs d (ParentDir # cs) = (0 < d \<and> never_climbs (d - 1) cs)"
| "never_climbs d (Normal n # cs) = never_climbs (Suc d) cs"

lemma norm_no_climb:
  "list_all inner_component cs \<Longrightarrow> never_climbs (length ns) cs \<Longrightarrow>
     foldl norm_step (RootDir # map Normal ns) cs = RootDir # map Normal (foldl step_place ns cs)"
proof (induction cs arbitrary: ns)
  case (Cons c cs)
  show ?case
  proof (cases c)
    case ParentDir
    with Cons.prems obtain ms m where "ns = ms @ [m]" by (cases ns rule: rev_cases) auto
    with ParentDir Cons.prems Cons.IH [of ms] show ?thesis
      by (simp add: path_parent_def)
  next
    case (Normal n)
    with Cons.prems Cons.IH [of "ns @ [n]"] show ?thesis by (simp add: path_push_def)
  qed (use Cons.prems in simp_all)
qed simp

section \<open>Properties\<close>

lemma permits_path_iff:
  "permits_path table (Scope_Only s) p \<longleftrightarrow>
     (\<exists>root. root |\<in>| s \<and>
        prefix (lexically_normalize table root) (lexically_normalize table p))"
  by (auto simp: permits_path_def Let_def path_starts_with_def)

definition named_path :: "bool list \<Rightarrow> string \<Rightarrow> path" where
  "named_path table s = path_components (rewrite_alias table s)"

lemma normal_abs: "path_is_absolute (named_path table s) \<Longrightarrow>
    abs_form (lexically_normalize table s) (place (named_path table s))"
  unfolding lexically_normalize_def named_path_def by (rule norm_abs_form)

lemma norm_plain: "norm_path (RootDir # map Normal ns) = RootDir # map Normal ns"
proof -
  have "foldl norm_step out (map Normal ns) = out @ map Normal ns" for out
    by (induction ns arbitrary: out) (simp_all add: path_push_def)
  then show ?thesis by (simp add: norm_path_def path_push_def)
qed

lemma norm_climbing:
  assumes "ns \<noteq> []"
  shows "norm_path (RootDir # map Normal ns @ [ParentDir]) = RootDir # map Normal (butlast ns)"
proof -
  have "foldl norm_step [] (RootDir # map Normal ns) = RootDir # map Normal ns"
    using norm_plain [of ns] by (simp add: norm_path_def)
  then have "norm_path (RootDir # map Normal ns @ [ParentDir]) = norm_step (RootDir # map Normal ns) ParentDir"
    by (simp add: norm_path_def)
  also have "path_parent (RootDir # map Normal ns) = Some (RootDir # map Normal (butlast ns))"
    using assms by (simp add: path_parent_def last_map map_butlast)
  then have "norm_step (RootDir # map Normal ns) ParentDir = RootDir # map Normal (butlast ns)" by simp
  finally show ?thesis .
qed

text \<open>Normalising a relative path never makes it absolute.\<close>

lemma norm_relative: "list_all inner_component cs \<Longrightarrow> RootDir \<notin> set out \<Longrightarrow>
    RootDir \<notin> set (foldl norm_step out cs)"
proof (induction cs arbitrary: out)
  case (Cons c cs)
  moreover have "RootDir \<notin> set (norm_step out c)"
    using Cons.prems by (cases c) (auto simp: path_push_def path_parent_def dest: in_set_butlastD)
  ultimately show ?case by simp
qed simp

lemma normal_absolute_only:
  assumes "hd (lexically_normalize table p) = RootDir" "lexically_normalize table p \<noteq> []"
  shows "path_is_absolute (named_path table p)"
proof (rule ccontr)
  assume rel: "\<not> path_is_absolute (named_path table p)"
  obtain body where "list_all inner_component body"
    and "named_path table p = body \<or> named_path table p = RootDir # body \<or>
      named_path table p = CurDir # body"
    unfolding named_path_def by (rule path_components_shape)
  with rel have "RootDir \<notin> set (lexically_normalize table p)"
    using norm_relative [of body "[]"]
    by (auto simp: lexically_normalize_def norm_path_def path_is_absolute_def
        simp flip: named_path_def)
  with assms show False by (metis hd_in_set)
qed

lemma abs_components:
  assumes "path_is_absolute (path_components s)"
  obtains body where "path_components s = RootDir # body" "list_all inner_component body"
proof -
  obtain body where body: "list_all inner_component body"
    and s: "path_components s = body \<or> path_components s = RootDir # body \<or>
      path_components s = CurDir # body"
    by (rule path_components_shape)
  have "hd body \<noteq> RootDir" if "body \<noteq> []" using that body by (cases body) auto
  with assms s have "path_components s = RootDir # body"
    by (auto simp: path_is_absolute_def)
  then show ?thesis using body by (rule that)
qed

lemma normal_no_climb:
  assumes "path_is_absolute (named_path table s)" "never_climbs 0 (named_path table s)"
  shows "lexically_normalize table s = RootDir # map Normal (place (named_path table s))"
proof -
  obtain body where "named_path table s = RootDir # body" "list_all inner_component body"
    using assms(1) unfolding named_path_def by (rule abs_components)
  with assms(2) norm_no_climb [of body "[]"] show ?thesis
    by (simp add: lexically_normalize_def norm_path_def place_def path_push_def
        flip: named_path_def)
qed

text \<open>
  C39. The file fence contains: when every root of the scope is absolute, a permitted path is
  absolute and names a place at or below the place of one of the roots, with \<^verbatim>\<open>..\<close>
  resolved the way POSIX does; and conversely an absolute path below a root is permitted when
  neither climbs above the file-system root on the way.
\<close>

theorem path_fence_contains:
  assumes "\<And>r. r |\<in>| s \<Longrightarrow> path_is_absolute (named_path table r)"
  shows "(permits_path table (Scope_Only s) p \<longrightarrow>
      path_is_absolute (named_path table p) \<and>
      (\<exists>r. r |\<in>| s \<and> prefix (place (named_path table r)) (place (named_path table p)))) \<and>
    (path_is_absolute (named_path table p) \<and> never_climbs 0 (named_path table p) \<and>
      (\<exists>r. r |\<in>| s \<and> never_climbs 0 (named_path table r) \<and>
         prefix (place (named_path table r)) (place (named_path table p))) \<longrightarrow>
      permits_path table (Scope_Only s) p)"
proof (intro conjI impI)
  assume "permits_path table (Scope_Only s) p"
  then obtain r where r: "r |\<in>| s"
    "prefix (lexically_normalize table r) (lexically_normalize table p)"
    by (auto simp: permits_path_iff)
  from normal_abs [OF assms [OF r(1)]]
  have form: "abs_form (lexically_normalize table r) (place (named_path table r))" .
  with r(2) have "hd (lexically_normalize table p) = RootDir" "lexically_normalize table p \<noteq> []"
    by (auto simp: abs_form_def prefix_def)
  then show abs: "path_is_absolute (named_path table p)"
    by (rule normal_absolute_only)
  from abs_form_prefix [OF form normal_abs [OF abs] r(2)] r(1)
  show "\<exists>r. r |\<in>| s \<and> prefix (place (named_path table r)) (place (named_path table p))" by blast
next
  assume "path_is_absolute (named_path table p) \<and> never_climbs 0 (named_path table p) \<and>
      (\<exists>r. r |\<in>| s \<and> never_climbs 0 (named_path table r) \<and>
         prefix (place (named_path table r)) (place (named_path table p)))"
  then show "permits_path table (Scope_Only s) p"
    using assms by (auto simp: permits_path_iff normal_no_climb prefix_map_Normal)
qed

lemma path_fence_contains_witness:
  "permits_path [] (Scope_Only {|''/ws''|}) ''/ws/a/../b'' \<and>
   \<not> permits_path [] (Scope_Only {|''/ws''|}) ''/ws/../etc/passwd''"
proof -
  have abs: "path_is_absolute (named_path [] r)" if "r |\<in>| {|''/ws''|}" for r
    using that by simp code_simp
  have named: "path_is_absolute (named_path [] ''/ws/a/../b'')"
    "never_climbs 0 (named_path [] ''/ws/a/../b'')" "never_climbs 0 (named_path [] ''/ws'')"
    "prefix (place (named_path [] ''/ws'')) (place (named_path [] ''/ws/a/../b''))"
    "\<not> prefix (place (named_path [] ''/ws'')) (place (named_path [] ''/ws/../etc/passwd''))"
    by code_simp+
  from path_fence_contains [OF abs, where p = "''/ws/a/../b''"]
    path_fence_contains [OF abs, where p = "''/ws/../etc/passwd''"] named
  show ?thesis by auto
qed

text \<open>
  A root that normalises to nothing fences nothing: with \<^verbatim>\<open>.\<close>, the empty string,
  \<^verbatim>\<open>src/..\<close> or \<^verbatim>\<open>../..\<close> among the roots, every path is permitted, absolute ones
  outside the workspace included.
\<close>

theorem empty_root_permits_everything:
  assumes "root |\<in>| s" and "lexically_normalize table root = []"
  shows "permits_path table (Scope_Only s) p"
  using assms by (auto simp: permits_path_iff)

lemma empty_root_permits_everything_witness:
  "permits_path [] (Scope_Only {|''.''|}) ''/etc/passwd'' \<and>
   permits_path [] (Scope_Only {|''../..''|}) ''/etc/passwd''"
proof (intro conjI empty_root_permits_everything)
  show "''.'' |\<in>| {|''.''|}" "''../..'' |\<in>| {|''../..''|}" by simp_all
  show "lexically_normalize [] ''.'' = []" "lexically_normalize [] ''../..'' = []" by code_simp+
qed

end
