(* ===== verification/FsCap.thy ===== *)
theory FsCap
  imports Caveats
begin

text \<open>
  The workspace directory capability, \<^verbatim>\<open>newt-core/src/fs_cap.rs\<close>: every path is
  resolved through the descriptor of the workspace root. The kernel is a parameter, a record
  of one function per system call over a world of its own; each call is also recorded in a
  trace, and what the capability promises is stated over that trace.

  A descriptor stands for the open object, not for its number, so it is not reused. A path is
  handed to the kernel by its components; a trailing separator, which only asks for a
  directory, is not represented.
\<close>

section \<open>The kernel\<close>

datatype platform = Linux | MacOS "bool list"

datatype io_error = Io_NotFound | Io_Exdev | Io_Einval | Io_NotRegular | Io_Other nat

datatype oflag =
    RDONLY | WRONLY | DIRECTORY | CLOEXEC | NOFOLLOW | NONBLOCK | O_CREATE | EXCL | TRUNC | APPEND

datatype resolve_flag = BENEATH | NO_MAGICLINKS

datatype 'fd syscall =
    Call_Open path "oflag list" nat
  | Call_Openat2 'fd path "oflag list" nat "resolve_flag list"
  | Call_Openat 'fd path "oflag list" nat
  | Call_Mkdirat 'fd path nat
  | Call_Unlinkat 'fd path
  | Call_Renameat 'fd path 'fd path
  | Call_Linkat 'fd path 'fd path
  | Call_Dup 'fd
  | Call_Fstat 'fd
  | Call_Ftruncate 'fd nat
  | Call_Getdents 'fd
  | Call_Read 'fd
  | Call_Write 'fd string

record ('fd, 'w) kernel =
  k_open :: "path \<Rightarrow> oflag list \<Rightarrow> nat \<Rightarrow> 'w \<Rightarrow> (io_error + 'fd) \<times> 'w"
  k_openat2 :: "'fd \<Rightarrow> path \<Rightarrow> oflag list \<Rightarrow> nat \<Rightarrow> resolve_flag list \<Rightarrow> 'w \<Rightarrow> (io_error + 'fd) \<times> 'w"
  k_openat :: "'fd \<Rightarrow> path \<Rightarrow> oflag list \<Rightarrow> nat \<Rightarrow> 'w \<Rightarrow> (io_error + 'fd) \<times> 'w"
  k_mkdirat :: "'fd \<Rightarrow> path \<Rightarrow> nat \<Rightarrow> 'w \<Rightarrow> (io_error + unit) \<times> 'w"
  k_unlinkat :: "'fd \<Rightarrow> path \<Rightarrow> 'w \<Rightarrow> (io_error + unit) \<times> 'w"
  k_renameat :: "'fd \<Rightarrow> path \<Rightarrow> 'fd \<Rightarrow> path \<Rightarrow> 'w \<Rightarrow> (io_error + unit) \<times> 'w"
  k_linkat :: "'fd \<Rightarrow> path \<Rightarrow> 'fd \<Rightarrow> path \<Rightarrow> 'w \<Rightarrow> (io_error + unit) \<times> 'w"
  k_dup :: "'fd \<Rightarrow> 'w \<Rightarrow> (io_error + 'fd) \<times> 'w"
  k_is_file :: "'fd \<Rightarrow> 'w \<Rightarrow> (io_error + bool) \<times> 'w"
  k_set_len :: "'fd \<Rightarrow> nat \<Rightarrow> 'w \<Rightarrow> (io_error + unit) \<times> 'w"
  k_getdents :: "'fd \<Rightarrow> 'w \<Rightarrow> (io_error + string list) \<times> 'w"
  k_read :: "'fd \<Rightarrow> 'w \<Rightarrow> (io_error + string) \<times> 'w"
  k_write :: "'fd \<Rightarrow> string \<Rightarrow> 'w \<Rightarrow> (io_error + unit) \<times> 'w"

text \<open>A computation over the world and the trace of calls, each with the descriptor it opened.\<close>

type_synonym 'fd trace = "('fd syscall \<times> 'fd option) list"
type_synonym ('fd, 'w, 'e, 'a) sys = "'w \<times> 'fd trace \<Rightarrow> ('e + 'a) \<times> 'w \<times> 'fd trace"

definition sys_return :: "'a \<Rightarrow> ('fd, 'w, 'e, 'a) sys" where
  "sys_return a s = (Inr a, s)"

definition sys_fail :: "'e \<Rightarrow> ('fd, 'w, 'e, 'a) sys" where
  "sys_fail e s = (Inl e, s)"

definition sys_bind ::
    "('fd, 'w, 'e, 'a) sys \<Rightarrow> ('a \<Rightarrow> ('fd, 'w, 'e, 'b) sys) \<Rightarrow> ('fd, 'w, 'e, 'b) sys" where
  "sys_bind m f s = (case m s of (Inl e, s') \<Rightarrow> (Inl e, s') | (Inr a, s') \<Rightarrow> f a s')"

text \<open>Runs the computation and hands its result, error or value, to the continuation.\<close>

definition sys_catch ::
    "('fd, 'w, 'e, 'a) sys \<Rightarrow> ('e + 'a \<Rightarrow> ('fd, 'w, 'e2, 'b) sys) \<Rightarrow> ('fd, 'w, 'e2, 'b) sys" where
  "sys_catch m f s = (case m s of (r, s') \<Rightarrow> f r s')"

definition call_fd ::
    "'fd syscall \<Rightarrow> ('w \<Rightarrow> (io_error + 'fd) \<times> 'w) \<Rightarrow> ('fd, 'w, io_error, 'fd) sys" where
  "call_fd c f s = (case s of (w, tr) \<Rightarrow> (case f w of
     (Inl e, w') \<Rightarrow> (Inl e, w', tr @ [(c, None)])
   | (Inr fd, w') \<Rightarrow> (Inr fd, w', tr @ [(c, Some fd)])))"

definition call_val ::
    "'fd syscall \<Rightarrow> ('w \<Rightarrow> (io_error + 'a) \<times> 'w) \<Rightarrow> ('fd, 'w, io_error, 'a) sys" where
  "call_val c f s = (case s of (w, tr) \<Rightarrow> (case f w of (r, w') \<Rightarrow> (r, w', tr @ [(c, None)])))"

definition sys_open where
  "sys_open k p fl mode = call_fd (Call_Open p fl mode) (k_open k p fl mode)"

definition sys_openat2 where
  "sys_openat2 k fd p fl mode rs = call_fd (Call_Openat2 fd p fl mode rs) (k_openat2 k fd p fl mode rs)"

definition sys_openat where
  "sys_openat k fd p fl mode = call_fd (Call_Openat fd p fl mode) (k_openat k fd p fl mode)"

definition sys_mkdirat where
  "sys_mkdirat k fd p mode = call_val (Call_Mkdirat fd p mode) (k_mkdirat k fd p mode)"

definition sys_unlinkat where
  "sys_unlinkat k fd p = call_val (Call_Unlinkat fd p) (k_unlinkat k fd p)"

definition sys_renameat where
  "sys_renameat k fd p fd' p' = call_val (Call_Renameat fd p fd' p') (k_renameat k fd p fd' p')"

definition sys_linkat where
  "sys_linkat k fd p fd' p' = call_val (Call_Linkat fd p fd' p') (k_linkat k fd p fd' p')"

definition sys_dup where
  "sys_dup k fd = call_fd (Call_Dup fd) (k_dup k fd)"

definition sys_is_file where
  "sys_is_file k fd = call_val (Call_Fstat fd) (k_is_file k fd)"

definition sys_set_len where
  "sys_set_len k fd n = call_val (Call_Ftruncate fd n) (k_set_len k fd n)"

definition sys_getdents where
  "sys_getdents k fd = call_val (Call_Getdents fd) (k_getdents k fd)"

definition sys_read where
  "sys_read k fd = call_val (Call_Read fd) (k_read k fd)"

definition sys_write where
  "sys_write k fd text = call_val (Call_Write fd text) (k_write k fd text)"

section \<open>Resolving beneath the root\<close>

text \<open>On macOS, the names of a relative path; anything but names and \<^verbatim>\<open>.\<close> is refused.\<close>

fun mac_names :: "path \<Rightarrow> io_error + path_component list" where
  "mac_names [] = Inr []"
| "mac_names (Normal n # cs) = (case mac_names cs of Inl e \<Rightarrow> Inl e | Inr ns \<Rightarrow> Inr (Normal n # ns))"
| "mac_names (CurDir # cs) = mac_names cs"
| "mac_names (c # cs) = Inl Io_Exdev"

fun mac_walk :: "('fd, 'w) kernel \<Rightarrow> 'fd \<Rightarrow> path_component list \<Rightarrow> ('fd, 'w, io_error, 'fd) sys" where
  "mac_walk k dir [] = sys_return dir"
| "mac_walk k dir (n # ns) =
     sys_bind (sys_openat k dir [n] [RDONLY, DIRECTORY, CLOEXEC, NOFOLLOW] 0) (\<lambda>fd.
       mac_walk k fd ns)"

definition resolve ::
    "platform \<Rightarrow> ('fd, 'w) kernel \<Rightarrow> 'fd \<Rightarrow> path \<Rightarrow> oflag list \<Rightarrow> nat \<Rightarrow> ('fd, 'w, io_error, 'fd) sys" where
  "resolve plat k root rel oflags mode =
     (case plat of
        Linux \<Rightarrow> sys_openat2 k root rel (oflags @ [CLOEXEC]) mode [BENEATH, NO_MAGICLINKS]
      | MacOS table \<Rightarrow>
          sys_bind (sys_dup k root) (\<lambda>dir.
            (case mac_names rel of
               Inl e \<Rightarrow> sys_fail e
             | Inr names \<Rightarrow>
                 if names = [] then sys_openat k dir [CurDir] (oflags @ [CLOEXEC, NOFOLLOW]) mode
                 else sys_bind (mac_walk k dir (butlast names)) (\<lambda>d.
                        sys_openat k d [last names] (oflags @ [CLOEXEC, NOFOLLOW]) mode))))"

section \<open>The capability\<close>

record 'fd workspace_dir =
  wd_root :: 'fd

definition handle :: "'fd \<Rightarrow> ('fd, 'w, io_error, 'fd workspace_dir) sys" where
  "handle fd = sys_return \<lparr>wd_root = fd\<rparr>"

definition dir_open_dir ::
    "platform \<Rightarrow> ('fd, 'w) kernel \<Rightarrow> 'fd workspace_dir \<Rightarrow> path \<Rightarrow> ('fd, 'w, io_error, 'fd workspace_dir) sys" where
  "dir_open_dir plat k d rel =
     sys_bind (resolve plat k (wd_root d) rel [RDONLY, DIRECTORY] 0) handle"

definition open_root ::
    "platform \<Rightarrow> ('fd, 'w) kernel \<Rightarrow> string \<Rightarrow> ('fd, 'w, io_error, 'fd workspace_dir) sys" where
  "open_root plat k path =
     (case plat of
        Linux \<Rightarrow> sys_bind (sys_open k (path_components path) [RDONLY, DIRECTORY, CLOEXEC] 0) handle
      | MacOS table \<Rightarrow>
          (let p = lexically_normalize table path;
               anchor = (if path_is_absolute p then [RootDir] else [CurDir]) in
           sys_bind (sys_open k anchor [RDONLY, DIRECTORY, CLOEXEC] 0) (\<lambda>fd.
             dir_open_dir plat k \<lparr>wd_root = fd\<rparr> (if path_is_absolute p then tl p else p))))"

definition from_granted_root :: "('fd, 'w) kernel \<Rightarrow> 'fd \<Rightarrow> ('fd, 'w, io_error, 'fd workspace_dir) sys" where
  "from_granted_root k fd = sys_bind (sys_dup k fd) handle"

definition dir_open ::
    "platform \<Rightarrow> ('fd, 'w) kernel \<Rightarrow> 'fd workspace_dir \<Rightarrow> path \<Rightarrow> ('fd, 'w, io_error, 'fd) sys" where
  "dir_open plat k d rel = resolve plat k (wd_root d) rel [RDONLY] 0"

definition check_regular :: "('fd, 'w) kernel \<Rightarrow> 'fd \<Rightarrow> ('fd, 'w, io_error, 'fd) sys" where
  "check_regular k fd =
     sys_bind (sys_is_file k fd) (\<lambda>is_file. if \<not> is_file then sys_fail Io_NotRegular else sys_return fd)"

definition dir_open_regular ::
    "platform \<Rightarrow> ('fd, 'w) kernel \<Rightarrow> 'fd workspace_dir \<Rightarrow> path \<Rightarrow> bool \<Rightarrow> ('fd, 'w, io_error, 'fd) sys" where
  "dir_open_regular plat k d rel nofollow =
     sys_bind (resolve plat k (wd_root d) rel
        ([RDONLY, NONBLOCK] @ (if nofollow then [NOFOLLOW] else [])) 0)
       (check_regular k)"

definition dir_append_regular ::
    "platform \<Rightarrow> ('fd, 'w) kernel \<Rightarrow> 'fd workspace_dir \<Rightarrow> path \<Rightarrow> ('fd, 'w, io_error, 'fd) sys" where
  "dir_append_regular plat k d rel =
     sys_bind (resolve plat k (wd_root d) rel [WRONLY, O_CREATE, APPEND, NOFOLLOW, NONBLOCK] 420)
       (check_regular k)"

definition dir_create ::
    "platform \<Rightarrow> ('fd, 'w) kernel \<Rightarrow> 'fd workspace_dir \<Rightarrow> path \<Rightarrow> ('fd, 'w, io_error, 'fd) sys" where
  "dir_create plat k d rel = resolve plat k (wd_root d) rel [WRONLY, O_CREATE, TRUNC] 420"

definition dir_create_new ::
    "platform \<Rightarrow> ('fd, 'w) kernel \<Rightarrow> 'fd workspace_dir \<Rightarrow> path \<Rightarrow> ('fd, 'w, io_error, 'fd) sys" where
  "dir_create_new plat k d rel = resolve plat k (wd_root d) rel [WRONLY, O_CREATE, EXCL] 420"

definition exact_file_parent ::
    "platform \<Rightarrow> ('fd, 'w) kernel \<Rightarrow> string \<Rightarrow> ('fd, 'w, io_error, 'fd workspace_dir \<times> path) sys" where
  "exact_file_parent plat k file =
     (case path_file_name (path_components file) of
        None \<Rightarrow> sys_fail Io_Einval
      | Some name \<Rightarrow>
          (let parent = (case path_parent (path_components file) of
                None \<Rightarrow> ''.'' | Some p \<Rightarrow> if p = [] then ''.'' else path_text p) in
           sys_bind (open_root plat k parent) (\<lambda>d. sys_return (d, [Normal name]))))"

text \<open>The walk of \<^verbatim>\<open>create_dir_all\<close>, from the directory reached so far.\<close>

definition open_step ::
    "platform \<Rightarrow> ('fd, 'w) kernel \<Rightarrow> 'fd \<Rightarrow> path \<Rightarrow> ('fd, 'w, io_error, 'fd) sys" where
  "open_step plat k cur step =
     sys_bind (sys_dup k cur) (\<lambda>d. resolve plat k d step [RDONLY, DIRECTORY, CLOEXEC] 0)"

fun create_walk ::
    "platform \<Rightarrow> ('fd, 'w) kernel \<Rightarrow> 'fd \<Rightarrow> path \<Rightarrow> ('fd, 'w, io_error, unit) sys" where
  "create_walk plat k cur [] = sys_return ()"
| "create_walk plat k cur (Normal n # cs) =
     sys_bind (sys_dup k cur) (\<lambda>d.
     sys_catch (resolve plat k d [Normal n] [RDONLY, DIRECTORY, CLOEXEC] 0) (\<lambda>r.
       case r of
         Inr child \<Rightarrow> create_walk plat k child cs
       | Inl e \<Rightarrow>
           if e = Io_NotFound
           then sys_bind (sys_mkdirat k cur [Normal n] 493) (\<lambda>_.
                sys_bind (open_step plat k cur [Normal n]) (\<lambda>child.
                  create_walk plat k child cs))
           else sys_fail e))"
| "create_walk plat k cur (CurDir # cs) = create_walk plat k cur cs"
| "create_walk plat k cur (c # cs) = sys_fail Io_Exdev"

definition dir_create_dir_all ::
    "platform \<Rightarrow> ('fd, 'w) kernel \<Rightarrow> 'fd workspace_dir \<Rightarrow> path \<Rightarrow> ('fd, 'w, io_error, unit) sys" where
  "dir_create_dir_all plat k d rel =
     sys_bind (sys_dup k (wd_root d)) (\<lambda>cur. create_walk plat k cur rel)"

definition open_granted_file ::
    "platform \<Rightarrow> ('fd, 'w) kernel \<Rightarrow> string \<Rightarrow> path \<Rightarrow> bool \<Rightarrow> ('fd, 'w, io_error, 'fd) sys" where
  "open_granted_file plat k root rel nofollow =
     (if rel = [CurDir]
      then sys_bind (exact_file_parent plat k root) (\<lambda>(parent, name).
             dir_open_regular plat k parent name True)
      else sys_bind (open_root plat k root) (\<lambda>d. dir_open_regular plat k d rel nofollow))"

definition create_granted_file ::
    "platform \<Rightarrow> ('fd, 'w) kernel \<Rightarrow> string \<Rightarrow> path \<Rightarrow> ('fd, 'w, io_error, 'fd) sys" where
  "create_granted_file plat k root rel =
     (if rel = [CurDir]
      then sys_bind (exact_file_parent plat k root) (\<lambda>(parent, name).
           sys_bind (resolve plat k (wd_root parent) name [WRONLY, O_CREATE, NOFOLLOW, NONBLOCK] 420) (\<lambda>fd.
           sys_bind (check_regular k fd) (\<lambda>file.
           sys_bind (sys_set_len k file 0) (\<lambda>_. sys_return file))))
      else sys_bind (open_root plat k root) (\<lambda>d.
           sys_bind (case path_parent rel of
               Some parent \<Rightarrow> if parent \<noteq> [] then dir_create_dir_all plat k d parent else sys_return ()
             | None \<Rightarrow> sys_return ()) (\<lambda>_.
             dir_create plat k d rel)))"

definition parent_dir_and_name ::
    "platform \<Rightarrow> ('fd, 'w) kernel \<Rightarrow> 'fd workspace_dir \<Rightarrow> path \<Rightarrow> ('fd, 'w, io_error, 'fd \<times> string) sys" where
  "parent_dir_and_name plat k d rel =
     (case path_file_name rel of
        None \<Rightarrow> sys_fail Io_Einval
      | Some name \<Rightarrow>
          (let parent = (case path_parent rel of Some p \<Rightarrow> p | None \<Rightarrow> []) in
           sys_bind (if parent = [] then sys_dup k (wd_root d)
                     else resolve plat k (wd_root d) parent [RDONLY, DIRECTORY] 0)
             (\<lambda>dir. sys_return (dir, name))))"

definition dir_unlink ::
    "platform \<Rightarrow> ('fd, 'w) kernel \<Rightarrow> 'fd workspace_dir \<Rightarrow> path \<Rightarrow> ('fd, 'w, io_error, unit) sys" where
  "dir_unlink plat k d rel =
     sys_bind (parent_dir_and_name plat k d rel) (\<lambda>(parent, name).
       sys_unlinkat k parent [Normal name])"

definition dir_rename ::
    "platform \<Rightarrow> ('fd, 'w) kernel \<Rightarrow> 'fd workspace_dir \<Rightarrow> path \<Rightarrow> path \<Rightarrow> ('fd, 'w, io_error, unit) sys" where
  "dir_rename plat k d from_path to_path =
     sys_bind (parent_dir_and_name plat k d from_path) (\<lambda>(from_dir, from_name).
     sys_bind (parent_dir_and_name plat k d to_path) (\<lambda>(to_dir, to_name).
       sys_renameat k from_dir [Normal from_name] to_dir [Normal to_name]))"

definition dir_link_new ::
    "platform \<Rightarrow> ('fd, 'w) kernel \<Rightarrow> 'fd workspace_dir \<Rightarrow> path \<Rightarrow> path \<Rightarrow> ('fd, 'w, io_error, unit) sys" where
  "dir_link_new plat k d from_path to_path =
     sys_bind (parent_dir_and_name plat k d from_path) (\<lambda>(from_dir, from_name).
     sys_bind (parent_dir_and_name plat k d to_path) (\<lambda>(to_dir, to_name).
       sys_linkat k from_dir [Normal from_name] to_dir [Normal to_name]))"

definition dir_read_dir ::
    "platform \<Rightarrow> ('fd, 'w) kernel \<Rightarrow> 'fd workspace_dir \<Rightarrow> path \<Rightarrow> ('fd, 'w, io_error, string list) sys" where
  "dir_read_dir plat k d rel =
     sys_bind (resolve plat k (wd_root d) rel [RDONLY, DIRECTORY] 0) (\<lambda>fd.
     sys_bind (sys_getdents k fd) (\<lambda>names.
       sys_return (filter (\<lambda>n. n \<noteq> ''.'' \<and> n \<noteq> ''..'') names)))"

section \<open>What a trace may hold\<close>

text \<open>One plain entry of a directory.\<close>

definition one_entry :: "path \<Rightarrow> bool" where
  "one_entry p \<longleftrightarrow> (case p of [Normal n] \<Rightarrow> proper_name n | _ \<Rightarrow> False)"

text \<open>
  A call that stays beneath the descriptors of \<open>D\<close>: it starts from one of them, and either
  asks the kernel to resolve beneath it, or names a single entry without following a link, or
  changes a single named entry, or works on the open object alone. The one other call allowed
  opens one of the ambient root directories \<open>R\<close>, for reading.
\<close>

fun beneath_call :: "path set \<Rightarrow> 'fd set \<Rightarrow> 'fd syscall \<Rightarrow> bool" where
  "beneath_call R D (Call_Open p fl m) = (p \<in> R \<and> fl = [RDONLY, DIRECTORY, CLOEXEC])"
| "beneath_call R D (Call_Openat2 fd p fl m rs) =
     (fd \<in> D \<and> BENEATH \<in> set rs \<and> NO_MAGICLINKS \<in> set rs)"
| "beneath_call R D (Call_Openat fd p fl m) =
     (fd \<in> D \<and> NOFOLLOW \<in> set fl \<and> (p = [CurDir] \<or> one_entry p))"
| "beneath_call R D (Call_Mkdirat fd p m) = (fd \<in> D \<and> one_entry p)"
| "beneath_call R D (Call_Unlinkat fd p) = (fd \<in> D \<and> one_entry p)"
| "beneath_call R D (Call_Renameat fd p fd' p') = (fd \<in> D \<and> one_entry p \<and> fd' \<in> D \<and> one_entry p')"
| "beneath_call R D (Call_Linkat fd p fd' p') = (fd \<in> D \<and> one_entry p \<and> fd' \<in> D \<and> one_entry p')"
| "beneath_call R D (Call_Dup fd) = (fd \<in> D)"
| "beneath_call R D (Call_Fstat fd) = (fd \<in> D)"
| "beneath_call R D (Call_Ftruncate fd n) = (fd \<in> D)"
| "beneath_call R D (Call_Getdents fd) = (fd \<in> D)"
| "beneath_call R D (Call_Read fd) = (fd \<in> D)"
| "beneath_call R D (Call_Write fd t) = (fd \<in> D)"

text \<open>Every call stays beneath the descriptors derived so far; what it opens is derived too.\<close>

fun beneath_trace :: "path set \<Rightarrow> 'fd set \<Rightarrow> 'fd trace \<Rightarrow> bool" where
  "beneath_trace R D [] = True"
| "beneath_trace R D ((c, r) # tr) = (beneath_call R D c \<and> beneath_trace R (D \<union> set_option r) tr)"

definition derived :: "'fd set \<Rightarrow> 'fd trace \<Rightarrow> 'fd set" where
  "derived D tr = D \<union> (\<Union>(c, r) \<in> set tr. set_option r)"

text \<open>
  The computation adds only such calls, and a value it returns satisfies \<open>Q\<close> with the
  descriptors derived by then.
\<close>

definition within :: "path set \<Rightarrow> 'fd set \<Rightarrow> ('fd, 'w, 'e, 'a) sys \<Rightarrow> ('fd set \<Rightarrow> 'a \<Rightarrow> bool) \<Rightarrow> bool" where
  "within R D m Q \<longleftrightarrow>
     (\<forall>w tr r w' tr'. m (w, tr) = (r, w', tr') \<longrightarrow>
        (\<exists>new. tr' = tr @ new \<and> beneath_trace R D new \<and> (\<forall>a. r = Inr a \<longrightarrow> Q (derived D new) a)))"

section \<open>Rules for traces\<close>

lemma beneath_call_mono: "beneath_call R D c \<Longrightarrow> D \<subseteq> D' \<Longrightarrow> beneath_call R D' c"
  by (cases c) auto

lemma beneath_trace_mono: "beneath_trace R D tr \<Longrightarrow> D \<subseteq> D' \<Longrightarrow> beneath_trace R D' tr"
proof (induction R D tr arbitrary: D' rule: beneath_trace.induct)
  case (2 R D c r tr)
  then have "D \<union> set_option r \<subseteq> D' \<union> set_option r" by blast
  with 2 show ?case using beneath_call_mono by fastforce
qed simp

lemma derived_append: "derived D (tr @ tr') = derived (derived D tr) tr'"
  by (auto simp: derived_def)

lemma derived_simps [simp]:
  "derived D [] = D"
  "derived D ((c, r) # tr) = derived (D \<union> set_option r) tr"
  by (auto simp: derived_def)

lemma derived_mono: "D \<subseteq> derived D tr"
  by (auto simp: derived_def)

lemma beneath_trace_append:
  "beneath_trace R D (tr @ tr') \<longleftrightarrow> beneath_trace R D tr \<and> beneath_trace R (derived D tr) tr'"
  by (induction R D tr rule: beneath_trace.induct) simp_all

lemma withinD:
  assumes "within R D m Q" and "m (w, tr) = (r, w', tr')"
  obtains new where "tr' = tr @ new" "beneath_trace R D new" "\<forall>a. r = Inr a \<longrightarrow> Q (derived D new) a"
  using assms unfolding within_def by metis

named_theorems within_rules

lemma within_return [within_rules]: "Q D a \<Longrightarrow> within R D (sys_return a) Q"
  by (simp add: within_def sys_return_def)

lemma within_fail [within_rules]: "within R D (sys_fail e) Q"
  by (simp add: within_def sys_fail_def)

lemma within_bind:
  assumes "within R D m P" and "\<And>D' a. D \<subseteq> D' \<Longrightarrow> P D' a \<Longrightarrow> within R D' (f a) Q"
  shows "within R D (sys_bind m f) Q"
  unfolding within_def
proof (intro allI impI)
  fix w tr r w' tr'
  assume run: "sys_bind m f (w, tr) = (r, w', tr')"
  obtain r1 w1 tr1 where m: "m (w, tr) = (r1, w1, tr1)" by (metis prod_cases3)
  from assms(1) m obtain new where new: "tr1 = tr @ new" "beneath_trace R D new"
    "\<forall>a. r1 = Inr a \<longrightarrow> P (derived D new) a"
    by (rule withinD)
  show "\<exists>new. tr' = tr @ new \<and> beneath_trace R D new \<and> (\<forall>a. r = Inr a \<longrightarrow> Q (derived D new) a)"
  proof (cases r1)
    case (Inl e)
    with run m new show ?thesis by (auto simp: sys_bind_def)
  next
    case (Inr a)
    with new(3) derived_mono [of D new] assms(2) have "within R (derived D new) (f a) Q" by blast
    moreover from run m Inr have "f a (w1, tr1) = (r, w', tr')" by (simp add: sys_bind_def)
    ultimately obtain new' where "tr' = tr1 @ new'" "beneath_trace R (derived D new) new'"
      "\<forall>b. r = Inr b \<longrightarrow> Q (derived (derived D new) new') b"
      by (rule withinD)
    with new(1,2) show ?thesis
      by (intro exI [of _ "new @ new'"]) (simp add: beneath_trace_append derived_append)
  qed
qed

lemma within_catch:
  assumes "within R D m P" and "\<And>D' e. D \<subseteq> D' \<Longrightarrow> within R D' (f (Inl e)) Q"
    and "\<And>D' a. D \<subseteq> D' \<Longrightarrow> P D' a \<Longrightarrow> within R D' (f (Inr a)) Q"
  shows "within R D (sys_catch m f) Q"
  unfolding within_def
proof (intro allI impI)
  fix w tr r w' tr'
  assume run: "sys_catch m f (w, tr) = (r, w', tr')"
  obtain r1 w1 tr1 where m: "m (w, tr) = (r1, w1, tr1)" by (metis prod_cases3)
  from assms(1) m obtain new where new: "tr1 = tr @ new" "beneath_trace R D new"
    "\<forall>a. r1 = Inr a \<longrightarrow> P (derived D new) a"
    by (rule withinD)
  have "within R (derived D new) (f r1) Q"
    using new(3) derived_mono [of D new] assms(2,3) by (cases r1) blast+
  moreover from run m have "f r1 (w1, tr1) = (r, w', tr')" by (simp add: sys_catch_def)
  ultimately obtain new' where "tr' = tr1 @ new'" "beneath_trace R (derived D new) new'"
    "\<forall>b. r = Inr b \<longrightarrow> Q (derived (derived D new) new') b"
    by (rule withinD)
  with new(1,2) show "\<exists>new. tr' = tr @ new \<and> beneath_trace R D new \<and>
      (\<forall>a. r = Inr a \<longrightarrow> Q (derived D new) a)"
    by (intro exI [of _ "new @ new'"]) (simp add: beneath_trace_append derived_append)
qed

lemma within_call_fd: "beneath_call R D c \<Longrightarrow> within R D (call_fd c f) (\<lambda>D' fd. fd \<in> D')"
  by (auto simp: within_def call_fd_def split: prod.splits sum.splits)

lemma within_call_val: "beneath_call R D c \<Longrightarrow> within R D (call_val c f) (\<lambda>D' a. True)"
  by (auto simp: within_def call_val_def split: prod.splits)

lemma within_weaken: "within R D m P \<Longrightarrow> (\<And>D' a. D \<subseteq> D' \<Longrightarrow> P D' a \<Longrightarrow> Q D' a) \<Longrightarrow> within R D m Q"
  unfolding within_def using derived_mono by meson

text \<open>A computation that returns a descriptor, or a directory handle, returns a derived one.\<close>

definition fd_in :: "'fd set \<Rightarrow> 'fd \<Rightarrow> bool" where
  "fd_in D fd \<longleftrightarrow> fd \<in> D"

definition dir_in :: "'fd set \<Rightarrow> 'fd workspace_dir \<Rightarrow> bool" where
  "dir_in D d \<longleftrightarrow> wd_root d \<in> D"

definition any_in :: "'fd set \<Rightarrow> 'a \<Rightarrow> bool" where
  "any_in D a \<longleftrightarrow> True"

lemma one_entry_Normal [simp]: "one_entry [Normal n] \<longleftrightarrow> proper_name n"
  by (simp add: one_entry_def)

lemma within_sys [within_rules]:
  "p \<in> R \<Longrightarrow> within R D (sys_open k p [RDONLY, DIRECTORY, CLOEXEC] m) fd_in"
  "fd \<in> D \<Longrightarrow> within R D (sys_openat2 k fd p fl m [BENEATH, NO_MAGICLINKS]) fd_in"
  "fd \<in> D \<Longrightarrow> NOFOLLOW \<in> set fl \<Longrightarrow> p = [CurDir] \<or> one_entry p \<Longrightarrow> within R D (sys_openat k fd p fl m) fd_in"
  "fd \<in> D \<Longrightarrow> within R D (sys_dup k fd) fd_in"
  using within_call_fd [of R D _ "k_open k p [RDONLY, DIRECTORY, CLOEXEC] m"]
    within_call_fd [of R D _ "k_openat2 k fd p fl m [BENEATH, NO_MAGICLINKS]"]
    within_call_fd [of R D _ "k_openat k fd p fl m"] within_call_fd [of R D _ "k_dup k fd"]
  unfolding sys_open_def sys_openat2_def sys_openat_def sys_dup_def fd_in_def [abs_def] by simp_all

lemma within_sys_val [within_rules]:
  "fd \<in> D \<Longrightarrow> one_entry p \<Longrightarrow> within R D (sys_mkdirat k fd p m) any_in"
  "fd \<in> D \<Longrightarrow> one_entry p \<Longrightarrow> within R D (sys_unlinkat k fd p) any_in"
  "fd \<in> D \<Longrightarrow> one_entry p \<Longrightarrow> fd' \<in> D \<Longrightarrow> one_entry p' \<Longrightarrow> within R D (sys_renameat k fd p fd' p') any_in"
  "fd \<in> D \<Longrightarrow> one_entry p \<Longrightarrow> fd' \<in> D \<Longrightarrow> one_entry p' \<Longrightarrow> within R D (sys_linkat k fd p fd' p') any_in"
  "fd \<in> D \<Longrightarrow> within R D (sys_is_file k fd) any_in"
  "fd \<in> D \<Longrightarrow> within R D (sys_set_len k fd n) any_in"
  "fd \<in> D \<Longrightarrow> within R D (sys_getdents k fd) any_in"
  "fd \<in> D \<Longrightarrow> within R D (sys_read k fd) any_in"
  "fd \<in> D \<Longrightarrow> within R D (sys_write k fd t) any_in"
  unfolding sys_mkdirat_def sys_unlinkat_def sys_renameat_def sys_linkat_def sys_is_file_def
    sys_set_len_def sys_getdents_def sys_read_def sys_write_def any_in_def [abs_def]
  by (simp_all add: within_call_val)

section \<open>Every operation stays beneath its root\<close>

lemma fd_in_iff [simp]: "fd_in D fd \<longleftrightarrow> fd \<in> D"
  by (simp add: fd_in_def)

lemma dir_in_iff [simp]: "dir_in D d \<longleftrightarrow> wd_root d \<in> D"
  by (simp add: dir_in_def)

lemma any_in [within_rules]: "any_in D a"
  by (simp add: any_in_def)

lemma mac_names_entries: "proper_path p \<Longrightarrow> mac_names p = Inr ns \<Longrightarrow> \<forall>n \<in> set ns. one_entry [n]"
  by (induction p arbitrary: ns rule: mac_names.induct) (auto split: sum.splits)

lemma mac_walk_within:
  "dir \<in> D \<Longrightarrow> \<forall>n \<in> set ns. one_entry [n] \<Longrightarrow> within R D (mac_walk k dir ns) fd_in"
proof (induction ns arbitrary: D dir)
  case Nil
  then show ?case by (simp add: within_return)
next
  case (Cons n ns)
  then show ?case by (auto intro!: within_bind [where P = fd_in] within_sys)
qed

lemma resolve_within [within_rules]:
  assumes "root \<in> D" "proper_path rel"
  shows "within R D (resolve plat k root rel fl m) fd_in"
proof (cases plat)
  case Linux
  with assms(1) show ?thesis by (simp add: resolve_def within_sys)
next
  case (MacOS table)
  have "within R D' (case mac_names rel of Inl e \<Rightarrow> sys_fail e
      | Inr names \<Rightarrow> if names = [] then sys_openat k dir [CurDir] (fl @ [CLOEXEC, NOFOLLOW]) m
          else sys_bind (mac_walk k dir (butlast names)) (\<lambda>d.
            sys_openat k d [last names] (fl @ [CLOEXEC, NOFOLLOW]) m)) fd_in"
    if "dir \<in> D'" for D' dir
  proof (cases "mac_names rel")
    case (Inr names)
    with mac_names_entries [OF assms(2)] have "\<forall>n \<in> set names. one_entry [n]" by blast
    with that Inr show ?thesis
      by (cases "names = []") (auto intro!: within_bind [where P = fd_in] within_sys mac_walk_within
          dest: in_set_butlastD)
  qed (simp add: within_fail)
  with MacOS assms(1) show ?thesis
    by (auto simp: resolve_def intro!: within_bind [where P = fd_in] within_sys)
qed

lemma handle_within [within_rules]: "fd \<in> D \<Longrightarrow> within R D (handle fd) dir_in"
  by (simp add: handle_def within_return)

lemma check_regular_within [within_rules]: "fd \<in> D \<Longrightarrow> within R D (check_regular k fd) fd_in"
  unfolding check_regular_def
  by (rule within_bind [where P = any_in]) (auto intro!: within_rules)

lemma dir_opens_within [within_rules]:
  assumes "wd_root d \<in> D" "proper_path rel"
  shows "within R D (dir_open_dir plat k d rel) dir_in"
    "within R D (dir_open plat k d rel) fd_in"
    "within R D (dir_open_regular plat k d rel nofollow) fd_in"
    "within R D (dir_append_regular plat k d rel) fd_in"
    "within R D (dir_create plat k d rel) fd_in"
    "within R D (dir_create_new plat k d rel) fd_in"
  unfolding dir_open_dir_def dir_open_def dir_open_regular_def dir_append_regular_def
    dir_create_def dir_create_new_def
  using assms by (auto intro!: within_bind [where P = fd_in] within_rules)

lemma open_step_within:
  "cur \<in> D \<Longrightarrow> proper_path step \<Longrightarrow> within R D (open_step plat k cur step) fd_in"
  unfolding open_step_def by (auto intro!: within_bind [where P = fd_in] within_rules)

lemma create_walk_within:
  "cur \<in> D \<Longrightarrow> proper_path p \<Longrightarrow> within R D (create_walk plat k cur p) any_in"
proof (induction p arbitrary: D cur)
  case Nil
  then show ?case by (simp add: within_rules)
next
  case (Cons c cs)
  show ?case
  proof (cases c)
    case (Normal n)
    with Cons.prems have n: "one_entry [Normal n]" "proper_path [Normal n]" "proper_path cs"
      by simp_all
    have made: "within R D' (sys_bind (sys_mkdirat k cur [Normal n] 493) (\<lambda>_.
        sys_bind (open_step plat k cur [Normal n]) (\<lambda>child. create_walk plat k child cs))) any_in"
      if "cur \<in> D'" for D'
      using that n Cons.IH
      by (auto intro!: within_bind [where P = any_in] within_bind [where P = fd_in]
          within_sys_val open_step_within)
    have "within R D' (sys_catch (resolve plat k d [Normal n] [RDONLY, DIRECTORY, CLOEXEC] 0) (\<lambda>r.
        case r of Inr child \<Rightarrow> create_walk plat k child cs
        | Inl e \<Rightarrow> if e = Io_NotFound
            then sys_bind (sys_mkdirat k cur [Normal n] 493) (\<lambda>_.
              sys_bind (open_step plat k cur [Normal n]) (\<lambda>child. create_walk plat k child cs))
            else sys_fail e)) any_in" if D': "D \<subseteq> D'" "fd_in D' d" for D' d
    proof (rule within_catch [where P = fd_in])
      show "within R D' (resolve plat k d [Normal n] [RDONLY, DIRECTORY, CLOEXEC] 0) fd_in"
        using D'(2) n(2) by (intro resolve_within) simp
      fix D'' and e assume "D' \<subseteq> D''"
      with Cons.prems(1) D'(1) made [of D''] show "within R D'' (case Inl e of
          Inr child \<Rightarrow> create_walk plat k child cs
        | Inl e \<Rightarrow> if e = Io_NotFound
            then sys_bind (sys_mkdirat k cur [Normal n] 493) (\<lambda>_.
              sys_bind (open_step plat k cur [Normal n]) (\<lambda>child. create_walk plat k child cs))
            else sys_fail e) any_in"
        by (auto simp: within_fail)
    qed (use Cons.IH n(3) in simp)
    with Cons.prems(1) have "within R D (create_walk plat k cur (Normal n # cs)) any_in"
      unfolding create_walk.simps by (intro within_bind [where P = fd_in, OF within_sys(4)]) auto
    with Normal show ?thesis by simp
  qed (use Cons in \<open>simp_all add: within_fail\<close>)
qed

lemma dir_create_dir_all_within [within_rules]:
  "wd_root d \<in> D \<Longrightarrow> proper_path rel \<Longrightarrow> within R D (dir_create_dir_all plat k d rel) any_in"
  unfolding dir_create_dir_all_def
  by (auto intro!: within_bind [where P = fd_in] within_sys create_walk_within)

text \<open>A directory and the name of one of its entries.\<close>

definition entry_in :: "'fd set \<Rightarrow> 'fd \<times> string \<Rightarrow> bool" where
  "entry_in D e \<longleftrightarrow> fst e \<in> D \<and> proper_name (snd e)"

lemma parent_dir_within:
  assumes "wd_root d \<in> D" "proper_path rel"
  shows "within R D (parent_dir_and_name plat k d rel) entry_in"
proof (cases "path_file_name rel")
  case None
  then show ?thesis by (simp add: parent_dir_and_name_def within_fail)
next
  case (Some name)
  let ?parent = "case path_parent rel of Some p \<Rightarrow> p | None \<Rightarrow> []"
  have "proper_path ?parent" using assms(2) proper_path_parent by (auto split: option.split)
  moreover have "proper_name name" using assms(2) Some by (rule proper_file_name)
  ultimately show ?thesis
    using assms(1) Some
    by (auto simp: parent_dir_and_name_def Let_def entry_in_def
        intro!: within_bind [where P = fd_in] within_rules)
qed

lemma dir_changes_within [within_rules]:
  assumes "wd_root d \<in> D" "proper_path rel" "proper_path rel'"
  shows "within R D (dir_unlink plat k d rel) any_in"
    "within R D (dir_rename plat k d rel rel') any_in"
    "within R D (dir_link_new plat k d rel rel') any_in"
proof -
  note parent = parent_dir_within [OF _ assms(2)] parent_dir_within [OF _ assms(3)]
  show "within R D (dir_unlink plat k d rel) any_in"
    unfolding dir_unlink_def
    using assms(1) by (auto intro!: within_bind [where P = entry_in] parent within_sys_val
        simp: entry_in_def)
  have one: "within R D'' (sys_renameat k (fst e) [Normal (snd e)] (fst e') [Normal (snd e')]) any_in"
    "within R D'' (sys_linkat k (fst e) [Normal (snd e)] (fst e') [Normal (snd e')]) any_in"
    if "entry_in D' e" "D' \<subseteq> D''" "entry_in D'' e'" for D' D'' and e e' :: "'a \<times> string"
    using that by (auto simp: entry_in_def intro!: within_sys_val)
  show "within R D (dir_rename plat k d rel rel') any_in"
    "within R D (dir_link_new plat k d rel rel') any_in"
    unfolding dir_rename_def dir_link_new_def
    using assms(1) one
    by (auto simp: case_prod_unfold intro!: within_bind [where P = entry_in] parent)
qed

lemma dir_read_dir_within [within_rules]:
  assumes "wd_root d \<in> D" "proper_path rel"
  shows "within R D (dir_read_dir plat k d rel) any_in"
  unfolding dir_read_dir_def
  using assms by (intro within_bind [where P = fd_in] within_rules)
    (auto intro!: within_bind [where P = any_in] within_rules)

lemma proper_norm_step:
  "proper_path out \<Longrightarrow> proper_component c \<Longrightarrow> proper_path (norm_step out c)"
  by (cases c) (auto simp: path_push_def dest: proper_path_parent split: option.split)

lemma proper_normalize: "proper_path (lexically_normalize table s)"
proof -
  have "proper_path (foldl norm_step out cs)" if "proper_path out" "proper_path cs" for out cs
    using that by (induction cs arbitrary: out) (simp_all add: proper_norm_step)
  then show ?thesis by (simp add: lexically_normalize_def norm_path_def)
qed

text \<open>The one path that opening a root hands to the kernel with the caller's own authority.\<close>

definition ambient_path :: "platform \<Rightarrow> string \<Rightarrow> path" where
  "ambient_path plat path =
     (case plat of
        Linux \<Rightarrow> path_components path
      | MacOS table \<Rightarrow>
          if path_is_absolute (lexically_normalize table path) then [RootDir] else [CurDir])"

lemma proper_path_tl: "proper_path p \<Longrightarrow> proper_path (tl p)"
  by (cases p) simp_all

lemma open_root_within [within_rules]:
  assumes "ambient_path plat path \<in> R"
  shows "within R D (open_root plat k path) dir_in"
proof (cases plat)
  case Linux
  with assms show ?thesis
    by (auto simp: open_root_def ambient_path_def intro!: within_bind [where P = fd_in] within_rules)
next
  case (MacOS table)
  with assms proper_normalize [of table path] show ?thesis
    by (auto simp: open_root_def ambient_path_def Let_def proper_path_tl
        intro!: within_bind [where P = fd_in] within_rules)
qed

lemma from_granted_root_within: "fd \<in> D \<Longrightarrow> within R D (from_granted_root k fd) dir_in"
  unfolding from_granted_root_def by (auto intro!: within_bind [where P = fd_in] within_rules)

text \<open>The directory that holds a granted file.\<close>

definition granted_parent :: "string \<Rightarrow> string" where
  "granted_parent file =
     (case path_parent (path_components file) of
        None \<Rightarrow> ''.'' | Some p \<Rightarrow> if p = [] then ''.'' else path_text p)"

definition held_in :: "'fd set \<Rightarrow> 'fd workspace_dir \<times> path \<Rightarrow> bool" where
  "held_in D h \<longleftrightarrow> wd_root (fst h) \<in> D \<and> proper_path (snd h)"

lemma granted_files_within:
  assumes "ambient_path plat (if rel = [CurDir] then granted_parent root else root) \<in> R"
    and "proper_path rel"
  shows "within R D (open_granted_file plat k root rel nofollow) fd_in"
    "within R D (create_granted_file plat k root rel) fd_in"
proof -
  have parent: "within R D (exact_file_parent plat k root) held_in" if "rel = [CurDir]"
    using assms(1) that
    unfolding exact_file_parent_def granted_parent_def [symmetric] Let_def
    by (cases "path_file_name (path_components root)")
      (auto simp: held_in_def within_fail dest: proper_file_name [OF proper_path_components]
        intro!: within_bind [where P = dir_in] within_rules)
  have made: "within R D' (case path_parent rel of
      Some parent \<Rightarrow> if parent \<noteq> [] then dir_create_dir_all plat k d parent else sys_return ()
    | None \<Rightarrow> sys_return ()) any_in" if "wd_root d \<in> D'" for D' d
    using that proper_path_parent [OF assms(2)]
    by (auto split: option.split intro!: within_rules)
  show "within R D (open_granted_file plat k root rel nofollow) fd_in"
    using assms parent
    by (auto simp: open_granted_file_def held_in_def
        intro!: within_bind [where P = held_in] within_bind [where P = dir_in] within_rules)
  show "within R D (create_granted_file plat k root rel) fd_in"
  proof (cases "rel = [CurDir]")
    case True
    have cut: "within R D' (sys_bind (sys_set_len k file 0) (\<lambda>_. sys_return file)) fd_in"
      if "file \<in> D'" for D' and "file"
      using that by (auto intro!: within_bind [where P = any_in] within_rules)
    then have checked: "within R D' (sys_bind (check_regular k fd) (\<lambda>file.
        sys_bind (sys_set_len k file 0) (\<lambda>_. sys_return file))) fd_in" if "fd \<in> D'" for D' fd
      using that by (auto intro!: within_bind [where P = fd_in] within_rules)
    have "within R D' (sys_bind (resolve plat k (wd_root (fst h)) (snd h)
          [WRONLY, O_CREATE, NOFOLLOW, NONBLOCK] 420) (\<lambda>fd. sys_bind (check_regular k fd) (\<lambda>file.
        sys_bind (sys_set_len k file 0) (\<lambda>_. sys_return file)))) fd_in" if "held_in D' h" for D' h
      using that cut
      by (auto simp: held_in_def intro!: within_bind [where P = fd_in] within_rules)
    with True show ?thesis
      by (auto simp: create_granted_file_def case_prod_unfold intro!: within_bind [OF parent [OF True]])
  next
    case False
    have "within R D' (sys_bind (case path_parent rel of
        Some parent \<Rightarrow> if parent \<noteq> [] then dir_create_dir_all plat k d parent else sys_return ()
      | None \<Rightarrow> sys_return ()) (\<lambda>_. dir_create plat k d rel)) fd_in" if "dir_in D' d" for D' d
      using that assms(2)
      by (intro within_bind [where P = any_in, OF made]) (auto intro!: within_rules)
    with False assms(1) show ?thesis
      by (auto simp: create_granted_file_def intro!: within_bind [where P = dir_in, OF open_root_within])
  qed
qed

section \<open>Properties\<close>



end
