(* ===== verification/PatchFiles.thy ===== *)
theory PatchFiles
  imports PatchParse FsCap
begin

text \<open>
  The file level of \<^verbatim>\<open>newt-tools/src/patch.rs\<close>, as compiled for Linux: the workspace
  check, reading and writing beneath the workspace root, the two applier backends behind
  their trait, and the writer of whole files. The crate diffy is a pair of parameters.
\<close>

section \<open>Reading and writing beneath the workspace\<close>

definition is_workspace_contained :: "path \<Rightarrow> bool" where
  "is_workspace_contained rel \<longleftrightarrow>
     list_all (\<lambda>c. case c of Normal _ \<Rightarrow> True | CurDir \<Rightarrow> True | _ \<Rightarrow> False) rel"

definition sibling_tmp :: "path \<Rightarrow> path" where
  "sibling_tmp rel =
     (let name = (case path_file_name rel of Some n \<Rightarrow> n | None \<Rightarrow> ''newt'') @ ''.newt-tmp'' in
      case path_parent rel of
        Some p \<Rightarrow> if p \<noteq> [] then p @ [Normal name] else [Normal name]
      | None \<Rightarrow> [Normal name])"

definition write_contained ::
    "('fd, 'w) kernel \<Rightarrow> string \<Rightarrow> string \<Rightarrow> string \<Rightarrow> ('fd, 'w, io_error, unit) sys" where
  "write_contained k workspace rel content =
     (let rel_path = path_components rel; tmp_rel = sibling_tmp rel_path in
      sys_bind (open_root Linux k workspace) (\<lambda>dir.
      sys_bind (case path_parent rel_path of
          Some parent \<Rightarrow> if parent \<noteq> [] then dir_create_dir_all Linux k dir parent else sys_return ()
        | None \<Rightarrow> sys_return ()) (\<lambda>_.
      sys_bind (dir_create Linux k dir tmp_rel) (\<lambda>f.
      sys_bind (sys_write k f content) (\<lambda>_.
        dir_rename Linux k dir tmp_rel rel_path)))))"

definition read_contained_opt ::
    "('fd, 'w) kernel \<Rightarrow> string \<Rightarrow> string \<Rightarrow> ('fd, 'w, io_error, string option) sys" where
  "read_contained_opt k workspace rel =
     sys_bind (open_root Linux k workspace) (\<lambda>dir.
       sys_catch (dir_open Linux k dir (path_components rel)) (\<lambda>r.
         case r of
           Inr f \<Rightarrow> sys_bind (sys_read k f) (\<lambda>s. sys_return (Some s))
         | Inl e \<Rightarrow> if e = Io_NotFound then sys_return None else sys_fail e))"

definition sys_map_err :: "('e \<Rightarrow> 'e2) \<Rightarrow> ('fd, 'w, 'e, 'a) sys \<Rightarrow> ('fd, 'w, 'e2, 'a) sys" where
  "sys_map_err g m =
     sys_catch m (\<lambda>r. case r of Inl e \<Rightarrow> sys_fail (g e) | Inr a \<Rightarrow> sys_return a)"

definition sys_of :: "'e + 'a \<Rightarrow> ('fd, 'w, 'e, 'a) sys" where
  "sys_of r = (case r of Inl e \<Rightarrow> sys_fail e | Inr a \<Rightarrow> sys_return a)"

section \<open>The backends\<close>

text \<open>One file's part of the validation loop: the check, the read and the patched text.\<close>

definition read_original ::
    "('fd, 'w) kernel \<Rightarrow> string \<Rightarrow> string \<Rightarrow> ('fd, 'w, io_error patch_error, string) sys" where
  "read_original k root rel =
     (if \<not> is_workspace_contained (path_components rel) then sys_fail (PatchError_Escapes rel)
      else sys_bind (sys_map_err PatchError_Read (read_contained_opt k root rel)) (\<lambda>original.
        sys_return (case original of Some s \<Rightarrow> s | None \<Rightarrow> [])))"

fun validate_patches ::
    "('fd, 'w) kernel \<Rightarrow> string \<Rightarrow> file_patch list \<Rightarrow>
      ('fd, 'w, io_error patch_error, (string \<times> string) list) sys" where
  "validate_patches k root [] = sys_return []"
| "validate_patches k root (p # ps) =
     sys_bind (read_original k root (fp_path p)) (\<lambda>original.
     sys_bind (sys_of (apply_hunks original (fp_hunks p))) (\<lambda>result.
     sys_bind (validate_patches k root ps) (\<lambda>results.
       sys_return ((fp_path p, result) # results))))"

fun write_results ::
    "('fd, 'w) kernel \<Rightarrow> string \<Rightarrow> (string \<times> string) list \<Rightarrow>
      ('fd, 'w, io_error patch_error, unit) sys" where
  "write_results k root [] = sys_return ()"
| "write_results k root ((rel, content) # results) =
     sys_bind (sys_map_err PatchError_Write (write_contained k root rel content)) (\<lambda>_.
       write_results k root results)"

definition fuzzy_apply_patch ::
    "('fd, 'w) kernel \<Rightarrow> string \<Rightarrow> string \<Rightarrow> ('fd, 'w, io_error patch_error, unit) sys" where
  "fuzzy_apply_patch k root diff =
     sys_bind (sys_of (parse_unified_diff diff)) (\<lambda>patches.
       if patches = [] then sys_fail PatchError_NoPatches
       else sys_bind (validate_patches k root patches) (write_results k root))"

text \<open>The parser and the applier of the crate diffy, over its own patch type.\<close>

record 'p diffy =
  diffy_parse :: "string \<Rightarrow> string + 'p"
  diffy_apply :: "string \<Rightarrow> 'p \<Rightarrow> string + string"

fun validate_sections ::
    "'p diffy \<Rightarrow> ('fd, 'w) kernel \<Rightarrow> string \<Rightarrow> string list \<Rightarrow>
      ('fd, 'w, io_error patch_error, (string \<times> string) list) sys" where
  "validate_sections df k root [] = sys_return []"
| "validate_sections df k root (s # ss) =
     sys_bind (sys_of (map_err PatchError_Backend (diffy_parse df s))) (\<lambda>patch.
     sys_bind (sys_of (ok_or (PatchError_Backend ''diffy section missing +++ header'')
         (List.find (prefix ''+++ '') (str_lines s)))) (\<lambda>plus.
     sys_bind (sys_of (extract_path plus)) (\<lambda>rel.
     sys_bind (read_original k root rel) (\<lambda>original.
     sys_bind (sys_of (map_err PatchError_Backend (diffy_apply df original patch))) (\<lambda>patched.
     sys_bind (validate_sections df k root ss) (\<lambda>results.
       sys_return ((rel, patched) # results)))))))"

definition diffy_apply_patch ::
    "'p diffy \<Rightarrow> ('fd, 'w) kernel \<Rightarrow> string \<Rightarrow> string \<Rightarrow>
      ('fd, 'w, io_error patch_error, unit) sys" where
  "diffy_apply_patch df k root diff =
     (let sections = split_file_sections diff in
      if sections = [] then sys_fail PatchError_NoPatches
      else sys_bind (validate_sections df k root sections) (write_results k root))"

datatype applier = FuzzyApplier | DiffyApplier

text \<open>The feature \<^verbatim>\<open>applier-diffy\<close> is the flag.\<close>

definition diffy_applier :: "bool \<Rightarrow> applier" where
  "diffy_applier feature = (if feature then DiffyApplier else FuzzyApplier)"

definition applier_from_env :: "bool \<Rightarrow> string option \<Rightarrow> applier" where
  "applier_from_env feature var =
     (case var of
        Some v \<Rightarrow> if v = ''diffy'' then diffy_applier feature else FuzzyApplier
      | None \<Rightarrow> FuzzyApplier)"

definition applier_apply ::
    "'p diffy \<Rightarrow> ('fd, 'w) kernel \<Rightarrow> applier \<Rightarrow> string \<Rightarrow> string \<Rightarrow>
      ('fd, 'w, io_error patch_error, unit) sys" where
  "applier_apply df k a root diff =
     (case a of FuzzyApplier \<Rightarrow> fuzzy_apply_patch k root diff
      | DiffyApplier \<Rightarrow> diffy_apply_patch df k root diff)"

definition applier_name :: "applier \<Rightarrow> string" where
  "applier_name a = (case a of FuzzyApplier \<Rightarrow> ''fuzzy'' | DiffyApplier \<Rightarrow> ''diffy'')"

definition apply_patch ::
    "'p diffy \<Rightarrow> ('fd, 'w) kernel \<Rightarrow> bool \<Rightarrow> string option \<Rightarrow> string \<Rightarrow> string \<Rightarrow>
      ('fd, 'w, io_error patch_error, unit) sys" where
  "apply_patch df k feature var root diff =
     applier_apply df k (applier_from_env feature var) root diff"

fun apply_whole_files ::
    "('fd, 'w) kernel \<Rightarrow> string \<Rightarrow> (string \<times> string) list \<Rightarrow>
      ('fd, 'w, io_error patch_error, string list) sys" where
  "apply_whole_files k workspace [] = sys_return []"
| "apply_whole_files k workspace ((rel, contents) # files) =
     (if \<not> is_workspace_contained (path_components rel) then sys_fail (PatchError_Escapes rel)
      else sys_bind (sys_map_err PatchError_Write (write_contained k workspace rel contents)) (\<lambda>_.
        sys_bind (apply_whole_files k workspace files) (\<lambda>written.
          sys_return (rel # written))))"

section \<open>Calls that only read\<close>

fun read_call :: "'fd syscall \<Rightarrow> bool" where
  "read_call (Call_Open p fl m) = (set fl \<subseteq> {RDONLY, DIRECTORY, CLOEXEC})"
| "read_call (Call_Openat2 fd p fl m rs) = (set fl \<subseteq> {RDONLY, DIRECTORY, CLOEXEC})"
| "read_call (Call_Read fd) = True"
| "read_call c = False"

definition only_reads :: "'fd trace \<Rightarrow> bool" where
  "only_reads tr \<longleftrightarrow> list_all (\<lambda>(c, _). read_call c) tr"

definition quiet :: "('fd, 'w, 'e, 'a) sys \<Rightarrow> bool" where
  "quiet m \<longleftrightarrow>
     (\<forall>w tr r w' tr'. m (w, tr) = (r, w', tr') \<longrightarrow> (\<exists>new. tr' = tr @ new \<and> only_reads new))"

lemma only_reads_append [simp]: "only_reads (a @ b) \<longleftrightarrow> only_reads a \<and> only_reads b"
  by (simp add: only_reads_def)

lemma quietD:
  assumes "quiet m" and "m (w, tr) = (r, w', tr')"
  obtains new where "tr' = tr @ new" "only_reads new"
  using assms unfolding quiet_def by metis

named_theorems quiet_rules

lemma quiet_pure [quiet_rules]: "quiet (sys_return a)" "quiet (sys_fail e)" "quiet (sys_of r)"
  by (auto simp: quiet_def sys_return_def sys_fail_def sys_of_def only_reads_def split: sum.splits)

lemma quiet_catch [quiet_rules]:
  assumes "quiet m" and "\<And>r. quiet (f r)"
  shows "quiet (sys_catch m f)"
  unfolding quiet_def
proof (intro allI impI)
  fix w tr r w' tr'
  assume run: "sys_catch m f (w, tr) = (r, w', tr')"
  obtain r1 w1 tr1 where m: "m (w, tr) = (r1, w1, tr1)" by (metis prod_cases3)
  from assms(1) m obtain a where a: "tr1 = tr @ a" "only_reads a" by (rule quietD)
  from run m have "f r1 (w1, tr1) = (r, w', tr')" by (simp add: sys_catch_def)
  with assms(2) obtain b where "tr' = tr1 @ b" "only_reads b" by (rule quietD)
  with a show "\<exists>new. tr' = tr @ new \<and> only_reads new" by auto
qed

lemma sys_bind_catch:
  "sys_bind m f = sys_catch m (\<lambda>r. case r of Inl e \<Rightarrow> sys_fail e | Inr a \<Rightarrow> f a)"
  by (auto simp: fun_eq_iff sys_bind_def sys_catch_def sys_fail_def split: prod.split sum.split)

lemma quiet_bind [quiet_rules]: "quiet m \<Longrightarrow> (\<And>a. quiet (f a)) \<Longrightarrow> quiet (sys_bind m f)"
  unfolding sys_bind_catch by (intro quiet_catch) (auto intro: quiet_pure split: sum.split)

lemma quiet_map_err [quiet_rules]: "quiet m \<Longrightarrow> quiet (sys_map_err g m)"
  unfolding sys_map_err_def by (intro quiet_catch) (auto intro: quiet_pure split: sum.split)

lemma quiet_calls:
  "read_call c \<Longrightarrow> quiet (call_fd c f)" "read_call c \<Longrightarrow> quiet (call_val c g)"
  by (auto simp: quiet_def call_fd_def call_val_def only_reads_def split: prod.splits sum.splits)

lemma quiet_read [quiet_rules]: "quiet (read_contained_opt k root rel)"
  unfolding read_contained_opt_def open_root_def dir_open_def resolve_def handle_def sys_open_def
    sys_openat2_def sys_read_def
  by (auto intro!: quiet_rules quiet_calls split: sum.split)

lemma quiet_original [quiet_rules]: "quiet (read_original k root rel)"
  unfolding read_original_def by (auto intro!: quiet_rules)

lemma quiet_validate [quiet_rules]: "quiet (validate_patches k root ps)"
  by (induction ps) (auto intro!: quiet_rules)

lemma quiet_sections [quiet_rules]: "quiet (validate_sections df k root ss)"
  by (induction ss) (auto intro!: quiet_rules)

section \<open>Staying beneath the workspace\<close>

lemma within_map_err [within_rules]: "within R D m Q \<Longrightarrow> within R D (sys_map_err g m) Q"
  unfolding sys_map_err_def by (rule within_catch [where P = Q]) (auto intro: within_rules)

lemma within_of [within_rules]: "within R D (sys_of r) any_in"
  by (auto simp: sys_of_def intro: within_rules split: sum.split)

lemma proper_sibling: "proper_path rel \<Longrightarrow> proper_path (sibling_tmp rel)"
proof -
  assume rel: "proper_path rel"
  have tmp: "proper_name (n @ ''.newt-tmp'')" if "CHR ''/'' \<notin> set n" for n
    using that by (auto simp: proper_name_def append_eq_Cons_conv)
  have name: "CHR ''/'' \<notin> set n" if "path_file_name rel = Some n" for n
    using proper_file_name [OF rel that] by (simp add: proper_name_def)
  have "proper_name ((case path_file_name rel of Some n \<Rightarrow> n | None \<Rightarrow> ''newt'') @ ''.newt-tmp'')"
    using tmp name by (auto split: option.split)
  then show ?thesis
    using proper_path_parent [OF rel] by (simp add: sibling_tmp_def Let_def split: option.split)
qed

lemma ambient_Linux [simp]: "ambient_path Linux root = path_components root"
  by (simp add: ambient_path_def)

lemma within_write [within_rules]:
  "path_components root \<in> R \<Longrightarrow> within R D (write_contained k root rel content) any_in"
proof -
  assume root: "path_components root \<in> R"
  note tmp = proper_sibling [OF proper_path_components [of rel]]
  have made: "within R D' (case path_parent (path_components rel) of
      Some parent \<Rightarrow> if parent \<noteq> [] then dir_create_dir_all Linux k d parent else sys_return ()
    | None \<Rightarrow> sys_return ()) any_in" if "wd_root d \<in> D'" for D' d
    using that proper_path_parent [OF proper_path_components [of rel]]
    by (auto split: option.split intro!: within_rules)
  have put: "within R D' (sys_bind (sys_write k f content) (\<lambda>_.
      dir_rename Linux k d (sibling_tmp (path_components rel)) (path_components rel))) any_in"
    if "wd_root d \<in> D'" "f \<in> D'" for D' d f
    using that tmp by (intro within_bind [where P = any_in, OF within_sys_val(9)]) (auto intro!: within_rules)
  have create: "within R D' (sys_bind (dir_create Linux k d (sibling_tmp (path_components rel))) (\<lambda>f.
      sys_bind (sys_write k f content) (\<lambda>_.
        dir_rename Linux k d (sibling_tmp (path_components rel)) (path_components rel)))) any_in"
    if "wd_root d \<in> D'" for D' d
    using that tmp put by (intro within_bind [where P = fd_in, OF dir_opens_within(5)]) auto
  show ?thesis
    unfolding write_contained_def Let_def
  proof (rule within_bind [where P = dir_in])
    show "within R D (open_root Linux k root) dir_in" using root by (intro within_rules) simp
    fix D' and d :: "'a workspace_dir"
    assume "dir_in D' d"
    with made create show "within R D' (sys_bind (case path_parent (path_components rel) of
        Some parent \<Rightarrow> if parent \<noteq> [] then dir_create_dir_all Linux k d parent else sys_return ()
      | None \<Rightarrow> sys_return ()) (\<lambda>_.
        sys_bind (dir_create Linux k d (sibling_tmp (path_components rel))) (\<lambda>f.
        sys_bind (sys_write k f content) (\<lambda>_.
          dir_rename Linux k d (sibling_tmp (path_components rel)) (path_components rel))))) any_in"
      by (intro within_bind [OF made]) auto
  qed
qed

lemma within_any: "within R D m Q \<Longrightarrow> within R D m any_in"
  by (rule within_weaken) (simp_all add: any_in_def)

lemma within_read [within_rules]:
  assumes "path_components root \<in> R"
  shows "within R D (read_contained_opt k root rel) any_in"
  unfolding read_contained_opt_def
proof (rule within_bind [where P = dir_in])
  show "within R D (open_root Linux k root) dir_in" using assms by (intro within_rules) simp
  fix D' and d :: "'a workspace_dir"
  assume d: "dir_in D' d"
  show "within R D' (sys_catch (dir_open Linux k d (path_components rel)) (\<lambda>r. case r of
      Inr f \<Rightarrow> sys_bind (sys_read k f) (\<lambda>s. sys_return (Some s))
    | Inl e \<Rightarrow> if e = Io_NotFound then sys_return None else sys_fail e)) any_in"
    using d by (intro within_catch [where P = fd_in])
      (auto intro!: within_bind [where P = any_in] within_rules)
qed

lemma within_original [within_rules]:
  "path_components root \<in> R \<Longrightarrow> within R D (read_original k root rel) any_in"
  unfolding read_original_def by (auto intro!: within_bind [where P = any_in] within_rules)

lemma within_validate [within_rules]:
  "path_components root \<in> R \<Longrightarrow> within R D (validate_patches k root ps) any_in"
  by (induction ps arbitrary: D) (auto intro!: within_bind [where P = any_in] within_rules)

lemma within_sections [within_rules]:
  "path_components root \<in> R \<Longrightarrow> within R D (validate_sections df k root ss) any_in"
  by (induction ss arbitrary: D) (auto intro!: within_bind [where P = any_in] within_rules)

lemma within_results [within_rules]:
  "path_components root \<in> R \<Longrightarrow> within R D (write_results k root results) any_in"
  by (induction results arbitrary: D) (auto intro!: within_bind [where P = any_in] within_rules)

section \<open>The contract of an applier\<close>

text \<open>An error that says a write failed.\<close>

fun write_error :: "'io patch_error \<Rightarrow> bool" where
  "write_error (PatchError_Write e) = True"
| "write_error e = False"

lemma write_results_errors: "write_results k root results s = (Inl e, s') \<Longrightarrow> write_error e"
proof (induction results arbitrary: s)
  case Nil
  then show ?case by (simp add: sys_return_def)
next
  case (Cons r results)
  obtain rel content where r: "r = (rel, content)" by fastforce
  show ?case
  proof (cases "fst (write_contained k root rel content s)")
    case (Inl io)
    with Cons.prems r show ?thesis
      by (auto simp: sys_bind_def sys_map_err_def sys_catch_def sys_fail_def split: prod.splits)
  next
    case (Inr u)
    with Cons.prems r have "\<exists>s1. write_results k root results s1 = (Inl e, s')"
      by (auto simp: sys_bind_def sys_map_err_def sys_catch_def sys_return_def split: prod.splits) blast
    then show ?thesis using Cons.IH by blast
  qed
qed

text \<open>
  What both backends promise the callers of the trait: nothing outside the workspace root is
  reached, and a patch that is refused for any reason other than a failed write has only been
  read for.
\<close>

locale patch_applier =
  fixes run :: "string \<Rightarrow> string \<Rightarrow> ('fd, 'w, io_error patch_error, unit) sys"
  assumes confined: "within {path_components root} {} (run root diff) any_in"
    and refused_early: "run root diff (w, tr) = (Inl e, w', tr') \<Longrightarrow> \<not> write_error e \<Longrightarrow>
      \<exists>new. tr' = tr @ new \<and> only_reads new"
begin

lemma refusal_reads_beneath:
  assumes "run root diff (w, tr) = (Inl e, w', tr')" "\<not> write_error e"
  shows "\<exists>new. tr' = tr @ new \<and> only_reads new \<and> beneath_trace {path_components root} {} new"
proof -
  from refused_early [OF assms] obtain new where "tr' = tr @ new" "only_reads new" by blast
  moreover from confined assms(1) obtain new' where "tr' = tr @ new'"
    "beneath_trace {path_components root} {} new'"
    by (rule withinD)
  ultimately show ?thesis by auto
qed

text \<open>Whatever happened, each name the run changed is one entry of a directory it derived.\<close>

lemma reaches_only_the_root:
  assumes "run root diff (w, tr) = (r, w', tr')"
  shows "\<exists>new. tr' = tr @ new \<and> beneath_trace {path_components root} {} new"
  using confined assms by (rule withinD) blast

end

lemma late_writes:
  assumes "quiet m" and "\<And>a s e s'. f a s = (Inl e, s') \<Longrightarrow> write_error e"
    and "sys_bind m f (w, tr) = (Inl e, w', tr')" and "\<not> write_error e"
  shows "\<exists>new. tr' = tr @ new \<and> only_reads new"
proof -
  obtain r1 w1 tr1 where m: "m (w, tr) = (r1, w1, tr1)" by (metis prod_cases3)
  from assms(1) m obtain a where a: "tr1 = tr @ a" "only_reads a" by (rule quietD)
  show ?thesis
  proof (cases r1)
    case (Inl e1)
    with assms(3) m a show ?thesis by (auto simp: sys_bind_def)
  next
    case (Inr x)
    with assms(3) m have "f x (w1, tr1) = (Inl e, w', tr')" by (simp add: sys_bind_def)
    with assms(2,4) show ?thesis by blast
  qed
qed

lemma sys_bind_assoc: "sys_bind (sys_bind m f) g = sys_bind m (\<lambda>a. sys_bind (f a) g)"
  by (auto simp: fun_eq_iff sys_bind_def split: prod.split sum.split)

lemma sys_bind_fail: "sys_bind (sys_fail e) f = sys_fail e"
  by (simp add: fun_eq_iff sys_bind_def sys_fail_def)

lemma fuzzy_phases:
  "fuzzy_apply_patch k root diff =
     sys_bind (sys_bind (sys_of (parse_unified_diff diff)) (\<lambda>ps.
         if ps = [] then sys_fail PatchError_NoPatches else validate_patches k root ps))
       (write_results k root)"
  unfolding fuzzy_apply_patch_def sys_bind_assoc
  by (rule arg_cong [where f = "sys_bind _"]) (auto simp: sys_bind_fail)

lemma diffy_phases:
  "diffy_apply_patch df k root diff =
     sys_bind (if split_file_sections diff = [] then sys_fail PatchError_NoPatches
         else validate_sections df k root (split_file_sections diff))
       (write_results k root)"
  by (simp add: diffy_apply_patch_def Let_def sys_bind_fail)

interpretation fuzzy: patch_applier "fuzzy_apply_patch k" for k :: "('fd, 'w) kernel"
proof
  show "within {path_components root} {} (fuzzy_apply_patch k root diff) any_in" for root diff
    unfolding fuzzy_phases by (auto intro!: within_bind [where P = any_in] within_rules)
  show "\<exists>new. tr' = tr @ new \<and> only_reads new"
    if "fuzzy_apply_patch k root diff (w, tr) = (Inl e, w', tr')" "\<not> write_error e"
    for root diff w tr e w' tr'
    using that unfolding fuzzy_phases
    by (elim late_writes [rotated 2]) (auto intro!: quiet_rules write_results_errors)
qed

interpretation diffy: patch_applier "diffy_apply_patch df k" for df :: "'p diffy" and k :: "('fd, 'w) kernel"
proof
  show "within {path_components root} {} (diffy_apply_patch df k root diff) any_in" for root diff
    unfolding diffy_phases by (auto intro!: within_bind [where P = any_in] within_rules)
  show "\<exists>new. tr' = tr @ new \<and> only_reads new"
    if "diffy_apply_patch df k root diff (w, tr) = (Inl e, w', tr')" "\<not> write_error e"
    for root diff w tr e w' tr'
    using that unfolding diffy_phases
    by (elim late_writes [rotated 2]) (auto intro!: quiet_rules write_results_errors)
qed

section \<open>What is written\<close>

text \<open>The error of a run, and a value, each with the state after it.\<close>

lemma quiet_InrD:
  assumes "quiet m" and "m s = (r, s')"
  shows "\<exists>new. snd s' = snd s @ new \<and> only_reads new"
proof -
  obtain w tr where s: "s = (w, tr)" by fastforce
  obtain w' tr' where s': "s' = (w', tr')" by fastforce
  from assms s s' have "m (w, tr) = (r, w', tr')" by simp
  with assms(1) obtain new where "tr' = tr @ new" "only_reads new" by (rule quietD)
  with s s' show ?thesis by simp
qed

lemma validate_reads_originals:
  assumes "\<And>p s. p \<in> set ps \<Longrightarrow> fst (read_contained_opt k root (fp_path p) s) = Inr (orig (fp_path p))"
    and "list_all2 (\<lambda>p out. is_workspace_contained (path_components (fp_path p)) \<and>
      apply_hunks (case orig (fp_path p) of Some t \<Rightarrow> t | None \<Rightarrow> []) (fp_hunks p) =
        (Inr out :: io_error patch_error + string)) ps outs"
  shows "fst (validate_patches k root ps s) = Inr (zip (map fp_path ps) outs)"
  using assms(2,1)
proof (induction ps outs arbitrary: s rule: list_all2_induct)
  case Nil
  then show ?case by (simp add: sys_return_def)
next
  case (Cons p ps out outs)
  obtain s1 where read: "read_contained_opt k root (fp_path p) s = (Inr (orig (fp_path p)), s1)"
    using Cons.prems [of p s] by (metis list.set_intros(1) prod.collapse)
  from Cons.IH [of s1] Cons.prems obtain s2 where rest:
    "validate_patches k root ps s1 = (Inr (zip (map fp_path ps) outs), s2)"
    by (metis list.set_intros(2) prod.collapse)
  from read rest Cons.hyps show ?case
    by (simp add: read_original_def sys_bind_def sys_map_err_def sys_catch_def sys_return_def
        sys_of_def)
qed

lemma whole_file_within:
  assumes "path_components root \<in> R" "\<And>D. within R D m any_in"
  shows "within R D (sys_bind (sys_map_err PatchError_Write (write_contained k root rel contents)) (\<lambda>_.
      sys_bind m (\<lambda>written. sys_return (rel # written)))) any_in"
  using assms by (auto intro!: within_bind [where P = any_in] within_rules)

lemma whole_files_within:
  "path_components root \<in> R \<Longrightarrow> within R D (apply_whole_files k root files) any_in"
  by (induction files arbitrary: D) (auto intro!: whole_file_within within_rules)

text \<open>A kernel that answers every call and reads the same text from every file.\<close>

definition sample_kernel :: "string \<Rightarrow> (nat, unit) kernel" where
  "sample_kernel text = \<lparr>
     k_open = (\<lambda>p fl m w. (Inr 0, w)),
     k_openat2 = (\<lambda>fd p fl m rs w. (Inr (Suc fd), w)),
     k_openat = (\<lambda>fd p fl m w. (Inr (Suc fd), w)),
     k_mkdirat = (\<lambda>fd p m w. (Inr (), w)),
     k_unlinkat = (\<lambda>fd p w. (Inr (), w)),
     k_renameat = (\<lambda>fd p fd' p' w. (Inr (), w)),
     k_linkat = (\<lambda>fd p fd' p' w. (Inr (), w)),
     k_dup = (\<lambda>fd w. (Inr fd, w)),
     k_is_file = (\<lambda>fd w. (Inr True, w)),
     k_set_len = (\<lambda>fd n w. (Inr (), w)),
     k_getdents = (\<lambda>fd w. (Inr [], w)),
     k_read = (\<lambda>fd w. (Inr text, w)),
     k_write = (\<lambda>fd t w. (Inr (), w))\<rparr>"

definition sample_diffy :: "unit diffy" where
  "sample_diffy = \<lparr>diffy_parse = (\<lambda>s. Inl s), diffy_apply = (\<lambda>s p. Inl s)\<rparr>"

text \<open>A section that puts one line before the first of a file.\<close>

definition sample_section :: "string \<Rightarrow> file_patch" where
  "sample_section p =
     \<lparr>fp_path = p, fp_hunks = [\<lparr>h_old_start = 1, h_lines = [DiffLine_Add ''x'']\<rparr>]\<rparr>"

lemma sample_sections_printable:
  "list_all printable_file [sample_section ''x'', sample_section ''../x'']"
  "list_all printable_file [sample_section ''x'', sample_section ''x'']"
  by (simp_all add: sample_section_def printable_file_def printable_hunk_def plain_text_def
      newline_def char_of_eq_iff visible_chars)

section \<open>Properties\<close>


text \<open>
  C33. A refused patch changes nothing: when applying a diff fails for any reason but a failed
  write, be it a malformed diff, a path that leaves the workspace, a hunk that does not match
  or a file that cannot be read, in whichever of its files, the run has only opened and read
  files beneath the workspace root.
\<close>

theorem refused_patch_only_reads:
  assumes "apply_patch df k feature var root diff (w, tr) = (Inl e, w', tr')"
    and "\<not> write_error e"
  shows "\<exists>new. tr' = tr @ new \<and> only_reads new \<and> beneath_trace {path_components root} {} new"
proof (cases "applier_from_env feature var")
  case FuzzyApplier
  with assms(1) show ?thesis
    using fuzzy.refusal_reads_beneath [OF _ assms(2)] by (simp add: apply_patch_def applier_apply_def)
next
  case DiffyApplier
  with assms(1) show ?thesis
    using diffy.refusal_reads_beneath [OF _ assms(2)] by (simp add: apply_patch_def applier_apply_def)
qed

lemma refused_patch_only_reads_witness:
  "\<exists>new. only_reads new \<and> new \<noteq> [] \<and>
     apply_patch sample_diffy (sample_kernel ''a'') False None ''/ws''
       (print_diff [sample_section ''x'', sample_section ''../x'']) ((), []) =
       (Inl (PatchError_Escapes ''../x''), (), new)"
proof -
  have run: "apply_patch sample_diffy (sample_kernel ''a'') False None ''/ws''
       (print_diff [sample_section ''x'', sample_section ''../x'']) ((), []) =
       (Inl (PatchError_Escapes ''../x''), (),
         [(Call_Open [RootDir, Normal ''ws''] [RDONLY, DIRECTORY, CLOEXEC] 0, Some 0),
          (Call_Openat2 0 [Normal ''x''] [RDONLY, CLOEXEC] 0 [BENEATH, NO_MAGICLINKS], Some 1),
          (Call_Read 1, None)])"
    unfolding apply_patch_def applier_from_env_def applier_apply_def option.case applier.case
      fuzzy_apply_patch_def parse_printed [OF sample_sections_printable(1)]
    by code_simp
  from refused_patch_only_reads [OF run] run show ?thesis by auto
qed

text \<open>
  Every section of a diff is applied to the file as it was before the patch: when the
  files read the same until something is written, an accepted diff first only reads, and then
  writes, section by section, what each section's hunks make of the original. So of two
  sections for one file the later one is written over the earlier, whose edits are lost.
\<close>

theorem sections_patch_the_original:
  assumes "parse_unified_diff diff = (Inr ps :: io_error patch_error + file_patch list)"
    and "ps \<noteq> []"
    and "\<And>p s. p \<in> set ps \<Longrightarrow> fst (read_contained_opt k root (fp_path p) s) = Inr (orig (fp_path p))"
    and "list_all2 (\<lambda>p out. is_workspace_contained (path_components (fp_path p)) \<and>
      apply_hunks (case orig (fp_path p) of Some t \<Rightarrow> t | None \<Rightarrow> []) (fp_hunks p) =
        (Inr out :: io_error patch_error + string)) ps outs"
  shows "\<exists>s' new. snd s' = snd s @ new \<and> only_reads new \<and>
    fuzzy_apply_patch k root diff s = write_results k root (zip (map fp_path ps) outs) s'"
proof -
  from validate_reads_originals [OF assms(3,4), of s] obtain s' where
    v: "validate_patches k root ps s = (Inr (zip (map fp_path ps) outs), s')"
    by (metis prod.collapse)
  with assms(1,2) have "fuzzy_apply_patch k root diff s =
      write_results k root (zip (map fp_path ps) outs) s'"
    by (simp add: fuzzy_apply_patch_def sys_bind_def sys_of_def sys_return_def)
  with quiet_InrD [OF quiet_validate v] show ?thesis by blast
qed

lemma sections_patch_the_original_witness:
  "\<exists>s'. fuzzy_apply_patch (sample_kernel ''a'') ''/ws''
       (print_diff [sample_section ''x'', sample_section ''x'']) ((), []) =
     write_results (sample_kernel ''a'') ''/ws''
       [(''x'', ''x'' @ [newline] @ ''a''), (''x'', ''x'' @ [newline] @ ''a'')] s'"
proof -
  have paths: "fp_path p = ''x''" if "p \<in> set [sample_section ''x'', sample_section ''x'']" for p
    using that by (auto simp: sample_section_def)
  have read: "fst (read_contained_opt (sample_kernel ''a'') ''/ws'' (fp_path p) s) =
      Inr ((\<lambda>_. Some ''a'') (fp_path p))"
    if "p \<in> set [sample_section ''x'', sample_section ''x'']" for p and s :: "unit \<times> nat trace"
    by (cases s) (simp add: read_contained_opt_def open_root_def dir_open_def resolve_def
        handle_def sys_open_def sys_openat2_def sys_read_def sample_kernel_def sys_bind_def
        sys_catch_def sys_return_def call_fd_def call_val_def)
  have out: "apply_hunks ''a'' (fp_hunks (sample_section ''x'')) =
      (Inr (''x'' @ [newline] @ ''a'') :: io_error patch_error + string)"
    by code_simp
  have "is_workspace_contained (path_components (fp_path (sample_section ''x'')))" by code_simp
  then have outs: "list_all2 (\<lambda>p out. is_workspace_contained (path_components (fp_path p)) \<and>
      apply_hunks (case (\<lambda>_. Some ''a'') (fp_path p) of Some t \<Rightarrow> t | None \<Rightarrow> []) (fp_hunks p) =
        (Inr out :: io_error patch_error + string))
      [sample_section ''x'', sample_section ''x'']
      [''x'' @ [newline] @ ''a'', ''x'' @ [newline] @ ''a'']"
    using out by simp
  from sections_patch_the_original [OF parse_printed [OF sample_sections_printable(2)] _ read outs,
      of "((), [])"]
  show ?thesis by (auto simp: sample_section_def)
qed

end
