(* ===== verification/Steering.thy ===== *)
theory Steering
  imports RustText
begin

text \<open>
  The queue of operator messages of a session, \<^verbatim>\<open>newt-core/src/agentic/steering.rs\<close>.
  The mutex makes each method one step; a poisoned lock is entered all the same. A revision
  is a 64-bit number; minting the last one panics in a debug build and wraps in a release
  build, and the wrapping is what \<open>+\<close> on words does here.
\<close>

section \<open>State and operations\<close>

type_synonym rev_id = u64

datatype replace_rejected = ReplaceRejected_Consumed | ReplaceRejected_Superseded

definition explain :: "replace_rejected \<Rightarrow> string" where
  "explain r =
     (case r of
        ReplaceRejected_Consumed \<Rightarrow>
          ''the agent already read that instruction '' @ map char_of [226, 128, 148 :: nat] @
          '' submit your correction as a new message''
      | ReplaceRejected_Superseded \<Rightarrow>
          ''a newer edit replaced that instruction '' @ map char_of [226, 128, 148 :: nat] @
          '' recall again to edit the current one'')"

record inbox =
  ib_next :: u64
  ib_queued :: "(rev_id \<times> string) list"
  ib_consumed_through :: "u64 option"

definition inbox_new :: inbox where
  "inbox_new = \<lparr>ib_next = 0, ib_queued = [], ib_consumed_through = None\<rparr>"

definition submit :: "inbox \<Rightarrow> string \<Rightarrow> rev_id \<times> inbox" where
  "submit st text =
     (let rv = ib_next st in
      (rv, st\<lparr>ib_next := ib_next st + 1, ib_queued := ib_queued st @ [(rv, text)]\<rparr>))"

fun position :: "('a \<Rightarrow> bool) \<Rightarrow> 'a list \<Rightarrow> nat option" where
  "position P [] = None"
| "position P (x # xs) = (if P x then Some 0 else map_option Suc (position P xs))"

definition replace :: "inbox \<Rightarrow> rev_id \<Rightarrow> string \<Rightarrow> (replace_rejected + rev_id) \<times> inbox" where
  "replace st rv text =
     (case position (\<lambda>(r, _). r = rv) (ib_queued st) of
        Some idx \<Rightarrow>
          (let fresh = ib_next st in
           (Inr fresh, st\<lparr>ib_next := ib_next st + 1,
              ib_queued := (ib_queued st)[idx := (fresh, text)]\<rparr>))
      | None \<Rightarrow>
          if (case ib_consumed_through st of Some high \<Rightarrow> rv \<le> high | None \<Rightarrow> False)
          then (Inl ReplaceRejected_Consumed, st)
          else (Inl ReplaceRejected_Superseded, st))"

definition recall_latest_unconsumed :: "inbox \<Rightarrow> (rev_id \<times> string) option" where
  "recall_latest_unconsumed st = (if ib_queued st = [] then None else Some (last (ib_queued st)))"

definition pending :: "inbox \<Rightarrow> nat" where
  "pending st = length (ib_queued st)"

definition is_queued :: "inbox \<Rightarrow> rev_id \<Rightarrow> bool" where
  "is_queued st rv = list_ex (\<lambda>(r, _). r = rv) (ib_queued st)"

definition drain_for_round :: "inbox \<Rightarrow> string list \<times> inbox" where
  "drain_for_round st =
     (if ib_queued st = [] then ([], st)
      else let taken = ib_queued st in
        (map snd taken,
         st\<lparr>ib_queued := [], ib_consumed_through := Some (fst (last taken))\<rparr>))"

section \<open>Runs\<close>

datatype op = Submit string | Replace rev_id string | Drain

datatype reply =
  Submitted rev_id | Replaced rev_id | Refused replace_rejected | Drained "string list"

definition step :: "op \<Rightarrow> inbox \<Rightarrow> reply \<times> inbox" where
  "step opn st =
     (case opn of
        Submit text \<Rightarrow> (case submit st text of (rv, st') \<Rightarrow> (Submitted rv, st'))
      | Replace rv text \<Rightarrow>
          (case replace st rv text of
             (Inr fresh, st') \<Rightarrow> (Replaced fresh, st')
           | (Inl why, st') \<Rightarrow> (Refused why, st'))
      | Drain \<Rightarrow> (case drain_for_round st of (texts, st') \<Rightarrow> (Drained texts, st')))"

fun run :: "op list \<Rightarrow> inbox \<Rightarrow> (op \<times> reply) list \<times> inbox" where
  "run [] st = ([], st)"
| "run (opn # ops) st =
     (case step opn st of (r, st') \<Rightarrow>
        (case run ops st' of (h, st'') \<Rightarrow> ((opn, r) # h, st'')))"

text \<open>What the operator was told, as one list of messages in the order of submission.\<close>

fun note_reply :: "(rev_id \<times> string) list \<Rightarrow> op \<times> reply \<Rightarrow> (rev_id \<times> string) list" where
  "note_reply ms (Submit text, Submitted rv) = ms @ [(rv, text)]"
| "note_reply ms (Replace rv text, Replaced fresh) =
     map (\<lambda>(r, t). if r = rv then (fresh, text) else (r, t)) ms"
| "note_reply ms _ = ms"

definition told :: "(op \<times> reply) list \<Rightarrow> (rev_id \<times> string) list" where
  "told h = foldl note_reply [] h"

text \<open>What the agent was given, over all rounds.\<close>

fun given :: "(op \<times> reply) list \<Rightarrow> string list" where
  "given [] = []"
| "given ((_, Drained texts) # h) = texts @ given h"
| "given (_ # h) = given h"

section \<open>Facts about one step\<close>

lemma position_Some:
  "position P xs = Some i \<Longrightarrow> i < length xs \<and> P (xs ! i) \<and> (\<forall>j < i. \<not> P (xs ! j))"
proof (induction xs arbitrary: i)
  case (Cons x xs)
  then show ?case by (auto split: if_splits simp: less_Suc_eq_0_disj)
qed simp

lemma position_None: "position P xs = None \<longleftrightarrow> (\<forall>x \<in> set xs. \<not> P x)"
  by (induction xs) auto

text \<open>
  The invariant of a run: the messages told are the ones already given followed by the queue,
  each revision is used once, and all are below the next one to mint.
\<close>

definition inbox_inv :: "(rev_id \<times> string) list \<Rightarrow> string list \<Rightarrow> inbox \<Rightarrow> bool" where
  "inbox_inv ms out st \<longleftrightarrow>
     (\<exists>old. ms = old @ ib_queued st \<and> map snd old = out) \<and> distinct (map fst ms) \<and>
     (\<forall>m \<in> set ms. fst m < ib_next st)"

lemma update_as_map:
  assumes "distinct (map fst ms)" "i < length ms" "fst (ms ! i) = r"
  shows "ms[i := new] = map (\<lambda>(r', t). if r' = r then new else (r', t)) ms"
proof (rule nth_equalityI)
  fix j assume "j < length (ms[i := new])"
  then have j: "j < length ms" by simp
  have "fst (ms ! j) = r \<longleftrightarrow> j = i"
    using assms j nth_eq_iff_index_eq [OF assms(1), of j i] by auto
  with j show "ms[i := new] ! j = map (\<lambda>(r', t). if r' = r then new else (r', t)) ms ! j"
    by (cases "ms ! j") auto
qed simp

lemma unat_next: "n \<noteq> - 1 \<Longrightarrow> unat ((n :: u64) + 1) = Suc (unat n)"
  by (metis add.commute add_diff_cancel_right' diff_0 unatSuc)

lemma next_above:
  assumes "(n :: u64) \<noteq> - 1"
  shows "n < n + 1" "r < n \<Longrightarrow> r < n + 1"
  using assms by (simp_all add: word_less_nat_alt unat_next)

lemma inv_submit:
  assumes "inbox_inv ms out st" "ib_next st \<noteq> - 1" "submit st text = (rv, st')"
  shows "inbox_inv (ms @ [(rv, text)]) out st'"
  using assms next_above [OF assms(2)]
  by (auto simp: inbox_inv_def submit_def Let_def)

lemma inv_replace:
  assumes inv: "inbox_inv ms out st" and nowrap: "ib_next st \<noteq> - 1"
    and run: "replace st rv text = (Inr fresh, st')"
  shows "inbox_inv (map (\<lambda>(r, t). if r = rv then (fresh, text) else (r, t)) ms) out st'"
proof -
  from run obtain idx where pos: "position (\<lambda>(r, _). r = rv) (ib_queued st) = Some idx"
    and fresh: "fresh = ib_next st"
    and st': "st' = st\<lparr>ib_next := ib_next st + 1, ib_queued := (ib_queued st)[idx := (fresh, text)]\<rparr>"
    by (auto simp: replace_def Let_def split: option.splits if_splits)
  from position_Some [OF pos] have idx: "idx < length (ib_queued st)" "fst (ib_queued st ! idx) = rv"
    by (auto split: prod.splits)
  from inv obtain old where ms: "ms = old @ ib_queued st" "map snd old = out"
    and dist: "distinct (map fst ms)" and below: "\<forall>m \<in> set ms. fst m < ib_next st"
    unfolding inbox_inv_def by blast
  let ?i = "length old + idx"
  have upd: "ms[?i := (fresh, text)] = map (\<lambda>(r, t). if r = rv then (fresh, text) else (r, t)) ms"
    using dist by (rule update_as_map) (use idx ms(1) in \<open>simp_all add: nth_append\<close>)
  have "ms[?i := (fresh, text)] = old @ ib_queued st'"
    using ms(1) st' by (simp add: list_update_append)
  moreover have fsts: "map fst (ms[?i := (fresh, text)]) = (map fst ms)[?i := fresh]"
    by (simp add: map_update)
  moreover have "fresh \<notin> set (map fst ms)" using below fresh by auto
  then have "distinct ((map fst ms)[?i := fresh])" using dist by (simp add: distinct_list_update)
  moreover have "\<forall>r \<in> set ((map fst ms)[?i := fresh]). r < ib_next st + 1"
  proof
    fix r assume "r \<in> set ((map fst ms)[?i := fresh])"
    then have "r \<in> set (map fst ms) \<or> r = fresh" using set_update_subset_insert by fastforce
    with below fresh show "r < ib_next st + 1" using next_above [OF nowrap] by auto
  qed
  ultimately show ?thesis
    using ms(2) st' unfolding inbox_inv_def upd [symmetric] by (auto simp: fsts [symmetric])
qed

lemma inv_drain:
  assumes "inbox_inv ms out st" "drain_for_round st = (texts, st')"
  shows "inbox_inv ms (out @ texts) st'"
proof -
  from assms(2) have "ib_next st' = ib_next st" "ib_queued st' = []"
    "texts = map snd (ib_queued st)"
    by (auto simp: drain_for_round_def Let_def split: if_splits)
  with assms(1) show ?thesis unfolding inbox_inv_def by auto
qed

lemma step_inv:
  assumes "inbox_inv ms out st" "ib_next st \<noteq> - 1" "step opn st = (r, st')"
  shows "inbox_inv (note_reply ms (opn, r)) (out @ given [(opn, r)]) st'"
proof (cases opn)
  case (Submit t)
  with assms inv_submit [OF assms(1,2)] show ?thesis
    by (auto simp: step_def split: prod.splits)
next
  case (Replace rv t)
  obtain res st1 where rep: "replace st rv t = (res, st1)" by fastforce
  show ?thesis
  proof (cases res)
    case (Inl why)
    with rep have "st1 = st" by (auto simp: replace_def Let_def split: option.splits if_splits)
    with Replace rep Inl assms show ?thesis by (auto simp: step_def)
  next
    case (Inr fresh)
    with Replace rep assms inv_replace [OF assms(1,2)] show ?thesis by (auto simp: step_def)
  qed
next
  case Drain
  with assms inv_drain [OF assms(1)] show ?thesis by (auto simp: step_def split: prod.splits)
qed

lemma step_next: "ib_next st \<noteq> - 1 \<Longrightarrow> unat (ib_next (snd (step opn st))) \<le> Suc (unat (ib_next st))"
  by (auto simp: step_def submit_def replace_def drain_for_round_def Let_def unat_next
      split: op.split option.split)

lemma given_Cons: "given (e # h) = given [e] @ given h"
  by (cases e rule: prod.exhaust; cases "snd e") auto

lemma run_inv:
  assumes "inbox_inv ms out st" "unat (ib_next st) + length ops < 2 ^ 64" "run ops st = (h, st')"
  shows "inbox_inv (foldl note_reply ms h) (out @ given h) st'"
  using assms
proof (induction ops arbitrary: ms out st h)
  case (Cons opn ops)
  obtain r st1 where one: "step opn st = (r, st1)" by fastforce
  obtain h1 where more: "run ops st1 = (h1, st')" "h = (opn, r) # h1"
    using Cons.prems(3) one by (auto split: prod.splits)
  have nowrap: "ib_next st \<noteq> - 1"
  proof
    assume "ib_next st = - 1"
    then have "unat (ib_next st) = 2 ^ 64 - 1" by (simp add: unsigned_minus_1_eq_mask mask_eq_exp_minus_1)
    with Cons.prems(2) show False by simp
  qed
  with step_next [of st opn] one Cons.prems(2) have "unat (ib_next st1) + length ops < 2 ^ 64"
    by simp
  from Cons.IH [OF step_inv [OF Cons.prems(1) nowrap one] this more(1)] more(2)
  show ?case by (simp add: given_Cons [of "(opn, r)" h1])
qed simp

section \<open>Properties\<close>

text \<open>
  C32. Steering is delivered in order, complete and once: after any run of submissions, edits
  and rounds (fewer than the 64-bit counter can number), what the agent was given over all
  rounds followed by what is still queued is exactly the list of submitted messages in the
  order of submission, each with the text of its last accepted edit; and no two of them ever
  share a revision.
\<close>

theorem steering_delivers_in_order:
  assumes "run ops inbox_new = (h, st)" and "length ops < 2 ^ 64"
  shows "given h @ map snd (ib_queued st) = map snd (told h) \<and> distinct (map fst (told h))"
proof -
  have "inbox_inv [] [] inbox_new" by (simp add: inbox_inv_def inbox_new_def)
  from run_inv [OF this _ assms(1)] assms(2) have "inbox_inv (told h) (given h) st"
    by (simp add: told_def inbox_new_def)
  then show ?thesis by (auto simp: inbox_inv_def)
qed

lemma steering_delivers_in_order_witness:
  "run [Submit ''a'', Submit ''b'', Replace 0 ''c'', Drain, Submit ''d''] inbox_new =
     ([(Submit ''a'', Submitted 0), (Submit ''b'', Submitted 1), (Replace 0 ''c'', Replaced 2),
       (Drain, Drained [''c'', ''b'']), (Submit ''d'', Submitted 3)],
      \<lparr>ib_next = 4, ib_queued = [(3, ''d'')], ib_consumed_through = Some 1\<rparr>) \<and>
   [''c'', ''b'', ''d''] = map snd (told
      [(Submit ''a'', Submitted 0), (Submit ''b'', Submitted 1), (Replace 0 ''c'', Replaced 2),
       (Drain, Drained [''c'', ''b'']), (Submit ''d'', Submitted 3)])"
proof -
  have run: "run [Submit ''a'', Submit ''b'', Replace 0 ''c'', Drain, Submit ''d''] inbox_new =
     ([(Submit ''a'', Submitted 0), (Submit ''b'', Submitted 1), (Replace 0 ''c'', Replaced 2),
       (Drain, Drained [''c'', ''b'']), (Submit ''d'', Submitted 3)],
      \<lparr>ib_next = 4, ib_queued = [(3, ''d'')], ib_consumed_through = Some 1\<rparr>)"
    by (simp add: step_def submit_def replace_def drain_for_round_def inbox_new_def Let_def)
  from steering_delivers_in_order [OF run] show ?thesis using run by simp
qed

text \<open>
  An edit of a message that the agent has read can be refused for the wrong reason: when
  an edited message stands before a later one in the queue, its revision is the higher of the
  two, and the round that delivers both remembers the last one's revision only. The edited
  message is then reported as overtaken by a newer edit, although it was delivered.
\<close>

theorem read_edit_reported_superseded:
  assumes "ib_queued st = before @ [(edited, text)] @ between @ [(tail, last_text)]"
    and "tail < edited"
    and "drain_for_round st = (texts, st')"
  shows "text \<in> set texts \<and> replace st' edited new_text = (Inl ReplaceRejected_Superseded, st')"
  using assms by (auto simp: drain_for_round_def Let_def replace_def)

lemma read_edit_reported_superseded_witness:
  "(\<exists>st st'. snd (run [Submit ''a'', Submit ''b'', Replace 0 ''c''] inbox_new) = st \<and>
     drain_for_round st = ([''c'', ''b''], st') \<and>
     replace st' 2 ''d'' = (Inl ReplaceRejected_Superseded, st'))"
proof -
  let ?st = "\<lparr>ib_next = 3, ib_queued = [] @ [(2, ''c'')] @ [] @ [(1, ''b'')],
    ib_consumed_through = None\<rparr>"
  have "snd (run [Submit ''a'', Submit ''b'', Replace 0 ''c''] inbox_new) = ?st"
    by (simp add: step_def submit_def replace_def inbox_new_def Let_def)
  moreover obtain texts st' where d: "drain_for_round ?st = (texts, st')" by fastforce
  then have "texts = [''c'', ''b'']" by (simp add: drain_for_round_def Let_def)
  moreover have "replace st' 2 ''d'' = (Inl ReplaceRejected_Superseded, st')"
    using read_edit_reported_superseded [of ?st "[]" 2 "''c''" "[]" 1 "''b''", OF _ _ d] by simp
  ultimately show ?thesis using d by blast
qed

end
