(* ===== verification/PlanTree.thy ===== *)
theory PlanTree
  imports Caveats
begin

text \<open>
  The plan and its tree of subtasks, \<^verbatim>\<open>newt-core/src/plan.rs\<close>, with the scope
  specification of \<^verbatim>\<open>newt-core/src/role_profile.rs\<close>. The meet of two caveats belongs to
  the crate agent-mesh-protocol and is an argument. The TOML form is not modelled.
\<close>

section \<open>Data model\<close>

datatype aggregation =
  Aggregation_Concat | Aggregation_LastWins | Aggregation_Reduce | Aggregation_Custom

datatype subtask_status = Status_Pending | Status_Running | Status_Done | Status_Failed

datatype node_kind = Kind_Roadmap | Kind_Phase | Kind_Plan | Kind_Task

record artifact_ref =
  ar_branch :: "string option"
  ar_commit :: "string option"
  ar_pr :: "u64 option"
  ar_issue :: "u64 option"

datatype scope_keyword = Keyword_All | Keyword_None

datatype scope_spec = Spec_Keyword scope_keyword | Spec_Items "string list"

record caveat_policy =
  cp_fs_read :: scope_spec
  cp_fs_write :: scope_spec
  cp_exec :: scope_spec
  cp_net :: scope_spec
  cp_max_calls :: "u64 option"

record subtask =
  st_id :: string
  st_instruction :: string
  st_deps :: "string list"
  st_parallel_ok :: bool
  st_context :: "string list"
  st_verify :: "string option"
  st_status :: subtask_status
  st_result :: "string option"
  st_parent :: "string option"
  st_kind :: node_kind
  st_conversation_id :: "string option"
  st_artifact :: "artifact_ref option"
  st_policy :: caveat_policy

record plan =
  pl_goal :: "string option"
  pl_aggregation :: aggregation
  pl_subtasks :: "subtask list"

record 'g crew_task =
  ct_goal :: string
  ct_caveats :: "'g caveats"
  ct_context :: "string list"
  ct_verify :: "string option"

section \<open>Authority of a subtask\<close>

definition denied_axis :: scope_spec where
  "denied_axis = Spec_Keyword Keyword_None"

definition default_policy :: caveat_policy where
  "default_policy = \<lparr>cp_fs_read = denied_axis, cp_fs_write = denied_axis, cp_exec = denied_axis,
     cp_net = denied_axis, cp_max_calls = None\<rparr>"

fun to_scope :: "scope_spec \<Rightarrow> string scope" where
  "to_scope (Spec_Keyword Keyword_All) = Scope_All"
| "to_scope (Spec_Keyword Keyword_None) = Scope_Only {||}"
| "to_scope (Spec_Items items) = Scope_Only (fset_of_list items)"

definition to_caveats :: "caveat_policy \<Rightarrow> 'g caveats" where
  "to_caveats p = \<lparr>
     cv_fs_read = to_scope (cp_fs_read p),
     cv_fs_write = to_scope (cp_fs_write p),
     cv_exec = to_scope (cp_exec p),
     cv_net = to_scope (cp_net p),
     cv_max_calls = (case cp_max_calls p of Some n \<Rightarrow> CountBound_AtMost n | None \<Rightarrow> CountBound_Unlimited),
     cv_generation = Scope_All\<rparr>"

type_synonym 'g meet = "'g caveats \<Rightarrow> 'g caveats \<Rightarrow> 'g caveats"

definition to_crew_task :: "'g meet \<Rightarrow> 'g caveats \<Rightarrow> subtask \<Rightarrow> 'g crew_task" where
  "to_crew_task meet parent s = \<lparr>
     ct_goal = st_instruction s,
     ct_caveats = meet parent (to_caveats (st_policy s)),
     ct_context = st_context s,
     ct_verify = st_verify s\<rparr>"

definition subtask_node :: "string \<Rightarrow> string \<Rightarrow> node_kind \<Rightarrow> string option \<Rightarrow> subtask" where
  "subtask_node i instruction kind parent = \<lparr>
     st_id = i, st_instruction = instruction, st_deps = [], st_parallel_ok = False,
     st_context = [], st_verify = None, st_status = Status_Pending, st_result = None,
     st_parent = parent, st_kind = kind, st_conversation_id = None, st_artifact = None,
     st_policy = default_policy\<rparr>"

section \<open>Reading the tree\<close>

definition plan_subtask :: "plan \<Rightarrow> string \<Rightarrow> subtask option" where
  "plan_subtask p i = List.find (\<lambda>s. st_id s = i) (pl_subtasks p)"

definition plan_roots :: "plan \<Rightarrow> subtask list" where
  "plan_roots p = filter (\<lambda>s. st_parent s = None) (pl_subtasks p)"

definition children :: "plan \<Rightarrow> string \<Rightarrow> subtask list" where
  "children p i = filter (\<lambda>s. st_parent s = Some i) (pl_subtasks p)"

definition leaves :: "plan \<Rightarrow> subtask list" where
  "leaves p =
     (let parented = set (List.map_filter st_parent (pl_subtasks p)) in
      filter (\<lambda>s. st_id s \<notin> parented) (pl_subtasks p))"

definition dep_done :: "plan \<Rightarrow> string \<Rightarrow> bool" where
  "dep_done p d \<longleftrightarrow> map_option st_status (plan_subtask p d) = Some Status_Done"

definition next_ready_leaf :: "plan \<Rightarrow> subtask option" where
  "next_ready_leaf p =
     List.find (\<lambda>s. st_status s = Status_Pending \<and> list_all (dep_done p) (st_deps s)) (leaves p)"

definition next_dispatch :: "'g meet \<Rightarrow> 'g caveats \<Rightarrow> plan \<Rightarrow> (string \<times> 'g crew_task) option" where
  "next_dispatch meet parent p =
     map_option (\<lambda>s. (st_id s, to_crew_task meet parent s)) (next_ready_leaf p)"

definition is_complete :: "plan \<Rightarrow> bool" where
  "is_complete p \<longleftrightarrow> list_all (\<lambda>s. st_status s = Status_Done) (leaves p)"

definition next_ready_node :: "plan \<Rightarrow> subtask option" where
  "next_ready_node p =
     List.find (\<lambda>s. st_status s = Status_Pending \<and> list_all (dep_done p) (st_deps s) \<and>
       list_all (\<lambda>c. st_status c = Status_Done) (children p (st_id s))) (pl_subtasks p)"

definition nodes_of_kind :: "plan \<Rightarrow> node_kind \<Rightarrow> subtask list" where
  "nodes_of_kind p kind = filter (\<lambda>s. st_kind s = kind) (pl_subtasks p)"

text \<open>
  The recursion of \<^verbatim>\<open>subtree_complete\<close>, depth first with its stack of ids written out.
  A cycle of parent pointers among completed nodes keeps it going for ever, so it is partial:
  \<open>None\<close> is a call that does not return.
\<close>

partial_function (option) subtrees_complete :: "plan \<Rightarrow> string list \<Rightarrow> bool option" where
  "subtrees_complete p stack =
     (case stack of
        [] \<Rightarrow> Some True
      | i # rest \<Rightarrow>
          (case plan_subtask p i of
             None \<Rightarrow> Some False
           | Some node \<Rightarrow>
               if st_status node = Status_Done
               then subtrees_complete p (map st_id (children p i) @ rest)
               else Some False))"

definition subtree_complete :: "plan \<Rightarrow> string \<Rightarrow> bool option" where
  "subtree_complete p i = subtrees_complete p [i]"

lemma plan_subtask_SomeD:
  "plan_subtask p i = Some s \<Longrightarrow> s \<in> set (pl_subtasks p) \<and> st_id s = i"
  by (auto simp: plan_subtask_def dest: find_SomeD)

text \<open>
  The loop of \<^verbatim>\<open>path_to\<close>: the id of the current node, the ids seen and the chain so
  far. It ends because each turn sees a new id of the plan.
\<close>

definition unseen :: "plan \<Rightarrow> string list \<Rightarrow> nat" where
  "unseen p seen = card (st_id ` set (pl_subtasks p) - set seen)"

function path_loop :: "plan \<Rightarrow> string option \<Rightarrow> string list \<Rightarrow> string list \<Rightarrow> string list" where
  "path_loop p cur seen chain =
     (case Option.bind cur (plan_subtask p) of
        None \<Rightarrow> chain
      | Some node \<Rightarrow>
          if st_id node \<in> set seen then chain
          else path_loop p (st_parent node) (st_id node # seen) (chain @ [st_id node]))"
  by pat_completeness auto
termination
proof (relation "measure (\<lambda>(p, cur, seen, chain). unseen p seen)", goal_cases)
  case (2 p cur seen chain node)
  then have "node \<in> set (pl_subtasks p)"
    by (cases cur) (auto dest: plan_subtask_SomeD)
  with 2 have "st_id node \<in> st_id ` set (pl_subtasks p) - set seen" by auto
  then have "st_id ` set (pl_subtasks p) - set (st_id node # seen) \<subset>
      st_id ` set (pl_subtasks p) - set seen"
    by auto
  then show ?case by (simp add: unseen_def psubset_card_mono)
qed simp

declare path_loop.simps [simp del]

definition path_to :: "plan \<Rightarrow> string \<Rightarrow> string list" where
  "path_to p i = rev (path_loop p (Some i) [] [])"

definition next_uncaptured_task_under :: "plan \<Rightarrow> string \<Rightarrow> subtask option" where
  "next_uncaptured_task_under p plan_id =
     (case plan_subtask p plan_id of
        None \<Rightarrow> None
      | Some n \<Rightarrow>
          if st_kind n \<noteq> Kind_Plan then None
          else List.find (\<lambda>s. st_kind s = Kind_Task \<and> st_status s = Status_Pending \<and>
                 Option.bind (st_artifact s) ar_commit = None \<and>
                 list_ex (\<lambda>q. q = plan_id) (path_to p (st_id s))) (pl_subtasks p))"

section \<open>Changing the plan\<close>

fun update_first :: "('a \<Rightarrow> bool) \<Rightarrow> ('a \<Rightarrow> 'a) \<Rightarrow> 'a list \<Rightarrow> 'a list" where
  "update_first P f [] = []"
| "update_first P f (x # xs) = (if P x then f x # xs else x # update_first P f xs)"

definition update_subtask :: "plan \<Rightarrow> string \<Rightarrow> (subtask \<Rightarrow> subtask) \<Rightarrow> plan" where
  "update_subtask p i f = p\<lparr>pl_subtasks := update_first (\<lambda>s. st_id s = i) f (pl_subtasks p)\<rparr>"

definition mark :: "plan \<Rightarrow> string \<Rightarrow> subtask_status \<Rightarrow> string option \<Rightarrow> plan" where
  "mark p i status result =
     update_subtask p i (\<lambda>s.
       let s' = s\<lparr>st_status := status\<rparr> in
       if result \<noteq> None then s'\<lparr>st_result := result\<rparr> else s')"

definition set_instruction :: "plan \<Rightarrow> string \<Rightarrow> string \<Rightarrow> plan" where
  "set_instruction p i instruction = update_subtask p i (\<lambda>s. s\<lparr>st_instruction := instruction\<rparr>)"

definition clear_context :: "plan \<Rightarrow> string \<Rightarrow> plan" where
  "clear_context p i = update_subtask p i (\<lambda>s. s\<lparr>st_context := []\<rparr>)"

definition default_artifact :: artifact_ref where
  "default_artifact = \<lparr>ar_branch = None, ar_commit = None, ar_pr = None, ar_issue = None\<rparr>"

definition set_artifact_commit :: "plan \<Rightarrow> string \<Rightarrow> string \<Rightarrow> string option \<Rightarrow> plan" where
  "set_artifact_commit p i commit branch =
     update_subtask p i (\<lambda>s.
       let existing = (case st_artifact s of Some a \<Rightarrow> a | None \<Rightarrow> default_artifact) in
       s\<lparr>st_artifact := Some (existing\<lparr>ar_commit := Some commit,
          ar_branch := (case branch of Some b \<Rightarrow> Some b | None \<Rightarrow> ar_branch existing)\<rparr>)\<rparr>)"

definition set_artifact_issue :: "plan \<Rightarrow> string \<Rightarrow> u64 \<Rightarrow> plan" where
  "set_artifact_issue p i issue =
     update_subtask p i (\<lambda>s.
       let existing = (case st_artifact s of Some a \<Rightarrow> a | None \<Rightarrow> default_artifact) in
       s\<lparr>st_artifact := Some (existing\<lparr>ar_issue := Some issue\<rparr>)\<rparr>)"

section \<open>The breadcrumb\<close>

text \<open>Consecutive ids, each the parent of the node the next one names.\<close>

fun parent_chain :: "plan \<Rightarrow> string list \<Rightarrow> bool" where
  "parent_chain p (i # j # ids) =
     ((\<exists>s. plan_subtask p j = Some s \<and> st_parent s = Some i) \<and> parent_chain p (j # ids))"
| "parent_chain p ids = True"

text \<open>Where the walk up may stop: at a root, at a parent outside the plan, or at a repetition.\<close>

definition chain_top :: "plan \<Rightarrow> string \<Rightarrow> string set \<Rightarrow> bool" where
  "chain_top p i seen \<longleftrightarrow>
     (\<exists>s. plan_subtask p i = Some s \<and>
        (case st_parent s of None \<Rightarrow> True | Some q \<Rightarrow> plan_subtask p q = None \<or> q \<in> seen))"

lemma path_loop_chain:
  assumes "chain = rev seen" and "distinct seen" and "parent_chain p seen"
    and "seen = [] \<longrightarrow> cur \<noteq> None"
    and "seen \<noteq> [] \<longrightarrow> (\<exists>s. plan_subtask p (hd seen) = Some s \<and> st_parent s = cur)"
    and "rev (path_loop p cur seen chain) = ids"
  shows "distinct ids \<and> parent_chain p ids \<and> suffix seen ids \<and>
    (ids = [] \<longrightarrow> seen = [] \<and> plan_subtask p (the cur) = None) \<and>
    (ids \<noteq> [] \<longrightarrow> chain_top p (hd ids) (set ids)) \<and>
    (seen = [] \<and> ids \<noteq> [] \<longrightarrow> last ids = the cur)"
  using assms
proof (induction p cur seen chain arbitrary: ids rule: path_loop.induct)
  case (1 p cur seen chain)
  show ?case
  proof (cases "Option.bind cur (plan_subtask p)")
    case None
    with "1.prems" have "ids = seen" by (subst (asm) path_loop.simps) simp
    with None "1.prems" show ?thesis
      by (cases cur) (auto simp: chain_top_def)
  next
    case (Some node)
    then obtain c where c: "cur = Some c" "plan_subtask p c = Some node" by (cases cur) auto
    then have i: "st_id node = c" by (simp add: plan_subtask_SomeD)
    show ?thesis
    proof (cases "c \<in> set seen")
      case True
      with "1.prems" Some i have "ids = seen" by (subst (asm) path_loop.simps) simp
      with True c "1.prems" show ?thesis by (auto simp: chain_top_def)
    next
      case False
      with "1.prems" Some i have step:
        "rev (path_loop p (st_parent node) (c # seen) (chain @ [c])) = ids"
        by (subst (asm) path_loop.simps) simp
      have "parent_chain p (c # seen)"
        using "1.prems"(3,5) c(1) by (cases seen) auto
      with "1.IH" [OF Some _ _ _ _ _ _] False i step "1.prems"(1,2) c
      have "distinct ids \<and> parent_chain p ids \<and> suffix (c # seen) ids \<and>
          (ids \<noteq> [] \<longrightarrow> chain_top p (hd ids) (set ids))"
        by (simp flip: step)
      then show ?thesis using c(1) by (auto simp: suffix_def)
    qed
  qed
qed

section \<open>Completed subtrees\<close>

definition child_rel :: "plan \<Rightarrow> (string \<times> string) set" where
  "child_rel p = {(i, j). j \<in> st_id ` set (children p i)}"

definition below :: "plan \<Rightarrow> string \<Rightarrow> string set" where
  "below p i = {j. (i, j) \<in> (child_rel p)\<^sup>*}"

text \<open>The node and everything below it exist and are done.\<close>

definition all_done :: "plan \<Rightarrow> string \<Rightarrow> bool" where
  "all_done p i \<longleftrightarrow>
     (\<forall>j \<in> below p i. \<exists>s. plan_subtask p j = Some s \<and> st_status s = Status_Done)"

text \<open>Some node below (or the node itself) is its own proper descendant.\<close>

definition cycle_below :: "plan \<Rightarrow> string \<Rightarrow> bool" where
  "cycle_below p i \<longleftrightarrow> (\<exists>j \<in> below p i. (j, j) \<in> (child_rel p)\<^sup>+)"

lemma below_self: "i \<in> below p i"
  by (simp add: below_def)

lemma below_unfold: "below p i = insert i (\<Union>j \<in> st_id ` set (children p i). below p j)"
proof -
  have "j \<in> below p i \<longleftrightarrow> j = i \<or> (\<exists>k. (i, k) \<in> child_rel p \<and> j \<in> below p k)" for j
    by (auto simp: below_def elim: converse_rtranclE intro: converse_rtrancl_into_rtrancl)
  then show ?thesis by (auto simp: child_rel_def)
qed

lemma all_done_unfold:
  "all_done p i \<longleftrightarrow> (\<exists>s. plan_subtask p i = Some s \<and> st_status s = Status_Done) \<and>
     (\<forall>j \<in> st_id ` set (children p i). all_done p j)"
  unfolding all_done_def by (subst below_unfold) auto

lemma cycle_below_unfold:
  "cycle_below p i \<longleftrightarrow> (\<exists>j \<in> st_id ` set (children p i). cycle_below p j)"
proof
  assume "cycle_below p i"
  then obtain j where j: "j \<in> below p i" "(j, j) \<in> (child_rel p)\<^sup>+" by (auto simp: cycle_below_def)
  show "\<exists>k \<in> st_id ` set (children p i). cycle_below p k"
  proof (cases "j = i")
    case True
    with j(2) obtain k where "(i, k) \<in> child_rel p" "(k, i) \<in> (child_rel p)\<^sup>*"
      by (auto dest: tranclD)
    with j(2) True show ?thesis by (auto simp: child_rel_def cycle_below_def below_def)
  next
    case False
    with j(1) obtain k where "k \<in> st_id ` set (children p i)" "j \<in> below p k"
      using below_unfold [of p i] by auto
    with j(2) show ?thesis by (auto simp: cycle_below_def)
  qed
next
  assume "\<exists>k \<in> st_id ` set (children p i). cycle_below p k"
  then show "cycle_below p i"
    using below_unfold [of p i] by (auto simp: cycle_below_def)
qed

lemma finite_child_rel: "finite (child_rel p)"
proof (rule finite_subset)
  show "child_rel p \<subseteq> (the \<circ> st_parent) ` set (pl_subtasks p) \<times> st_id ` set (pl_subtasks p)"
    by (force simp: child_rel_def children_def)
qed simp

text \<open>Without a cycle below it, a node's recursion ends, and the order of the stack is kept.\<close>

lemma subtrees_step:
  assumes "\<not> cycle_below p i"
  shows "subtrees_complete p (i # rest) =
    (if all_done p i then subtrees_complete p rest else Some False)"
proof -
  let ?R = "child_rel p \<inter> below p i \<times> below p i"
  have "acyclic ?R"
  proof (rule acyclicI, intro allI notI)
    fix j assume j: "(j, j) \<in> ?R\<^sup>+"
    then have "j \<in> below p i" by (auto dest: tranclD)
    moreover from j have "(j, j) \<in> (child_rel p)\<^sup>+" by (rule trancl_mono) simp
    ultimately show False using assms by (auto simp: cycle_below_def)
  qed
  then have wf: "wf (?R\<inverse>)"
    by (rule finite_acyclic_wf_converse [rotated]) (simp add: finite_child_rel)
  have "j \<in> below p i \<Longrightarrow> subtrees_complete p (j # rest) =
      (if all_done p j then subtrees_complete p rest else Some False)" for j rest
    using wf
  proof (induction j arbitrary: rest rule: wf_induct_rule)
    case (less j)
    have kids: "subtrees_complete p (js @ rest) =
        (if \<forall>k \<in> set js. all_done p k then subtrees_complete p rest else Some False)"
      if "set js \<subseteq> st_id ` set (children p j)" for js
      using that
    proof (induction js)
      case (Cons k js)
      then have k: "k \<in> st_id ` set (children p j)" by simp
      with less.prems have "k \<in> below p i"
        by (auto simp: below_def child_rel_def intro: rtrancl_into_rtrancl)
      moreover have "(k, j) \<in> ?R\<inverse>"
        using k less.prems calculation by (simp add: child_rel_def)
      ultimately have "subtrees_complete p (k # js @ rest) =
          (if all_done p k then subtrees_complete p (js @ rest) else Some False)"
        using less.IH by blast
      with Cons show ?case by simp
    qed simp
    from kids [of "map st_id (children p j)"]
    have "subtrees_complete p (map st_id (children p j) @ rest) =
        (if \<forall>k \<in> st_id ` set (children p j). all_done p k
         then subtrees_complete p rest else Some False)"
      by simp
    then show ?case
      unfolding all_done_unfold [of p j]
      by (subst subtrees_complete.simps) (auto split: option.split)
  qed
  then show ?thesis using below_self by blast
qed

text \<open>A stack of completed subtrees, one of them with a cycle, is never worked off.\<close>

lemma subtrees_diverge:
  assumes "subtrees_complete p stack = Some b"
  shows "\<not> ((\<forall>i \<in> set stack. all_done p i) \<and> (\<exists>i \<in> set stack. cycle_below p i))"
proof (rule subtrees_complete.raw_induct [OF _ assms])
  fix f :: "plan \<Rightarrow> string list \<Rightarrow> bool option" and p stack b
  assume "1": "\<And>p stack b. f p stack = Some b \<Longrightarrow>
      \<not> ((\<forall>i \<in> set stack. all_done p i) \<and> (\<exists>i \<in> set stack. cycle_below p i))"
    "(case stack of [] \<Rightarrow> Some True | i # rest \<Rightarrow>
       (case plan_subtask p i of None \<Rightarrow> Some False
        | Some node \<Rightarrow> if st_status node = Status_Done
            then f p (map st_id (children p i) @ rest) else Some False)) = Some b"
  show "\<not> ((\<forall>i \<in> set stack. all_done p i) \<and> (\<exists>i \<in> set stack. cycle_below p i))"
  proof (cases stack)
    case (Cons i rest)
    show ?thesis
    proof
      assume bad: "(\<forall>i \<in> set stack. all_done p i) \<and> (\<exists>i \<in> set stack. cycle_below p i)"
      with Cons all_done_unfold [of p i] obtain s where
        s: "plan_subtask p i = Some s" "st_status s = Status_Done" by auto
      let ?stack = "map st_id (children p i) @ rest"
      from "1"(2) Cons s have "f p ?stack = Some b" by simp
      with "1"(1) have "\<not> ((\<forall>i \<in> set ?stack. all_done p i) \<and>
          (\<exists>i \<in> set ?stack. cycle_below p i))" by blast
      moreover from bad Cons all_done_unfold [of p i] have "\<forall>i \<in> set ?stack. all_done p i" by auto
      moreover from bad Cons cycle_below_unfold [of p i] have "\<exists>i \<in> set ?stack. cycle_below p i"
        by auto
      ultimately show False by blast
    qed
  qed simp
qed

section \<open>Facts about updates\<close>

text \<open>What no update changes.\<close>

definition subtask_core where
  "subtask_core s = (st_id s, st_deps s, st_parent s, st_verify s, st_policy s)"

definition plan_core where
  "plan_core p = map subtask_core (pl_subtasks p)"

definition distinct_ids :: "plan \<Rightarrow> bool" where
  "distinct_ids p \<longleftrightarrow> distinct (map st_id (pl_subtasks p))"

lemma plan_core_ids:
  assumes "plan_core p = plan_core q"
  shows "map st_id (pl_subtasks p) = map st_id (pl_subtasks q)"
    "map st_parent (pl_subtasks p) = map st_parent (pl_subtasks q)"
proof -
  have ids: "map st_id (pl_subtasks r) = map fst (plan_core r)"
    and parents: "map st_parent (pl_subtasks r) = map (fst \<circ> snd \<circ> snd) (plan_core r)" for r
    by (simp_all add: plan_core_def subtask_core_def)
  show "map st_id (pl_subtasks p) = map st_id (pl_subtasks q)"
    unfolding ids assms ..
  show "map st_parent (pl_subtasks p) = map st_parent (pl_subtasks q)"
    unfolding parents assms ..
qed

lemma distinct_ids_core: "plan_core p = plan_core q \<Longrightarrow> distinct_ids p \<longleftrightarrow> distinct_ids q"
  using plan_core_ids(1) [of p q] by (simp add: distinct_ids_def)

lemma update_first_map:
  "distinct (map st_id xs) \<Longrightarrow>
     update_first (\<lambda>s. st_id s = i) f xs = map (\<lambda>s. if st_id s = i then f s else s) xs"
proof (induction xs)
  case (Cons x xs)
  have "map (\<lambda>s. if st_id s = st_id x then f s else s) xs = xs"
    using Cons.prems by (intro map_idI) (metis (no_types, lifting) distinct.simps(2) imageI
        list.set_map list.simps(9))
  with Cons show ?case by auto
qed simp

lemma update_subtask_map:
  "distinct_ids p \<Longrightarrow> pl_subtasks (update_subtask p i f) =
     map (\<lambda>s. if st_id s = i then f s else s) (pl_subtasks p)"
  by (simp add: update_subtask_def distinct_ids_def update_first_map)

lemma update_core:
  "(\<And>s. subtask_core (f s) = subtask_core s) \<Longrightarrow> plan_core (update_subtask p i f) = plan_core p"
proof -
  assume f: "\<And>s. subtask_core (f s) = subtask_core s"
  have "map subtask_core (update_first P f xs) = map subtask_core xs" for P xs
    by (induction xs) (simp_all add: f)
  then show ?thesis by (simp add: plan_core_def update_subtask_def)
qed

lemma updates_core [simp]:
  "plan_core (mark p i status result) = plan_core p"
  "plan_core (set_instruction p i t) = plan_core p"
  "plan_core (clear_context p i) = plan_core p"
  "plan_core (set_artifact_commit p i c b) = plan_core p"
  "plan_core (set_artifact_issue p i n) = plan_core p"
  unfolding mark_def set_instruction_def clear_context_def set_artifact_commit_def
    set_artifact_issue_def
  by (auto intro!: update_core simp: subtask_core_def Let_def)

lemma updates_distinct [simp]:
  "distinct_ids (mark p i status result) = distinct_ids p"
  "distinct_ids (set_instruction p i t) = distinct_ids p"
  "distinct_ids (clear_context p i) = distinct_ids p"
  "distinct_ids (set_artifact_commit p i c b) = distinct_ids p"
  by (rule distinct_ids_core, simp)+

text \<open>The status each id of the plan has.\<close>

definition status_of :: "plan \<Rightarrow> string \<Rightarrow> subtask_status option" where
  "status_of p i = map_option st_status (plan_subtask p i)"

lemma dep_done_status: "dep_done p d \<longleftrightarrow> status_of p d = Some Status_Done"
  by (simp add: dep_done_def status_of_def)

lemma find_id_map:
  "(\<And>s. st_id (g s) = st_id s) \<Longrightarrow>
     List.find (\<lambda>s. st_id s = j) (map g xs) = map_option g (List.find (\<lambda>s. st_id s = j) xs)"
  by (induction xs) auto

lemma status_of_update:
  assumes "distinct_ids p" "\<And>s. st_id (f s) = st_id s"
  shows "status_of (update_subtask p i f) j =
    (if j = i then map_option (st_status \<circ> f) (plan_subtask p i) else status_of p j)"
proof -
  have "plan_subtask (update_subtask p i f) j =
      map_option (\<lambda>s. if st_id s = i then f s else s) (plan_subtask p j)"
    unfolding plan_subtask_def update_subtask_map [OF assms(1)]
    by (rule find_id_map) (simp add: assms(2))
  then show ?thesis
    by (cases "plan_subtask p j") (auto simp: status_of_def dest: plan_subtask_SomeD)
qed

lemma status_of_mark:
  "distinct_ids p \<Longrightarrow> status_of (mark p i status result) j =
     (if j = i then map_option (\<lambda>_. status) (plan_subtask p i) else status_of p j)"
  unfolding mark_def
  by (subst status_of_update) (auto simp: Let_def comp_def intro!: option.map_cong)

lemma status_of_others [simp]:
  "distinct_ids p \<Longrightarrow> status_of (set_instruction p i t) j = status_of p j"
  "distinct_ids p \<Longrightarrow> status_of (clear_context p i) j = status_of p j"
  "distinct_ids p \<Longrightarrow> status_of (set_artifact_commit p i c b) j = status_of p j"
  unfolding set_instruction_def clear_context_def set_artifact_commit_def
  by (subst status_of_update; simp add: Let_def comp_def status_of_def)+

lemma plan_subtask_in:
  "distinct_ids p \<Longrightarrow> s \<in> set (pl_subtasks p) \<Longrightarrow> plan_subtask p (st_id s) = Some s"
  unfolding plan_subtask_def
  by (rule find_unique) (auto simp: distinct_ids_def distinct_map inj_on_def)

text \<open>The pending ids.\<close>

definition pending_ids :: "plan \<Rightarrow> string set" where
  "pending_ids p = {i. status_of p i = Some Status_Pending}"

lemma pending_ids_sub: "pending_ids p \<subseteq> st_id ` set (pl_subtasks p)"
  by (auto simp: pending_ids_def status_of_def dest!: plan_subtask_SomeD)

lemma finite_pending [simp]: "finite (pending_ids p)"
  by (rule finite_subset [OF pending_ids_sub]) simp

lemma card_pending: "card (pending_ids p) \<le> length (pl_subtasks p)"
proof -
  have "card (pending_ids p) \<le> card (st_id ` set (pl_subtasks p))"
    by (rule card_mono) (simp_all add: pending_ids_sub)
  also have "\<dots> \<le> card (set (pl_subtasks p))" by (rule card_image_le) simp
  also have "\<dots> \<le> length (pl_subtasks p)" by (rule card_length)
  finally show ?thesis .
qed

lemma next_dispatch_SomeD:
  assumes "next_dispatch meet parent p = Some (i, task)" "distinct_ids p"
  obtains s where "s \<in> set (leaves p)" "st_id s = i" "task = to_crew_task meet parent s"
    "plan_subtask p i = Some s" "status_of p i = Some Status_Pending"
    "\<forall>d \<in> set (st_deps s). dep_done p d"
proof -
  from assms(1) obtain s where s: "next_ready_leaf p = Some s" "st_id s = i"
    "task = to_crew_task meet parent s"
    by (auto simp: next_dispatch_def)
  from s(1) have leaf: "s \<in> set (leaves p)" "st_status s = Status_Pending"
    "\<forall>d \<in> set (st_deps s). dep_done p d"
    by (auto simp: next_ready_leaf_def list_all_iff dest!: find_SomeD)
  then have "s \<in> set (pl_subtasks p)" by (simp add: leaves_def Let_def)
  with assms(2) s(2) have sub: "plan_subtask p i = Some s" using plan_subtask_in by blast
  with leaf(2) have "status_of p i = Some Status_Pending" by (simp add: status_of_def)
  with s leaf sub that show ?thesis by blast
qed

lemma leaf_ids_core:
  assumes "plan_core p = plan_core q"
  shows "st_id ` set (leaves p) = st_id ` set (leaves q)"
proof -
  have mf: "List.map_filter st_parent xs = List.map_filter id (map st_parent xs)" for xs
    by (induction xs) (simp_all add: map_filter_simps split: option.split)
  have "st_id ` set (leaves p) =
      set (map st_id (pl_subtasks p)) - set (List.map_filter id (map st_parent (pl_subtasks p)))" for p
    by (auto simp: leaves_def Let_def mf [symmetric])
  then show ?thesis by (simp only: plan_core_ids [OF assms])
qed

section \<open>Properties\<close>

text \<open>
  The breadcrumb of a node is its ancestor chain: it is empty exactly when the node is
  absent; otherwise it ends in the node, repeats no id, steps from parent to child, and starts
  at a root, or at a node whose parent is outside the plan, or where a cycle of parents was
  cut at its first repetition. The walk ends on every plan, cyclic ones included.
\<close>

theorem breadcrumb_is_the_ancestor_chain:
  "(path_to p i = [] \<longleftrightarrow> plan_subtask p i = None) \<and>
   distinct (path_to p i) \<and> parent_chain p (path_to p i) \<and>
   (path_to p i = [] \<or>
      last (path_to p i) = i \<and> chain_top p (hd (path_to p i)) (set (path_to p i)))"
proof -
  have "distinct (path_to p i) \<and> parent_chain p (path_to p i) \<and> suffix [] (path_to p i) \<and>
      (path_to p i = [] \<longrightarrow> ([] :: string list) = [] \<and> plan_subtask p (the (Some i)) = None) \<and>
      (path_to p i \<noteq> [] \<longrightarrow> chain_top p (hd (path_to p i)) (set (path_to p i))) \<and>
      (([] :: string list) = [] \<and> path_to p i \<noteq> [] \<longrightarrow> last (path_to p i) = the (Some i))"
    unfolding path_to_def by (rule path_loop_chain [of "[]" "[]", OF _ _ _ _ _ refl]) simp_all
  moreover have "path_to p i = []" if "plan_subtask p i = None"
    using path_loop.simps [of p "Some i" "[]" "[]"] that by (simp add: path_to_def)
  ultimately show ?thesis unfolding option.sel by blast
qed

text \<open>
  The completion test of a subtree is right where it returns, and it returns where the
  tree has no cycle: without a cycle of parent pointers below the node it answers whether the
  node and all its descendants exist and are done. With a cycle among completed descendants
  the recursion never returns.
\<close>

theorem subtree_completion:
  "(\<not> cycle_below p i \<longrightarrow> subtree_complete p i = Some (all_done p i)) \<and>
   (cycle_below p i \<and> all_done p i \<longrightarrow> subtree_complete p i = None)"
proof (intro conjI impI)
  assume "\<not> cycle_below p i"
  from subtrees_step [OF this, of "[]"] show "subtree_complete p i = Some (all_done p i)"
    by (simp add: subtree_complete_def subtrees_complete.simps [of p "[]"])
next
  assume "cycle_below p i \<and> all_done p i"
  then show "subtree_complete p i = None"
    using subtrees_diverge [of p "[i]"]
    by (cases "subtrees_complete p [i]") (auto simp: subtree_complete_def)
qed

text \<open>A plan of one completed node that names itself as its parent.\<close>

definition looping_plan :: plan where
  "looping_plan = \<lparr>pl_goal = None, pl_aggregation = Aggregation_Concat,
     pl_subtasks = [(subtask_node ''a'' [] Kind_Task (Some ''a''))\<lparr>st_status := Status_Done\<rparr>]\<rparr>"

lemma subtree_completion_witness:
  "subtree_complete looping_plan ''a'' = None \<and>
   subtree_complete looping_plan ''b'' = Some False"
proof -
  have kids: "child_rel looping_plan = {(''a'', ''a'')}"
    by (auto simp: child_rel_def children_def looping_plan_def subtask_node_def split: if_splits)
  have "below looping_plan ''a'' \<subseteq> {''a''}"
    by (auto simp: below_def kids elim: rtranclE)
  then have "all_done looping_plan ''a''"
    by (auto simp: all_done_def plan_subtask_def looping_plan_def subtask_node_def)
  moreover have "cycle_below looping_plan ''a''"
    using below_self by (auto simp: cycle_below_def kids)
  ultimately have loop: "subtree_complete looping_plan ''a'' = None"
    using subtree_completion [of looping_plan "''a''"] by blast
  have below_b: "below looping_plan ''b'' = {''b''}"
    by (auto simp: below_def kids elim: converse_rtranclE)
  then have "\<not> cycle_below looping_plan ''b''"
    by (auto simp: cycle_below_def kids dest: tranclD)
  moreover have "\<not> all_done looping_plan ''b''"
    using below_b by (auto simp: all_done_def plan_subtask_def looping_plan_def subtask_node_def)
  ultimately show ?thesis
    using loop subtree_completion [of looping_plan "''b''"] by simp
qed

end
