(* ===== verification/PlanExec.thy ===== *)
theory PlanExec
  imports PlanTree
begin

text \<open>
  Driving a plan through a crew runner, \<^verbatim>\<open>newt-core/src/agentic/plan_exec.rs\<close>. The
  runner and the re-grounder are trait objects: two functions over a state of their own, an
  argument of the model. A request carries the operation, its arguments and its caveats; the
  requests are also collected in order.
\<close>

section \<open>Requests and the runner\<close>

record crew_args =
  ca_task :: string
  ca_base_ref :: string
  ca_verify :: "string option"
  ca_scope :: "string list option"

datatype 'g request =
    Req_Crew crew_args "'g caveats"
  | Req_Consolidate string "string list" "'g caveats"

record ('g, 'r) crew_runner =
  cr_dispatch :: "'g request \<Rightarrow> 'r \<Rightarrow> (string + string) \<times> 'r"
  cr_reground :: "string \<Rightarrow> string \<Rightarrow> 'r \<Rightarrow> string option \<times> 'r"

text \<open>The re-grounder that gives up at once.\<close>

definition no_reground :: "string \<Rightarrow> string \<Rightarrow> 'r \<Rightarrow> string option \<times> 'r" where
  "no_reground error instruction r = (None, r)"

definition MAX_REGROUND :: nat where
  "MAX_REGROUND = 2"

section \<open>The landing marker\<close>

definition landed_artifact :: "string \<Rightarrow> (string \<times> string) option" where
  "landed_artifact report =
     (case after_str ''LANDED on branch `'' report of
        None \<Rightarrow> None
      | Some rest \<Rightarrow>
          (case split_once CHR ''`'' rest of
             None \<Rightarrow> None
           | Some (branch, after_branch) \<Rightarrow>
               (case after_str '' @ '' after_branch of
                  None \<Rightarrow> None
                | Some sha_text \<Rightarrow>
                    (case split_whitespace sha_text of
                       [] \<Rightarrow> None
                     | sha # _ \<Rightarrow> Some (branch, sha)))))"

section \<open>One turn of the loop\<close>

text \<open>The driver's local variables, with the runner's state and the requests sent.\<close>

record ('g, 'r) drive =
  dr_plan :: plan
  dr_runner :: 'r
  dr_sent :: "'g request list"
  dr_dispatched :: "string list"
  dr_failed :: "string option"
  dr_reground_used :: nat

definition send ::
    "('g, 'r) crew_runner \<Rightarrow> 'g request \<Rightarrow> ('g, 'r) drive \<Rightarrow> (string + string) \<times> ('g, 'r) drive" where
  "send k req d =
     (case cr_dispatch k req (dr_runner d) of
        (res, r') \<Rightarrow> (res, d\<lparr>dr_runner := r', dr_sent := dr_sent d @ [req]\<rparr>))"

text \<open>The artifacts of the dependencies, in their order.\<close>

definition dep_artifacts :: "plan \<Rightarrow> string list \<Rightarrow> (string \<times> string) list" where
  "dep_artifacts p deps =
     List.map_filter (\<lambda>dep.
       Option.bind (plan_subtask p dep) (\<lambda>s.
       Option.bind (st_artifact s) (\<lambda>a.
       Option.bind (ar_branch a) (\<lambda>b.
       Option.bind (ar_commit a) (\<lambda>c. Some (b, c)))))) deps"

definition fail_leaf :: "string \<Rightarrow> string \<Rightarrow> ('g, 'r) drive \<Rightarrow> ('g, 'r) drive" where
  "fail_leaf i error d =
     d\<lparr>dr_plan := mark (dr_plan d) i Status_Failed (Some error),
       dr_dispatched := dr_dispatched d @ [i],
       dr_failed := Some error\<rparr>"

definition no_tip :: string where
  "no_tip = ''dependency consolidation returned no landed tip''"

text \<open>Where the leaf is to start from: its base, or the failure that ends the run.\<close>

definition base_ref ::
    "('g, 'r) crew_runner \<Rightarrow> 'g caveats \<Rightarrow> (string \<times> string) list \<Rightarrow> ('g, 'r) drive \<Rightarrow>
      (string + string) \<times> ('g, 'r) drive" where
  "base_ref k parent artifacts d =
     (case artifacts of
        [] \<Rightarrow> (Inr ''HEAD'', d)
      | [(_, commit)] \<Rightarrow> (Inr commit, d)
      | many \<Rightarrow>
          (case send k (Req_Consolidate ''HEAD'' (map fst many) parent) d of
             (Inr report, d') \<Rightarrow>
               (case landed_artifact report of
                  Some (_, commit) \<Rightarrow> (Inr commit, d')
                | None \<Rightarrow> (Inl no_tip, d'))
           | (Inl error, d') \<Rightarrow> (Inl (''dependency consolidation failed: '' @ error), d')))"

definition crew_request :: "'g crew_task \<Rightarrow> string \<Rightarrow> 'g request" where
  "crew_request task base =
     Req_Crew \<lparr>
       ca_task = ct_goal task,
       ca_base_ref = base,
       ca_verify = (case ct_verify task of
         Some v \<Rightarrow> if permits_exec (ct_caveats task) v then Some v else None
       | None \<Rightarrow> None),
       ca_scope = (if ct_context task \<noteq> [] then Some (ct_context task) else None)\<rparr>
       (ct_caveats task)"

text \<open>Recording a report, and the retry of a failed leaf when the re-grounder has a correction.\<close>

definition land :: "string \<Rightarrow> string \<Rightarrow> ('g, 'r) drive \<Rightarrow> ('g, 'r) drive" where
  "land i report d =
     d\<lparr>dr_plan := mark (case landed_artifact report of
           Some (branch, commit) \<Rightarrow> set_artifact_commit (dr_plan d) i commit (Some branch)
         | None \<Rightarrow> dr_plan d) i Status_Done (Some report),
       dr_dispatched := dr_dispatched d @ [i]\<rparr>"

definition retry_or_fail ::
    "('g, 'r) crew_runner \<Rightarrow> string \<Rightarrow> string \<Rightarrow> string \<Rightarrow> ('g, 'r) drive \<Rightarrow> ('g, 'r) drive" where
  "retry_or_fail k i goal error d =
     (if dr_reground_used d < MAX_REGROUND
      then (case cr_reground k error goal (dr_runner d) of
              (Some fixed, r') \<Rightarrow>
                d\<lparr>dr_runner := r',
                  dr_reground_used := dr_reground_used d + 1,
                  dr_plan := mark (clear_context (set_instruction (dr_plan d) i fixed) i) i
                    Status_Pending None\<rparr>
            | (None, r') \<Rightarrow> fail_leaf i error (d\<lparr>dr_runner := r'\<rparr>))
      else fail_leaf i error d)"

definition run_leaf ::
    "'g caveats \<Rightarrow> ('g, 'r) crew_runner \<Rightarrow> string \<Rightarrow> 'g crew_task \<Rightarrow> ('g, 'r) drive \<Rightarrow> ('g, 'r) drive" where
  "run_leaf parent k i task d =
     (let d = d\<lparr>dr_plan := mark (dr_plan d) i Status_Running None\<rparr>;
          deps = (case plan_subtask (dr_plan d) i of Some s \<Rightarrow> st_deps s | None \<Rightarrow> [])
      in case base_ref k parent (dep_artifacts (dr_plan d) deps) d of
           (Inl error, d) \<Rightarrow> fail_leaf i error d
         | (Inr base, d) \<Rightarrow>
             (case send k (crew_request task base) d of
                (Inr report, d) \<Rightarrow> land i report d
              | (Inl error, d) \<Rightarrow> retry_or_fail k i (ct_goal task) error d))"

definition too_many :: string where
  "too_many = ''plan dispatch exceeded the subtask count '' @ map char_of [226, 128, 148 :: nat] @
     '' likely duplicate subtask ids''"

text \<open>The loop, with the number of turns still allowed.\<close>

fun drive_loop ::
    "'g meet \<Rightarrow> 'g caveats \<Rightarrow> ('g, 'r) crew_runner \<Rightarrow> nat \<Rightarrow> ('g, 'r) drive \<Rightarrow> ('g, 'r) drive" where
  "drive_loop meet parent k 0 d =
     (case next_dispatch meet parent (dr_plan d) of
        None \<Rightarrow> d
      | Some _ \<Rightarrow> d\<lparr>dr_failed := Some too_many\<rparr>)"
| "drive_loop meet parent k (Suc left) d =
     (case next_dispatch meet parent (dr_plan d) of
        None \<Rightarrow> d
      | Some (i, task) \<Rightarrow>
          (let d' = run_leaf parent k i task d in
           if dr_failed d' \<noteq> None then d' else drive_loop meet parent k left d'))"

section \<open>The whole run\<close>

record plan_run =
  pr_complete :: bool
  pr_dispatched :: "string list"
  pr_failed :: "string option"
  pr_remaining :: "string list"
  pr_consolidated :: "string option"

definition leaf_branches :: "plan \<Rightarrow> string list" where
  "leaf_branches p = List.map_filter (\<lambda>s. Option.bind (st_artifact s) ar_branch) (leaves p)"

text \<open>The explicit merge of what the leaves landed, when the plan is complete.\<close>

definition consolidate ::
    "'g caveats \<Rightarrow> ('g, 'r) crew_runner \<Rightarrow> ('g, 'r) drive \<Rightarrow> string option \<times> ('g, 'r) drive" where
  "consolidate parent k d =
     (if dr_failed d = None \<and> is_complete (dr_plan d) \<and> leaf_branches (dr_plan d) \<noteq> []
      then (case send k (Req_Consolidate ''HEAD'' (leaf_branches (dr_plan d)) parent) d of
              (Inr report, d') \<Rightarrow> (Some report, d')
            | (Inl error, d') \<Rightarrow>
                (None, d'\<lparr>dr_failed := Some (''consolidation failed: '' @ error)\<rparr>))
      else (None, d))"

definition drive_start :: "plan \<Rightarrow> 'r \<Rightarrow> ('g, 'r) drive" where
  "drive_start p r = \<lparr>dr_plan = p, dr_runner = r, dr_sent = [], dr_dispatched = [],
     dr_failed = None, dr_reground_used = 0\<rparr>"

definition max_iters :: "plan \<Rightarrow> nat" where
  "max_iters p = length (pl_subtasks p) + MAX_REGROUND"

definition run_plan_with_reground ::
    "'g meet \<Rightarrow> plan \<Rightarrow> 'g caveats \<Rightarrow> ('g, 'r) crew_runner \<Rightarrow> 'r \<Rightarrow> plan_run \<times> ('g, 'r) drive" where
  "run_plan_with_reground meet p parent k r =
     (case consolidate parent k (drive_loop meet parent k (max_iters p) (drive_start p r)) of
        (consolidated, d) \<Rightarrow>
          (\<lparr>pr_complete = (dr_failed d = None \<and> is_complete (dr_plan d) \<and>
               (dr_dispatched d \<noteq> [] \<or> pl_subtasks (dr_plan d) = [])),
             pr_dispatched = dr_dispatched d,
             pr_failed = dr_failed d,
             pr_remaining = map st_id (filter (\<lambda>s. st_status s = Status_Pending) (leaves (dr_plan d))),
             pr_consolidated = consolidated\<rparr>, d))"

definition run_plan ::
    "'g meet \<Rightarrow> plan \<Rightarrow> 'g caveats \<Rightarrow> ('g, 'r) crew_runner \<Rightarrow> 'r \<Rightarrow> plan_run \<times> ('g, 'r) drive" where
  "run_plan meet p parent k r =
     run_plan_with_reground meet p parent (k\<lparr>cr_reground := no_reground\<rparr>) r"

section \<open>Facts about one turn\<close>

lemma send_simps:
  assumes "send k req d = (res, d')"
  shows "dr_plan d' = dr_plan d" "dr_dispatched d' = dr_dispatched d" "dr_failed d' = dr_failed d"
    "dr_reground_used d' = dr_reground_used d" "dr_sent d' = dr_sent d @ [req]"
  using assms by (auto simp: send_def split: prod.splits)

lemma send_frame:
  "send k req d = (res, d') \<Longrightarrow> dr_plan d' = dr_plan d \<and> dr_dispatched d' = dr_dispatched d \<and>
     dr_failed d' = dr_failed d \<and> dr_reground_used d' = dr_reground_used d \<and>
     dr_sent d' = dr_sent d @ [req]"
  by (simp add: send_simps)

text \<open>A request for a consolidation of branches, under the parent's own caveats.\<close>

definition merge_request :: "'g caveats \<Rightarrow> 'g request \<Rightarrow> bool" where
  "merge_request parent req \<longleftrightarrow> (\<exists>base branches. req = Req_Consolidate base branches parent)"

lemma base_ref_frame:
  assumes "base_ref k parent artifacts d = (res, d')"
  shows "dr_plan d' = dr_plan d" "dr_dispatched d' = dr_dispatched d" "dr_failed d' = dr_failed d"
    "dr_reground_used d' = dr_reground_used d"
    "\<exists>new. dr_sent d' = dr_sent d @ new \<and> (\<forall>req \<in> set new. merge_request parent req)"
proof -
  have "dr_plan d' = dr_plan d \<and> dr_dispatched d' = dr_dispatched d \<and> dr_failed d' = dr_failed d \<and>
    dr_reground_used d' = dr_reground_used d \<and>
    (\<exists>new. dr_sent d' = dr_sent d @ new \<and> (\<forall>req \<in> set new. merge_request parent req))"
    using assms
    by (auto simp: base_ref_def merge_request_def split: list.splits prod.splits sum.splits option.splits
        dest!: send_frame)
  then show "dr_plan d' = dr_plan d" "dr_dispatched d' = dr_dispatched d" "dr_failed d' = dr_failed d"
    "dr_reground_used d' = dr_reground_used d"
    "\<exists>new. dr_sent d' = dr_sent d @ new \<and> (\<forall>req \<in> set new. merge_request parent req)"
    by blast+
qed

text \<open>
  The ways a turn can end, as seen in the driver's variables: the leaf failed, landed, or is
  pending again at the price of one correction. The requests are those of the base and at most
  one for the leaf itself.
\<close>

datatype turn_end = Turn_Failed string | Turn_Landed | Turn_Retried

definition turn_effect ::
    "string \<Rightarrow> turn_end \<Rightarrow> ('g, 'r) drive \<Rightarrow> ('g, 'r) drive \<Rightarrow> bool" where
  "turn_effect i t d d' \<longleftrightarrow>
     plan_core (dr_plan d') = plan_core (dr_plan d) \<and>
     (case t of
        Turn_Failed e \<Rightarrow>
          dr_failed d' = Some e \<and> dr_dispatched d' = dr_dispatched d @ [i] \<and>
          (\<forall>j. status_of (dr_plan d') j =
             (if j = i then Some Status_Failed else status_of (dr_plan d) j))
      | Turn_Landed \<Rightarrow>
          dr_failed d' = None \<and> dr_dispatched d' = dr_dispatched d @ [i] \<and>
          dr_reground_used d' = dr_reground_used d \<and>
          (\<forall>j. status_of (dr_plan d') j =
             (if j = i then Some Status_Done else status_of (dr_plan d) j))
      | Turn_Retried \<Rightarrow>
          dr_failed d' = None \<and> dr_dispatched d' = dr_dispatched d \<and>
          dr_reground_used d < MAX_REGROUND \<and>
          dr_reground_used d' = Suc (dr_reground_used d) \<and>
          (\<forall>j. status_of (dr_plan d') j =
             (if j = i then Some Status_Pending else status_of (dr_plan d) j)))"

lemma plan_subtask_some_iff: "plan_subtask p i \<noteq> None \<longleftrightarrow> i \<in> set (map st_id (pl_subtasks p))"
proof
  assume "i \<in> set (map st_id (pl_subtasks p))"
  then show "plan_subtask p i \<noteq> None"
    by (auto simp: plan_subtask_def find_None_iff_all)
qed (auto dest!: plan_subtask_SomeD)

lemma present_core: "plan_core p = plan_core q \<Longrightarrow> plan_subtask p i \<noteq> None \<longleftrightarrow> plan_subtask q i \<noteq> None"
  unfolding plan_subtask_some_iff by (simp only: plan_core_ids(1) [of p q])

lemma status_of_mark':
  assumes "distinct_ids p" "plan_subtask p i \<noteq> None"
  shows "status_of (mark p i status result) j = (if j = i then Some status else status_of p j)"
  using assms by (auto simp: status_of_mark)

lemma fail_leaf_effect:
  assumes "distinct_ids (dr_plan d)" "plan_subtask (dr_plan d) i \<noteq> None"
    and "plan_core (dr_plan d) = plan_core (dr_plan d0)" "dr_dispatched d = dr_dispatched d0"
    and "\<And>j. j \<noteq> i \<Longrightarrow> status_of (dr_plan d) j = status_of (dr_plan d0) j"
  shows "turn_effect i (Turn_Failed e) d0 (fail_leaf i e d)"
  using assms by (simp add: turn_effect_def fail_leaf_def status_of_mark')

lemma land_effect:
  assumes "distinct_ids (dr_plan d)" "plan_subtask (dr_plan d) i \<noteq> None"
    and "plan_core (dr_plan d) = plan_core (dr_plan d0)" "dr_dispatched d = dr_dispatched d0"
    and "dr_failed d = None" "dr_reground_used d = dr_reground_used d0"
    and "\<And>j. j \<noteq> i \<Longrightarrow> status_of (dr_plan d) j = status_of (dr_plan d0) j"
  shows "turn_effect i Turn_Landed d0 (land i report d)"
proof -
  let ?p = "case landed_artifact report of
      Some (branch, commit) \<Rightarrow> set_artifact_commit (dr_plan d) i commit (Some branch)
    | None \<Rightarrow> dr_plan d"
  have p: "distinct_ids ?p" "plan_core ?p = plan_core (dr_plan d)"
    "\<And>j. status_of ?p j = status_of (dr_plan d) j"
    using assms(1) by (auto split: option.split)
  from present_core [OF p(2)] assms(2) have "plan_subtask ?p i \<noteq> None" by blast
  with p assms show ?thesis by (simp add: turn_effect_def land_def status_of_mark')
qed

lemma retry_effect:
  assumes "distinct_ids (dr_plan d)" "plan_subtask (dr_plan d) i \<noteq> None"
    and "plan_core (dr_plan d) = plan_core (dr_plan d0)" "dr_dispatched d = dr_dispatched d0"
    and "dr_failed d = None" "dr_reground_used d = dr_reground_used d0"
    and others: "\<And>j. j \<noteq> i \<Longrightarrow> status_of (dr_plan d) j = status_of (dr_plan d0) j"
  shows "turn_effect i Turn_Retried d0 (retry_or_fail k i goal e d) \<or>
    turn_effect i (Turn_Failed e) d0 (retry_or_fail k i goal e d)"
proof (cases "dr_reground_used d < MAX_REGROUND")
  case False
  with fail_leaf_effect [OF assms(1-4) others] show ?thesis by (simp add: retry_or_fail_def)
next
  case True
  obtain fixed r' where g: "cr_reground k e goal (dr_runner d) = (fixed, r')" by fastforce
  show ?thesis
  proof (cases fixed)
    case None
    with True g fail_leaf_effect [of "d\<lparr>dr_runner := r'\<rparr>" i d0 e] assms show ?thesis
      by (simp add: retry_or_fail_def)
  next
    case (Some t)
    let ?p = "clear_context (set_instruction (dr_plan d) i t) i"
    have p: "distinct_ids ?p" "plan_core ?p = plan_core (dr_plan d)"
      "\<And>j. status_of ?p j = status_of (dr_plan d) j"
      using assms(1) by simp_all
    from present_core [OF p(2)] assms(2) have "plan_subtask ?p i \<noteq> None" by blast
    with True g Some p assms show ?thesis
      by (simp add: retry_or_fail_def turn_effect_def status_of_mark')
  qed
qed

lemma run_leaf_effect:
  assumes "distinct_ids (dr_plan d)" "plan_subtask (dr_plan d) i \<noteq> None" "dr_failed d = None"
  shows "\<exists>t. turn_effect i t d (run_leaf parent k i task d)"
proof -
  define d1 where "d1 = d\<lparr>dr_plan := mark (dr_plan d) i Status_Running None\<rparr>"
  define deps where "deps = (case plan_subtask (dr_plan d1) i of Some s \<Rightarrow> st_deps s | None \<Rightarrow> [])"
  obtain res d2 where base: "base_ref k parent (dep_artifacts (dr_plan d1) deps) d1 = (res, d2)"
    by fastforce
  note frame = base_ref_frame [OF base]
  have d1: "distinct_ids (dr_plan d1)" "plan_core (dr_plan d1) = plan_core (dr_plan d)"
    "\<And>j. j \<noteq> i \<Longrightarrow> status_of (dr_plan d1) j = status_of (dr_plan d) j"
    using assms by (simp_all add: d1_def status_of_mark')
  from present_core [OF d1(2)] assms(2) have i1: "plan_subtask (dr_plan d1) i \<noteq> None" by blast
  show ?thesis
  proof (cases res)
    case (Inl e)
    with base have "run_leaf parent k i task d = fail_leaf i e d2"
      by (simp add: run_leaf_def Let_def d1_def deps_def)
    with fail_leaf_effect [of d2 i d e] frame d1 i1 show ?thesis
      by (auto simp: d1_def)
  next
    case (Inr b)
    obtain res' d3 where sent: "send k (crew_request task b) d2 = (res', d3)" by fastforce
    note frame' = send_simps [OF sent]
    have same: "distinct_ids (dr_plan d3)" "plan_subtask (dr_plan d3) i \<noteq> None"
      "plan_core (dr_plan d3) = plan_core (dr_plan d)" "dr_dispatched d3 = dr_dispatched d"
      "dr_failed d3 = None" "dr_reground_used d3 = dr_reground_used d"
      "\<And>j. j \<noteq> i \<Longrightarrow> status_of (dr_plan d3) j = status_of (dr_plan d) j"
      using frame frame' d1 i1 assms(3) by (simp_all add: d1_def)
    show ?thesis
    proof (cases res')
      case (Inl e)
      with base Inr sent have "run_leaf parent k i task d = retry_or_fail k i (ct_goal task) e d3"
        by (simp add: run_leaf_def Let_def d1_def deps_def)
      with retry_effect [OF same, of k "ct_goal task" e] show ?thesis by auto
    next
      case (Inr report)
      with base \<open>res = Inr b\<close> sent have "run_leaf parent k i task d = land i report d3"
        by (simp add: run_leaf_def Let_def d1_def deps_def)
      with land_effect [OF same, of report] show ?thesis by auto
    qed
  qed
qed

lemma turn_effect_distinct:
  "turn_effect i t d d' \<Longrightarrow> distinct_ids (dr_plan d) \<Longrightarrow> distinct_ids (dr_plan d')"
  using distinct_ids_core [of "dr_plan d'" "dr_plan d"] by (simp add: turn_effect_def)

text \<open>The requests of a turn: merges for the base, then at most one for the leaf.\<close>

definition is_crew :: "'g request \<Rightarrow> bool" where
  "is_crew req \<longleftrightarrow> (case req of Req_Crew a c \<Rightarrow> True | _ \<Rightarrow> False)"

lemma merge_not_crew: "merge_request parent req \<Longrightarrow> \<not> is_crew req"
  by (auto simp: merge_request_def is_crew_def)

lemma run_leaf_sent:
  "\<exists>new. dr_sent (run_leaf parent k i task d) = dr_sent d @ new \<and>
     (\<forall>req \<in> set new. merge_request parent req \<or> (\<exists>b. req = crew_request task b)) \<and>
     length (filter is_crew new) \<le> 1"
proof -
  define d1 where "d1 = d\<lparr>dr_plan := mark (dr_plan d) i Status_Running None\<rparr>"
  define deps where "deps = (case plan_subtask (dr_plan d1) i of Some s \<Rightarrow> st_deps s | None \<Rightarrow> [])"
  obtain res d2 where base: "base_ref k parent (dep_artifacts (dr_plan d1) deps) d1 = (res, d2)"
    by fastforce
  from base_ref_frame(5) [OF base] obtain new where
    new: "dr_sent d2 = dr_sent d @ new" "\<forall>req \<in> set new. merge_request parent req"
    by (auto simp: d1_def)
  then have none: "filter is_crew new = []" using merge_not_crew by (auto simp: filter_empty_conv)
  show ?thesis
  proof (cases res)
    case (Inl e)
    with base new none show ?thesis
      by (simp add: run_leaf_def Let_def d1_def deps_def fail_leaf_def)
  next
    case (Inr b)
    obtain res' d3 where sent: "send k (crew_request task b) d2 = (res', d3)" by fastforce
    from send_simps(5) [OF sent] new have
      "dr_sent d3 = dr_sent d @ new @ [crew_request task b]" by simp
    moreover have "dr_sent (retry_or_fail k i g e d3) = dr_sent d3" for g e
      by (simp add: retry_or_fail_def fail_leaf_def split: prod.split option.split)
    moreover have "dr_sent (land i r d3) = dr_sent d3" for r by (simp add: land_def)
    ultimately have "dr_sent (run_leaf parent k i task d) =
        dr_sent d @ new @ [crew_request task b]"
      using base Inr sent by (cases res') (simp_all add: run_leaf_def Let_def d1_def deps_def)
    with new none show ?thesis by (intro exI [of _ "new @ [crew_request task b]"]) auto
  qed
qed

lemma find_core:
  "map subtask_core xs = map subtask_core ys \<Longrightarrow>
     List.find (\<lambda>s. st_id s = i) xs = Some s \<Longrightarrow>
     \<exists>s'. List.find (\<lambda>s. st_id s = i) ys = Some s' \<and> subtask_core s' = subtask_core s"
proof (induction xs arbitrary: ys)
  case (Cons x xs)
  then obtain y ys' where "ys = y # ys'" "subtask_core x = subtask_core y"
    "map subtask_core xs = map subtask_core ys'" by (cases ys) auto
  moreover from this(2) have "st_id x = st_id y" by (simp add: subtask_core_def)
  ultimately show ?case using Cons by (auto split: if_splits)
qed simp

lemma core_subtask:
  "plan_core p = plan_core q \<Longrightarrow> plan_subtask p i = Some s \<Longrightarrow>
     \<exists>s'. plan_subtask q i = Some s' \<and> subtask_core s' = subtask_core s"
  unfolding plan_core_def plan_subtask_def by (rule find_core)

section \<open>The whole loop\<close>

text \<open>An invariant of the driver's variables that each turn keeps holds at the end of the loop.\<close>

lemma drive_loop_invariant:
  assumes "P d" and "distinct_ids (dr_plan d)" "dr_failed d = None"
    and turn: "\<And>d i task t. P d \<Longrightarrow> distinct_ids (dr_plan d) \<Longrightarrow> dr_failed d = None \<Longrightarrow>
      next_dispatch meet parent (dr_plan d) = Some (i, task) \<Longrightarrow>
      turn_effect i t d (run_leaf parent k i task d) \<Longrightarrow> P (run_leaf parent k i task d)"
    and stop: "\<And>d e. P d \<Longrightarrow> P (d\<lparr>dr_failed := Some e\<rparr>)"
  shows "P (drive_loop meet parent k left d)"
  using assms(1-3)
proof (induction left arbitrary: d)
  case 0
  then show ?case by (auto simp: stop split: option.split)
next
  case (Suc left)
  show ?case
  proof (cases "next_dispatch meet parent (dr_plan d)")
    case None
    with Suc.prems show ?thesis by simp
  next
    case (Some it)
    obtain i task where it: "it = (i, task)" by fastforce
    from Some it have disp: "next_dispatch meet parent (dr_plan d) = Some (i, task)" by simp
    then have "plan_subtask (dr_plan d) i \<noteq> None"
      using Suc.prems(2) by (auto elim: next_dispatch_SomeD)
    with Suc.prems obtain t where t: "turn_effect i t d (run_leaf parent k i task d)"
      using run_leaf_effect by blast
    then have dist: "distinct_ids (dr_plan (run_leaf parent k i task d))"
      using Suc.prems(2) by (rule turn_effect_distinct)
    from turn [OF Suc.prems disp t] Suc.IH [OF _ dist] show ?thesis
      by (simp add: disp Let_def)
  qed
qed

text \<open>The budget of turns: pending leaves and corrections left.\<close>

definition budget :: "('g, 'r) drive \<Rightarrow> nat" where
  "budget d = card (pending_ids (dr_plan d)) + (MAX_REGROUND - dr_reground_used d)"

lemma turn_budget:
  assumes "turn_effect i t d d'" "dr_failed d' = None" "status_of (dr_plan d) i = Some Status_Pending"
  shows "budget d' < budget d"
proof (cases t)
  case (Turn_Failed e)
  with assms show ?thesis by (simp add: turn_effect_def)
next
  case Turn_Landed
  with assms(1) have "pending_ids (dr_plan d') = pending_ids (dr_plan d) - {i}"
    by (auto simp: turn_effect_def pending_ids_def)
  moreover have "i \<in> pending_ids (dr_plan d)" using assms(3) by (simp add: pending_ids_def)
  ultimately have "card (pending_ids (dr_plan d')) < card (pending_ids (dr_plan d))"
    using card_Diff1_less [OF finite_pending] by metis
  with Turn_Landed assms(1) show ?thesis by (simp add: turn_effect_def budget_def)
next
  case Turn_Retried
  with assms(1,3) have "pending_ids (dr_plan d') = pending_ids (dr_plan d)"
    by (auto simp: turn_effect_def pending_ids_def)
  moreover from Turn_Retried assms(1) have "dr_reground_used d < MAX_REGROUND"
    "dr_reground_used d' = Suc (dr_reground_used d)"
    by (simp_all add: turn_effect_def)
  ultimately show ?thesis unfolding budget_def by (simp only:)
qed

text \<open>How a run ends: with no ready leaf, or on a failed leaf that is the last one dispatched.\<close>

definition settled :: "'g meet \<Rightarrow> 'g caveats \<Rightarrow> ('g, 'r) drive \<Rightarrow> bool" where
  "settled meet parent d \<longleftrightarrow>
     dr_failed d = None \<and> next_dispatch meet parent (dr_plan d) = None \<or>
     dr_failed d \<noteq> None \<and> dr_dispatched d \<noteq> [] \<and>
       status_of (dr_plan d) (last (dr_dispatched d)) = Some Status_Failed"

lemma drive_loop_settles:
  assumes "distinct_ids (dr_plan d)" "dr_failed d = None" "budget d \<le> left"
  shows "settled meet parent (drive_loop meet parent k left d)"
  using assms
proof (induction left arbitrary: d)
  case 0
  have "next_dispatch meet parent (dr_plan d) = None"
  proof (rule ccontr)
    assume "next_dispatch meet parent (dr_plan d) \<noteq> None"
    then obtain i task where "next_dispatch meet parent (dr_plan d) = Some (i, task)" by auto
    with 0 have "i \<in> pending_ids (dr_plan d)"
      by (auto simp: pending_ids_def elim: next_dispatch_SomeD)
    then have "0 < card (pending_ids (dr_plan d))" by (auto simp: card_gt_0_iff)
    with 0 show False by (simp add: budget_def)
  qed
  with 0 show ?case by (simp add: settled_def)
next
  case (Suc left)
  show ?case
  proof (cases "next_dispatch meet parent (dr_plan d)")
    case None
    with Suc.prems show ?thesis by (simp add: settled_def)
  next
    case (Some it)
    obtain i task where it: "it = (i, task)" by fastforce
    let ?d = "run_leaf parent k i task d"
    from Some it Suc.prems(1) obtain s where pend: "status_of (dr_plan d) i = Some Status_Pending"
      "plan_subtask (dr_plan d) i = Some s"
      by (auto elim: next_dispatch_SomeD)
    with Suc.prems obtain t where t: "turn_effect i t d ?d"
      using run_leaf_effect by (metis option.distinct(1))
    then have dist: "distinct_ids (dr_plan ?d)"
      using Suc.prems(1) by (rule turn_effect_distinct)
    show ?thesis
    proof (cases "dr_failed ?d")
      case None
      with turn_budget [OF t None pend(1)] Suc.prems(3) Suc.IH [OF dist None] Some it show ?thesis
        by simp
    next
      case (Some e)
      with t have "settled meet parent ?d"
        by (cases t) (auto simp: turn_effect_def settled_def)
      with Some \<open>next_dispatch meet parent (dr_plan d) = Some it\<close> it show ?thesis by simp
    qed
  qed
qed

section \<open>Order and authority\<close>

text \<open>
  A list of dispatched ids that respects the dependencies of the plan: every dependency was
  done at the start or was dispatched earlier.
\<close>

definition respects_deps :: "plan \<Rightarrow> string list \<Rightarrow> bool" where
  "respects_deps p ids \<longleftrightarrow>
     (\<forall>before i after. ids = before @ i # after \<longrightarrow>
        (\<exists>s. plan_subtask p i = Some s \<and> i \<in> st_id ` set (leaves p) \<and>
           (\<forall>dep \<in> set (st_deps s). dep_done p dep \<or> dep \<in> set before)))"

lemma respects_deps_snoc:
  assumes "respects_deps p ids" "plan_subtask p i = Some s" "i \<in> st_id ` set (leaves p)"
    and "\<forall>dep \<in> set (st_deps s). dep_done p dep \<or> dep \<in> set ids"
  shows "respects_deps p (ids @ [i])"
  unfolding respects_deps_def
proof (intro allI impI)
  fix before j after
  assume split: "ids @ [i] = before @ j # after"
  show "\<exists>s. plan_subtask p j = Some s \<and> j \<in> st_id ` set (leaves p) \<and>
      (\<forall>dep \<in> set (st_deps s). dep_done p dep \<or> dep \<in> set before)"
  proof (cases after rule: rev_cases)
    case Nil
    with split assms(2-4) show ?thesis by auto
  next
    case (snoc rest x)
    with split have "ids = before @ j # rest" by auto
    with assms(1) show ?thesis unfolding respects_deps_def by blast
  qed
qed

definition order_inv :: "plan \<Rightarrow> ('g, 'r) drive \<Rightarrow> bool" where
  "order_inv p d \<longleftrightarrow>
     plan_core (dr_plan d) = plan_core p \<and>
     (\<forall>j. dep_done (dr_plan d) j \<longrightarrow> dep_done p j \<or> j \<in> set (dr_dispatched d)) \<and>
     (\<forall>j \<in> set (dr_dispatched d). status_of (dr_plan d) j \<noteq> Some Status_Pending) \<and>
     distinct (dr_dispatched d) \<and> respects_deps p (dr_dispatched d)"

lemma inv_failed [simp]: "order_inv p (d\<lparr>dr_failed := e\<rparr>) = order_inv p d"
  by (simp add: order_inv_def)

lemma order_inv_turn:
  assumes inv: "order_inv p d" and dist: "distinct_ids (dr_plan d)"
    and disp: "next_dispatch meet parent (dr_plan d) = Some (i, task)"
    and t: "turn_effect i t d d'"
  shows "order_inv p d'"
proof -
  from disp dist obtain s where s: "s \<in> set (leaves (dr_plan d))" "st_id s = i"
    "plan_subtask (dr_plan d) i = Some s" "status_of (dr_plan d) i = Some Status_Pending"
    "\<forall>dep \<in> set (st_deps s). dep_done (dr_plan d) dep"
    by (rule next_dispatch_SomeD)
  from inv have core: "plan_core (dr_plan d) = plan_core p" by (simp add: order_inv_def)
  from core_subtask [OF core s(3)] obtain s' where s': "plan_subtask p i = Some s'"
    "st_deps s' = st_deps s"
    by (auto simp: subtask_core_def)
  have leaf: "i \<in> st_id ` set (leaves p)" using s(1,2) leaf_ids_core [OF core] by auto
  have deps: "\<forall>dep \<in> set (st_deps s'). dep_done p dep \<or> dep \<in> set (dr_dispatched d)"
    using s(5) s'(2) inv by (auto simp: order_inv_def)
  have new: "i \<notin> set (dr_dispatched d)" using inv s(4) by (auto simp: order_inv_def)
  have snoc: "respects_deps p (dr_dispatched d @ [i])"
    using inv s'(1) leaf deps by (intro respects_deps_snoc) (auto simp: order_inv_def)
  show ?thesis
    using inv t core new snoc
    by (cases t) (auto simp: order_inv_def turn_effect_def dep_done_status)
qed

text \<open>What a request may carry: the parent's authority met with a subtask's own policy.\<close>

definition authorised :: "'g meet \<Rightarrow> plan \<Rightarrow> 'g caveats \<Rightarrow> 'g request \<Rightarrow> bool" where
  "authorised meet p parent req \<longleftrightarrow>
     (case req of
        Req_Consolidate base branches c \<Rightarrow> c = parent
      | Req_Crew a c \<Rightarrow>
          (\<exists>s \<in> set (pl_subtasks p). c = meet parent (to_caveats (st_policy s)) \<and>
             (\<forall>v. ca_verify a = Some v \<longrightarrow> st_verify s = Some v \<and> permits_exec c v)))"

definition sent_inv :: "'g meet \<Rightarrow> plan \<Rightarrow> 'g caveats \<Rightarrow> ('g, 'r) drive \<Rightarrow> bool" where
  "sent_inv meet p parent d \<longleftrightarrow>
     plan_core (dr_plan d) = plan_core p \<and> (\<forall>req \<in> set (dr_sent d). authorised meet p parent req)"

lemma sent_failed [simp]: "sent_inv meet p parent (d\<lparr>dr_failed := e\<rparr>) = sent_inv meet p parent d"
  by (simp add: sent_inv_def)

lemma merge_authorised: "merge_request parent req \<Longrightarrow> authorised meet p parent req"
  by (auto simp: merge_request_def authorised_def)

lemma crew_request_authorised:
  assumes "s \<in> set (pl_subtasks p)" "st_verify s = st_verify s'" "st_policy s = st_policy s'"
  shows "authorised meet p parent (crew_request (to_crew_task meet parent s') b)"
  using assms
  by (auto simp: authorised_def crew_request_def to_crew_task_def intro!: bexI [of _ s]
      split: option.splits)

lemma sent_inv_turn:
  assumes inv: "sent_inv meet p parent d" and dist: "distinct_ids (dr_plan d)"
    and disp: "next_dispatch meet parent (dr_plan d) = Some (i, task)"
    and t: "turn_effect i t d (run_leaf parent k i task d)"
  shows "sent_inv meet p parent (run_leaf parent k i task d)"
proof -
  from disp dist obtain s where s: "task = to_crew_task meet parent s"
    "plan_subtask (dr_plan d) i = Some s"
    by (rule next_dispatch_SomeD)
  from inv have core: "plan_core (dr_plan d) = plan_core p" by (simp add: sent_inv_def)
  from core_subtask [OF core s(2)] obtain s' where s': "plan_subtask p i = Some s'"
    "st_verify s' = st_verify s" "st_policy s' = st_policy s"
    by (auto simp: subtask_core_def)
  have crew: "authorised meet p parent (crew_request task b)" for b
    using crew_request_authorised [of s' p s meet parent b] s' s(1) plan_subtask_SomeD by auto
  obtain new where "dr_sent (run_leaf parent k i task d) = dr_sent d @ new"
    "\<forall>req \<in> set new. merge_request parent req \<or> (\<exists>b. req = crew_request task b)"
    using run_leaf_sent by blast
  moreover from this(2) crew merge_authorised have "\<forall>req \<in> set new. authorised meet p parent req"
    by blast
  ultimately show ?thesis using inv t by (auto simp: sent_inv_def turn_effect_def)
qed

lemma drive_loop_crew_bound:
  "length (filter is_crew (dr_sent (drive_loop meet parent k left d))) \<le>
     length (filter is_crew (dr_sent d)) + left"
proof (induction left arbitrary: d)
  case 0
  then show ?case by (auto split: option.split)
next
  case (Suc left)
  have one: "length (filter is_crew (dr_sent (run_leaf parent k i task d))) \<le>
      Suc (length (filter is_crew (dr_sent d)))" for i task
    using run_leaf_sent [of parent k i task d] by auto
  show ?case
  proof (cases "next_dispatch meet parent (dr_plan d)")
    case (Some it)
    obtain i task where it: "it = (i, task)" by fastforce
    with Some one [of i task] Suc.IH [of "run_leaf parent k i task d"] show ?thesis
      by (auto simp: Let_def)
  qed simp
qed

lemma consolidate_frame:
  assumes "consolidate parent k d = (c, d')"
  shows "dr_plan d' = dr_plan d \<and> dr_dispatched d' = dr_dispatched d \<and>
    (\<exists>new. dr_sent d' = dr_sent d @ new \<and> (\<forall>req \<in> set new. merge_request parent req)) \<and>
    (dr_failed d' = dr_failed d \<or> dr_failed d = None \<and> is_complete (dr_plan d))"
  using assms
  by (auto simp: consolidate_def merge_request_def split: if_splits prod.splits sum.splits
      dest!: send_frame)

lemma run_splits:
  assumes "run_plan_with_reground meet p parent k r = (report, d)"
  obtains c where
    "consolidate parent k (drive_loop meet parent k (max_iters p) (drive_start p r)) = (c, d)"
    "pr_dispatched report = dr_dispatched d" "pr_failed report = dr_failed d"
    "pr_complete report \<longleftrightarrow> dr_failed d = None \<and> is_complete (dr_plan d) \<and>
       (dr_dispatched d \<noteq> [] \<or> pl_subtasks (dr_plan d) = [])"
  using assms unfolding run_plan_with_reground_def by (auto split: prod.splits)

lemma start_budget: "budget (drive_start p r) \<le> max_iters p"
  using card_pending [of p] by (simp add: budget_def drive_start_def max_iters_def)

text \<open>A plan of two leaves, a runner that accepts everything, and a meet on the exec axis.\<close>

fun scope_meet :: "'a scope \<Rightarrow> 'a scope \<Rightarrow> 'a scope" where
  "scope_meet Scope_All y = y"
| "scope_meet x Scope_All = x"
| "scope_meet (Scope_Only s) (Scope_Only t) = Scope_Only (s |\<inter>| t)"

definition sample_meet :: "unit meet" where
  "sample_meet a b = a\<lparr>cv_exec := scope_meet (cv_exec a) (cv_exec b)\<rparr>"

definition sample_parent :: "unit caveats" where
  "sample_parent = \<lparr>cv_fs_read = Scope_All, cv_fs_write = Scope_All,
     cv_exec = Scope_Only {|''cargo test''|}, cv_net = Scope_All,
     cv_max_calls = CountBound_Unlimited, cv_generation = Scope_All\<rparr>"

definition sample_plan :: plan where
  "sample_plan = \<lparr>pl_goal = None, pl_aggregation = Aggregation_Concat, pl_subtasks =
     [(subtask_node ''b'' ''second'' Kind_Task None)\<lparr>st_deps := [''a''], st_verify := Some ''rm''\<rparr>,
      (subtask_node ''a'' ''first'' Kind_Task None)\<lparr>st_verify := Some ''cargo test'',
         st_policy := default_policy\<lparr>cp_exec := Spec_Keyword Keyword_All\<rparr>\<rparr>]\<rparr>"

definition sample_runner :: "(unit, unit) crew_runner" where
  "sample_runner = \<lparr>cr_dispatch = (\<lambda>req r. (Inr ''done'', r)), cr_reground = no_reground\<rparr>"

definition sample_run :: "plan_run \<times> (unit, unit) drive" where
  "sample_run = run_plan_with_reground sample_meet sample_plan sample_parent sample_runner ()"

lemma sample_facts:
  "pr_dispatched (fst sample_run) = [''a'', ''b'']" "pr_failed (fst sample_run) = None"
  "pr_complete (fst sample_run)" "distinct_ids sample_plan"
  "dr_sent (snd sample_run) =
    [Req_Crew \<lparr>ca_task = ''first'', ca_base_ref = ''HEAD'', ca_verify = Some ''cargo test'',
       ca_scope = None\<rparr> (sample_parent\<lparr>cv_exec := Scope_Only {|''cargo test''|}\<rparr>),
     Req_Crew \<lparr>ca_task = ''second'', ca_base_ref = ''HEAD'', ca_verify = None,
       ca_scope = None\<rparr> (sample_parent\<lparr>cv_exec := Scope_Only {||}\<rparr>)]"
  by code_simp+

section \<open>Properties\<close>

text \<open>
  C10. Driving a plan ends, and ends for a reason: for every plan at most two crew requests
  more than there are subtasks are sent; and when the ids are distinct the run stops with no
  leaf ready, or on the leaf that failed last, or on the failed merge of a complete plan. The
  cap on the number of turns is never what stops it.
\<close>

theorem plan_run_settles:
  assumes "run_plan_with_reground meet p parent k r = (report, d)"
  shows "length (filter is_crew (dr_sent d)) \<le> length (pl_subtasks p) + 2 \<and>
    (distinct_ids p \<longrightarrow>
      next_dispatch meet parent (dr_plan d) = None \<and>
        (pr_failed report = None \<or> is_complete (dr_plan d)) \<or>
      pr_failed report \<noteq> None \<and> pr_dispatched report \<noteq> [] \<and>
        status_of (dr_plan d) (last (pr_dispatched report)) = Some Status_Failed)"
proof -
  let ?d = "drive_loop meet parent k (max_iters p) (drive_start p r)"
  from assms obtain c where c: "consolidate parent k ?d = (c, d)"
    "pr_dispatched report = dr_dispatched d" "pr_failed report = dr_failed d"
    by (rule run_splits)
  from consolidate_frame [OF c(1)] obtain new where frame: "dr_plan d = dr_plan ?d"
    "dr_dispatched d = dr_dispatched ?d" "dr_sent d = dr_sent ?d @ new"
    "\<forall>req \<in> set new. merge_request parent req"
    "dr_failed d = dr_failed ?d \<or> dr_failed ?d = None \<and> is_complete (dr_plan ?d)"
    by blast
  have "filter is_crew new = []" using frame(4) merge_not_crew by (auto simp: filter_empty_conv)
  with drive_loop_crew_bound [of meet parent k "max_iters p" "drive_start p r"] frame(3)
  have "length (filter is_crew (dr_sent d)) \<le> length (pl_subtasks p) + 2"
    by (simp add: drive_start_def max_iters_def MAX_REGROUND_def)
  moreover {
    assume "distinct_ids p"
    then have "settled meet parent ?d"
      by (intro drive_loop_settles start_budget) (simp_all add: drive_start_def)
    with frame(1,2,5) c(2,3) have "next_dispatch meet parent (dr_plan d) = None \<and>
        (pr_failed report = None \<or> is_complete (dr_plan d)) \<or>
      pr_failed report \<noteq> None \<and> pr_dispatched report \<noteq> [] \<and>
        status_of (dr_plan d) (last (pr_dispatched report)) = Some Status_Failed"
      by (auto simp: settled_def)
  }
  ultimately show ?thesis by blast
qed

lemma plan_run_settles_witness:
  "next_dispatch sample_meet sample_parent (dr_plan (snd sample_run)) = None \<and>
   length (filter is_crew (dr_sent (snd sample_run))) \<le> 4"
proof -
  have run: "run_plan_with_reground sample_meet sample_plan sample_parent sample_runner () =
      (fst sample_run, snd sample_run)"
    by (simp add: sample_run_def)
  from plan_run_settles [OF run] sample_facts show ?thesis by (simp add: sample_plan_def)
qed





end
