(* ===== verification/Grants.thy ===== *)
theory Grants
  imports FsCap "HOL-Library.Char_ord" "HOL-Library.List_Lexorder" "HOL-Library.Product_Lexorder"
begin

text \<open>
  Permission requests and grants, \<^verbatim>\<open>newt-core/src/agentic/permissions.rs\<close>: the kinds of
  denial, the actions an operator may choose, the durable denylist, and the policy value a
  set of grants widens a base to. What \<^verbatim>\<open>widen_caveats\<close> asks of the file system is one
  view, a record of two functions, and \<open>table\<close> is the macOS alias table (empty on Linux);
  \<^verbatim>\<open>dunce::simplified\<close> does nothing on Unix. A denylist line is decoded by serde, the
  argument \<open>decode\<close>.
\<close>

section \<open>Vocabulary\<close>

datatype denial_kind =
    DenialKind_Exec
  | DenialKind_FsRead
  | DenialKind_FsWrite
  | DenialKind_Net
  | DenialKind_RemoteTool
  | DenialKind_GitWrite
  | DenialKind_Build

instantiation denial_kind :: linorder
begin

fun kind_rank :: "denial_kind \<Rightarrow> nat" where
  "kind_rank DenialKind_Exec = 0"
| "kind_rank DenialKind_FsRead = 1"
| "kind_rank DenialKind_FsWrite = 2"
| "kind_rank DenialKind_Net = 3"
| "kind_rank DenialKind_RemoteTool = 4"
| "kind_rank DenialKind_GitWrite = 5"
| "kind_rank DenialKind_Build = 6"

definition less_eq_denial_kind :: "denial_kind \<Rightarrow> denial_kind \<Rightarrow> bool" where
  "less_eq_denial_kind a b \<longleftrightarrow> kind_rank a \<le> kind_rank b"

definition less_denial_kind :: "denial_kind \<Rightarrow> denial_kind \<Rightarrow> bool" where
  "less_denial_kind a b \<longleftrightarrow> kind_rank a < kind_rank b"

instance
proof
  fix x y z :: denial_kind
  show "x < y \<longleftrightarrow> x \<le> y \<and> \<not> y \<le> x" "x \<le> x" "x \<le> y \<or> y \<le> x"
    by (auto simp: less_eq_denial_kind_def less_denial_kind_def)
  show "x \<le> z" if "x \<le> y" "y \<le> z" using that by (simp add: less_eq_denial_kind_def)
  show "x = y" if "x \<le> y" "y \<le> x"
    using that by (cases x; cases y) (simp_all add: less_eq_denial_kind_def)
qed

end

definition denial_kind_as_str :: "denial_kind \<Rightarrow> string" where
  "denial_kind_as_str k =
     (case k of
        DenialKind_Exec \<Rightarrow> ''exec''
      | DenialKind_FsRead \<Rightarrow> ''fs_read''
      | DenialKind_FsWrite \<Rightarrow> ''fs_write''
      | DenialKind_Net \<Rightarrow> ''net''
      | DenialKind_RemoteTool \<Rightarrow> ''remote_tool''
      | DenialKind_GitWrite \<Rightarrow> ''git_write''
      | DenialKind_Build \<Rightarrow> ''build'')"

definition denial_kind_from_str :: "string \<Rightarrow> unit + denial_kind" where
  "denial_kind_from_str s =
     (if s = ''exec'' then Inr DenialKind_Exec
      else if s = ''fs_read'' then Inr DenialKind_FsRead
      else if s = ''fs_write'' then Inr DenialKind_FsWrite
      else if s = ''net'' then Inr DenialKind_Net
      else if s = ''remote_tool'' then Inr DenialKind_RemoteTool
      else if s = ''git_write'' then Inr DenialKind_GitWrite
      else if s = ''build'' then Inr DenialKind_Build
      else Inl ())"

datatype permission_action =
    AllowOnce | AllowSession | AllowPermanent | Deny | DenyAlways | DenyPermanent | Back | Exit

definition action_as_str :: "permission_action \<Rightarrow> string" where
  "action_as_str a =
     (case a of
        AllowOnce \<Rightarrow> ''allow_once''
      | AllowSession \<Rightarrow> ''allow_session''
      | AllowPermanent \<Rightarrow> ''allow_permanent''
      | Deny \<Rightarrow> ''deny''
      | DenyAlways \<Rightarrow> ''deny_always''
      | DenyPermanent \<Rightarrow> ''deny_permanent''
      | Back \<Rightarrow> ''back''
      | Exit \<Rightarrow> ''exit'')"

datatype store_verdict = StoreVerdict_AllowOnce | StoreVerdict_AllowSession | StoreVerdict_Deny

fun action_of_verdict :: "store_verdict \<Rightarrow> permission_action" where
  "action_of_verdict StoreVerdict_AllowOnce = AllowOnce"
| "action_of_verdict StoreVerdict_AllowSession = AllowSession"
| "action_of_verdict StoreVerdict_Deny = Deny"

definition verdict_of_action :: "permission_action \<Rightarrow> unit + store_verdict" where
  "verdict_of_action a =
     (case a of
        AllowOnce \<Rightarrow> Inr StoreVerdict_AllowOnce
      | AllowSession \<Rightarrow> Inr StoreVerdict_AllowSession
      | Deny \<Rightarrow> Inr StoreVerdict_Deny
      | _ \<Rightarrow> Inl ())"

type_synonym grant = "denial_kind \<times> string"

record permission_request =
  rq_tool :: string
  rq_kind :: denial_kind
  rq_target :: string
  rq_reason :: string
  rq_harness_bound :: bool

abbreviation rq_grant :: "permission_request \<Rightarrow> grant" where
  "rq_grant r \<equiv> (rq_kind r, rq_target r)"

datatype 'g permission_decision = Decision_Allow "'g caveats" | Decision_Deny

datatype human_outcome =
    Outcome_Answer string
  | Outcome_Unavailable
  | Outcome_Cancelled
  | Outcome_ExitRequested
  | Outcome_InputClosed
  | Outcome_InputFailed

record permission_record =
  pe_conversation_id :: string
  pe_tool :: string
  pe_kind :: string
  pe_target :: string
  pe_decision :: string
  pe_scope :: string

text \<open>The wall-clock stamp of a record, a display value, is left out.\<close>

definition PermissionRecord_new ::
    "string \<Rightarrow> string \<Rightarrow> denial_kind \<Rightarrow> string \<Rightarrow> string \<Rightarrow> string \<Rightarrow> permission_record" where
  "PermissionRecord_new conversation tool kind target decision scope =
     \<lparr>pe_conversation_id = conversation, pe_tool = tool, pe_kind = denial_kind_as_str kind,
      pe_target = target, pe_decision = decision, pe_scope = scope\<rparr>"

section \<open>The durable denylist\<close>

record persistent_denial =
  pd_kind :: string
  pd_target :: string

definition denial_of_line :: "(string \<Rightarrow> persistent_denial option) \<Rightarrow> string \<Rightarrow> grant option" where
  "denial_of_line decode line =
     (case decode line of
        None \<Rightarrow> None
      | Some d \<Rightarrow>
          (case denial_kind_from_str (pd_kind d) of
             Inl _ \<Rightarrow> None
           | Inr kind \<Rightarrow> if pd_target d \<noteq> [] then Some (kind, pd_target d) else None))"

definition parse_denials :: "(string \<Rightarrow> persistent_denial option) \<Rightarrow> string \<Rightarrow> grant list" where
  "parse_denials decode contents =
     List.map_filter (denial_of_line decode) (filter (\<lambda>l. trim l \<noteq> []) (str_lines contents))"

definition load_denials ::
    "(string \<Rightarrow> persistent_denial option) \<Rightarrow> io_error + string \<Rightarrow> grant list" where
  "load_denials decode read =
     (case read of Inr body \<Rightarrow> parse_denials decode body | Inl _ \<Rightarrow> [])"

section \<open>Widening\<close>

record fs_view =
  fv_canonicalize :: "string \<Rightarrow> io_error + string"
  fv_metadata :: "string \<Rightarrow> io_error + unit"

text \<open>\<^verbatim>\<open>Path::ancestors\<close>: the path, its parent, and so on.\<close>

function path_ancestors :: "path \<Rightarrow> path list" where
  "path_ancestors p = p # (case path_parent p of None \<Rightarrow> [] | Some q \<Rightarrow> path_ancestors q)"
  by pat_completeness auto
termination
  by (relation "measure length") (auto simp: path_parent_def split: if_splits)

declare path_ancestors.simps [simp del]

text \<open>\<^verbatim>\<open>Path::join\<close> with a relative path.\<close>

definition path_join_text :: "string \<Rightarrow> path \<Rightarrow> string" where
  "path_join_text s rest =
     (if s = [] \<or> last s = CHR ''/'' then s else s @ ''/'') @ path_text rest"

fun first_existing ::
    "bool list \<Rightarrow> fs_view \<Rightarrow> path \<Rightarrow> path list \<Rightarrow> io_error + path" where
  "first_existing table v p [] = Inl (Io_Other 0)"
| "first_existing table v p (a # as) =
     (case fv_metadata v (path_text a) of
        Inr _ \<Rightarrow>
          rbind (fv_canonicalize v (path_text a)) (\<lambda>r.
            Inr (lexically_normalize table (path_join_text r (drop (length a) p))))
      | Inl e \<Rightarrow> if e = Io_NotFound then first_existing table v p as else Inl e)"

definition resolve_uncreated_path :: "bool list \<Rightarrow> fs_view \<Rightarrow> string \<Rightarrow> io_error + path" where
  "resolve_uncreated_path table v s =
     first_existing table v (path_components s) (path_ancestors (path_components s))"

definition resolves_exactly :: "fs_view \<Rightarrow> string \<Rightarrow> bool" where
  "resolves_exactly v s =
     (case fv_canonicalize v s of Inr r \<Rightarrow> r = s | Inl _ \<Rightarrow> False)"

definition filesystem_grant_is_covered ::
    "bool list \<Rightarrow> fs_view \<Rightarrow> string scope \<Rightarrow> string \<Rightarrow> bool" where
  "filesystem_grant_is_covered table v sc target =
     (case sc of
        Scope_All \<Rightarrow> True
      | Scope_Only roots \<Rightarrow>
          if \<not> fBex roots (\<lambda>root. resolves_exactly v root \<and>
                 path_starts_with (path_components target) (path_components root))
          then False
          else (case fv_canonicalize v target of
                  Inr r \<Rightarrow> r = target
                | Inl e \<Rightarrow>
                    e = Io_NotFound \<and>
                    path_text (lexically_normalize table target) = target \<and>
                    (case resolve_uncreated_path table v target of
                       Inr p \<Rightarrow> path_text p = target
                     | Inl _ \<Rightarrow> False)))"

fun scope_insert :: "string \<Rightarrow> string scope \<Rightarrow> string scope" where
  "scope_insert x Scope_All = Scope_All"
| "scope_insert x (Scope_Only s) = Scope_Only (finsert x s)"

definition widen_one ::
    "bool list \<Rightarrow> fs_view \<Rightarrow> 'g caveats \<Rightarrow> 'g caveats \<Rightarrow> grant \<Rightarrow> 'g caveats" where
  "widen_one table v base out g =
     (case g of (kind, target) \<Rightarrow>
      (let covered =
         (case kind of
            DenialKind_FsRead \<Rightarrow> filesystem_grant_is_covered table v (cv_fs_read base) target
          | DenialKind_FsWrite \<Rightarrow> filesystem_grant_is_covered table v (cv_fs_write base) target
          | _ \<Rightarrow> False) in
       if covered then out
       else (case kind of
           DenialKind_Exec \<Rightarrow> out\<lparr>cv_exec := scope_insert target (cv_exec out)\<rparr>
         | DenialKind_FsRead \<Rightarrow>
             out\<lparr>cv_fs_read := scope_insert (rewrite_alias table target) (cv_fs_read out)\<rparr>
         | DenialKind_FsWrite \<Rightarrow>
             out\<lparr>cv_fs_write := scope_insert (rewrite_alias table target) (cv_fs_write out)\<rparr>
         | DenialKind_Net \<Rightarrow> out\<lparr>cv_net := scope_insert target (cv_net out)\<rparr>
         | _ \<Rightarrow> out)))"

definition widen_caveats ::
    "bool list \<Rightarrow> fs_view \<Rightarrow> 'g caveats \<Rightarrow> grant list \<Rightarrow> 'g caveats" where
  "widen_caveats table v base grants = foldl (widen_one table v base) base grants"

text \<open>
  The trait's default \<^verbatim>\<open>ask_with_caveats\<close>, over the answer of \<^verbatim>\<open>ask\<close>; the meet of two
  caveats belongs to the crate agent-mesh-protocol.
\<close>

definition ask_with_caveats_default ::
    "('g caveats \<Rightarrow> 'g caveats \<Rightarrow> 'g caveats) \<Rightarrow> bool list \<Rightarrow> fs_view \<Rightarrow> 'g caveats \<Rightarrow>
      permission_request list \<Rightarrow> 'g permission_decision \<Rightarrow> 'g permission_decision" where
  "ask_with_caveats_default meet table v baseline requests answer =
     (case answer of
        Decision_Allow allowed \<Rightarrow>
          Decision_Allow (meet allowed (widen_caveats table v baseline (map rq_grant requests)))
      | Decision_Deny \<Rightarrow> Decision_Deny)"

section \<open>Facts\<close>

lemma kind_round_trip [simp]: "denial_kind_from_str (denial_kind_as_str k) = Inr k"
  by (cases k) (simp_all add: denial_kind_as_str_def denial_kind_from_str_def)

lemma kind_from_str_iff: "denial_kind_from_str s = Inr k \<longleftrightarrow> s = denial_kind_as_str k"
  by (cases k) (auto simp: denial_kind_from_str_def denial_kind_as_str_def)

lemma action_as_str_inj [simp]: "action_as_str a = action_as_str b \<longleftrightarrow> a = b"
  by (cases a; cases b) (simp_all add: action_as_str_def)

lemma verdict_round_trip: "verdict_of_action (action_of_verdict v) = Inr v"
  by (cases v) (simp_all add: verdict_of_action_def)

lemma scope_insert_permits [simp]: "permits (scope_insert x sc) y \<longleftrightarrow> permits sc y \<or> y = x"
  by (cases sc) auto

text \<open>What one grant adds to an axis, by the axis's projection of the caveats.\<close>

definition grant_text :: "bool list \<Rightarrow> grant \<Rightarrow> string" where
  "grant_text table g =
     (if fst g = DenialKind_FsRead \<or> fst g = DenialKind_FsWrite
      then rewrite_alias table (snd g) else snd g)"

definition already_covered :: "bool list \<Rightarrow> fs_view \<Rightarrow> 'g caveats \<Rightarrow> grant \<Rightarrow> bool" where
  "already_covered table v base g \<longleftrightarrow>
     fst g = DenialKind_FsRead \<and> filesystem_grant_is_covered table v (cv_fs_read base) (snd g) \<or>
     fst g = DenialKind_FsWrite \<and> filesystem_grant_is_covered table v (cv_fs_write base) (snd g)"

definition adds :: "bool list \<Rightarrow> fs_view \<Rightarrow> 'g caveats \<Rightarrow> denial_kind \<Rightarrow> grant \<Rightarrow> string \<Rightarrow> bool" where
  "adds table v base kind g x \<longleftrightarrow>
     fst g = kind \<and> x = grant_text table g \<and> \<not> already_covered table v base g"

lemma widen_one_axes:
  "permits_exec (widen_one table v base out g) x \<longleftrightarrow>
     permits_exec out x \<or> adds table v base DenialKind_Exec g x"
  "permits_fs_read (widen_one table v base out g) x \<longleftrightarrow>
     permits_fs_read out x \<or> adds table v base DenialKind_FsRead g x"
  "permits_fs_write (widen_one table v base out g) x \<longleftrightarrow>
     permits_fs_write out x \<or> adds table v base DenialKind_FsWrite g x"
  "permits_net (widen_one table v base out g) x \<longleftrightarrow>
     permits_net out x \<or> adds table v base DenialKind_Net g x"
  "cv_max_calls (widen_one table v base out g) = cv_max_calls out"
  "cv_generation (widen_one table v base out g) = cv_generation out"
  by (cases g; cases "fst g";
      simp add: widen_one_def adds_def already_covered_def grant_text_def permits_exec_def
        permits_fs_read_def permits_fs_write_def permits_net_def; blast?)+

lemma widen_axes_foldl:
  "permits_exec (foldl (widen_one table v base) out gs) x \<longleftrightarrow>
     permits_exec out x \<or> (\<exists>g \<in> set gs. adds table v base DenialKind_Exec g x)"
  "permits_fs_read (foldl (widen_one table v base) out gs) x \<longleftrightarrow>
     permits_fs_read out x \<or> (\<exists>g \<in> set gs. adds table v base DenialKind_FsRead g x)"
  "permits_fs_write (foldl (widen_one table v base) out gs) x \<longleftrightarrow>
     permits_fs_write out x \<or> (\<exists>g \<in> set gs. adds table v base DenialKind_FsWrite g x)"
  "permits_net (foldl (widen_one table v base) out gs) x \<longleftrightarrow>
     permits_net out x \<or> (\<exists>g \<in> set gs. adds table v base DenialKind_Net g x)"
  "cv_max_calls (foldl (widen_one table v base) out gs) = cv_max_calls out"
  "cv_generation (foldl (widen_one table v base) out gs) = cv_generation out"
  by (induction gs arbitrary: out) (auto simp: widen_one_axes)

end
