(* ===== verification/Danger.thy ===== *)
theory Danger
  imports Grants
begin

text \<open>
  Danger tiers of permission grants, \<^verbatim>\<open>newt-tui/src/danger.rs\<close>, with the table the gate
  uses in production. The home directory and the current directory, read from the
  environment, are arguments.
\<close>

section \<open>The table\<close>

datatype danger_tier = DangerTier_Low | DangerTier_High

definition INTERPRETER_EXEC :: "string list" where
  "INTERPRETER_EXEC =
     [''sh'', ''bash'', ''dash'', ''zsh'', ''fish'', ''ksh'', ''ash'', ''tcsh'', ''csh'',
      ''python'', ''python2'', ''python3'', ''node'', ''deno'', ''bun'', ''perl'', ''ruby'',
      ''php'', ''lua'', ''tclsh'', ''Rscript'', ''groovy'', ''irb'', ''pwsh'',
      ''awk'', ''gawk'', ''mawk'',
      ''env'', ''xargs'', ''nohup'', ''nice'', ''timeout'', ''stdbuf'', ''setsid'', ''watch'']"

record danger_table =
  dt_interpreters :: "string list"
  dt_broad_fs_roots :: "path list"

definition danger_builtin :: danger_table where
  "danger_builtin = \<lparr>dt_interpreters = INTERPRETER_EXEC, dt_broad_fs_roots = [path_components ''/'']\<rparr>"

definition with_fs_root :: "string \<Rightarrow> danger_table \<Rightarrow> danger_table" where
  "with_fs_root root t =
     (if root \<noteq> [] \<and> path_components root \<notin> set (dt_broad_fs_roots t)
      then t\<lparr>dt_broad_fs_roots := dt_broad_fs_roots t @ [path_components root]\<rparr>
      else t)"

definition production_danger_table :: "string option \<Rightarrow> string option \<Rightarrow> danger_table" where
  "production_danger_table home cwd =
     (let t = (case home of Some h \<Rightarrow> with_fs_root h danger_builtin | None \<Rightarrow> danger_builtin)
      in case cwd of Some c \<Rightarrow> with_fs_root c t | None \<Rightarrow> t)"

text \<open>The file name of a command, or the whole text when it has none.\<close>

definition command_name :: "string \<Rightarrow> string" where
  "command_name target =
     (let trimmed = trim target in
      case path_file_name (path_components trimmed) of Some n \<Rightarrow> n | None \<Rightarrow> trimmed)"

definition version_base :: "string \<Rightarrow> string" where
  "version_base name =
     (case rsplit_once CHR ''.'' name of
        Some (base, v) \<Rightarrow> if v \<noteq> [] \<and> list_all is_ascii_digit v then base else name
      | None \<Rightarrow> name)"

definition is_interpreter :: "danger_table \<Rightarrow> string \<Rightarrow> bool" where
  "is_interpreter t target =
     (let name = command_name target in
      name \<in> set (dt_interpreters t) \<or> version_base name \<in> set (dt_interpreters t))"

definition is_broad_path :: "danger_table \<Rightarrow> string \<Rightarrow> bool" where
  "is_broad_path t target =
     (let s = trim target in
      s \<noteq> [] \<and>
      (let tp = path_components s in
       list_ex (\<lambda>root. root = tp \<or> path_starts_with root tp) (dt_broad_fs_roots t)))"

definition danger_classify :: "danger_table \<Rightarrow> denial_kind \<Rightarrow> string \<Rightarrow> danger_tier" where
  "danger_classify t kind target =
     (let high = (case kind of
          DenialKind_Exec \<Rightarrow> is_interpreter t target
        | DenialKind_Build \<Rightarrow> True
        | DenialKind_FsRead \<Rightarrow> is_broad_path t target
        | DenialKind_FsWrite \<Rightarrow> is_broad_path t target
        | DenialKind_Net \<Rightarrow> False
        | DenialKind_RemoteTool \<Rightarrow> False
        | DenialKind_GitWrite \<Rightarrow> False)
      in if high then DangerTier_High else DangerTier_Low)"

definition warning_sign :: string where
  "warning_sign = map char_of [226, 154, 160 :: nat]"

definition blast_radius :: "danger_table \<Rightarrow> denial_kind \<Rightarrow> string \<Rightarrow> string option" where
  "blast_radius table kind target =
     (if danger_classify table kind target \<noteq> DangerTier_High then None
      else let t = trim target in
        case kind of
          DenialKind_Exec \<Rightarrow>
            Some (warning_sign @ '' `'' @ t @
              ''` is an interpreter: this grants arbitrary command execution'')
        | DenialKind_Build \<Rightarrow>
            Some (''Build scripts and tests may execute arbitrary code inside the workspace fence; '' @
              ''toolchain/cache reads are allowed. Networking follows the existing operator grant; '' @
              ''build approval grants no additional network access.'')
        | DenialKind_Net \<Rightarrow> None
        | DenialKind_RemoteTool \<Rightarrow> None
        | DenialKind_GitWrite \<Rightarrow> None
        | _ \<Rightarrow>
            (let verb = (if kind = DenialKind_FsWrite then ''write'' else ''read'') in
             if path_components t = path_components ''/''
             then Some (warning_sign @ '' `/` is the filesystem root: this grants '' @ verb @
                    '' access to everything'')
             else Some (warning_sign @ '' `'' @ t @ ''` is a broad filesystem root: this grants '' @
                    verb @ '' access to everything beneath it'')))"

definition BUILD_TOOL_EXEC :: "string list" where
  "BUILD_TOOL_EXEC = [''cargo'', ''just'', ''make'']"

definition is_build_tool_exec :: "string \<Rightarrow> bool" where
  "is_build_tool_exec target \<longleftrightarrow> command_name target \<in> set BUILD_TOOL_EXEC"

section \<open>Facts\<close>

lemma classify_high_iff:
  "danger_classify t kind target = DangerTier_High \<longleftrightarrow>
     kind = DenialKind_Exec \<and> is_interpreter t target \<or> kind = DenialKind_Build \<or>
     (kind = DenialKind_FsRead \<or> kind = DenialKind_FsWrite) \<and> is_broad_path t target"
  by (cases kind) (simp_all add: danger_classify_def)

lemma not_high_iff_low: "danger_classify t k x \<noteq> DangerTier_High \<longleftrightarrow> danger_classify t k x = DangerTier_Low"
  by (cases "danger_classify t k x") simp_all

lemma banner_iff_high:
  "blast_radius t kind target \<noteq> None \<longleftrightarrow> danger_classify t kind target = DangerTier_High"
  by (cases kind) (auto simp: blast_radius_def danger_classify_def Let_def)

lemma is_broad_path_iff:
  "is_broad_path t target \<longleftrightarrow>
     trim target \<noteq> [] \<and>
     (\<exists>root \<in> set (dt_broad_fs_roots t). prefix (path_components (trim target)) root)"
  by (auto simp: is_broad_path_def Let_def list_ex_iff path_starts_with_def)

lemma production_roots:
  assumes "home = Some h \<or> cwd = Some h" "h \<noteq> []"
  shows "path_components h \<in> set (dt_broad_fs_roots (production_danger_table home cwd))"
  using assms
  by (auto simp: production_danger_table_def with_fs_root_def Let_def split: option.splits)

lemma fs_tier:
  assumes "k = DenialKind_FsRead \<or> k = DenialKind_FsWrite"
  shows "danger_classify t k x = (if is_broad_path t x then DangerTier_High else DangerTier_Low)"
  using assms by (auto simp: danger_classify_def)

end
