(* ===== verification/OcapStore.thy ===== *)
theory OcapStore
  imports Grants
begin

text \<open>
  The durable policy store, \<^verbatim>\<open>newt-core/src/ocap_store.rs\<close>. The policy types belong to the
  crate agent-bridle: a policy file is modelled by the fields the code reads and writes, and
  the crate's functions are a record. The files are reached through a second record, over a
  world of their own.
\<close>

section \<open>Policy files\<close>

datatype verdict = Verdict_Deny | Verdict_Passkey | Verdict_Ask | Verdict_Approve

datatype capability_class = Class_Exec | Class_Fs | Class_Net

record exec_entry =
  ee_target :: string
  ee_sig :: "string option"

record fs_entry =
  fe_path :: string
  fe_write :: bool
  fe_sig :: "string option"

record net_entry =
  ne_host :: string
  ne_sig :: "string option"

record policy_file =
  pf_exec :: "exec_entry list"
  pf_fs :: "fs_entry list"
  pf_net :: "net_entry list"

type_synonym policy_set = "verdict \<Rightarrow> policy_file option"

record 'v policy_lib =
  pl_parse :: "string \<Rightarrow> string + policy_file"
  pl_to_toml :: "policy_file \<Rightarrow> string + string"
  pl_evaluate :: "policy_set \<Rightarrow> capability_class \<Rightarrow> string \<Rightarrow> verdict option"
  pl_precedence :: "verdict \<Rightarrow> nat"
  pl_validate_approve ::
    "capability_class \<Rightarrow> string \<Rightarrow> (capability_class \<Rightarrow> string \<Rightarrow> bool) \<Rightarrow> string + unit"
  pl_verified_approves :: "'v \<Rightarrow> policy_file \<Rightarrow> policy_file \<times> string list"
  pl_exec_payload :: "exec_entry \<Rightarrow> bytes"
  pl_fs_payload :: "fs_entry \<Rightarrow> bytes"
  pl_net_payload :: "net_entry \<Rightarrow> bytes"
  pl_hex :: "bytes \<Rightarrow> string"

definition REPAIR_HINT :: string where
  "REPAIR_HINT = ''run `newt doctor` to inspect and repair''"

definition VERDICTS :: "verdict list" where
  "VERDICTS = [Verdict_Deny, Verdict_Passkey, Verdict_Ask, Verdict_Approve]"

definition verdict_filename :: "verdict \<Rightarrow> string" where
  "verdict_filename v =
     (case v of
        Verdict_Deny \<Rightarrow> ''deny.toml''
      | Verdict_Passkey \<Rightarrow> ''passkey.toml''
      | Verdict_Ask \<Rightarrow> ''ask.toml''
      | Verdict_Approve \<Rightarrow> ''approve.toml'')"

definition class_for :: "denial_kind \<Rightarrow> capability_class option" where
  "class_for kind =
     (case kind of
        DenialKind_Exec \<Rightarrow> Some Class_Exec
      | DenialKind_FsRead \<Rightarrow> Some Class_Fs
      | DenialKind_FsWrite \<Rightarrow> Some Class_Fs
      | DenialKind_Net \<Rightarrow> Some Class_Net
      | _ \<Rightarrow> None)"

section \<open>Loading\<close>

fun build_loop ::
    "'v policy_lib \<Rightarrow> (verdict \<times> string option) list \<Rightarrow> policy_set \<Rightarrow> string list \<Rightarrow>
      policy_set \<times> string list" where
  "build_loop lib [] ps warnings = (ps, warnings)"
| "build_loop lib ((v, contents) # rest) ps warnings =
     (case contents of
        None \<Rightarrow> build_loop lib rest ps warnings
      | Some text \<Rightarrow>
          (case pl_parse lib text of
             Inr f \<Rightarrow> build_loop lib rest (ps(v \<mapsto> f)) warnings
           | Inl e \<Rightarrow>
               build_loop lib rest ps (warnings @ [verdict_filename v @ '': '' @ e])))"

definition build_store ::
    "'v policy_lib \<Rightarrow> (verdict \<times> string option) list \<Rightarrow> policy_set \<times> string list" where
  "build_store lib entries = build_loop lib entries (\<lambda>_. None) []"

definition verify_approves ::
    "'v policy_lib \<Rightarrow> policy_set \<Rightarrow> 'v option \<Rightarrow> policy_set \<times> string list" where
  "verify_approves lib ps verifier =
     (case ps Verdict_Approve of
        None \<Rightarrow> (ps, [])
      | Some approves \<Rightarrow>
          (case verifier of
             Some v \<Rightarrow>
               (let (kept, warnings) = pl_verified_approves lib v approves in
                (ps(Verdict_Approve \<mapsto> kept), warnings))
           | None \<Rightarrow>
               (let dropped = length (pf_exec approves) + length (pf_fs approves) +
                      length (pf_net approves) in
                (ps(Verdict_Approve := None),
                 if dropped = 0 then []
                 else [''approve.toml: no root signing key available '' @ dash @ '' '' @
                       show_nat dropped @
                       '' durable grant(s) dropped (fail-closed; the gate will prompt)'']))))"

definition load_store ::
    "'v policy_lib \<Rightarrow> (verdict \<Rightarrow> string option) \<Rightarrow> 'v option \<Rightarrow> policy_set \<times> string list" where
  "load_store lib read_file root_key =
     (let (ps, warnings) = build_store lib (map (\<lambda>v. (v, read_file v)) VERDICTS);
          (ps', sig_warnings) = verify_approves lib ps root_key
      in (ps', map (\<lambda>w. w @ ''; '' @ REPAIR_HINT) (warnings @ sig_warnings)))"

section \<open>Asking\<close>

definition without_read_only :: "policy_set \<Rightarrow> policy_set" where
  "without_read_only ps =
     (case ps Verdict_Approve of
        None \<Rightarrow> ps
      | Some f \<Rightarrow> ps(Verdict_Approve \<mapsto> f\<lparr>pf_fs := filter fe_write (pf_fs f)\<rparr>))"

definition names_path :: "bool list \<Rightarrow> string \<Rightarrow> policy_file option \<Rightarrow> bool" where
  "names_path table target f =
     (case f of
        None \<Rightarrow> False
      | Some p \<Rightarrow>
          list_ex (\<lambda>e. rewrite_alias table (fe_path e) = rewrite_alias table target) (pf_fs p))"

definition evaluate_request ::
    "platform \<Rightarrow> 'v policy_lib \<Rightarrow> policy_set \<Rightarrow> denial_kind \<Rightarrow> string \<Rightarrow> verdict option" where
  "evaluate_request plat lib ps kind target =
     (let rp = (if kind = DenialKind_FsWrite then without_read_only ps else ps);
          lookup = (case class_for kind of
                      None \<Rightarrow> None
                    | Some class \<Rightarrow> pl_evaluate lib rp class target)
      in case plat of
           Linux \<Rightarrow> lookup
         | MacOS table \<Rightarrow>
             if kind = DenialKind_FsRead \<or> kind = DenialKind_FsWrite
             then min_by_key (pl_precedence lib) (filter (\<lambda>v. names_path table target (rp v)) VERDICTS)
             else lookup)"

definition fs_grants :: "fs_entry \<Rightarrow> grant list" where
  "fs_grants e =
     (DenialKind_FsRead, fe_path e) #
     (if fe_write e then [(DenialKind_FsWrite, fe_path e)] else [])"

definition file_grants :: "policy_file \<Rightarrow> grant list" where
  "file_grants f =
     map (\<lambda>e. (DenialKind_Exec, ee_target e)) (pf_exec f) @
     concat (map fs_grants (pf_fs f)) @
     map (\<lambda>e. (DenialKind_Net, ne_host e)) (pf_net f)"

definition approved_grants :: "policy_set \<Rightarrow> grant list" where
  "approved_grants ps =
     (case ps Verdict_Approve of None \<Rightarrow> [] | Some f \<Rightarrow> file_grants f)"

section \<open>Writing\<close>

datatype approve_entry = Approve_Exec string | Approve_Fs string bool | Approve_Net string

fun entry_class :: "approve_entry \<Rightarrow> capability_class" where
  "entry_class (Approve_Exec _) = Class_Exec"
| "entry_class (Approve_Fs _ _) = Class_Fs"
| "entry_class (Approve_Net _) = Class_Net"

fun entry_target :: "approve_entry \<Rightarrow> string" where
  "entry_target (Approve_Exec t) = t"
| "entry_target (Approve_Fs p _) = p"
| "entry_target (Approve_Net h) = h"

definition sign_entry :: "'v policy_lib \<Rightarrow> (bytes \<Rightarrow> bytes) \<Rightarrow> bytes \<Rightarrow> string" where
  "sign_entry lib sign payload = pl_hex lib (sign payload)"

definition bless ::
    "'v policy_lib \<Rightarrow> (capability_class \<Rightarrow> string \<Rightarrow> bool) \<Rightarrow> (bytes \<Rightarrow> bytes) \<Rightarrow>
      capability_class \<Rightarrow> ('e \<Rightarrow> string) \<Rightarrow> ('e \<Rightarrow> bytes) \<Rightarrow> (string option \<Rightarrow> 'e \<Rightarrow> 'e) \<Rightarrow>
      'e \<Rightarrow> 'e \<times> nat \<times> string list" where
  "bless lib danger sign class what payload set_sig e =
     (case pl_validate_approve lib class (what e) danger of
        Inr _ \<Rightarrow> (set_sig (Some (sign_entry lib sign (payload e))) e, 1, [])
      | Inl reason \<Rightarrow> (e, 0, [reason]))"

definition sign_approves ::
    "'v policy_lib \<Rightarrow> (capability_class \<Rightarrow> string \<Rightarrow> bool) \<Rightarrow> (bytes \<Rightarrow> bytes) \<Rightarrow> policy_file \<Rightarrow>
      policy_file \<times> nat \<times> string list" where
  "sign_approves lib danger sign f =
     (let es = map (bless lib danger sign Class_Exec ee_target (pl_exec_payload lib)
                     (\<lambda>s e. e\<lparr>ee_sig := s\<rparr>)) (pf_exec f);
          fs = map (bless lib danger sign Class_Fs fe_path (pl_fs_payload lib)
                     (\<lambda>s e. e\<lparr>fe_sig := s\<rparr>)) (pf_fs f);
          ns = map (bless lib danger sign Class_Net ne_host (pl_net_payload lib)
                     (\<lambda>s e. e\<lparr>ne_sig := s\<rparr>)) (pf_net f)
      in (\<lparr>pf_exec = map fst es, pf_fs = map fst fs, pf_net = map fst ns\<rparr>,
          sum_list (map (fst \<circ> snd) es) + sum_list (map (fst \<circ> snd) fs) +
            sum_list (map (fst \<circ> snd) ns),
          concat (map (snd \<circ> snd) es) @ concat (map (snd \<circ> snd) fs) @
            concat (map (snd \<circ> snd) ns)))"

definition normalize_fs_path :: "bool list \<Rightarrow> string \<Rightarrow> string + string" where
  "normalize_fs_path table p =
     (if \<not> path_is_absolute (path_components p)
      then Inl (''permanent allow refused: fs target `'' @ p @ ''` must be an absolute path'')
      else let normalized = lexically_normalize table p in
        if ParentDir \<in> set normalized
        then Inl (''permanent allow refused: fs target `'' @ p @ ''` escapes above its root'')
        else Inr (path_text normalized))"

definition normalize_fs_target :: "bool list \<Rightarrow> approve_entry \<Rightarrow> string + approve_entry" where
  "normalize_fs_target table e =
     (case e of
        Approve_Fs p write \<Rightarrow> rbind (normalize_fs_path table p) (\<lambda>q. Inr (Approve_Fs q write))
      | _ \<Rightarrow> Inr e)"

datatype store_error = StoreError_Message string | StoreError_Io io_error

record 'w approve_io =
  ai_lock :: "'w \<Rightarrow> (store_error + unit) \<times> 'w"
  ai_read :: "'w \<Rightarrow> io_error + string"
  ai_atomic_write :: "string \<Rightarrow> 'w \<Rightarrow> (store_error + unit) \<times> 'w"

definition push_entry ::
    "'v policy_lib \<Rightarrow> (bytes \<Rightarrow> bytes) \<Rightarrow> approve_entry \<Rightarrow> policy_file \<Rightarrow> policy_file" where
  "push_entry lib sign entry f =
     (case entry of
        Approve_Exec t \<Rightarrow>
          (let e = \<lparr>ee_target = t, ee_sig = None\<rparr> in
           f\<lparr>pf_exec := pf_exec f @
             [e\<lparr>ee_sig := Some (sign_entry lib sign (pl_exec_payload lib e))\<rparr>]\<rparr>)
      | Approve_Fs p write \<Rightarrow>
          (let e = \<lparr>fe_path = p, fe_write = write, fe_sig = None\<rparr> in
           f\<lparr>pf_fs := pf_fs f @ [e\<lparr>fe_sig := Some (sign_entry lib sign (pl_fs_payload lib e))\<rparr>]\<rparr>)
      | Approve_Net h \<Rightarrow>
          (let e = \<lparr>ne_host = h, ne_sig = None\<rparr> in
           f\<lparr>pf_net := pf_net f @
             [e\<lparr>ne_sig := Some (sign_entry lib sign (pl_net_payload lib e))\<rparr>]\<rparr>))"

definition text_or_empty :: "io_error + string \<Rightarrow> store_error + string" where
  "text_or_empty r =
     (case r of
        Inr t \<Rightarrow> Inr t
      | Inl e \<Rightarrow> if e = Io_NotFound then Inr [] else Inl (StoreError_Io e))"

definition persist_approve ::
    "bool list \<Rightarrow> 'v policy_lib \<Rightarrow> 'w approve_io \<Rightarrow> (capability_class \<Rightarrow> string \<Rightarrow> bool) \<Rightarrow>
      (bytes \<Rightarrow> bytes) \<Rightarrow> approve_entry \<Rightarrow> 'w \<Rightarrow> (store_error + bool) \<times> 'w" where
  "persist_approve table lib io danger sign entry w =
     (case rbind (normalize_fs_target table entry) (\<lambda>e.
             rbind (pl_validate_approve lib (entry_class e) (entry_target e) danger) (\<lambda>_. Inr e)) of
        Inl msg \<Rightarrow> (Inl (StoreError_Message msg), w)
      | Inr e \<Rightarrow>
          (case ai_lock io w of
             (Inl err, w1) \<Rightarrow> (Inl err, w1)
           | (Inr _, w1) \<Rightarrow>
               (case rbind (text_or_empty (ai_read io w1)) (\<lambda>text.
                       rbind (map_err StoreError_Message (pl_parse lib text)) (\<lambda>f.
                       rbind (map_err StoreError_Message
                                (pl_to_toml lib (push_entry lib sign e f))) (\<lambda>toml.
                         Inr (text, toml)))) of
                  Inl err \<Rightarrow> (Inl err, w1)
                | Inr (text, toml) \<Rightarrow>
                    (case ai_atomic_write io toml w1 of
                       (Inl err, w2) \<Rightarrow> (Inl err, w2)
                     | (Inr _, w2) \<Rightarrow> (Inr (CHR ''#'' \<in> set text), w2)))))"

section \<open>Facts\<close>

text \<open>
  What the code relies on of the crate: the approvals it verifies are the entries whose
  signature is valid for their payload, and a payload does not depend on the signature.
\<close>

definition keeps_signed :: "'v policy_lib \<Rightarrow> 'v \<Rightarrow> (bytes \<Rightarrow> string option \<Rightarrow> bool) \<Rightarrow> bool" where
  "keeps_signed lib k valid \<longleftrightarrow>
     (\<forall>f. pf_exec (fst (pl_verified_approves lib k f)) =
            filter (\<lambda>e. valid (pl_exec_payload lib e) (ee_sig e)) (pf_exec f) \<and>
          pf_fs (fst (pl_verified_approves lib k f)) =
            filter (\<lambda>e. valid (pl_fs_payload lib e) (fe_sig e)) (pf_fs f) \<and>
          pf_net (fst (pl_verified_approves lib k f)) =
            filter (\<lambda>e. valid (pl_net_payload lib e) (ne_sig e)) (pf_net f)) \<and>
     (\<forall>e s. pl_exec_payload lib (e\<lparr>ee_sig := s\<rparr>) = pl_exec_payload lib e) \<and>
     (\<forall>e s. pl_fs_payload lib (e\<lparr>fe_sig := s\<rparr>) = pl_fs_payload lib e) \<and>
     (\<forall>e s. pl_net_payload lib (e\<lparr>ne_sig := s\<rparr>) = pl_net_payload lib e)"

lemma load_store_approve:
  "fst (load_store lib rf key) Verdict_Approve =
     (case rf Verdict_Approve of
        None \<Rightarrow> None
      | Some text \<Rightarrow>
          (case pl_parse lib text of
             Inl _ \<Rightarrow> None
           | Inr f \<Rightarrow>
               (case key of None \<Rightarrow> None | Some k \<Rightarrow> Some (fst (pl_verified_approves lib k f)))))"
proof -
  have built: "fst (build_store lib (map (\<lambda>v. (v, rf v)) VERDICTS)) Verdict_Approve =
      (case rf Verdict_Approve of None \<Rightarrow> None
       | Some text \<Rightarrow> (case pl_parse lib text of Inl _ \<Rightarrow> None | Inr f \<Rightarrow> Some f))"
    by (simp add: build_store_def VERDICTS_def split: option.splits sum.splits)
  have "fst (load_store lib rf key) =
      fst (verify_approves lib (fst (build_store lib (map (\<lambda>v. (v, rf v)) VERDICTS))) key)"
    by (simp add: load_store_def split: prod.splits)
  then show ?thesis
    using built by (simp add: verify_approves_def Let_def split: option.splits sum.splits prod.splits)
qed

text \<open>The grants of the entries that carry a valid signature.\<close>

definition signed_grant ::
    "'v policy_lib \<Rightarrow> (bytes \<Rightarrow> string option \<Rightarrow> bool) \<Rightarrow> policy_file \<Rightarrow> grant \<Rightarrow> bool" where
  "signed_grant lib valid f g \<longleftrightarrow>
     (\<exists>e \<in> set (pf_exec f). valid (pl_exec_payload lib e) (ee_sig e) \<and>
        g = (DenialKind_Exec, ee_target e)) \<or>
     (\<exists>e \<in> set (pf_fs f). valid (pl_fs_payload lib e) (fe_sig e) \<and> g \<in> set (fs_grants e)) \<or>
     (\<exists>e \<in> set (pf_net f). valid (pl_net_payload lib e) (ne_sig e) \<and>
        g = (DenialKind_Net, ne_host e))"

lemma verified_grants:
  "keeps_signed lib k valid \<Longrightarrow>
     g \<in> set (file_grants (fst (pl_verified_approves lib k f))) \<longleftrightarrow> signed_grant lib valid f g"
  by (auto simp: keeps_signed_def file_grants_def signed_grant_def)

lemma loaded_grants:
  assumes "keeps_signed lib k valid"
  shows "g \<in> set (approved_grants (fst (load_store lib rf (Some k)))) \<longleftrightarrow>
     (\<exists>text f. rf Verdict_Approve = Some text \<and> pl_parse lib text = Inr f \<and>
        signed_grant lib valid f g)"
  using verified_grants [OF assms]
  by (auto simp: approved_grants_def load_store_approve split: option.splits sum.splits)

lemma no_key_no_grants: "approved_grants (fst (load_store lib rf None)) = []"
  by (simp add: approved_grants_def load_store_approve split: option.splits sum.splits)

fun entry_grants :: "approve_entry \<Rightarrow> grant list" where
  "entry_grants (Approve_Exec t) = [(DenialKind_Exec, t)]"
| "entry_grants (Approve_Fs p write) =
     (DenialKind_FsRead, p) # (if write then [(DenialKind_FsWrite, p)] else [])"
| "entry_grants (Approve_Net h) = [(DenialKind_Net, h)]"

lemma signed_grant_push:
  assumes "keeps_signed lib k valid" "\<And>b. valid b (Some (sign_entry lib sign b))"
  shows "signed_grant lib valid (push_entry lib sign e f) g \<longleftrightarrow>
     signed_grant lib valid f g \<or> g \<in> set (entry_grants e)"
proof -
  have pays: "pl_exec_payload lib \<lparr>ee_target = t, ee_sig = s\<rparr> =
        pl_exec_payload lib \<lparr>ee_target = t, ee_sig = None\<rparr>"
    "pl_fs_payload lib \<lparr>fe_path = p, fe_write = w, fe_sig = s\<rparr> =
        pl_fs_payload lib \<lparr>fe_path = p, fe_write = w, fe_sig = None\<rparr>"
    "pl_net_payload lib \<lparr>ne_host = h, ne_sig = s\<rparr> =
        pl_net_payload lib \<lparr>ne_host = h, ne_sig = None\<rparr>" for t p w h s
    using assms(1) unfolding keeps_signed_def
    by (metis exec_entry.update_convs(2), metis fs_entry.update_convs(3),
        metis net_entry.update_convs(2))
  have ok: "valid (pl_exec_payload lib \<lparr>ee_target = t, ee_sig = s1\<rparr>)
        (Some (sign_entry lib sign (pl_exec_payload lib \<lparr>ee_target = t, ee_sig = None\<rparr>)))"
    "valid (pl_fs_payload lib \<lparr>fe_path = p, fe_write = w, fe_sig = s1\<rparr>)
        (Some (sign_entry lib sign
           (pl_fs_payload lib \<lparr>fe_path = p, fe_write = w, fe_sig = None\<rparr>)))"
    "valid (pl_net_payload lib \<lparr>ne_host = h, ne_sig = s1\<rparr>)
        (Some (sign_entry lib sign (pl_net_payload lib \<lparr>ne_host = h, ne_sig = None\<rparr>)))"
    for t p w h s1
    by (subst pays, rule assms(2))+
  show ?thesis
    by (cases e) (auto simp: push_entry_def Let_def signed_grant_def fs_grants_def ok)
qed

lemma persist_refuses_untouched:
  "rbind (normalize_fs_target table entry) (\<lambda>e.
      rbind (pl_validate_approve lib (entry_class e) (entry_target e) danger) (\<lambda>_. Inr e)) = Inl msg \<Longrightarrow>
   persist_approve table lib io danger sign entry w = (Inl (StoreError_Message msg), w)"
  by (simp add: persist_approve_def)

lemma persist_approve_InrE:
  assumes "persist_approve table lib io danger sign entry w = (Inr c, w')"
  obtains e w1 body f toml where
    "normalize_fs_target table entry = Inr e"
    "pl_validate_approve lib (entry_class e) (entry_target e) danger = Inr ()"
    "ai_lock io w = (Inr (), w1)" "text_or_empty (ai_read io w1) = Inr body"
    "pl_parse lib body = Inr f" "pl_to_toml lib (push_entry lib sign e f) = Inr toml"
    "ai_atomic_write io toml w1 = (Inr (), w')"
  using assms
  by (auto simp: persist_approve_def result_simps split: sum.splits prod.splits)

lemma normalized_fs_path:
  assumes "normalize_fs_path table p = Inr q"
  shows "path_is_absolute (path_components p)" "ParentDir \<notin> set (lexically_normalize table p)"
    "q = path_text (lexically_normalize table p)"
  using assms by (auto simp: normalize_fs_path_def Let_def split: if_splits)

section \<open>Properties\<close>

text \<open>
  C26. Only a signature makes a durable grant: after loading the store with the operator's key,
  the grants it approves are exactly those of the entries of approve.toml whose signature is
  valid for their payload (a read-only file entry grants reading alone), and without a key, or
  when the file does not parse, there are none, whatever the files hold.
\<close>

theorem only_signed_entries_grant:
  assumes "keeps_signed lib k valid"
  shows "(g \<in> set (approved_grants (fst (load_store lib rf key))) \<longrightarrow> key \<noteq> None) \<and>
    (g \<in> set (approved_grants (fst (load_store lib rf (Some k)))) \<longleftrightarrow>
       (\<exists>body f. rf Verdict_Approve = Some body \<and> pl_parse lib body = Inr f \<and>
         ((\<exists>e \<in> set (pf_exec f). valid (pl_exec_payload lib e) (ee_sig e) \<and>
             g = (DenialKind_Exec, ee_target e)) \<or>
          (\<exists>e \<in> set (pf_fs f). valid (pl_fs_payload lib e) (fe_sig e) \<and>
             (g = (DenialKind_FsRead, fe_path e) \<or>
              fe_write e \<and> g = (DenialKind_FsWrite, fe_path e))) \<or>
          (\<exists>e \<in> set (pf_net f). valid (pl_net_payload lib e) (ne_sig e) \<and>
             g = (DenialKind_Net, ne_host e)))))"
proof (intro conjI impI)
  assume "g \<in> set (approved_grants (fst (load_store lib rf key)))"
  then show "key \<noteq> None" using no_key_no_grants [of lib rf] by (cases key) auto
next
  have fs: "g \<in> set (fs_grants e) \<longleftrightarrow>
      g = (DenialKind_FsRead, fe_path e) \<or> fe_write e \<and> g = (DenialKind_FsWrite, fe_path e)" for e
    by (auto simp: fs_grants_def)
  show "g \<in> set (approved_grants (fst (load_store lib rf (Some k)))) \<longleftrightarrow>
       (\<exists>body f. rf Verdict_Approve = Some body \<and> pl_parse lib body = Inr f \<and>
         ((\<exists>e \<in> set (pf_exec f). valid (pl_exec_payload lib e) (ee_sig e) \<and>
             g = (DenialKind_Exec, ee_target e)) \<or>
          (\<exists>e \<in> set (pf_fs f). valid (pl_fs_payload lib e) (fe_sig e) \<and>
             (g = (DenialKind_FsRead, fe_path e) \<or>
              fe_write e \<and> g = (DenialKind_FsWrite, fe_path e))) \<or>
          (\<exists>e \<in> set (pf_net f). valid (pl_net_payload lib e) (ne_sig e) \<and>
             g = (DenialKind_Net, ne_host e))))"
    unfolding loaded_grants [OF assms] signed_grant_def fs by (rule refl)
qed

text \<open>
  C38. A permanent allow is there after a restart, and nothing rides along: when the writer
  reports success, the entry was not high-danger and a file target was absolute and climbed
  nowhere; loading the file it left, with a key the signature verifies under, yields exactly
  the grants of the entry and those of the entries that were signed before, so an unsigned or
  tampered entry that lay in the file does not become a grant.
\<close>

theorem permanent_allow_survives:
  assumes "keeps_signed lib k valid"
    and "\<And>b. valid b (Some (sign_entry lib sign b))"
    and "\<And>c t. danger c t \<Longrightarrow> \<exists>msg. pl_validate_approve lib c t danger = Inl msg"
    and "\<And>f toml. pl_to_toml lib f = Inr toml \<Longrightarrow> pl_parse lib toml = Inr f"
    and "\<And>t w1 w2. ai_atomic_write io t w1 = (Inr (), w2) \<Longrightarrow> ai_read io w2 = Inr t"
    and "persist_approve table lib io danger sign entry w = (Inr c, w')"
    and "rf Verdict_Approve = (case ai_read io w' of Inr t \<Rightarrow> Some t | Inl _ \<Rightarrow> None)"
  shows "\<exists>w1 body f e. ai_lock io w = (Inr (), w1) \<and> text_or_empty (ai_read io w1) = Inr body \<and>
    pl_parse lib body = Inr f \<and> normalize_fs_target table entry = Inr e \<and>
    \<not> danger (entry_class e) (entry_target e) \<and>
    (\<forall>p write. entry = Approve_Fs p write \<longrightarrow> path_is_absolute (path_components p) \<and>
       e = Approve_Fs (path_text (lexically_normalize table p)) write \<and>
       ParentDir \<notin> set (lexically_normalize table p)) \<and>
    (\<forall>g. g \<in> set (approved_grants (fst (load_store lib rf (Some k)))) \<longleftrightarrow>
       signed_grant lib valid f g \<or> g \<in> set (entry_grants e))"
proof -
  from assms(6) obtain e w1 body f toml where e: "normalize_fs_target table entry = Inr e"
    and ok: "pl_validate_approve lib (entry_class e) (entry_target e) danger = Inr ()"
    and lock: "ai_lock io w = (Inr (), w1)"
    and body: "text_or_empty (ai_read io w1) = Inr body" "pl_parse lib body = Inr f"
    and toml: "pl_to_toml lib (push_entry lib sign e f) = Inr toml"
      "ai_atomic_write io toml w1 = (Inr (), w')"
    by (rule persist_approve_InrE)
  have "\<not> danger (entry_class e) (entry_target e)" using assms(3) ok by fastforce
  moreover have "\<forall>p write. entry = Approve_Fs p write \<longrightarrow> path_is_absolute (path_components p) \<and>
       e = Approve_Fs (path_text (lexically_normalize table p)) write \<and>
       ParentDir \<notin> set (lexically_normalize table p)"
    using e by (auto simp: normalize_fs_target_def result_simps dest: normalized_fs_path)
  moreover have "rf Verdict_Approve = Some toml" "pl_parse lib toml = Inr (push_entry lib sign e f)"
    using assms(4,5) toml by (simp_all add: assms(7))
  then have "\<forall>g. g \<in> set (approved_grants (fst (load_store lib rf (Some k)))) \<longleftrightarrow>
       signed_grant lib valid f g \<or> g \<in> set (entry_grants e)"
    using signed_grant_push [OF assms(1,2)] by (auto simp: loaded_grants [OF assms(1)])
  ultimately show ?thesis using lock body e by blast
qed

definition sample_file :: policy_file where
  "sample_file = \<lparr>pf_exec = [], pf_fs = [],
     pf_net = [\<lparr>ne_host = ''a'', ne_sig = None\<rparr>, \<lparr>ne_host = ''b'', ne_sig = Some ''s''\<rparr>]\<rparr>"

definition sample_lib :: "unit policy_lib" where
  "sample_lib =
     \<lparr>pl_parse = (\<lambda>t. if t = ''1''
                     then Inr (sample_file\<lparr>pf_net := [\<lparr>ne_host = ''a'', ne_sig = None\<rparr>]\<rparr>)
                     else if t = ''2'' then Inr sample_file else Inl ''bad''),
      pl_to_toml = (\<lambda>f. if f = sample_file then Inr ''2'' else Inl ''bad''),
      pl_evaluate = (\<lambda>_ _ _. None), pl_precedence = (\<lambda>_. 0),
      pl_validate_approve = (\<lambda>c t d. if d c t then Inl ''high'' else Inr ()),
      pl_verified_approves = (\<lambda>_ f.
        (\<lparr>pf_exec = filter (\<lambda>e. ee_sig e \<noteq> None) (pf_exec f),
          pf_fs = filter (\<lambda>e. fe_sig e \<noteq> None) (pf_fs f),
          pf_net = filter (\<lambda>e. ne_sig e \<noteq> None) (pf_net f)\<rparr>, [])),
      pl_exec_payload = (\<lambda>_. []), pl_fs_payload = (\<lambda>_. []), pl_net_payload = (\<lambda>_. []),
      pl_hex = (\<lambda>_. ''s'')\<rparr>"

lemma sample_lib_keeps_signed: "keeps_signed sample_lib () (\<lambda>_ s. s \<noteq> None)"
  by (simp add: keeps_signed_def sample_lib_def)

lemma only_signed_entries_grant_witness:
  "(DenialKind_Net, ''b'') \<in> set (approved_grants (fst (load_store sample_lib
     (\<lambda>v. if v = Verdict_Approve then Some ''2'' else None) (Some ())))) \<and>
   (DenialKind_Net, ''a'') \<notin> set (approved_grants (fst (load_store sample_lib
     (\<lambda>v. if v = Verdict_Approve then Some ''2'' else None) (Some ()))))"
  unfolding only_signed_entries_grant [OF sample_lib_keeps_signed, THEN conjunct2]
  by (auto simp: sample_lib_def sample_file_def)

lemma permanent_allow_survives_witness:
  "set (approved_grants (fst (load_store sample_lib
     (\<lambda>v. if v = Verdict_Approve then Some ''2'' else None) (Some ())))) = {(DenialKind_Net, ''b'')}"
proof -
  let ?io = "\<lparr>ai_lock = (\<lambda>w. (Inr (), w)), ai_read = Inr, ai_atomic_write = (\<lambda>t w. (Inr (), t))\<rparr>"
  let ?rf = "\<lambda>v. if v = Verdict_Approve then Some ''2'' else None"
  let ?f = "\<lparr>pf_exec = [], pf_fs = [], pf_net = [\<lparr>ne_host = ''a'', ne_sig = None\<rparr>]\<rparr>"
  have run: "persist_approve [] sample_lib ?io (\<lambda>_ _. False) id (Approve_Net ''b'') ''1'' =
      (Inr False, ''2'')"
    by (simp add: persist_approve_def normalize_fs_target_def sample_lib_def sample_file_def push_entry_def
        text_or_empty_def sign_entry_def)
  have toml: "pl_parse sample_lib t = Inr f" if "pl_to_toml sample_lib f = Inr t" for f t
    using that by (auto simp: sample_lib_def split: if_splits)
  have io: "ai_read ?io w2 = Inr t" if "ai_atomic_write ?io t w1 = (Inr (), w2)" for t w1 w2
    using that by simp
  have rf: "?rf Verdict_Approve = (case ai_read ?io ''2'' of Inr t \<Rightarrow> Some t | Inl _ \<Rightarrow> None)"
    by simp
  have danger: "\<exists>msg. pl_validate_approve sample_lib c t (\<lambda>_ _. False) = Inl msg"
    if "False" for c t using that by simp
  obtain body f e where f: "body = ''1''" "pl_parse sample_lib body = Inr f"
      "normalize_fs_target [] (Approve_Net ''b'') = Inr e"
    and loaded: "\<forall>g. g \<in> set (approved_grants (fst (load_store sample_lib ?rf (Some ())))) \<longleftrightarrow>
       signed_grant sample_lib (\<lambda>_ s. s \<noteq> None) f g \<or> g \<in> set (entry_grants e)"
    using permanent_allow_survives [where rf = ?rf, OF sample_lib_keeps_signed _ danger toml io run rf]
    by (auto simp: text_or_empty_def)
  have "f = ?f" "e = Approve_Net ''b''"
    using f by (simp_all add: sample_lib_def sample_file_def normalize_fs_target_def)
  then show ?thesis using loaded by (auto simp: signed_grant_def)
qed

end
