(* ===== verification/PermissionForm.thy ===== *)
theory PermissionForm
  imports Danger OcapStore InteractionBinding
begin

text \<open>
  The form of a permission prompt and its authorization: the policy and the marshalling of
  \<^verbatim>\<open>newt-tui/src/permissions.rs\<close>, \<^verbatim>\<open>newt-core/src/interaction_adapter.rs\<close>,
  \<^verbatim>\<open>newt-core/src/interaction_gate.rs\<close> and the part of
  \<^verbatim>\<open>newt-core/src/interaction_surface.rs\<close> they use. The functions that mint record ids
  are one record; the clock and the two random identifiers are arguments. Building a form has
  two \<^verbatim>\<open>expect\<close>s and the debug guards of the definition's constructor; each is an error
  value here, and \<open>permission_definition_total\<close> shows that none is reached.
\<close>

section \<open>Actions\<close>

definition role_of :: "permission_action \<Rightarrow> semantic_role" where
  "role_of a =
     (case a of
        AllowOnce \<Rightarrow> SemanticRole_Allow
      | AllowSession \<Rightarrow> SemanticRole_Allow
      | AllowPermanent \<Rightarrow> SemanticRole_Allow
      | Deny \<Rightarrow> SemanticRole_Deny
      | DenyAlways \<Rightarrow> SemanticRole_Deny
      | DenyPermanent \<Rightarrow> SemanticRole_Deny
      | Back \<Rightarrow> SemanticRole_Cancel
      | Exit \<Rightarrow> SemanticRole_Exit)"

definition all_actions :: "permission_action list" where
  "all_actions =
     [AllowOnce, AllowSession, AllowPermanent, Deny, DenyAlways, DenyPermanent, Back, Exit]"

definition action_for_option :: "string \<Rightarrow> permission_action option" where
  "action_for_option wire = List.find (\<lambda>a. action_as_str a = wire) all_actions"

definition decision_scope :: "permission_action \<Rightarrow> string" where
  "decision_scope a =
     (case a of
        AllowOnce \<Rightarrow> ''once''
      | AllowSession \<Rightarrow> ''session''
      | AllowPermanent \<Rightarrow> ''permanent''
      | Deny \<Rightarrow> ''once''
      | DenyAlways \<Rightarrow> ''session''
      | DenyPermanent \<Rightarrow> ''permanent''
      | Back \<Rightarrow> ''control''
      | Exit \<Rightarrow> ''control'')"

definition DECISION_CONTROL :: string where
  "DECISION_CONTROL = ''decision''"

section \<open>The policy\<close>

record offered_action =
  oa_action :: permission_action
  oa_key :: string
  oa_label :: string

definition MODAL_CONTROL_HINT :: string where
  "MODAL_CONTROL_HINT =
     ''Esc=back '' @ map char_of [194, 183 :: nat] @ '' Ctrl-C/Ctrl-D=exit''"

definition permission_note :: "denial_kind \<Rightarrow> danger_tier \<Rightarrow> audience \<Rightarrow> string" where
  "permission_note kind tier aud =
     (if tier = DangerTier_High then
        (case aud of
           Audience_Terminal \<Rightarrow>
             if kind = DenialKind_Build
             then ''confined build authority: session allow covers build/test/check for this '' @
                  ''workspace this session'' @ [newline] @ MODAL_CONTROL_HINT
             else ''high-danger: session allow refused; key allow / step-up is the future path, P3'' @
                  [newline] @ MODAL_CONTROL_HINT
         | Audience_Web \<Rightarrow>
             if kind = DenialKind_Build
             then ''Confined build authority: session authorization is available.'' @
                  [newline] @ MODAL_CONTROL_HINT
             else ''High danger: session authorization is unavailable.'' @
                  [newline] @ MODAL_CONTROL_HINT)
      else MODAL_CONTROL_HINT)"

definition durable_kind :: "denial_kind \<Rightarrow> bool" where
  "durable_kind kind \<longleftrightarrow>
     kind \<in> {DenialKind_Exec, DenialKind_FsRead, DenialKind_FsWrite, DenialKind_Net}"

definition permission_policy ::
    "permission_request \<Rightarrow> danger_table \<Rightarrow> audience \<Rightarrow> offered_action list \<times> string option" where
  "permission_policy req danger aud =
     (let tier = danger_classify danger (rq_kind req) (rq_target req);
          terminal = (aud = Audience_Terminal);
          one_shot = (rq_tool req = ''lifecycle'' \<and> rq_kind req = DenialKind_Net);
          once = [\<lparr>oa_action = AllowOnce, oa_key = ''a'', oa_label = ''allow once''\<rparr>];
          session =
            (if \<not> one_shot \<and> (tier = DangerTier_Low \<or> rq_kind req = DenialKind_Build)
             then \<lparr>oa_action = AllowSession, oa_key = ''s'', oa_label = ''session allow''\<rparr> #
                  (if terminal \<and> durable_kind (rq_kind req)
                   then [\<lparr>oa_action = AllowPermanent, oa_key = ''A'',
                          oa_label = ''Allow permanently (signs a durable grant)''\<rparr>]
                   else [])
             else []);
          deny = [\<lparr>oa_action = Deny, oa_key = ''d'', oa_label = ''deny''\<rparr>];
          durable =
            (if terminal
             then [\<lparr>oa_action = DenyAlways, oa_key = ''D'', oa_label = ''Deny always''\<rparr>,
                   \<lparr>oa_action = DenyPermanent, oa_key = ''P'', oa_label = ''Permanently deny''\<rparr>]
             else [])
      in (once @ session @ deny @ durable, Some (permission_note (rq_kind req) tier aud)))"

definition reason_is_model_authored :: "permission_request \<Rightarrow> bool" where
  "reason_is_model_authored req \<longleftrightarrow>
     rq_tool req = ''request_permissions'' \<and> \<not> rq_harness_bound req"

definition verb_and_axis :: "permission_request \<Rightarrow> string \<times> string" where
  "verb_and_axis req =
     (case rq_kind req of
        DenialKind_Exec \<Rightarrow> (''run'', ''outside the granted exec allowlist'')
      | DenialKind_FsRead \<Rightarrow> (''read'', ''outside the granted fs_read scope'')
      | DenialKind_FsWrite \<Rightarrow> (''write'', ''outside the granted fs_write scope'')
      | DenialKind_Net \<Rightarrow>
          if rq_tool req = ''mcp connect''
          then (''reach'', ''MCP connection requires a named host grant'')
          else (''reach'', ''outside the granted net allowlist'')
      | DenialKind_RemoteTool \<Rightarrow> (''call'', ''requires operator permission'')
      | DenialKind_Build \<Rightarrow> (''build/test'', ''requires confined build authority'')
      | DenialKind_GitWrite \<Rightarrow>
          (''commit/stage via git'', ''outside the granted git-write authority''))"

definition double_quote :: string where
  "double_quote = [CHR 0x22]"

definition permission_markdown :: "permission_request \<Rightarrow> danger_table \<Rightarrow> string" where
  "permission_markdown req danger =
     (let (verb, axis0) = verb_and_axis req;
          axis = (if rq_tool req = ''request_permissions'' then ''model requested permission''
                  else axis0);
          blast = (case blast_radius danger (rq_kind req) (rq_target req) of
                     Some line \<Rightarrow> line @ [newline] | None \<Rightarrow> []);
          reason =
            (if rq_reason req = [] then []
             else if reason_is_model_authored req
             then ''  model says (model-authored, unverified): '' @ double_quote @ rq_reason req @
                  double_quote @ [newline]
             else ''  ('' @ rq_reason req @ '')'' @ [newline])
      in trim_end (map char_of [226, 138, 152 :: nat] @ '' '' @ rq_tool req @ '' wants to '' @ verb @
           '' `'' @ rq_target req @ ''` '' @ dash @ '' '' @ axis @ ''.'' @ [newline] @ blast @ reason))"

section \<open>The definition\<close>

datatype form_panic = FormPanic_Name | FormPanic_Shape nat

definition expect_option_id :: "string \<Rightarrow> form_panic + option_id" where
  "expect_option_id s =
     map_err (\<lambda>_. FormPanic_Name) (OptionId_new s :: unit protocol_error + option_id)"

definition offer_option :: "permission_action \<Rightarrow> offered_action \<Rightarrow> form_panic + choice_option" where
  "offer_option dflt oa =
     rbind (expect_option_id (action_as_str (oa_action oa))) (\<lambda>i.
       Inr \<lparr>co_id = i, co_role = role_of (oa_action oa),
            co_label = (if oa_action oa = dflt then oa_label oa @ '' (default)'' else oa_label oa),
            co_key = oa_key oa, co_aliases = []\<rparr>)"

definition permission_definition_with_default ::
    "bool \<Rightarrow> permission_request \<Rightarrow> danger_table \<Rightarrow> audience \<Rightarrow> permission_action \<Rightarrow>
      form_panic + (interaction_definition \<times> permission_action)" where
  "permission_definition_with_default debug req danger aud wanted =
     (let (offered, note) = permission_policy req danger aud;
          dflt = (if list_ex (\<lambda>oa. oa_action oa = wanted) offered then wanted else Deny)
      in rbind (traverse (offer_option dflt) offered) (\<lambda>opts.
         rbind (map_err (\<lambda>_. FormPanic_Name)
                  (ControlId_new DECISION_CONTROL :: unit protocol_error + control_id)) (\<lambda>cid.
         let controls = [\<lparr>ctl_id = cid, ctl_kind = ControlKind_Choice opts, ctl_label = [],
                          ctl_requirement = Requirement_Required\<rparr>];
             kind = (if controls_are_decision_shaped controls then InteractionKind_Confirm
                     else InteractionKind_Choice)
         in rbind (map_err FormPanic_Shape
                (InteractionDefinition_new debug kind (permission_markdown req danger) controls))
              (\<lambda>d. Inr (d\<lparr>def_note := note\<rparr>, dflt)))))"

definition permission_definition ::
    "bool \<Rightarrow> permission_request \<Rightarrow> danger_table \<Rightarrow> audience \<Rightarrow>
      form_panic + interaction_definition" where
  "permission_definition debug req danger aud =
     rbind (permission_definition_with_default debug req danger aud Deny) (\<lambda>(d, _). Inr d)"

datatype disposition = Disposition_Blocking | Disposition_NonBlocking
datatype attention = Attention_Requested | Attention_Passive

record surface_interaction =
  si_definition :: interaction_definition
  si_disposition :: disposition
  si_attention :: attention
  si_default_option :: "option_id option"

definition SurfaceInteraction_blocking :: "interaction_definition \<Rightarrow> surface_interaction" where
  "SurfaceInteraction_blocking d =
     \<lparr>si_definition = d, si_disposition = Disposition_Blocking,
      si_attention = Attention_Requested, si_default_option = None\<rparr>"

definition with_default_option :: "option_id \<Rightarrow> surface_interaction \<Rightarrow> surface_interaction" where
  "with_default_option opt si = si\<lparr>si_default_option := Some opt\<rparr>"

definition default_choice :: "surface_interaction \<Rightarrow> choice_option option" where
  "default_choice si =
     (case def_controls (si_definition si) of
        [control] \<Rightarrow>
          (case ctl_kind control of
             ControlKind_Choice opts \<Rightarrow>
               (case si_default_option si of
                  None \<Rightarrow> None
                | Some i \<Rightarrow> List.find (\<lambda>opt. co_id opt = i) opts)
           | _ \<Rightarrow> None)
      | _ \<Rightarrow> None)"

definition answer_or_default :: "surface_interaction \<Rightarrow> string \<Rightarrow> string" where
  "answer_or_default si answer =
     (if answer = []
      then (case default_choice si of None \<Rightarrow> answer | Some opt \<Rightarrow> OptionId_as_str (co_id opt))
      else answer)"

definition permission_interaction ::
    "bool \<Rightarrow> permission_request \<Rightarrow> danger_table \<Rightarrow> permission_action \<Rightarrow>
      form_panic + surface_interaction" where
  "permission_interaction debug req danger configured =
     (let configured' =
            (if rq_tool req = ''mcp connect'' \<and> rq_kind req = DenialKind_Net \<or>
                configured = AllowOnce \<or> configured = Deny
             then configured else Deny)
      in rbind (if configured' = Deny
                then rbind (permission_definition debug req danger Audience_Terminal)
                       (\<lambda>d. Inr (d, Deny))
                else permission_definition_with_default debug req danger Audience_Terminal configured')
           (\<lambda>(d, dflt).
         rbind (expect_option_id (action_as_str dflt)) (\<lambda>i.
           Inr (with_default_option i (SurfaceInteraction_blocking d)))))"

section \<open>Decoding an answer\<close>

fun find_choice :: "control list \<Rightarrow> choice_option list option" where
  "find_choice [] = None"
| "find_choice (c # cs) =
     (case ctl_kind c of ControlKind_Choice opts \<Rightarrow> Some opts | _ \<Rightarrow> find_choice cs)"

definition resolve_answer :: "interaction_definition \<Rightarrow> string \<Rightarrow> permission_action option" where
  "resolve_answer d answer =
     (case find_choice (def_controls d) of
        None \<Rightarrow> None
      | Some opts \<Rightarrow>
          (case resolve_typed opts answer of
             None \<Rightarrow> None
           | Some opt \<Rightarrow> action_for_option (OptionId_as_str opt)))"

definition decode_answer :: "interaction_definition \<Rightarrow> string \<Rightarrow> permission_action" where
  "decode_answer d answer =
     (case resolve_answer d answer of Some a \<Rightarrow> a | None \<Rightarrow> Deny)"

section \<open>Authorizing a decoded action\<close>

record ('c, 'x) minting =
  mt_def :: "interaction_definition \<Rightarrow> 'x + 'c"
  mt_inst :: "'c interaction_instance \<Rightarrow> 'x + 'c"
  mt_resp :: "'c response \<Rightarrow> 'x + 'c"
  mt_show :: "'c \<Rightarrow> string"

definition PERMISSION_REQUEST_TTL_NANOS :: int where
  "PERMISSION_REQUEST_TTL_NANOS = 5 * 60 * 1000000000"

definition mint_offer ::
    "('c, 'x) minting \<Rightarrow> interaction_definition \<Rightarrow> string \<Rightarrow> string \<Rightarrow> audience list \<Rightarrow> int \<Rightarrow>
      string \<Rightarrow> 'x lifecycle_error + ('c interaction_instance \<times> 'c lifecycle)" where
  "mint_offer m d workspace conversation auds tick uuid =
     rbind (map_err LifecycleError_Protocol
              (Nonce_new (show_int tick @ ''-'' @ uuid))) (\<lambda>nonce.
     rbind (map_err LifecycleError_Protocol (definition_id (mt_def m) d)) (\<lambda>did.
     let i = \<lparr>in_schema = InstanceTag, in_nonce = nonce, in_definition = did,
              in_revision = def_revision d, in_ttl_ticks = PERMISSION_REQUEST_TTL_NANOS,
              in_scope = \<lparr>sc_workspace_key = workspace, sc_conversation_id = conversation\<rparr>,
              in_responder_policy = \<lparr>rp_audiences = auds, rp_requires_assertion = False\<rparr>,
              in_provenance = \<lparr>pv_origin = ''permission-gate'', pv_minted_tick = tick\<rparr>\<rparr>
     in rbind (publish (mt_def m) (mt_inst m) (mt_show m) HostMint i d) (\<lambda>l. Inr (i, l))))"

definition response_for ::
    "('c, 'x) minting \<Rightarrow> interaction_definition \<Rightarrow> 'c interaction_instance \<Rightarrow> permission_action \<Rightarrow>
      audience \<Rightarrow> string \<Rightarrow> 'x protocol_error + 'c response" where
  "response_for m d i action aud uuid =
     rbind (definition_id (mt_def m) d) (\<lambda>did.
     rbind (instance_id (mt_inst m) i) (\<lambda>iid.
     rbind (ControlId_new DECISION_CONTROL) (\<lambda>control.
     rbind (OptionId_new (action_as_str action)) (\<lambda>opt.
     rbind (IdempotencyKey_new uuid) (\<lambda>key.
       Inr \<lparr>rs_schema = ResponseTag, rs_definition = did, rs_instance = iid,
            rs_revision = def_revision d,
            rs_values = [\<lparr>sub_control = control, sub_value = ControlValue_Choice opt\<rparr>],
            rs_idempotency_key = key,
            rs_provenance =
              \<lparr>pr_kind = (if aud = Audience_Terminal then AssertionKind_TerminalOperator
                          else AssertionKind_Unauthenticated),
               pr_subject = (if aud = Audience_Terminal then ''operator:terminal''
                             else ''operator:web''),
               pr_audience = aud, pr_assertion = None\<rparr>\<rparr>)))))"

definition authorize_action ::
    "('c, 'x) minting \<Rightarrow> interaction_definition \<Rightarrow> 'c interaction_instance \<Rightarrow> 'c lifecycle \<Rightarrow>
      string \<Rightarrow> registered_action list \<Rightarrow> permission_action \<Rightarrow> audience \<Rightarrow> string \<Rightarrow>
      'x refusal + permission_action" where
  "authorize_action m d i l workspace registered action aud uuid =
     rbind (map_err Refusal_Protocol (response_for m d i action aud uuid)) (\<lambda>r.
     rbind (validate_response (mt_def m) (mt_inst m) (mt_resp m) (mt_show m) d i l r
              \<lparr>cx_workspace_key = workspace, cx_registered = registered\<rparr>) (\<lambda>acc.
       case acc_actions acc of
         [resolved] \<Rightarrow>
           ok_or (Refusal_UnknownAction (OptionId_as_str (ac_option resolved)))
             (action_for_option (OptionId_as_str (ac_option resolved)))
       | _ \<Rightarrow> Inl (Refusal_MissingRequiredControl DECISION_CONTROL)))"

definition gate_actions :: "(permission_action \<times> string \<times> bool) list" where
  "gate_actions =
     [(AllowOnce, ''gate::allow_once'', False), (AllowSession, ''gate::allow_session'', False),
      (AllowPermanent, ''gate::allow_permanent'', True), (Deny, ''gate::deny'', False),
      (DenyAlways, ''gate::deny_always'', True), (DenyPermanent, ''gate::deny_permanent'', True)]"

definition registry_row ::
    "audience \<Rightarrow> permission_action \<times> string \<times> bool \<Rightarrow> registered_action option" where
  "registry_row aud row =
     (case row of (action, handler, durable) \<Rightarrow>
        if durable \<and> aud \<noteq> Audience_Terminal then None
        else (case (OptionId_new (action_as_str action) :: unit protocol_error + option_id,
                    HandlerId_new handler :: unit protocol_error + handler_id) of
                (Inr opt, Inr h) \<Rightarrow>
                  Some \<lparr>ra_option = opt, ra_handler = h, ra_audiences = [aud]\<rparr>
              | _ \<Rightarrow> None))"

definition permission_registry :: "audience \<Rightarrow> registered_action list" where
  "permission_registry aud = List.map_filter (registry_row aud) gate_actions"

text \<open>The gate's own step: controls pass, everything else is authorized against a fresh offer.\<close>

record stamp =
  st_tick :: int
  st_nonce_uuid :: string
  st_key_uuid :: string

definition gate_authorize ::
    "('c, 'x) minting \<Rightarrow> string \<Rightarrow> string \<Rightarrow> stamp \<Rightarrow> interaction_definition \<Rightarrow> audience \<Rightarrow>
      permission_action \<Rightarrow> 'x refusal + permission_action" where
  "gate_authorize m workspace conversation st d aud decoded =
     (if decoded = Back \<or> decoded = Exit then Inr decoded
      else (case mint_offer m d workspace conversation [aud] (st_tick st) (st_nonce_uuid st) of
              Inl _ \<Rightarrow> Inl (Refusal_MissingRequiredControl ''decision'')
            | Inr (i, l) \<Rightarrow>
                authorize_action m d i l workspace (permission_registry aud) decoded aud
                  (st_key_uuid st)))"

definition authorized_response ::
    "('c, 'x) minting \<Rightarrow> interaction_definition \<Rightarrow> 'c interaction_instance \<Rightarrow> string \<Rightarrow>
      permission_action \<Rightarrow> audience \<Rightarrow> string \<Rightarrow> 'x refusal + 'c response" where
  "authorized_response m d i workspace action aud uuid =
     rbind (case publish (mt_def m) (mt_inst m) (mt_show m) HostMint i d of
              Inr l \<Rightarrow> Inr l
            | Inl e \<Rightarrow> Inl (case e of LifecycleError_Protocol p \<Rightarrow> Refusal_Protocol p
                           | _ \<Rightarrow> Refusal_NotPublished LifecycleState_Draft)) (\<lambda>l.
     rbind (map_err Refusal_Protocol (response_for m d i action aud uuid)) (\<lambda>r.
     rbind (validate_response (mt_def m) (mt_inst m) (mt_resp m) (mt_show m) d i l r
              \<lparr>cx_workspace_key = workspace, cx_registered = permission_registry aud\<rparr>)
       (\<lambda>_. Inr r)))"

section \<open>Facts\<close>

lemma action_name_ok [simp]: "OptionId_new (action_as_str a) = Inr (OptionId (action_as_str a))"
proof -
  have "valid_name (action_as_str a)" by (cases a) (simp_all add: action_as_str_def, code_simp+)
  then show ?thesis by (simp add: option_name.new_iff)
qed

lemma decision_control_ok [simp]:
  "ControlId_new DECISION_CONTROL = Inr (ControlId DECISION_CONTROL)"
proof -
  have "valid_name DECISION_CONTROL" by code_simp
  then show ?thesis by (simp add: control_name.new_iff)
qed

lemma action_for_option_as_str [simp]: "action_for_option (action_as_str a) = Some a"
  by (cases a) (simp_all add: action_for_option_def all_actions_def)

lemma action_for_option_Some_iff: "action_for_option s = Some a \<longleftrightarrow> s = action_as_str a"
  by (auto simp: action_for_option_def dest: find_SomeD)
    (use action_for_option_as_str in \<open>simp add: action_for_option_def\<close>)

definition offered :: "permission_request \<Rightarrow> danger_table \<Rightarrow> audience \<Rightarrow> permission_action list" where
  "offered req danger aud = map oa_action (fst (permission_policy req danger aud))"

lemma offered_iff:
  "a \<in> set (offered req danger aud) \<longleftrightarrow>
     a = AllowOnce \<or> a = Deny \<or>
     (a = DenyAlways \<or> a = DenyPermanent) \<and> aud = Audience_Terminal \<or>
     (a = AllowSession \<or> a = AllowPermanent \<and> aud = Audience_Terminal \<and> durable_kind (rq_kind req)) \<and>
     \<not> (rq_tool req = ''lifecycle'' \<and> rq_kind req = DenialKind_Net) \<and>
     (danger_classify danger (rq_kind req) (rq_target req) = DangerTier_Low \<or>
      rq_kind req = DenialKind_Build)"
proof -
  let ?s = "\<not> (rq_tool req = ''lifecycle'' \<and> rq_kind req = DenialKind_Net) \<and>
     (danger_classify danger (rq_kind req) (rq_target req) = DangerTier_Low \<or>
      rq_kind req = DenialKind_Build)"
  have "offered req danger aud =
      [AllowOnce] @
      (if ?s then AllowSession # (if aud = Audience_Terminal \<and> durable_kind (rq_kind req)
                                  then [AllowPermanent] else []) else []) @
      [Deny] @ (if aud = Audience_Terminal then [DenyAlways, DenyPermanent] else [])"
    by (simp add: offered_def permission_policy_def)
  then show ?thesis by auto
qed

lemma offered_distinct: "distinct (offered req danger aud)"
  by (auto simp: offered_def permission_policy_def Let_def)

lemma traverse_offer_option:
  "traverse (offer_option dflt) oas =
     Inr (map (\<lambda>oa. \<lparr>co_id = OptionId (action_as_str (oa_action oa)), co_role = role_of (oa_action oa),
            co_label = (if oa_action oa = dflt then oa_label oa @ '' (default)'' else oa_label oa),
            co_key = oa_key oa, co_aliases = []\<rparr>) oas)"
  by (induction oas) (simp_all add: offer_option_def expect_option_id_def)

definition permission_options ::
    "permission_request \<Rightarrow> danger_table \<Rightarrow> audience \<Rightarrow> permission_action \<Rightarrow> choice_option list" where
  "permission_options req danger aud wanted =
     (let offs = fst (permission_policy req danger aud);
          dflt = (if wanted \<in> set (offered req danger aud) then wanted else Deny)
      in map (\<lambda>oa. \<lparr>co_id = OptionId (action_as_str (oa_action oa)), co_role = role_of (oa_action oa),
            co_label = (if oa_action oa = dflt then oa_label oa @ '' (default)'' else oa_label oa),
            co_key = oa_key oa, co_aliases = []\<rparr>) offs)"

definition permission_controls ::
    "permission_request \<Rightarrow> danger_table \<Rightarrow> audience \<Rightarrow> permission_action \<Rightarrow> control list" where
  "permission_controls req danger aud wanted =
     [\<lparr>ctl_id = ControlId DECISION_CONTROL,
       ctl_kind = ControlKind_Choice (permission_options req danger aud wanted),
       ctl_label = [], ctl_requirement = Requirement_Required\<rparr>]"

lemma new_definition_total:
  assumes "kind = (if controls_are_decision_shaped controls then InteractionKind_Confirm
                   else InteractionKind_Choice)"
  shows "InteractionDefinition_new debug kind md controls =
     Inr \<lparr>def_schema = DefinitionTag, def_kind = kind, def_revision = Revision_FIRST,
          def_markdown = md, def_controls = controls, def_features = [], def_note = None\<rparr>"
  by (simp add: InteractionDefinition_new_def is_decision_shaped_def assms)

text \<open>Building the form never panics, and its options are the offered actions.\<close>

lemma permission_definition_total:
  "\<exists>d. permission_definition_with_default debug req danger aud wanted =
        Inr (d, if wanted \<in> set (offered req danger aud) then wanted else Deny) \<and>
      def_controls d = permission_controls req danger aud wanted"
proof -
  have mem: "list_ex (\<lambda>oa. oa_action oa = wanted) (fst (permission_policy req danger aud)) \<longleftrightarrow>
      wanted \<in> set (offered req danger aud)"
    by (auto simp: offered_def list_ex_iff)
  obtain offs n where p: "permission_policy req danger aud = (offs, n)" by force
  show ?thesis
    unfolding permission_definition_with_default_def
    using mem
    by (simp add: p Let_def traverse_offer_option new_definition_total permission_controls_def
        permission_options_def)
qed

lemma permission_options_ids:
  "set (map co_id (permission_options req danger aud wanted)) =
     OptionId ` action_as_str ` set (offered req danger aud)"
  by (auto simp: permission_options_def offered_def Let_def)

section \<open>What the authorizer accepts\<close>

lemma registry_option:
  "List.find (\<lambda>r. ra_option r = OptionId (action_as_str a)) (permission_registry aud) = Some r \<Longrightarrow>
     ra_audiences r = [aud] \<and> ra_option r = OptionId (action_as_str a)"
proof -
  assume "List.find (\<lambda>r. ra_option r = OptionId (action_as_str a)) (permission_registry aud) = Some r"
  then have "r \<in> set (permission_registry aud)" "ra_option r = OptionId (action_as_str a)"
    by (auto dest: find_SomeD)
  then show ?thesis
    by (auto simp: permission_registry_def map_filter_def registry_row_def split: if_splits sum.splits)
qed

lemma submission_of_action:
  assumes "submission_ok (permission_controls req danger aud' wanted) registered aud
     \<lparr>sub_control = ControlId DECISION_CONTROL,
      sub_value = ControlValue_Choice (OptionId (action_as_str a))\<rparr>"
  shows "a \<in> set (offered req danger aud')"
proof -
  from assms have "\<exists>x \<in> set (permission_options req danger aud' wanted).
      co_id x = OptionId (action_as_str a)"
    by (auto simp: submission_ok_def permission_controls_def value_ok_def Cons_eq_append_conv)
  then show ?thesis using permission_options_ids [of req danger aud' wanted] by force
qed

lemma response_for_InrE:
  assumes "response_for m d i a aud uuid = Inr r"
  obtains "rs_values r = [\<lparr>sub_control = ControlId DECISION_CONTROL,
      sub_value = ControlValue_Choice (OptionId (action_as_str a))\<rparr>]"
    and "pr_audience (rs_provenance r) = aud"
  using assms by (auto simp: response_for_def result_simps)

lemma authorized_is_offered:
  fixes m :: "('c, 'x) minting"
  assumes d: "def_controls d = permission_controls req danger aud' wanted"
    and ok: "authorize_action m d i l ws registered decoded aud uuid = Inr a"
  shows "a = decoded \<and> decoded \<in> set (offered req danger aud')"
proof -
  from ok obtain r acc where r: "response_for m d i decoded aud uuid = Inr r"
    and acc: "validate_response (mt_def m) (mt_inst m) (mt_resp m) (mt_show m) d i l r
        \<lparr>cx_workspace_key = ws, cx_registered = registered\<rparr> = (Inr acc :: 'x refusal + _)"
    and rest: "(case acc_actions acc of
         [resolved] \<Rightarrow>
           ok_or (Refusal_UnknownAction (OptionId_as_str (ac_option resolved)))
             (action_for_option (OptionId_as_str (ac_option resolved)))
       | _ \<Rightarrow> Inl (Refusal_MissingRequiredControl DECISION_CONTROL)) = (Inr a :: 'x refusal + _)"
    unfolding authorize_action_def by (auto simp: rbind_Inr_iff map_err_iffs)
  from r have vals: "rs_values r = [\<lparr>sub_control = ControlId DECISION_CONTROL,
      sub_value = ControlValue_Choice (OptionId (action_as_str decoded))\<rparr>]"
    by (rule response_for_InrE)
  from acc have sub: "acceptable d i l r \<lparr>cx_workspace_key = ws, cx_registered = registered\<rparr>"
    and acts: "acc_actions acc = submission_actions registered (hd (rs_values r))"
    by (auto simp: validate_iff vals)
  have "decoded \<in> set (offered req danger aud')"
    using sub by (auto simp: acceptable_def vals d intro: submission_of_action)
  moreover have "a = decoded"
    using rest acts
    by (auto simp: vals submission_actions_def result_simps action_for_option_Some_iff
        split: option.splits)
  ultimately show ?thesis by simp
qed

lemma gate_authorize_offered:
  assumes "def_controls d = permission_controls req danger aud' wanted"
    and "gate_authorize m ws conv st d aud decoded = Inr a"
  shows "a = decoded \<and> (decoded = Back \<or> decoded = Exit \<or> decoded \<in> set (offered req danger aud'))"
  using assms(2) authorized_is_offered [OF assms(1), where m = m]
  by (auto simp: gate_authorize_def split: if_splits sum.splits)

lemma handler_ok: "h \<noteq> [] \<Longrightarrow> (HandlerId_new h :: unit protocol_error + handler_id) = Inr (HandlerId h)"
  by (simp add: handler_handle.new_iff valid_handle_def)

lemma registered_if_offered:
  assumes "a \<in> set (offered req danger aud)"
  shows "\<exists>r. List.find (\<lambda>r. ra_option r = OptionId (action_as_str a)) (permission_registry aud) = Some r"
proof -
  have row: "registry_row aud (b, h, dur) =
      Some \<lparr>ra_option = OptionId (action_as_str b), ra_handler = HandlerId h, ra_audiences = [aud]\<rparr>"
    if "h \<noteq> []" "dur \<longrightarrow> aud = Audience_Terminal" for b h dur
    using that by (simp add: registry_row_def handler_ok)
  obtain h dur where "(a, h, dur) \<in> set gate_actions" "h \<noteq> []" "dur \<longrightarrow> aud = Audience_Terminal"
    using assms unfolding offered_iff gate_actions_def by (cases a) auto
  then have "\<lparr>ra_option = OptionId (action_as_str a), ra_handler = HandlerId h, ra_audiences = [aud]\<rparr>
      \<in> set (permission_registry aud)"
    using row [of h dur a] by (force simp: permission_registry_def map_filter_def)
  then have "List.find (\<lambda>r. ra_option r = OptionId (action_as_str a)) (permission_registry aud) \<noteq> None"
    unfolding find_None_iff_all by fastforce
  then show ?thesis by blast
qed

lemma submission_of_offered:
  assumes off: "a \<in> set (offered req danger aud)"
    and d: "def_controls d = permission_controls req danger aud wanted"
  shows "submission_ok (def_controls d) (permission_registry aud) aud
      \<lparr>sub_control = ControlId DECISION_CONTROL,
       sub_value = ControlValue_Choice (OptionId (action_as_str a))\<rparr>"
proof -
  from off have opt: "OptionId (action_as_str a) \<in> co_id ` set (permission_options req danger aud wanted)"
    using permission_options_ids [of req danger aud wanted] by force
  obtain r where r: "List.find (\<lambda>r. ra_option r = OptionId (action_as_str a))
      (permission_registry aud) = Some r"
    using registered_if_offered [OF off] by blast
  then have "ra_audiences r = [aud]" using registry_option by blast
  with r have "registered_for (permission_registry aud) aud (OptionId (action_as_str a)) (ra_handler r)"
    by (auto simp: registered_for_iff_find)
  then show ?thesis
    using opt
    by (auto simp: submission_ok_def d permission_controls_def value_ok_def Cons_eq_append_conv)
qed

text \<open>Minting never fails, and the random identifiers are not empty.\<close>

definition mints :: "('c, 'x) minting \<Rightarrow> stamp \<Rightarrow> bool" where
  "mints m st \<longleftrightarrow>
     (\<forall>d. \<exists>c. mt_def m d = Inr c) \<and> (\<forall>i. \<exists>c. mt_inst m i = Inr c) \<and>
     (\<forall>r. \<exists>c. mt_resp m r = Inr c) \<and> st_key_uuid st \<noteq> []"

lemma mint_offer_ok:
  assumes "mints m st"
  shows "\<exists>i l. mint_offer m d ws conv [aud] (st_tick st) (st_nonce_uuid st) = Inr (i, l) \<and>
     definition_id (mt_def m) d = Inr (in_definition i) \<and>
     instance_id (mt_inst m) i = Inr (lc_instance l) \<and> lc_state l = LifecycleState_Published \<and>
     in_revision i = def_revision d \<and> sc_workspace_key (in_scope i) = ws \<and>
     in_responder_policy i = \<lparr>rp_audiences = [aud], rp_requires_assertion = False\<rparr>"
proof -
  from assms obtain c where c: "mt_def m d = Inr c" unfolding mints_def by blast
  define i where "i = \<lparr>in_schema = InstanceTag,
     in_nonce = Nonce (show_int (st_tick st) @ ''-'' @ st_nonce_uuid st),
     in_definition = DefinitionId c, in_revision = def_revision d,
     in_ttl_ticks = PERMISSION_REQUEST_TTL_NANOS,
     in_scope = \<lparr>sc_workspace_key = ws, sc_conversation_id = conv\<rparr>,
     in_responder_policy = \<lparr>rp_audiences = [aud], rp_requires_assertion = False\<rparr>,
     in_provenance = \<lparr>pv_origin = ''permission-gate'', pv_minted_tick = st_tick st\<rparr>\<rparr>"
  from assms obtain e where e: "mt_inst m i = Inr e" unfolding mints_def by blast
  have "mint_offer m d ws conv [aud] (st_tick st) (st_nonce_uuid st) =
      Inr (i, \<lparr>lc_instance = InstanceId e, lc_state = LifecycleState_Published\<rparr>)"
    using c e
    by (simp add: mint_offer_def Let_def i_def Nonce_new_def nonempty_name_def definition_id_def
        publish_def instance_id_def)
  then show ?thesis
    using c e
    by (intro exI [of _ i] exI [of _ "\<lparr>lc_instance = InstanceId e, lc_state = LifecycleState_Published\<rparr>"])
      (simp add: i_def definition_id_def instance_id_def)
qed

lemma gate_authorize_complete:
  assumes off: "a \<in> set (offered req danger aud)" and m: "mints m st"
    and d: "def_controls d = permission_controls req danger aud wanted"
  shows "gate_authorize m ws conv st d aud a = Inr a"
proof -
  from m obtain i l where il:
    "mint_offer m d ws conv [aud] (st_tick st) (st_nonce_uuid st) = Inr (i, l)"
    "definition_id (mt_def m) d = Inr (in_definition i)"
    "instance_id (mt_inst m) i = Inr (lc_instance l)" "lc_state l = LifecycleState_Published"
    "in_revision i = def_revision d" "sc_workspace_key (in_scope i) = ws"
    "in_responder_policy i = \<lparr>rp_audiences = [aud], rp_requires_assertion = False\<rparr>"
    using mint_offer_ok [of m st d ws conv aud] by blast
  define s where "s = \<lparr>sub_control = ControlId DECISION_CONTROL,
      sub_value = ControlValue_Choice (OptionId (action_as_str a))\<rparr>"
  obtain r where r: "response_for m d i a aud (st_key_uuid st) = Inr r"
    and rv: "rs_values r = [s]" "rs_instance r = lc_instance l" "rs_definition r = in_definition i"
      "rs_revision r = def_revision d" "pr_audience (rs_provenance r) = aud"
    using m by (auto simp: response_for_def il(2,3) IdempotencyKey_new_def nonempty_name_def mints_def
        s_def)
  let ?cx = "\<lparr>cx_workspace_key = ws, cx_registered = permission_registry aud\<rparr>"
  have sub: "submission_ok (def_controls d) (permission_registry aud) aud s"
    unfolding s_def by (rule submission_of_offered [OF off d])
  then have "acceptable d i l r ?cx"
    by (simp add: acceptable_def il rv d permission_controls_def) (simp add: s_def)
  moreover obtain rid where "response_id (mt_resp m) r = Inr rid"
    using m unfolding mints_def response_id_def by (metis rbind_simps(2) map_err_simps(2))
  ultimately have val: "validate_response (mt_def m) (mt_inst m) (mt_resp m) (mt_show m) d i l r ?cx =
      Inr \<lparr>acc_response = rid, acc_instance = lc_instance l,
           acc_actions = submission_actions (permission_registry aud) s\<rparr>"
    unfolding validate_iff by (simp add: il rv)
  obtain reg where "List.find (\<lambda>r. ra_option r = OptionId (action_as_str a))
      (permission_registry aud) = Some reg"
    using registered_if_offered [OF off] by blast
  then have "authorize_action m d i l ws (permission_registry aud) a aud (st_key_uuid st) = Inr a"
    by (simp add: authorize_action_def r val submission_actions_def s_def)
  moreover have "a \<noteq> Back" "a \<noteq> Exit" using off by (auto simp: offered_iff)
  ultimately show ?thesis by (simp add: gate_authorize_def il(1))
qed

section \<open>Typed answers\<close>

definition answers_to :: "string \<Rightarrow> offered_action \<Rightarrow> bool" where
  "answers_to s oa \<longleftrightarrow> oa_key oa = s \<or> action_as_str (oa_action oa) = s"

text \<open>Each action has one key, and no key or name of one action is a key or name of another.\<close>

fun key_of :: "permission_action \<Rightarrow> string" where
  "key_of AllowOnce = ''a''"
| "key_of AllowSession = ''s''"
| "key_of AllowPermanent = ''A''"
| "key_of Deny = ''d''"
| "key_of DenyAlways = ''D''"
| "key_of DenyPermanent = ''P''"
| "key_of Back = ''b''"
| "key_of Exit = ''x''"

lemma offered_key:
  assumes "oa \<in> set (fst (permission_policy req danger aud))"
  shows "oa_key oa = key_of (oa_action oa)"
  using assms unfolding permission_policy_def Let_def fst_conv by (auto split: if_splits)

lemma key_of_inj: "key_of a = key_of b \<Longrightarrow> a = b"
  by (cases a; cases b; simp)

lemma key_not_name: "key_of a \<noteq> action_as_str b"
proof -
  have "length (key_of a) = 1" by (cases a; simp)
  moreover have "length (action_as_str b) \<noteq> 1" by (cases b; simp add: action_as_str_def)
  ultimately show ?thesis by metis
qed

lemma answer_names_one_action:
  assumes "key_of a = s \<or> action_as_str a = s" and "key_of b = s \<or> action_as_str b = s"
  shows "a = b"
  using assms by (metis key_not_name key_of_inj action_as_str_inj)

lemma filter_unique:
  "x \<in> set xs \<Longrightarrow> P x \<Longrightarrow> distinct (map f xs) \<Longrightarrow>
     (\<And>y. y \<in> set xs \<Longrightarrow> P y \<Longrightarrow> f y = f x) \<Longrightarrow> filter P xs = [x]"
proof (induction xs)
  case (Cons z zs)
  show ?case
  proof (cases "z = x")
    case True
    have "\<not> P y" if "y \<in> set zs" for y
    proof
      assume "P y"
      with that have "f y = f x" by (intro Cons.prems(4)) auto
      moreover have "f y \<in> f ` set zs" using that by blast
      ultimately show False using Cons.prems(3) True by simp
    qed
    then have "filter P zs = []" by (simp add: filter_empty_conv)
    then show ?thesis using True Cons.prems(2) by simp
  next
    case False
    then have x: "x \<in> set zs" using Cons.prems(1) by simp
    have "filter P zs = [x]"
    proof (rule Cons.IH [OF x Cons.prems(2)])
      show "distinct (map f zs)" using Cons.prems(3) by simp
      show "f y = f x" if "y \<in> set zs" "P y" for y
        by (rule Cons.prems(4)) (simp_all add: that)
    qed
    moreover have "f x \<in> set (map f zs)" using x by simp
    then have "f z \<noteq> f x" using Cons.prems(3) by force
    then have "\<not> P z" using Cons.prems(4) [of z] by (metis list.set_intros(1))
    ultimately show ?thesis by simp
  qed
qed simp

lemma answers_unique:
  assumes oa: "oa \<in> set (fst (permission_policy req danger aud))" and s: "answers_to s oa"
  shows "filter (answers_to s) (fst (permission_policy req danger aud)) = [oa]"
proof (rule filter_unique [of oa _ "answers_to s" oa_action])
  show "oa \<in> set (fst (permission_policy req danger aud))" "answers_to s oa" by (fact oa s)+
  show "distinct (map oa_action (fst (permission_policy req danger aud)))"
    using offered_distinct unfolding offered_def .
  show "oa_action b = oa_action oa"
    if "b \<in> set (fst (permission_policy req danger aud))" "answers_to s b" for b
    using that oa s by (intro answer_names_one_action [of _ s]) (auto simp: answers_to_def offered_key)
qed

lemma options_canonical:
  "filter (canonical_match s) (permission_options req danger aud wanted) =
     map (\<lambda>oa. \<lparr>co_id = OptionId (action_as_str (oa_action oa)), co_role = role_of (oa_action oa),
            co_label = (if oa_action oa = (if wanted \<in> set (offered req danger aud) then wanted else Deny)
                        then oa_label oa @ '' (default)'' else oa_label oa),
            co_key = oa_key oa, co_aliases = []\<rparr>)
       (filter (answers_to s) (fst (permission_policy req danger aud)))"
proof -
  have "canonical_match s \<lparr>co_id = OptionId (action_as_str (oa_action oa)), co_role = r, co_label = l,
      co_key = oa_key oa, co_aliases = []\<rparr> \<longleftrightarrow> answers_to s oa" for oa r l
    by (auto simp: canonical_match_def answers_to_def)
  then show ?thesis
    by (simp add: permission_options_def Let_def filter_map comp_def)
qed

lemma options_no_alias: "filter (alias_match s) (permission_options req danger aud wanted) = []"
  by (auto simp: permission_options_def Let_def alias_match_def filter_empty_conv)

lemma decode_permission_answer:
  assumes d: "def_controls d = permission_controls req danger aud wanted"
  shows "decode_answer d answer =
     (case List.find (answers_to (trim answer)) (fst (permission_policy req danger aud)) of
        Some oa \<Rightarrow> oa_action oa | None \<Rightarrow> Deny)"
proof (cases "List.find (answers_to (trim answer)) (fst (permission_policy req danger aud))")
  case None
  then have "filter (answers_to (trim answer)) (fst (permission_policy req danger aud)) = []"
    by (auto simp: find_None_iff_all filter_empty_conv)
  then show ?thesis
    using None
    by (simp add: decode_answer_def resolve_answer_def d permission_controls_def resolve_typed_def
        Let_def options_canonical options_no_alias single_def)
next
  case (Some oa)
  then have "filter (answers_to (trim answer)) (fst (permission_policy req danger aud)) = [oa]"
    using answers_unique by (blast dest: find_SomeD)
  then show ?thesis
    using Some
    by (simp add: decode_answer_def resolve_answer_def d permission_controls_def resolve_typed_def
        Let_def options_canonical single_def)
qed

lemma action_name_plain [simp]: "trim (action_as_str a) = action_as_str a"
proof (rule trim_plain)
  show "action_as_str a \<noteq> []" by (cases a) (simp_all add: action_as_str_def)
  show "plain_char (hd (action_as_str a))"
    by (cases a) (simp_all add: action_as_str_def plain_char_def)
  show "plain_char (last (action_as_str a))"
    by (cases a) (simp_all add: action_as_str_def plain_char_def)
qed

lemma find_offered_name:
  assumes "a \<in> set (offered req danger aud)"
  shows "\<exists>oa. List.find (answers_to (action_as_str a)) (fst (permission_policy req danger aud)) = Some oa \<and>
     oa_action oa = a"
proof -
  from assms obtain oa where oa: "oa \<in> set (fst (permission_policy req danger aud))" "oa_action oa = a"
    by (auto simp: offered_def)
  then have "answers_to (action_as_str a) oa" by (simp add: answers_to_def)
  with oa have "filter (answers_to (action_as_str a)) (fst (permission_policy req danger aud)) = [oa]"
    using answers_unique by blast
  then have "List.find (answers_to (action_as_str a)) (fst (permission_policy req danger aud)) = Some oa"
    unfolding filter_single_iff by (auto simp: find_Some_iff_split)
  with oa show ?thesis by blast
qed

text \<open>The interaction presented, with the action that a blank answer stands for.\<close>

definition blank_choice :: "permission_request \<Rightarrow> danger_table \<Rightarrow> permission_action \<Rightarrow> permission_action" where
  "blank_choice req danger configured =
     (if configured = AllowOnce \<or>
         rq_tool req = ''mcp connect'' \<and> rq_kind req = DenialKind_Net \<and>
         configured \<in> set (offered req danger Audience_Terminal)
      then configured else Deny)"

lemma permission_interaction_total:
  "\<exists>d wanted. permission_interaction debug req danger configured =
       Inr (with_default_option (OptionId (action_as_str (blank_choice req danger configured)))
              (SurfaceInteraction_blocking d)) \<and>
     def_controls d = permission_controls req danger Audience_Terminal wanted"
proof -
  obtain d0 where d0: "permission_definition_with_default debug req danger Audience_Terminal Deny =
      Inr (d0, Deny)" "def_controls d0 = permission_controls req danger Audience_Terminal Deny"
    using permission_definition_total [of debug req danger Audience_Terminal Deny] by auto
  obtain d1 where d1: "permission_definition_with_default debug req danger Audience_Terminal configured =
      Inr (d1, if configured \<in> set (offered req danger Audience_Terminal) then configured else Deny)"
    "def_controls d1 = permission_controls req danger Audience_Terminal configured"
    using permission_definition_total [of debug req danger Audience_Terminal configured] by auto
  have once: "AllowOnce \<in> set (offered req danger Audience_Terminal)" by (simp add: offered_iff)
  show ?thesis
  proof (cases "configured \<noteq> Deny \<and> (configured = AllowOnce \<or>
      rq_tool req = ''mcp connect'' \<and> rq_kind req = DenialKind_Net)")
    case True
    then show ?thesis
      using d1 once
      by (intro exI [of _ d1] exI [of _ configured])
        (auto simp: permission_interaction_def Let_def blank_choice_def expect_option_id_def)
  next
    case False
    then show ?thesis
      using d0
      by (intro exI [of _ d0] exI [of _ Deny])
        (auto simp: permission_interaction_def Let_def permission_definition_def blank_choice_def
          expect_option_id_def)
  qed
qed

lemma blank_choice_offered: "blank_choice req danger configured \<in> set (offered req danger Audience_Terminal)"
  by (auto simp: blank_choice_def offered_iff)

lemma default_choice_permission:
  assumes "def_controls d = permission_controls req danger aud wanted"
    and "a \<in> set (offered req danger aud)"
  shows "\<exists>opt. default_choice (with_default_option (OptionId (action_as_str a))
      (SurfaceInteraction_blocking d)) = Some opt \<and> co_id opt = OptionId (action_as_str a)"
proof -
  let ?opts = "permission_options req danger aud wanted"
  have "OptionId (action_as_str a) \<in> co_id ` set ?opts"
    using permission_options_ids [of req danger aud wanted] assms(2) by force
  then have "List.find (\<lambda>opt. co_id opt = OptionId (action_as_str a)) ?opts \<noteq> None"
    by (auto simp: find_None_iff_all)
  then obtain opt where "List.find (\<lambda>opt. co_id opt = OptionId (action_as_str a)) ?opts = Some opt"
    by blast
  moreover from this have "co_id opt = OptionId (action_as_str a)" by (auto dest: find_SomeD)
  ultimately show ?thesis
    by (simp add: default_choice_def with_default_option_def SurfaceInteraction_blocking_def assms(1)
        permission_controls_def)
qed

lemma blank_answer_means:
  assumes "def_controls d = permission_controls req danger aud wanted"
    and "a \<in> set (offered req danger aud)"
  shows "answer_or_default (with_default_option (OptionId (action_as_str a))
      (SurfaceInteraction_blocking d)) [] = action_as_str a"
  using default_choice_permission [OF assms] by (auto simp: answer_or_default_def)

lemma decode_offered_name:
  assumes "def_controls d = permission_controls req danger aud wanted"
    and "a \<in> set (offered req danger aud)"
  shows "decode_answer d (action_as_str a) = a"
  using find_offered_name [OF assms(2)] by (auto simp: decode_permission_answer [OF assms(1)])

lemma find_answer_Some_iff:
  "(\<exists>oa. List.find (answers_to s) (fst (permission_policy req danger aud)) = Some oa \<and> oa_action oa = a) \<longleftrightarrow>
     a \<in> set (offered req danger aud) \<and> (s = key_of a \<or> s = action_as_str a)"
proof
  assume "\<exists>oa. List.find (answers_to s) (fst (permission_policy req danger aud)) = Some oa \<and> oa_action oa = a"
  then show "a \<in> set (offered req danger aud) \<and> (s = key_of a \<or> s = action_as_str a)"
    by (auto simp: offered_def answers_to_def offered_key dest!: find_SomeD)
next
  assume r: "a \<in> set (offered req danger aud) \<and> (s = key_of a \<or> s = action_as_str a)"
  then obtain oa where oa: "oa \<in> set (fst (permission_policy req danger aud))" "oa_action oa = a"
    by (auto simp: offered_def)
  with r have "answers_to s oa" by (auto simp: answers_to_def offered_key)
  with oa have "filter (answers_to s) (fst (permission_policy req danger aud)) = [oa]"
    using answers_unique by blast
  then have "List.find (answers_to s) (fst (permission_policy req danger aud)) = Some oa"
    unfolding filter_single_iff by (auto simp: find_Some_iff_split)
  with oa show "\<exists>oa. List.find (answers_to s) (fst (permission_policy req danger aud)) = Some oa \<and>
      oa_action oa = a"
    by blast
qed

lemma decode_iff:
  assumes "def_controls d = permission_controls req danger aud wanted"
  shows "decode_answer d answer = a \<longleftrightarrow>
     a \<in> set (offered req danger aud) \<and>
       (trim answer = key_of a \<or> trim answer = action_as_str a) \<or>
     a = Deny \<and> (\<forall>b. b \<in> set (offered req danger aud) \<longrightarrow>
       trim answer \<noteq> key_of b \<and> trim answer \<noteq> action_as_str b)"
proof (cases "List.find (answers_to (trim answer)) (fst (permission_policy req danger aud))")
  case None
  then have "\<not> (b \<in> set (offered req danger aud) \<and>
      (trim answer = key_of b \<or> trim answer = action_as_str b))" for b
    using find_answer_Some_iff [of "trim answer" req danger aud b] by simp
  then show ?thesis
    using None by (auto simp: decode_permission_answer [OF assms])
next
  case (Some oa)
  have named: "b \<in> set (offered req danger aud) \<and>
      (trim answer = key_of b \<or> trim answer = action_as_str b) \<longleftrightarrow> oa_action oa = b" for b
    using find_answer_Some_iff [of "trim answer" req danger aud b] Some by simp
  have "decode_answer d answer = oa_action oa"
    using Some by (simp add: decode_permission_answer [OF assms])
  then show ?thesis using named by metis
qed

section \<open>Properties\<close>


text \<open>
  A typed answer decides exactly what it names: the blocking form answers an empty line
  with the option its default marks, and any other line, trimmed, means the offered action whose
  key or name it spells, case and all, and otherwise a denial, so no line reaches an
  action the policy did not offer.
\<close>

theorem typed_answer_exact:
  assumes "permission_interaction debug req danger configured = Inr si"
  shows "decode_answer (si_definition si) (answer_or_default si answer) = a \<longleftrightarrow>
     (if answer = [] then a = blank_choice req danger configured
      else a \<in> set (offered req danger Audience_Terminal) \<and>
             (trim answer = key_of a \<or> trim answer = action_as_str a) \<or>
           a = Deny \<and> (\<forall>b. b \<in> set (offered req danger Audience_Terminal) \<longrightarrow>
             trim answer \<noteq> key_of b \<and> trim answer \<noteq> action_as_str b))"
proof -
  obtain d wanted where si: "si = with_default_option
      (OptionId (action_as_str (blank_choice req danger configured))) (SurfaceInteraction_blocking d)"
    and d: "def_controls d = permission_controls req danger Audience_Terminal wanted"
    using assms permission_interaction_total [of debug req danger configured] by auto
  have sd: "si_definition si = d"
    by (simp add: si with_default_option_def SurfaceInteraction_blocking_def)
  show ?thesis
  proof (cases "answer = []")
    case True
    then show ?thesis
      using blank_answer_means [OF d blank_choice_offered]
        decode_offered_name [OF d blank_choice_offered]
      by (auto simp: sd) (auto simp: si)
  next
    case False
    then show ?thesis
      by (simp add: sd decode_iff [OF d] answer_or_default_def)
  qed
qed

text \<open>A request and three identity functions that always succeed.\<close>

definition sample_request :: "denial_kind \<Rightarrow> string \<Rightarrow> permission_request" where
  "sample_request kind target =
     \<lparr>rq_tool = ''run_command'', rq_kind = kind, rq_target = target, rq_reason = [],
      rq_harness_bound = False\<rparr>"

definition sample_minting :: "(string, unit) minting" where
  "sample_minting = \<lparr>mt_def = (\<lambda>_. Inr ''d''), mt_inst = (\<lambda>_. Inr ''i''), mt_resp = (\<lambda>_. Inr ''r''),
     mt_show = (\<lambda>c. c)\<rparr>"

definition sample_stamp :: stamp where
  "sample_stamp = \<lparr>st_tick = 1, st_nonce_uuid = ''n'', st_key_uuid = ''k''\<rparr>"

lemma sample_mints: "mints sample_minting sample_stamp"
  by (simp add: mints_def sample_minting_def sample_stamp_def)

lemma sample_request_fields [simp]:
  "rq_tool (sample_request kind target) = ''run_command''"
  "rq_kind (sample_request kind target) = kind" "rq_target (sample_request kind target) = target"
  by (simp_all add: sample_request_def)

lemma sample_exec_name: "command_name ''/bin/sh'' = ''sh''" "command_name ''/bin/ls'' = ''ls''"
proof -
  have t: "trim ''/bin/sh'' = ''/bin/sh''" "trim ''/bin/ls'' = ''/bin/ls''"
    by (rule trim_plain; code_simp)+
  have "path_file_name (path_components ''/bin/sh'') = Some ''sh''"
    "path_file_name (path_components ''/bin/ls'') = Some ''ls''" by code_simp+
  then show "command_name ''/bin/sh'' = ''sh''" "command_name ''/bin/ls'' = ''ls''"
    by (simp_all only: command_name_def Let_def t option.case)
qed

lemma sample_version_base: "version_base ''ls'' = ''ls''"
  by code_simp

lemma sample_exec_tier:
  "danger_classify danger_builtin DenialKind_Exec ''/bin/sh'' = DangerTier_High"
  "danger_classify danger_builtin DenialKind_Exec ''/bin/ls'' = DangerTier_Low"
  by (simp_all add: danger_classify_def is_interpreter_def Let_def sample_exec_name sample_version_base
      danger_builtin_def INTERPRETER_EXEC_def)

lemma sample_definition:
  obtains d where "permission_definition_with_default True (sample_request DenialKind_Exec target)
      danger_builtin Audience_Terminal AllowOnce = Inr (d, AllowOnce)"
  using permission_definition_total [of True "sample_request DenialKind_Exec target"
      danger_builtin Audience_Terminal AllowOnce]
  by (auto simp: offered_iff)


lemma sample_answers: "trim ''s'' = ''s''" "trim ''P'' = ''P''"
  by (rule trim_plain; simp add: plain_char_def)+

lemma sample_named:
  "''s'' = key_of b \<longleftrightarrow> b = AllowSession" "''s'' \<noteq> action_as_str b"
  by (cases b; simp add: action_as_str_def)+

lemma typed_answer_exact_witness:
  "\<exists>si. permission_interaction True (sample_request DenialKind_Exec ''/bin/sh'') danger_builtin AllowOnce =
       Inr si \<and>
     decode_answer (si_definition si) (answer_or_default si []) = AllowOnce \<and>
     decode_answer (si_definition si) (answer_or_default si ''s'') = Deny \<and>
     decode_answer (si_definition si) (answer_or_default si ''P'') = DenyPermanent"
proof -
  let ?r = "sample_request DenialKind_Exec ''/bin/sh''"
  obtain si where si: "permission_interaction True ?r danger_builtin AllowOnce = Inr si"
    using permission_interaction_total [of True ?r danger_builtin AllowOnce] by auto
  have "decode_answer (si_definition si) (answer_or_default si []) = AllowOnce"
    by (simp add: typed_answer_exact [OF si] blank_choice_def)
  moreover have "AllowSession \<notin> set (offered ?r danger_builtin Audience_Terminal)"
    by (simp add: offered_iff sample_exec_tier)
  then have "decode_answer (si_definition si) (answer_or_default si ''s'') = Deny"
    unfolding typed_answer_exact [OF si] sample_answers by (auto simp: sample_named)
  moreover have "decode_answer (si_definition si) (answer_or_default si ''P'') = DenyPermanent"
    unfolding typed_answer_exact [OF si] sample_answers by (simp add: offered_iff)
  ultimately show ?thesis using si by blast
qed

end
