(* ===== verification/PermissionGate.thy ===== *)
theory PermissionGate
  imports PermissionForm "HOL-Library.List_Lexorder" "HOL-Library.Char_ord" "HOL-Library.Product_Lexorder"
begin

text \<open>
  The permission gate, \<^verbatim>\<open>newt-tui/src/permissions.rs\<close>: the session's decisions
  (\<^verbatim>\<open>PermissionPromptState\<close>) and the gate of one turn (\<^verbatim>\<open>PromptPermissionGate\<close>), with
  every operation of the trait \<^verbatim>\<open>PermissionGate\<close> that it implements. A \<open>BTreeSet\<close> of
  grants is a finite set, walked in its order; the quarantine of invalid recalled grants, kept in
  a \<^verbatim>\<open>RefCell\<close>, is a component of the state, so every read that fills it returns a state.

  What the gate calls outside this repository's permission code is in one record with the gate's own
  fields: the lattice of agent-mesh-protocol, the operating key, the operator's surfaces, the
  web decision, the policy store's files, the log and the guard of protected resources, each over a
  world it may change. Lines printed for the operator are left out.
\<close>

section \<open>State\<close>

record prompt_state =
  ps_prompt_default :: "permission_action option"
  ps_mcp_net_default :: "permission_action option"
  ps_web :: bool
  ps_workspace_key :: string
  ps_session_grants :: "grant fset"
  ps_durable_grants :: "grant fset"
  ps_rejected :: "grant fset"
  ps_session_denials :: "grant fset"
  ps_persistent_denials :: "grant fset"
  ps_pending_once :: "grant fset"
  ps_decisions :: "permission_record list"
  ps_ocap :: policy_set

record 'w gate_state =
  gs_prompt :: prompt_state
  gs_world :: 'w
  gs_cancel :: bool
  gs_exit :: bool
  gs_retries :: "string \<times> string \<Rightarrow> grant list option"

record ('w, 'g, 'k, 'v, 'c, 'x) gate =
  g_base :: "'g caveats"
  g_key_path :: "string option"
  g_conversation :: string
  g_log_path :: "string option"
  g_denials_path :: "string option"
  g_config_path :: "string option"
  g_preset_clamp :: "'g caveats option"
  g_delegation :: "'g caveats option"
  g_danger :: danger_table
  g_prompts_enabled :: bool
  g_has_cancel :: bool
  g_has_exit :: bool
  g_ask_surface :: "(surface_interaction \<Rightarrow> 'w \<Rightarrow> human_outcome \<times> 'w) option"
  g_ask_human :: "surface_interaction \<Rightarrow> 'w \<Rightarrow> permission_action \<times> 'w"
  g_debug :: bool
  x_platform :: platform
  x_view :: "'w \<Rightarrow> fs_view"
  x_meet :: "'g caveats \<Rightarrow> 'g caveats \<Rightarrow> 'g caveats"
  x_leq :: "'g caveats \<Rightarrow> 'g caveats \<Rightarrow> bool"
  x_build_caveats :: "'w \<Rightarrow> string \<Rightarrow> 'g caveats"
  x_protection :: "('w \<Rightarrow> 'g caveats \<Rightarrow> string + unit) option"
  x_mint_key :: "string \<Rightarrow> 'g caveats \<Rightarrow> 'w \<Rightarrow> 'k option \<times> 'w"
  x_enforced :: "'k \<Rightarrow> 'g caveats option"
  x_load_key :: "string \<Rightarrow> 'w \<Rightarrow> ('v \<times> (bytes \<Rightarrow> bytes)) option"
  x_policy_lib :: "'v policy_lib"
  x_store_io :: "string \<Rightarrow> 'w approve_io"
  x_store_read :: "string \<Rightarrow> 'w \<Rightarrow> verdict \<Rightarrow> string option"
  x_home_cwd :: "'w \<Rightarrow> string option \<times> string option"
  x_append_log :: "string \<Rightarrow> permission_record \<Rightarrow> 'w \<Rightarrow> 'w"
  x_append_denial :: "string \<Rightarrow> grant \<Rightarrow> 'w \<Rightarrow> 'w"
  x_web_decision :: "permission_request \<Rightarrow> 'w \<Rightarrow> (permission_action \<times> string) \<times> 'w"
  x_stamp :: "'w \<Rightarrow> stamp \<times> 'w"
  x_minting :: "('c, 'x) minting"
  x_content_id :: "string \<Rightarrow> string"

definition gate_aliases :: "('w, 'g, 'k, 'v, 'c, 'x) gate \<Rightarrow> bool list" where
  "gate_aliases g = (case x_platform g of Linux \<Rightarrow> [] | MacOS table \<Rightarrow> table)"

definition on_prompt :: "(prompt_state \<Rightarrow> prompt_state) \<Rightarrow> 'w gate_state \<Rightarrow> 'w gate_state" where
  "on_prompt f st = st\<lparr>gs_prompt := f (gs_prompt st)\<rparr>"

section \<open>Whether prompts are on\<close>

definition permission_prompting_configured :: "bool \<Rightarrow> bool option \<Rightarrow> bool" where
  "permission_prompting_configured env_flag tui_prompt \<longleftrightarrow> env_flag \<or> tui_prompt = Some True"

definition durable_permission_config_target ::
    "string option \<Rightarrow> bool \<Rightarrow> string option \<Rightarrow> string option" where
  "durable_permission_config_target pinned ambient_base_exists user =
     (case pinned of
        Some p \<Rightarrow> Some p
      | None \<Rightarrow> if ambient_base_exists then None else user)"

definition INTERACTIVE_PROMPT_DEFAULT :: bool where
  "INTERACTIVE_PROMPT_DEFAULT = True"

definition should_prompt_permissions :: "bool \<Rightarrow> bool \<Rightarrow> bool \<Rightarrow> bool \<Rightarrow> bool" where
  "should_prompt_permissions configured_on explicit_off interactive headless =
     (if headless \<or> \<not> interactive then False
      else if explicit_off then False
      else configured_on \<or> INTERACTIVE_PROMPT_DEFAULT)"

section \<open>Denials\<close>

definition exec_grant_basename :: "string \<Rightarrow> string" where
  "exec_grant_basename cmd =
     (case List.find (\<lambda>p. p \<noteq> [])
             (rev (split_on CHR ''/'' (map (\<lambda>c. if c = CHR 0x5C then CHR ''/'' else c) cmd))) of
        Some p \<Rightarrow> p | None \<Rightarrow> cmd)"

definition denied_exactly ::
    "('w, 'g, 'k, 'v, 'c, 'x) gate \<Rightarrow> prompt_state \<Rightarrow> denial_kind \<Rightarrow> string \<Rightarrow> bool" where
  "denied_exactly g s kind target \<longleftrightarrow>
     (kind, target) |\<in>| ps_rejected s \<or> (kind, target) |\<in>| ps_session_denials s \<or>
     (kind, target) |\<in>| ps_persistent_denials s \<or>
     evaluate_request (x_platform g) (x_policy_lib g) (ps_ocap s) kind target = Some Verdict_Deny"

definition denied ::
    "('w, 'g, 'k, 'v, 'c, 'x) gate \<Rightarrow> prompt_state \<Rightarrow> denial_kind \<Rightarrow> string \<Rightarrow> bool" where
  "denied g s kind target \<longleftrightarrow>
     denied_exactly g s kind target \<or>
     kind = DenialKind_Exec \<and> denied_exactly g s kind (exec_grant_basename target)"

definition denial_overlaps :: "bool list \<Rightarrow> denial_kind \<Rightarrow> string \<Rightarrow> string \<Rightarrow> bool" where
  "denial_overlaps table kind target refused =
     (case kind of
        DenialKind_FsRead \<Rightarrow> permits_path table (Scope_Only {|target|}) refused
      | DenialKind_FsWrite \<Rightarrow> permits_path table (Scope_Only {|target|}) refused
      | DenialKind_Exec \<Rightarrow>
          target = exec_grant_basename refused \<or> refused = exec_grant_basename target
      | _ \<Rightarrow> target = refused)"

definition recall_conflicts_with_denial ::
    "('w, 'g, 'k, 'v, 'c, 'x) gate \<Rightarrow> prompt_state \<Rightarrow> denial_kind \<Rightarrow> string \<Rightarrow> bool" where
  "recall_conflicts_with_denial g s kind target \<longleftrightarrow>
     denied g s kind target \<or>
     fBex (ps_session_denials s |\<union>| ps_persistent_denials s)
       (\<lambda>(k, refused). k = kind \<and> denial_overlaps (gate_aliases g) kind target refused) \<or>
     (case ps_ocap s Verdict_Deny of
        None \<Rightarrow> False
      | Some f \<Rightarrow>
          (case kind of
             DenialKind_FsRead \<Rightarrow>
               list_ex (\<lambda>e. denial_overlaps (gate_aliases g) kind target (fe_path e)) (pf_fs f)
           | DenialKind_FsWrite \<Rightarrow>
               list_ex (\<lambda>e. denial_overlaps (gate_aliases g) kind target (fe_path e)) (pf_fs f)
           | DenialKind_Exec \<Rightarrow>
               list_ex (\<lambda>e. denial_overlaps (gate_aliases g) kind target (ee_target e)) (pf_exec f)
           | _ \<Rightarrow> False))"

section \<open>Recalling grants\<close>

definition validate_caveats ::
    "('w, 'g, 'k, 'v, 'c, 'x) gate \<Rightarrow> 'w \<Rightarrow> 'g caveats \<Rightarrow> string + unit" where
  "validate_caveats g w c =
     (case x_protection g of
        Some v \<Rightarrow> rbind (v w c) (\<lambda>_. Inr ())
      | None \<Rightarrow> Inr ())"

text \<open>\<^verbatim>\<open>WorkspaceProtection::validate_request\<close>: the caveats of one grant alone.\<close>

definition no_authority :: "'g caveats" where
  "no_authority =
     \<lparr>cv_fs_read = Scope_Only {||}, cv_fs_write = Scope_Only {||}, cv_exec = Scope_Only {||},
      cv_net = Scope_Only {||}, cv_max_calls = CountBound_Unlimited, cv_generation = Scope_All\<rparr>"

definition validate_request ::
    "('w, 'g, 'k, 'v, 'c, 'x) gate \<Rightarrow> ('w \<Rightarrow> 'g caveats \<Rightarrow> string + unit) \<Rightarrow> 'w \<Rightarrow> denial_kind \<Rightarrow>
      string \<Rightarrow> string + unit" where
  "validate_request g v w kind target =
     (if kind = DenialKind_Build then v w (x_build_caveats g w target)
      else v w (widen_caveats (gate_aliases g) (x_view g w) no_authority [(kind, target)]))"

definition reject_durable_grant :: "grant \<Rightarrow> prompt_state \<Rightarrow> bool \<times> prompt_state" where
  "reject_durable_grant gr s =
     (if gr |\<notin>| ps_durable_grants s then (False, s)
      else (True, s\<lparr>ps_rejected := finsert gr (ps_rejected s)\<rparr>))"

text \<open>The filter of \<^verbatim>\<open>recalled_grants_with\<close>, with the quarantine it may fill.\<close>

definition recall_filter ::
    "('w, 'g, 'k, 'v, 'c, 'x) gate \<Rightarrow> danger_table \<Rightarrow> 'w \<Rightarrow> bool \<Rightarrow> grant \<Rightarrow> prompt_state \<Rightarrow>
      bool \<times> prompt_state" where
  "recall_filter g danger w quarantine gr s =
     (if recall_conflicts_with_denial g s (fst gr) (snd gr) then (False, s)
      else if danger_classify danger (fst gr) (snd gr) = DangerTier_High then (False, s)
      else (case x_protection g of
              None \<Rightarrow> (True, s)
            | Some v \<Rightarrow>
                (case validate_request g v w (fst gr) (snd gr) of
                   Inr _ \<Rightarrow> (True, s)
                 | Inl _ \<Rightarrow>
                     (False, if quarantine then snd (reject_durable_grant gr s) else s))))"

definition standing_grants :: "prompt_state \<Rightarrow> grant list" where
  "standing_grants s =
     sorted_list_of_fset (ps_session_grants s) @ sorted_list_of_fset (ps_durable_grants s)"

fun recall_loop ::
    "('w, 'g, 'k, 'v, 'c, 'x) gate \<Rightarrow> danger_table \<Rightarrow> 'w \<Rightarrow> bool \<Rightarrow> grant list \<Rightarrow> prompt_state \<Rightarrow>
      grant list \<times> prompt_state" where
  "recall_loop g danger w quarantine [] s = ([], s)"
| "recall_loop g danger w quarantine (gr # grs) s =
     (let (keep, s1) = recall_filter g danger w quarantine gr s;
          (kept, s2) = recall_loop g danger w quarantine grs s1
      in (if keep then gr # kept else kept, s2))"

definition recalled_grants ::
    "('w, 'g, 'k, 'v, 'c, 'x) gate \<Rightarrow> danger_table \<Rightarrow> 'w \<Rightarrow> prompt_state \<Rightarrow>
      grant list \<times> prompt_state" where
  "recalled_grants g danger w s = recall_loop g danger w True (standing_grants s) s"

definition retained_net_hosts ::
    "('w, 'g, 'k, 'v, 'c, 'x) gate \<Rightarrow> 'w \<Rightarrow> prompt_state \<Rightarrow> string list \<times> prompt_state" where
  "retained_net_hosts g w s =
     (let (home, cwd) = x_home_cwd g w;
          (grs, s') = recalled_grants g (production_danger_table home cwd) w s
      in (map snd (filter (\<lambda>gr. fst gr = DenialKind_Net) grs), s'))"

text \<open>
  \<^verbatim>\<open>recalled_caveats\<close> and \<^verbatim>\<open>peek_recalled_caveats\<close>: the filter and the loop alternate, and a
  recalled grant whose widening is invalid is dropped before it counts.
\<close>

fun recall_fold ::
    "('w, 'g, 'k, 'v, 'c, 'x) gate \<Rightarrow> danger_table \<Rightarrow> 'w \<Rightarrow> ('g caveats \<Rightarrow> 'g caveats) \<Rightarrow> bool \<Rightarrow>
      grant list \<Rightarrow> 'g caveats \<Rightarrow> prompt_state \<Rightarrow> (string + 'g caveats) \<times> prompt_state" where
  "recall_fold g danger w clamp quarantine [] policy s = (Inr policy, s)"
| "recall_fold g danger w clamp quarantine (gr # grs) policy s =
     (let (keep, s1) = recall_filter g danger w quarantine gr s in
      if \<not> keep then recall_fold g danger w clamp quarantine grs policy s1
      else let candidate = clamp (widen_caveats (gate_aliases g) (x_view g w) policy [gr]) in
        case validate_caveats g w candidate of
          Inr _ \<Rightarrow> recall_fold g danger w clamp quarantine grs candidate s1
        | Inl e \<Rightarrow>
            if \<not> quarantine \<and> gr |\<in>| ps_durable_grants s1
            then recall_fold g danger w clamp quarantine grs policy s1
            else if quarantine \<and> fst (reject_durable_grant gr s1)
            then recall_fold g danger w clamp quarantine grs policy (snd (reject_durable_grant gr s1))
            else (Inl e, s1))"

definition recall ::
    "('w, 'g, 'k, 'v, 'c, 'x) gate \<Rightarrow> 'w \<Rightarrow> 'g caveats \<Rightarrow> 'g caveats option \<Rightarrow> bool \<Rightarrow> prompt_state \<Rightarrow>
      (string + 'g caveats) \<times> prompt_state" where
  "recall g w base bound quarantine s =
     (let clamp = (\<lambda>policy. case bound of None \<Rightarrow> policy | Some c \<Rightarrow> x_meet g policy c);
          policy = clamp base;
          (home, cwd) = x_home_cwd g w
      in case validate_caveats g w policy of
           Inl e \<Rightarrow> (Inl e, s)
         | Inr _ \<Rightarrow>
             recall_fold g (production_danger_table home cwd) w clamp quarantine
               (standing_grants s) policy s)"

definition fold_ocap_approvals :: "prompt_state \<Rightarrow> nat \<times> prompt_state" where
  "fold_ocap_approvals s =
     (let grants = approved_grants (ps_ocap s)
      in (length grants,
          s\<lparr>ps_durable_grants := ps_durable_grants s |\<union>| fset_of_list grants\<rparr>))"

section \<open>Ceilings and cover\<close>

text \<open>The git surface of a session, \<^verbatim>\<open>GitCaveats::from_session(c).permits_commit()\<close>.\<close>

definition session_permits_commit :: "'g caveats \<Rightarrow> bool" where
  "session_permits_commit c =
     (case cv_fs_write c of Scope_All \<Rightarrow> True | Scope_Only s \<Rightarrow> s \<noteq> {||})"

definition ceiling_permits ::
    "('w, 'g, 'k, 'v, 'c, 'x) gate \<Rightarrow> 'w \<Rightarrow> 'g caveats \<Rightarrow> denial_kind \<Rightarrow> string \<Rightarrow> bool" where
  "ceiling_permits g w bound kind target =
     (case kind of
        DenialKind_Exec \<Rightarrow> permits_exec bound target
      | DenialKind_FsRead \<Rightarrow> permits_fs_read bound target
      | DenialKind_FsWrite \<Rightarrow> permits_fs_write bound target
      | DenialKind_Net \<Rightarrow> permits_net bound target
      | DenialKind_GitWrite \<Rightarrow> session_permits_commit bound
      | DenialKind_RemoteTool \<Rightarrow> False
      | DenialKind_Build \<Rightarrow> x_leq g (x_build_caveats g w target) bound)"

definition session_grant_covers :: "grant fset \<Rightarrow> permission_request \<Rightarrow> bool" where
  "session_grant_covers grants req \<longleftrightarrow>
     rq_grant req |\<in>| grants \<or>
     rq_kind req = DenialKind_Exec \<and> is_build_tool_exec (rq_target req) \<and>
       fBex grants (\<lambda>gr. fst gr = DenialKind_Build)"

definition covering_build_grant_workspace :: "grant fset \<Rightarrow> 'g caveats \<Rightarrow> string option" where
  "covering_build_grant_workspace grants baseline =
     (let cwd_roots = (case cv_fs_write baseline of
                         Scope_Only s \<Rightarrow> sorted_list_of_fset s | Scope_All \<Rightarrow> []);
          workspaces = map snd (filter (\<lambda>gr. fst gr = DenialKind_Build) (sorted_list_of_fset grants))
      in case List.find (\<lambda>ws. list_ex (\<lambda>root. path_starts_with (path_components root)
                                                  (path_components ws)) cwd_roots) workspaces of
           Some ws \<Rightarrow> Some ws
         | None \<Rightarrow> (case workspaces of [] \<Rightarrow> None | ws # _ \<Rightarrow> Some ws))"

definition take_pending_once :: "grant fset \<Rightarrow> permission_request \<Rightarrow> grant option \<times> grant fset" where
  "take_pending_once pending req =
     (if rq_grant req |\<in>| pending then (Some (rq_grant req), pending |-| {|rq_grant req|})
      else (None, pending))"

section \<open>Deriving and minting a policy\<close>

definition record_decision ::
    "('w, 'g, 'k, 'v, 'c, 'x) gate \<Rightarrow> permission_request \<Rightarrow> string \<Rightarrow> string \<Rightarrow> 'w gate_state \<Rightarrow>
      'w gate_state" where
  "record_decision g req decision scp st =
     (let rec = PermissionRecord_new (g_conversation g) (rq_tool req) (rq_kind req) (rq_target req)
                  decision scp;
          w = (case g_log_path g of
                 None \<Rightarrow> gs_world st | Some p \<Rightarrow> x_append_log g p rec (gs_world st))
      in on_prompt (\<lambda>s. s\<lparr>ps_decisions := ps_decisions s @ [rec]\<rparr>) (st\<lparr>gs_world := w\<rparr>))"

definition clamp_policy :: "('w, 'g, 'k, 'v, 'c, 'x) gate \<Rightarrow> 'g caveats \<Rightarrow> 'g caveats" where
  "clamp_policy g policy =
     (let p1 = (case g_preset_clamp g of None \<Rightarrow> policy | Some c \<Rightarrow> x_meet g policy c)
      in case g_delegation g of None \<Rightarrow> p1 | Some d \<Rightarrow> x_meet g p1 d)"

definition policy_with_grants ::
    "('w, 'g, 'k, 'v, 'c, 'x) gate \<Rightarrow> 'g caveats \<Rightarrow> grant list \<Rightarrow> 'w gate_state \<Rightarrow>
      (string + 'g caveats) \<times> 'w gate_state" where
  "policy_with_grants g base once st =
     (let w = gs_world st;
          (grs, s) = recalled_grants g (g_danger g) w (gs_prompt st);
          policy = clamp_policy g
            (widen_caveats (gate_aliases g) (x_view g w) base (grs @ once))
      in (rbind (validate_caveats g w policy) (\<lambda>_. Inr policy), st\<lparr>gs_prompt := s\<rparr>))"

definition mint ::
    "('w, 'g, 'k, 'v, 'c, 'x) gate \<Rightarrow> 'g caveats \<Rightarrow> grant list \<Rightarrow> 'w gate_state \<Rightarrow>
      (string + 'g caveats) \<times> 'w gate_state" where
  "mint g base once st =
     (case policy_with_grants g base once st of
        (Inl e, st1) \<Rightarrow> (Inl e, st1)
      | (Inr policy, st1) \<Rightarrow>
          if g_delegation g \<noteq> None then (Inr policy, st1)
          else let (key, w) = (case g_key_path g of
                                 None \<Rightarrow> (None, gs_world st1)
                               | Some p \<Rightarrow> x_mint_key g p policy (gs_world st1));
                   policy' = (case key of
                                Some k \<Rightarrow> (case x_enforced g k of Some c \<Rightarrow> c | None \<Rightarrow> policy)
                              | None \<Rightarrow> policy)
               in (rbind (validate_caveats g w policy') (\<lambda>_. Inr policy'), st1\<lparr>gs_world := w\<rparr>))"

definition current_caveats ::
    "('w, 'g, 'k, 'v, 'c, 'x) gate \<Rightarrow> 'w gate_state \<Rightarrow> (string + 'g caveats) \<times> 'w gate_state" where
  "current_caveats g st = mint g (g_base g) [] st"

section \<open>Asking the operator\<close>

definition gate_default :: "('w, 'g, 'k, 'v, 'c, 'x) gate \<Rightarrow> prompt_state \<Rightarrow> permission_request \<Rightarrow>
    permission_action" where
  "gate_default g s req =
     (case ps_prompt_default s of
        Some a \<Rightarrow> a
      | None \<Rightarrow>
          if rq_tool req = ''mcp connect'' \<and> rq_kind req = DenialKind_Net
          then (case ps_mcp_net_default s of Some a \<Rightarrow> a | None \<Rightarrow> AllowOnce)
          else AllowOnce)"

definition terminal_default :: "prompt_state \<Rightarrow> permission_action" where
  "terminal_default s = (case ps_prompt_default s of Some a \<Rightarrow> a | None \<Rightarrow> AllowOnce)"

definition decode_outcome :: "surface_interaction \<Rightarrow> human_outcome \<Rightarrow> permission_action" where
  "decode_outcome si out =
     (case out of
        Outcome_Answer answer \<Rightarrow> decode_answer (si_definition si) (answer_or_default si answer)
      | Outcome_Cancelled \<Rightarrow> Back
      | Outcome_ExitRequested \<Rightarrow> Exit
      | Outcome_InputClosed \<Rightarrow> Deny
      | Outcome_InputFailed \<Rightarrow> Deny
      | Outcome_Unavailable \<Rightarrow> Deny)"

definition authorize ::
    "('w, 'g, 'k, 'v, 'c, 'x) gate \<Rightarrow> interaction_definition \<Rightarrow> audience \<Rightarrow> permission_action \<Rightarrow>
      'w gate_state \<Rightarrow> ('x refusal + permission_action) \<times> 'w gate_state" where
  "authorize g d aud decoded st =
     (if decoded = Back \<or> decoded = Exit then (Inr decoded, st)
      else let (stamp, w) = x_stamp g (gs_world st)
           in (gate_authorize (x_minting g) (ps_workspace_key (gs_prompt st)) (g_conversation g)
                 stamp d aud decoded, st\<lparr>gs_world := w\<rparr>))"

definition note_refusal ::
    "('w, 'g, 'k, 'v, 'c, 'x) gate \<Rightarrow> permission_request \<Rightarrow> permission_action \<Rightarrow> 'w gate_state \<Rightarrow>
      'w gate_state" where
  "note_refusal g req decoded st =
     (let high = (danger_classify (g_danger g) (rq_kind req) (rq_target req) = DangerTier_High);
          scp = (if decoded = AllowSession \<and> high then ''session-allow-refused-high-danger''
                 else if decoded = AllowPermanent \<and> high
                 then ''permanent-allow-refused-high-danger''
                 else ''unauthorized'')
      in record_decision g req ''deny'' scp st)"

text \<open>
  One prompt: the choice with its scope, or \<open>None\<close> when the authorizer refused. Building the form
  cannot panic (\<open>permission_interaction_total\<close>), so its failure has no case of its own.
\<close>

definition ask_terminal ::
    "('w, 'g, 'k, 'v, 'c, 'x) gate \<Rightarrow> permission_request \<Rightarrow> 'w gate_state \<Rightarrow>
      (permission_action \<times> string) option \<times> 'w gate_state" where
  "ask_terminal g req st =
     (case permission_interaction (g_debug g) req (g_danger g)
             (gate_default g (gs_prompt st) req) of
        Inl _ \<Rightarrow> (None, st)
      | Inr si \<Rightarrow>
          let (decoded, w) =
                (case g_ask_surface g of
                   Some ask \<Rightarrow> (let (out, w) = ask si (gs_world st) in (decode_outcome si out, w))
                 | None \<Rightarrow> g_ask_human g si (gs_world st))
          in (case authorize g (si_definition si) Audience_Terminal decoded (st\<lparr>gs_world := w\<rparr>) of
                (Inr choice, st1) \<Rightarrow> (Some (choice, decision_scope choice), st1)
              | (Inl _, st1) \<Rightarrow> (None, note_refusal g req decoded st1)))"

definition ask_operator ::
    "('w, 'g, 'k, 'v, 'c, 'x) gate \<Rightarrow> bool \<Rightarrow> permission_request \<Rightarrow> 'w gate_state \<Rightarrow>
      (permission_action \<times> string) option \<times> 'w gate_state" where
  "ask_operator g web req st =
     (if web then (let (answer, w) = x_web_decision g req (gs_world st)
                   in (Some answer, st\<lparr>gs_world := w\<rparr>))
      else ask_terminal g req st)"

definition apply_control ::
    "('w, 'g, 'k, 'v, 'c, 'x) gate \<Rightarrow> permission_action \<Rightarrow> 'w gate_state \<Rightarrow> 'w gate_state" where
  "apply_control g action st =
     st\<lparr>gs_cancel := (gs_cancel st \<or> g_has_cancel g),
        gs_exit := (gs_exit st \<or> action = Exit \<and> g_has_exit g)\<rparr>"

section \<open>Permanent grants\<close>

definition relative_exec_refusal :: "string \<Rightarrow> string" where
  "relative_exec_refusal target =
     ''permanent allow refused: `'' @ target @ ''` is a relative path '' @ dash @
     '' grant a bare command name or an absolute path instead''"

definition approve_entry_for :: "denial_kind \<Rightarrow> string \<Rightarrow> (string + approve_entry) option" where
  "approve_entry_for kind target =
     (case kind of
        DenialKind_Exec \<Rightarrow>
          (let is_path = (CHR ''/'' \<in> set target \<or> CHR 0x5C \<in> set target) in
           if is_path \<and> \<not> path_is_absolute (path_components target)
           then Some (Inl (relative_exec_refusal target))
           else Some (Inr (Approve_Exec target)))
      | DenialKind_FsRead \<Rightarrow> Some (Inr (Approve_Fs target False))
      | DenialKind_FsWrite \<Rightarrow> Some (Inr (Approve_Fs target True))
      | DenialKind_Net \<Rightarrow> Some (Inr (Approve_Net target))
      | _ \<Rightarrow> None)"

definition normalized_danger_target :: "bool list \<Rightarrow> denial_kind \<Rightarrow> string \<Rightarrow> string" where
  "normalized_danger_target table kind target =
     (if kind = DenialKind_FsRead \<or> kind = DenialKind_FsWrite
      then (case normalize_fs_path table target of Inr t \<Rightarrow> t | Inl _ \<Rightarrow> target)
      else target)"

definition ocap_high_danger_predicate ::
    "string option \<Rightarrow> string option \<Rightarrow> capability_class \<Rightarrow> string \<Rightarrow> bool" where
  "ocap_high_danger_predicate home cwd class target \<longleftrightarrow>
     danger_classify (production_danger_table home cwd)
       (case class of
          Class_Exec \<Rightarrow> DenialKind_Exec | Class_Fs \<Rightarrow> DenialKind_FsWrite | Class_Net \<Rightarrow> DenialKind_Net)
       target = DangerTier_High"

text \<open>Writing the signed entry, and reloading the store through its verifier.\<close>

definition persist_permanent ::
    "('w, 'g, 'k, 'v, 'c, 'x) gate \<Rightarrow> approve_entry \<Rightarrow> 'w gate_state \<Rightarrow> string \<times> 'w gate_state" where
  "persist_permanent g entry st =
     (if g_delegation g \<noteq> None then (''session'', st)
      else (case g_config_path g of
              None \<Rightarrow> (''session-no-config'', st)
            | Some config \<Rightarrow>
                (case (case g_key_path g of None \<Rightarrow> None | Some p \<Rightarrow> x_load_key g p (gs_world st)) of
                   None \<Rightarrow> (''session-no-key'', st)
                 | Some (vk, sign) \<Rightarrow>
                     (let (home, cwd) = x_home_cwd g (gs_world st) in
                      case persist_approve (gate_aliases g) (x_policy_lib g) (x_store_io g config)
                             (ocap_high_danger_predicate home cwd) sign entry (gs_world st) of
                        (Inl _, w) \<Rightarrow> (''permanent-persist-failed'', st\<lparr>gs_world := w\<rparr>)
                      | (Inr _, w) \<Rightarrow>
                          let policy = fst (load_store (x_policy_lib g) (x_store_read g config w)
                                              (Some vk))
                          in (''permanent'',
                              on_prompt (\<lambda>s. snd (fold_ocap_approvals (s\<lparr>ps_ocap := policy\<rparr>)))
                                (st\<lparr>gs_world := w\<rparr>))))))"

section \<open>One request of a batch\<close>

text \<open>
  The body of the loop in \<^verbatim>\<open>ask_scoped\<close>. A step denies the whole batch or goes on, with the
  one-time grants and the build fence collected so far.
\<close>

record 'g batch =
  bt_once :: "grant list"
  bt_fence :: "'g caveats option"

datatype 'g flow = Flow_Deny | Flow_Next "'g batch"

definition add_once :: "grant \<Rightarrow> 'g batch \<Rightarrow> 'g batch" where
  "add_once gr b = b\<lparr>bt_once := bt_once b @ [gr]\<rparr>"

definition grant_session :: "grant \<Rightarrow> 'w gate_state \<Rightarrow> 'w gate_state" where
  "grant_session gr = on_prompt (\<lambda>s. s\<lparr>ps_session_grants := finsert gr (ps_session_grants s)\<rparr>)"

definition floor_refusal ::
    "('w, 'g, 'k, 'v, 'c, 'x) gate \<Rightarrow> 'w \<Rightarrow> permission_request \<Rightarrow> string option" where
  "floor_refusal g w req =
     (case g_preset_clamp g of
        None \<Rightarrow> None
      | Some clamp \<Rightarrow>
          if rq_kind req = DenialKind_Build \<and>
             \<not> ceiling_permits g w clamp (rq_kind req) (rq_target req)
          then Some ''preset-floor-build''
          else if rq_kind req = DenialKind_GitWrite \<and> \<not> session_permits_commit clamp
          then Some ''preset-floor-git-readonly''
          else None)"

text \<open>Asking for what is already held; only a proactive request qualifies.\<close>

definition already_held ::
    "('w, 'g, 'k, 'v, 'c, 'x) gate \<Rightarrow> 'g caveats \<Rightarrow> permission_request \<Rightarrow> 'w gate_state \<Rightarrow>
      bool \<times> 'w gate_state" where
  "already_held g baseline req st =
     (if rq_tool req = ''request_permissions'' \<and> \<not> rq_harness_bound req \<and> durable_kind (rq_kind req)
      then (case policy_with_grants g baseline [] st of
              (Inr policy, st1) \<Rightarrow>
                (ceiling_permits g (gs_world st1) policy (rq_kind req) (rq_target req), st1)
            | (Inl _, st1) \<Rightarrow> (False, st1))
      else (False, st))"

definition covered_by_session ::
    "('w, 'g, 'k, 'v, 'c, 'x) gate \<Rightarrow> 'g caveats \<Rightarrow> permission_request \<Rightarrow> 'w gate_state \<Rightarrow>
      'g batch \<Rightarrow> 'g flow" where
  "covered_by_session g baseline req st b =
     (let grants = ps_session_grants (gs_prompt st) in
      if rq_grant req |\<in>| grants then Flow_Next b
      else let b1 = add_once (rq_grant req) b in
        case covering_build_grant_workspace grants baseline of
          None \<Rightarrow> Flow_Next b1
        | Some ws \<Rightarrow>
            let fence = (x_build_caveats g (gs_world st) ws)\<lparr>cv_net := cv_net baseline\<rparr> in
            (case validate_caveats g (gs_world st) fence of
               Inl _ \<Rightarrow> Flow_Deny
             | Inr _ \<Rightarrow>
                 Flow_Next (b1\<lparr>bt_fence := Some (case bt_fence b1 of
                                Some existing \<Rightarrow> x_meet g existing fence | None \<Rightarrow> fence)\<rparr>)))"

text \<open>What is done with the operator's choice.\<close>

definition apply_choice ::
    "('w, 'g, 'k, 'v, 'c, 'x) gate \<Rightarrow> permission_request \<Rightarrow> permission_action \<Rightarrow> string \<Rightarrow>
      'g batch \<Rightarrow> 'w gate_state \<Rightarrow> 'g flow \<times> 'w gate_state" where
  "apply_choice g req choice scp b st =
     (case choice of
        AllowOnce \<Rightarrow>
          (let st1 = record_decision g req ''allow'' scp st in
           (Flow_Next (add_once (rq_grant req) b),
            if rq_tool req = ''request_permissions''
            then on_prompt (\<lambda>s. s\<lparr>ps_pending_once := finsert (rq_grant req) (ps_pending_once s)\<rparr>) st1
            else st1))
      | AllowSession \<Rightarrow>
          if danger_classify (g_danger g) (rq_kind req) (rq_target req) = DangerTier_High \<and>
             rq_kind req \<noteq> DenialKind_Build
          then (Flow_Deny, record_decision g req ''deny'' ''session-allow-refused-high-danger'' st)
          else (Flow_Next b, grant_session (rq_grant req) (record_decision g req ''allow'' scp st))
      | AllowPermanent \<Rightarrow>
          if danger_classify (g_danger g) (rq_kind req)
               (normalized_danger_target (gate_aliases g) (rq_kind req) (rq_target req)) = DangerTier_High
          then (Flow_Deny, record_decision g req ''deny'' ''permanent-allow-refused-high-danger'' st)
          else (case approve_entry_for (rq_kind req) (rq_target req) of
                  None \<Rightarrow>
                    (Flow_Next b, grant_session (rq_grant req) (record_decision g req ''allow'' scp st))
                | Some (Inl _) \<Rightarrow>
                    (Flow_Deny,
                     record_decision g req ''deny'' ''permanent-allow-refused-relative-exec-path'' st)
                | Some (Inr entry) \<Rightarrow>
                    let (persistent_scope, st1) = persist_permanent g entry st
                    in (Flow_Next b,
                        grant_session (rq_grant req)
                          (record_decision g req ''allow'' persistent_scope st1)))
      | Deny \<Rightarrow> (Flow_Deny, record_decision g req ''deny'' scp st)
      | DenyAlways \<Rightarrow>
          (Flow_Deny,
           on_prompt (\<lambda>s. s\<lparr>ps_session_denials := finsert (rq_grant req) (ps_session_denials s)\<rparr>)
             (record_decision g req ''deny'' ''session'' st))
      | DenyPermanent \<Rightarrow>
          (let st1 = record_decision g req ''deny'' ''permanent'' st;
               w = (case g_denials_path g of
                      None \<Rightarrow> gs_world st1
                    | Some p \<Rightarrow> x_append_denial g p (rq_grant req) (gs_world st1))
           in (Flow_Deny,
               on_prompt (\<lambda>s. s\<lparr>ps_persistent_denials :=
                                finsert (rq_grant req) (ps_persistent_denials s)\<rparr>)
                 (st1\<lparr>gs_world := w\<rparr>)))
      | _ \<Rightarrow> (Flow_Deny, apply_control g choice st))"

text \<open>The request once nothing standing covers it: a pending grant, or the operator.\<close>

definition pending_or_ask ::
    "('w, 'g, 'k, 'v, 'c, 'x) gate \<Rightarrow> bool \<Rightarrow> bool \<Rightarrow> permission_request \<Rightarrow> 'g batch \<Rightarrow>
      'w gate_state \<Rightarrow> 'g flow \<times> 'w gate_state" where
  "pending_or_ask g web operation_only req b st =
     (case (if \<not> operation_only \<and> rq_tool req \<noteq> ''request_permissions''
            then take_pending_once (ps_pending_once (gs_prompt st)) req
            else (None, ps_pending_once (gs_prompt st))) of
        (Some key, pending) \<Rightarrow>
          (Flow_Next (add_once key b),
           record_decision g req ''allow'' ''once''
             (on_prompt (\<lambda>s. s\<lparr>ps_pending_once := pending\<rparr>) st))
      | (None, _) \<Rightarrow>
          if \<not> g_prompts_enabled g
          then (Flow_Deny, record_decision g req ''deny'' ''authorization-prompts-disabled'' st)
          else (case ask_operator g web req st of
                  (None, st1) \<Rightarrow> (Flow_Deny, st1)
                | (Some (choice, scp), st1) \<Rightarrow> apply_choice g req choice scp b st1))"

definition ask_request ::
    "('w, 'g, 'k, 'v, 'c, 'x) gate \<Rightarrow> bool \<Rightarrow> 'g caveats \<Rightarrow> bool \<Rightarrow> permission_request \<Rightarrow> 'g batch \<Rightarrow>
      'w gate_state \<Rightarrow> 'g flow \<times> 'w gate_state" where
  "ask_request g web baseline operation_only req b st =
     (case floor_refusal g (gs_world st) req of
        Some scp \<Rightarrow> (Flow_Deny, record_decision g req ''deny'' scp st)
      | None \<Rightarrow>
          let (held, st1) = already_held g baseline req st;
              s = gs_prompt st1;
              low = (danger_classify (g_danger g) (rq_kind req) (rq_target req) \<noteq> DangerTier_High)
          in if held then (Flow_Next b, st1)
             else if \<not> operation_only \<and> session_grant_covers (ps_session_grants s) req
             then (covered_by_session g baseline req st1 b, st1)
             else if \<not> operation_only \<and> rq_grant req |\<in>| ps_durable_grants s \<and> low
             then (Flow_Next b, record_decision g req ''allow'' ''encrypted-permanent'' st1)
             else if \<not> operation_only \<and>
                     evaluate_request (x_platform g) (x_policy_lib g) (ps_ocap s) (rq_kind req)
                       (rq_target req) = Some Verdict_Approve \<and> low
             then (Flow_Next (add_once (rq_grant req) b),
                   record_decision g req ''allow'' ''ocap-approve'' st1)
             else if rq_tool req = ''run_command'' \<and> rq_kind req = DenialKind_Exec \<and>
                     path_is_absolute (path_components (rq_target req)) \<and>
                     rq_grant req \<in> set (bt_once b)
             then (Flow_Next b, record_decision g req ''allow'' ''once'' st1)
             else pending_or_ask g web operation_only req b st1)"

fun ask_requests ::
    "('w, 'g, 'k, 'v, 'c, 'x) gate \<Rightarrow> bool \<Rightarrow> 'g caveats \<Rightarrow> bool \<Rightarrow> permission_request list \<Rightarrow>
      'g batch \<Rightarrow> 'w gate_state \<Rightarrow> 'g flow \<times> 'w gate_state" where
  "ask_requests g web baseline operation_only [] b st = (Flow_Next b, st)"
| "ask_requests g web baseline operation_only (req # reqs) b st =
     (case ask_request g web baseline operation_only req b st of
        (Flow_Deny, st1) \<Rightarrow> (Flow_Deny, st1)
      | (Flow_Next b1, st1) \<Rightarrow> ask_requests g web baseline operation_only reqs b1 st1)"

section \<open>A batch\<close>

fun is_err :: "'e + 'a \<Rightarrow> bool" where
  "is_err (Inl _) = True"
| "is_err (Inr _) = False"

definition malformed_operation :: "'g caveats \<Rightarrow> permission_request list \<Rightarrow> bool \<Rightarrow> bool" where
  "malformed_operation baseline reqs operation_only \<longleftrightarrow>
     operation_only \<and>
     (case reqs of
        [r] \<Rightarrow> rq_tool r \<noteq> ''lifecycle'' \<or> rq_kind r \<noteq> DenialKind_Net \<or> cv_net baseline \<noteq> Scope_All
      | _ \<Rightarrow> True)"

text \<open>The guard of protected resources looks at the whole batch first.\<close>

definition protection_refuses ::
    "('w, 'g, 'k, 'v, 'c, 'x) gate \<Rightarrow> 'g caveats \<Rightarrow> permission_request list \<Rightarrow> 'w gate_state \<Rightarrow>
      bool \<times> 'w gate_state" where
  "protection_refuses g baseline reqs st =
     (case x_protection g of
        None \<Rightarrow> (False, st)
      | Some v \<Rightarrow>
          if is_err (v (gs_world st) baseline) \<or>
             list_ex (\<lambda>r. is_err (validate_request g v (gs_world st) (rq_kind r) (rq_target r))) reqs
          then (True, st)
          else let (res, st1) = policy_with_grants g baseline (map rq_grant reqs) st
               in (is_err res, st1))"

definition fence_exceeds_ceiling ::
    "('w, 'g, 'k, 'v, 'c, 'x) gate \<Rightarrow> 'g caveats \<Rightarrow> permission_request list \<Rightarrow> bool \<Rightarrow> bool" where
  "fence_exceeds_ceiling g baseline reqs operation_only \<longleftrightarrow>
     (operation_only \<or> list_ex (\<lambda>r. rq_kind r = DenialKind_Build) reqs) \<and>
     ((case g_preset_clamp g of None \<Rightarrow> False | Some c \<Rightarrow> \<not> x_leq g baseline c) \<or>
      (case g_delegation g of None \<Rightarrow> False | Some d \<Rightarrow> \<not> x_leq g baseline d))"

definition preset_refuses_batch ::
    "('w, 'g, 'k, 'v, 'c, 'x) gate \<Rightarrow> 'w \<Rightarrow> permission_request list \<Rightarrow> bool" where
  "preset_refuses_batch g w reqs =
     (case g_preset_clamp g of
        None \<Rightarrow> False
      | Some clamp \<Rightarrow>
          list_ex (\<lambda>r. rq_kind r = DenialKind_FsRead \<or> rq_kind r = DenialKind_FsWrite) reqs \<and>
          list_ex (\<lambda>r. durable_kind (rq_kind r) \<and>
                       \<not> ceiling_permits g w clamp (rq_kind r) (rq_target r)) reqs)"

definition delegation_refuses ::
    "('w, 'g, 'k, 'v, 'c, 'x) gate \<Rightarrow> 'w \<Rightarrow> permission_request list \<Rightarrow> bool" where
  "delegation_refuses g w reqs =
     (case g_delegation g of
        None \<Rightarrow> False
      | Some d \<Rightarrow> list_ex (\<lambda>r. \<not> ceiling_permits g w d (rq_kind r) (rq_target r)) reqs)"

definition record_all ::
    "('w, 'g, 'k, 'v, 'c, 'x) gate \<Rightarrow> string \<Rightarrow> string \<Rightarrow> permission_request list \<Rightarrow> 'w gate_state \<Rightarrow>
      'w gate_state" where
  "record_all g decision scp reqs st =
     foldl (\<lambda>st r. record_decision g r decision scp st) st reqs"

definition preapprove ::
    "('w, 'g, 'k, 'v, 'c, 'x) gate \<Rightarrow> 'g caveats \<Rightarrow> permission_request list \<Rightarrow> 'w gate_state \<Rightarrow>
      'g permission_decision \<times> 'w gate_state" where
  "preapprove g baseline reqs st =
     (case mint g baseline [] st of
        (Inl _, st1) \<Rightarrow> (Decision_Deny, st1)
      | (Inr minted, st1) \<Rightarrow>
          (Decision_Allow minted,
           foldl (\<lambda>st r. grant_session (rq_grant r)
                          (record_decision g r ''allow'' ''session-full-access'' st)) st1 reqs))"

text \<open>The batch passed: mint, fence and check once more.\<close>

definition conclude ::
    "('w, 'g, 'k, 'v, 'c, 'x) gate \<Rightarrow> 'g caveats \<Rightarrow> bool \<Rightarrow> 'g batch \<Rightarrow> 'w gate_state \<Rightarrow>
      'g permission_decision \<times> 'w gate_state" where
  "conclude g baseline operation_only b st =
     (case mint g baseline (bt_once b) st of
        (Inl _, st1) \<Rightarrow> (Decision_Deny, st1)
      | (Inr minted, st1) \<Rightarrow>
          let allowed = (case bt_fence b of Some fence \<Rightarrow> x_meet g minted fence | None \<Rightarrow> minted) in
          if is_err (validate_caveats g (gs_world st1) allowed) then (Decision_Deny, st1)
          else if operation_only
          then if x_leq g baseline allowed then (Decision_Allow (x_meet g allowed baseline), st1)
               else (Decision_Deny, st1)
          else (Decision_Allow allowed, st1))"

definition ask_scoped ::
    "('w, 'g, 'k, 'v, 'c, 'x) gate \<Rightarrow> 'g caveats \<Rightarrow> permission_request list \<Rightarrow> bool \<Rightarrow> bool \<Rightarrow>
      'w gate_state \<Rightarrow> 'g permission_decision \<times> 'w gate_state" where
  "ask_scoped g baseline reqs operation_only preapproved st =
     (if malformed_operation baseline reqs operation_only \<or> reqs = [] then (Decision_Deny, st)
      else let (refused, st1) = protection_refuses g baseline reqs st in
        if refused then (Decision_Deny, st1)
        else if fence_exceeds_ceiling g baseline reqs operation_only \<or>
                preset_refuses_batch g (gs_world st1) reqs
        then (Decision_Deny, st1)
        else if delegation_refuses g (gs_world st1) reqs
        then (Decision_Deny, record_all g ''deny'' ''delegated-ceiling'' reqs st1)
        else if list_ex (\<lambda>r. denied g (gs_prompt st1) (rq_kind r) (rq_target r)) reqs
        then (Decision_Deny, st1)
        else if preapproved then preapprove g baseline reqs st1
        else (case ask_requests g (ps_web (gs_prompt st1)) baseline operation_only reqs
                     \<lparr>bt_once = [], bt_fence = None\<rparr> st1 of
                (Flow_Deny, st2) \<Rightarrow> (Decision_Deny, st2)
              | (Flow_Next b, st2) \<Rightarrow> conclude g baseline operation_only b st2))"

section \<open>The trait's operations\<close>

definition refresh_caveats ::
    "('w, 'g, 'k, 'v, 'c, 'x) gate \<Rightarrow> 'g caveats \<Rightarrow> 'w gate_state \<Rightarrow>
      'g permission_decision \<times> 'w gate_state" where
  "refresh_caveats g baseline st =
     (case mint g baseline [] st of
        (Inl _, st1) \<Rightarrow> (Decision_Deny, st1) | (Inr c, st1) \<Rightarrow> (Decision_Allow c, st1))"

definition ask_with_caveats ::
    "('w, 'g, 'k, 'v, 'c, 'x) gate \<Rightarrow> 'g caveats \<Rightarrow> permission_request list \<Rightarrow> 'w gate_state \<Rightarrow>
      'g permission_decision \<times> 'w gate_state" where
  "ask_with_caveats g baseline reqs st = ask_scoped g baseline reqs False False st"

definition ask ::
    "('w, 'g, 'k, 'v, 'c, 'x) gate \<Rightarrow> permission_request list \<Rightarrow> 'w gate_state \<Rightarrow>
      'g permission_decision \<times> 'w gate_state" where
  "ask g reqs st = ask_with_caveats g (g_base g) reqs st"

definition ask_full_access ::
    "('w, 'g, 'k, 'v, 'c, 'x) gate \<Rightarrow> permission_request list \<Rightarrow> 'w gate_state \<Rightarrow>
      'g permission_decision \<times> 'w gate_state" where
  "ask_full_access g reqs st = ask_scoped g (g_base g) reqs False True st"

definition ask_dependency_fetch ::
    "('w, 'g, 'k, 'v, 'c, 'x) gate \<Rightarrow> 'g caveats \<Rightarrow> permission_request \<Rightarrow> 'w gate_state \<Rightarrow>
      'g permission_decision \<times> 'w gate_state" where
  "ask_dependency_fetch g prepared req st = ask_scoped g prepared [req] True False st"

definition consume_pending_once :: "denial_kind \<Rightarrow> string \<Rightarrow> 'w gate_state \<Rightarrow> 'w gate_state" where
  "consume_pending_once kind target =
     on_prompt (\<lambda>s. s\<lparr>ps_pending_once := ps_pending_once s |-| {|(kind, target)|}\<rparr>)"

definition queue_pending_once :: "denial_kind \<Rightarrow> string \<Rightarrow> 'w gate_state \<Rightarrow> 'w gate_state" where
  "queue_pending_once kind target =
     on_prompt (\<lambda>s. s\<lparr>ps_pending_once := finsert (kind, target) (ps_pending_once s)\<rparr>)"

definition apply_pending_once ::
    "('w, 'g, 'k, 'v, 'c, 'x) gate \<Rightarrow> denial_kind \<Rightarrow> string \<Rightarrow> 'g caveats \<Rightarrow> 'w gate_state \<Rightarrow>
      'g caveats \<times> 'w gate_state" where
  "apply_pending_once g kind target baseline st =
     (if (kind, target) |\<notin>| ps_pending_once (gs_prompt st) then (baseline, st)
      else (case mint g baseline [(kind, target)] st of
              (Inr policy, st1) \<Rightarrow> (policy, consume_pending_once kind target st1)
            | (Inl _, st1) \<Rightarrow> (baseline, st1)))"

definition retry_key :: "('w, 'g, 'k, 'v, 'c, 'x) gate \<Rightarrow> string \<Rightarrow> string \<Rightarrow> string \<times> string" where
  "retry_key g command cwd = (x_content_id g command, x_content_id g cwd)"

definition queue_command_retry ::
    "('w, 'g, 'k, 'v, 'c, 'x) gate \<Rightarrow> string \<Rightarrow> string \<Rightarrow> permission_request list \<Rightarrow>
      'w gate_state \<Rightarrow> 'w gate_state" where
  "queue_command_retry g command cwd reqs st =
     st\<lparr>gs_retries := (gs_retries st)(retry_key g command cwd \<mapsto> map rq_grant reqs)\<rparr>"

definition drop_command_retry ::
    "('w, 'g, 'k, 'v, 'c, 'x) gate \<Rightarrow> string \<Rightarrow> string \<Rightarrow> 'w gate_state \<Rightarrow> 'w gate_state" where
  "drop_command_retry g command cwd st =
     st\<lparr>gs_retries := (gs_retries st)(retry_key g command cwd := None)\<rparr>"

definition apply_command_retry ::
    "('w, 'g, 'k, 'v, 'c, 'x) gate \<Rightarrow> string \<Rightarrow> string \<Rightarrow> 'g caveats \<Rightarrow> 'w gate_state \<Rightarrow>
      'g caveats \<times> 'w gate_state" where
  "apply_command_retry g command cwd base st =
     (case gs_retries st (retry_key g command cwd) of
        None \<Rightarrow> (base, st)
      | Some grants \<Rightarrow>
          if list_ex (\<lambda>gr. denied g (gs_prompt st) (fst gr) (snd gr)) grants
          then (base, drop_command_retry g command cwd st)
          else (case mint g base grants st of
                  (Inl _, st1) \<Rightarrow> (base, st1)
                | (Inr policy, st1) \<Rightarrow>
                    if \<not> list_all (\<lambda>gr. fst gr = DenialKind_Exec \<and> permits_exec policy (snd gr)) grants
                    then (base, st1)
                    else (policy, drop_command_retry g command cwd st1)))"

definition ask_mcp_net_grant ::
    "('w, 'g, 'k, 'v, 'c, 'x) gate \<Rightarrow> permission_request \<Rightarrow> 'w gate_state \<Rightarrow>
      ('g caveats \<times> string list \<times> bool) option \<times> 'w gate_state" where
  "ask_mcp_net_grant g req st =
     (if rq_kind req \<noteq> DenialKind_Net then (None, st)
      else (case ask g [req] st of
              (Decision_Deny, st1) \<Rightarrow> (None, st1)
            | (Decision_Allow caveats, st1) \<Rightarrow>
                if \<not> permits_net caveats (rq_target req) then (None, st1)
                else let (grs, s) = recalled_grants g (g_danger g) (gs_world st1) (gs_prompt st1);
                         hosts = map snd (filter (\<lambda>gr. fst gr = DenialKind_Net \<and>
                                                       permits_net caveats (snd gr)) grs);
                         hosts' = (if rq_target req \<in> set hosts then hosts
                                   else hosts @ [rq_target req])
                     in (Some (caveats, hosts',
                           session_grant_covers (ps_session_grants s) req \<or>
                           rq_grant req |\<in>| ps_durable_grants s),
                         st1\<lparr>gs_prompt := s\<rparr>)))"

end
