(* ===== verification/PermissionSafety.thy ===== *)
theory PermissionSafety
  imports PermissionGate
begin

text \<open>
  What the permission gate guarantees over any session: facts about recalling and minting, a
  locale for the orders on states that every operation respects with three interpretations
  (denials, grants, the record of decisions), and the properties.
\<close>

section \<open>What recalling does\<close>

lemma on_prompt_simps [simp]:
  "gs_prompt (on_prompt f st) = f (gs_prompt st)" "gs_world (on_prompt f st) = gs_world st"
  "gs_cancel (on_prompt f st) = gs_cancel st" "gs_exit (on_prompt f st) = gs_exit st"
  "gs_retries (on_prompt f st) = gs_retries st"
  by (simp_all add: on_prompt_def)

text \<open>Recalling may quarantine durable grants and changes nothing else.\<close>

definition quarantines :: "prompt_state \<Rightarrow> prompt_state \<Rightarrow> bool" where
  "quarantines s s' \<longleftrightarrow> (\<exists>rej. s' = s\<lparr>ps_rejected := rej\<rparr> \<and> ps_rejected s |\<subseteq>| rej)"

lemma quarantines_refl [simp, intro]: "quarantines s s"
  unfolding quarantines_def by (rule exI [of _ "ps_rejected s"]) simp

lemma quarantines_trans: "quarantines s t \<Longrightarrow> quarantines t u \<Longrightarrow> quarantines s u"
  unfolding quarantines_def by force

lemma quarantines_fields:
  assumes "quarantines s s'"
  shows "ps_session_grants s' = ps_session_grants s" "ps_durable_grants s' = ps_durable_grants s"
    "ps_session_denials s' = ps_session_denials s"
    "ps_persistent_denials s' = ps_persistent_denials s" "ps_pending_once s' = ps_pending_once s"
    "ps_ocap s' = ps_ocap s" "ps_decisions s' = ps_decisions s" "ps_web s' = ps_web s"
    "ps_rejected s |\<subseteq>| ps_rejected s'"
  using assms unfolding quarantines_def by auto

lemma quarantines_reject: "quarantines s (snd (reject_durable_grant gr s))"
  unfolding reject_durable_grant_def quarantines_def
  by (auto intro: exI [of _ "ps_rejected s"] exI [of _ "finsert gr (ps_rejected s)"])

lemma quarantines_filter: "quarantines s (snd (recall_filter g danger w q gr s))"
  using quarantines_reject by (auto simp: recall_filter_def split: option.splits sum.splits)

lemma quarantines_loop: "quarantines s (snd (recall_loop g danger w q grs s))"
proof (induction grs arbitrary: s)
  case (Cons gr grs)
  have "quarantines s (snd (recall_loop g danger w q grs (snd (recall_filter g danger w q gr s))))"
    by (rule quarantines_trans [OF quarantines_filter Cons.IH])
  then show ?case by (auto simp: Let_def split: prod.splits)
qed simp

lemma quarantines_recalled: "quarantines s (snd (recalled_grants g danger w s))"
  by (simp add: recalled_grants_def quarantines_loop)

text \<open>A grant that is recalled is low-danger, and no denial of its kind names or overlaps it.\<close>

definition not_refused :: "prompt_state \<Rightarrow> grant \<Rightarrow> bool" where
  "not_refused s gr \<longleftrightarrow> gr |\<notin>| ps_session_denials s \<and> gr |\<notin>| ps_persistent_denials s"

lemma filter_keeps:
  assumes "fst (recall_filter g danger w q gr s)"
  shows "danger_classify danger (fst gr) (snd gr) = DangerTier_Low \<and> not_refused s gr \<and>
     \<not> recall_conflicts_with_denial g s (fst gr) (snd gr)"
  using assms
  by (auto simp: recall_filter_def recall_conflicts_with_denial_def denied_def denied_exactly_def
      not_refused_def not_high_iff_low split: if_splits)

lemma loop_keeps:
  "gr \<in> set (fst (recall_loop g danger w q grs s)) \<Longrightarrow>
     gr \<in> set grs \<and> danger_classify danger (fst gr) (snd gr) = DangerTier_Low \<and> not_refused s gr"
proof (induction grs arbitrary: s)
  case (Cons x grs)
  obtain keep s1 where f: "recall_filter g danger w q x s = (keep, s1)" by force
  have q: "quarantines s s1" using quarantines_filter [of s g danger w q x] f by simp
  have same: "not_refused s1 y = not_refused s y" for y
    using quarantines_fields [OF q] by (simp add: not_refused_def)
  have "keep \<and> gr = x \<or> gr \<in> set (fst (recall_loop g danger w q grs s1))"
    using Cons.prems f by (auto simp: Let_def split: prod.splits if_splits)
  then show ?case
  proof
    assume "keep \<and> gr = x"
    then show ?thesis using filter_keeps [of g danger w q x s] f by simp
  next
    assume "gr \<in> set (fst (recall_loop g danger w q grs s1))"
    then show ?thesis using Cons.IH [of s1] same by simp
  qed
qed simp

lemma recalled_are_standing:
  assumes "gr \<in> set (fst (recalled_grants g danger w s))"
  shows "gr |\<in>| ps_session_grants s |\<union>| ps_durable_grants s"
    "danger_classify danger (fst gr) (snd gr) = DangerTier_Low" "not_refused s gr"
  using loop_keeps [of gr g danger w True "standing_grants s" s] assms
  by (auto simp: recalled_grants_def standing_grants_def)

section \<open>What minting returns\<close>

fun axis_permits :: "'g caveats \<Rightarrow> denial_kind \<Rightarrow> string \<Rightarrow> bool" where
  "axis_permits c DenialKind_Exec x = permits_exec c x"
| "axis_permits c DenialKind_FsRead x = permits_fs_read c x"
| "axis_permits c DenialKind_FsWrite x = permits_fs_write c x"
| "axis_permits c DenialKind_Net x = permits_net c x"
| "axis_permits c _ x = False"

definition bounded_by :: "'g caveats \<Rightarrow> 'g caveats \<Rightarrow> bool" where
  "bounded_by a b \<longleftrightarrow> (\<forall>k x. axis_permits a k x \<longrightarrow> axis_permits b k x)"

lemma bounded_by_refl [simp, intro]: "bounded_by a a"
  by (simp add: bounded_by_def)

lemma bounded_by_trans: "bounded_by a b \<Longrightarrow> bounded_by b c \<Longrightarrow> bounded_by a c"
  by (simp add: bounded_by_def)

text \<open>
  What the gate relies on of the crates it calls: a meet permits only what both sides permit,
  and the operating key minted for a policy enforces no more than the policy.
\<close>

definition gate_laws :: "('w, 'g, 'k, 'v, 'c, 'x) gate \<Rightarrow> bool" where
  "gate_laws g \<longleftrightarrow>
     (\<forall>a b. bounded_by (x_meet g a b) a \<and> bounded_by (x_meet g a b) b) \<and>
     (\<forall>p policy w k w' c. x_mint_key g p policy w = (Some k, w') \<longrightarrow> x_enforced g k = Some c \<longrightarrow>
        bounded_by c policy)"

lemma meet_bounded:
  assumes "gate_laws g"
  shows "bounded_by (x_meet g a b) a" "bounded_by (x_meet g a b) b"
  using assms by (auto simp: gate_laws_def)

lemma clamp_bounded:
  assumes "gate_laws g"
  shows "bounded_by (clamp_policy g policy) policy"
    "g_preset_clamp g = Some c \<Longrightarrow> bounded_by (clamp_policy g policy) c"
    "g_delegation g = Some d \<Longrightarrow> bounded_by (clamp_policy g policy) d"
  using meet_bounded [OF assms] bounded_by_trans
  by (auto simp: clamp_policy_def Let_def split: option.splits) blast+

lemma widen_axis:
  "axis_permits (widen_caveats table v base grs) k x \<Longrightarrow>
     axis_permits base k x \<or> (\<exists>gr \<in> set grs. fst gr = k \<and> x = grant_text table gr)"
  by (cases k) (auto simp: widen_caveats_def widen_axes_foldl adds_def)

text \<open>The frame of the three deriving operations, and where their policy comes from.\<close>

definition derived_from ::
    "('w, 'g, 'k, 'v, 'c, 'x) gate \<Rightarrow> 'g caveats \<Rightarrow> grant list \<Rightarrow> prompt_state \<Rightarrow> 'g caveats \<Rightarrow> bool" where
  "derived_from g base once s c \<longleftrightarrow>
     (\<forall>k x. axis_permits c k x \<longrightarrow>
        axis_permits base k x \<or>
        (\<exists>gr \<in> set once. fst gr = k \<and> x = grant_text (gate_aliases g) gr) \<or>
        (\<exists>gr. gr |\<in>| ps_session_grants s |\<union>| ps_durable_grants s \<and> fst gr = k \<and>
           x = grant_text (gate_aliases g) gr \<and>
           danger_classify (g_danger g) k (snd gr) = DangerTier_Low \<and> not_refused s gr)) \<and>
     (\<forall>limit. g_preset_clamp g = Some limit \<or> g_delegation g = Some limit \<longrightarrow> bounded_by c limit)"

lemma derived_from_bounded:
  "derived_from g base once s c \<Longrightarrow> bounded_by c' c \<Longrightarrow> derived_from g base once s c'"
  unfolding derived_from_def bounded_by_def by meson

lemma policy_with_grants_frame:
  assumes "policy_with_grants g base once st = (res, st')"
  shows "quarantines (gs_prompt st) (gs_prompt st')" "gs_world st' = gs_world st"
    "st' = st\<lparr>gs_prompt := gs_prompt st'\<rparr>"
  using assms quarantines_recalled [of "gs_prompt st" g "g_danger g" "gs_world st"]
  by (auto simp: policy_with_grants_def Let_def split: prod.splits)

lemma policy_with_grants_derived:
  assumes laws: "gate_laws g" and "policy_with_grants g base once st = (Inr c, st')"
  shows "derived_from g base once (gs_prompt st) c"
proof -
  let ?s = "gs_prompt st" and ?w = "gs_world st"
  let ?grs = "fst (recalled_grants g (g_danger g) ?w ?s)"
  let ?wide = "widen_caveats (gate_aliases g) (x_view g ?w) base (?grs @ once)"
  have c: "c = clamp_policy g ?wide"
    using assms(2) by (auto simp: policy_with_grants_def Let_def result_simps split: prod.splits)
  have "axis_permits base k x \<or>
      (\<exists>gr \<in> set once. fst gr = k \<and> x = grant_text (gate_aliases g) gr) \<or>
      (\<exists>gr. gr |\<in>| ps_session_grants ?s |\<union>| ps_durable_grants ?s \<and> fst gr = k \<and>
         x = grant_text (gate_aliases g) gr \<and>
         danger_classify (g_danger g) k (snd gr) = DangerTier_Low \<and> not_refused ?s gr)"
    if "axis_permits c k x" for k x
  proof -
    have "axis_permits ?wide k x"
      using that clamp_bounded(1) [OF laws, of ?wide] unfolding c bounded_by_def by blast
    then consider "axis_permits base k x"
      | gr where "gr \<in> set (?grs @ once)" "fst gr = k" "x = grant_text (gate_aliases g) gr"
      using widen_axis by blast
    then show ?thesis
    proof cases
      case 2
      show ?thesis
      proof (cases "gr \<in> set ?grs")
        case True
        note recalled_are_standing [OF True]
        then show ?thesis using 2 by (intro disjI2 exI [of _ gr]) simp
      next
        case False
        then show ?thesis using 2 by auto
      qed
    qed simp
  qed
  moreover have "bounded_by c limit" if "g_preset_clamp g = Some limit \<or> g_delegation g = Some limit" for limit
    using that clamp_bounded(2,3) [OF laws, of limit ?wide] unfolding c by blast
  ultimately show ?thesis unfolding derived_from_def by blast
qed

lemma mint_frame:
  assumes "mint g base once st = (res, st')"
  shows "quarantines (gs_prompt st) (gs_prompt st')"
    "st' = st\<lparr>gs_prompt := gs_prompt st', gs_world := gs_world st'\<rparr>"
  using assms policy_with_grants_frame [of g base once st]
  by (auto simp: mint_def Let_def split: prod.splits sum.splits if_splits)

lemma mint_derived:
  assumes laws: "gate_laws g" and m: "mint g base once st = (Inr c, st')"
  shows "derived_from g base once (gs_prompt st) c"
proof -
  obtain policy st1 where p: "policy_with_grants g base once st = (Inr policy, st1)"
    using m by (auto simp: mint_def split: prod.splits sum.splits)
  have key: "bounded_by c' policy"
    if "x_mint_key g path policy w = (Some k, w')" "x_enforced g k = Some c'" for path w k w' c'
    using laws that unfolding gate_laws_def by blast
  have "bounded_by c policy"
    using m p
    by (auto simp: mint_def Let_def result_simps key
        split: if_splits prod.splits option.splits sum.splits)
  with policy_with_grants_derived [OF laws p] show ?thesis by (rule derived_from_bounded)
qed

section \<open>Runs\<close>

datatype 'g gate_call =
    Call_Current
  | Call_Refresh "'g caveats"
  | Call_Ask "permission_request list"
  | Call_AskWith "'g caveats" "permission_request list"
  | Call_FullAccess "permission_request list"
  | Call_Fetch "'g caveats" permission_request
  | Call_Mcp permission_request
  | Call_Consume denial_kind string
  | Call_Queue denial_kind string
  | Call_ApplyPending denial_kind string "'g caveats"
  | Call_QueueRetry string string "permission_request list"
  | Call_ApplyRetry string string "'g caveats"

fun after_call ::
    "('w, 'g, 'k, 'v, 'c, 'x) gate \<Rightarrow> 'g gate_call \<Rightarrow> 'w gate_state \<Rightarrow> 'w gate_state" where
  "after_call g Call_Current st = snd (current_caveats g st)"
| "after_call g (Call_Refresh base) st = snd (refresh_caveats g base st)"
| "after_call g (Call_Ask reqs) st = snd (ask g reqs st)"
| "after_call g (Call_AskWith base reqs) st = snd (ask_with_caveats g base reqs st)"
| "after_call g (Call_FullAccess reqs) st = snd (ask_full_access g reqs st)"
| "after_call g (Call_Fetch base req) st = snd (ask_dependency_fetch g base req st)"
| "after_call g (Call_Mcp req) st = snd (ask_mcp_net_grant g req st)"
| "after_call g (Call_Consume kind target) st = consume_pending_once kind target st"
| "after_call g (Call_Queue kind target) st = queue_pending_once kind target st"
| "after_call g (Call_ApplyPending kind target base) st = snd (apply_pending_once g kind target base st)"
| "after_call g (Call_QueueRetry command cwd reqs) st = queue_command_retry g command cwd reqs st"
| "after_call g (Call_ApplyRetry command cwd base) st = snd (apply_command_retry g command cwd base st)"

text \<open>
  A session over some gates: each turn has a gate of its own, with its own base, preset and
  surfaces, over the decisions the turns share; what happens between two calls changes the world
  alone.
\<close>

inductive session_run ::
    "('w, 'g, 'k, 'v, 'c, 'x) gate set \<Rightarrow> 'w gate_state \<Rightarrow> 'w gate_state \<Rightarrow> bool"
  for gates where
  session_start: "session_run gates st st"
| session_call: "session_run gates st st' \<Longrightarrow> g \<in> gates \<Longrightarrow>
     session_run gates st (after_call g call st')"
| session_world: "session_run gates st st' \<Longrightarrow> session_run gates st (st'\<lparr>gs_world := w\<rparr>)"

text \<open>A record of an allowed access.\<close>

definition allows :: "permission_record \<Rightarrow> grant \<Rightarrow> bool" where
  "allows rec gr \<longleftrightarrow>
     pe_kind rec = denial_kind_as_str (fst gr) \<and> pe_target rec = snd gr \<and> pe_decision rec = ''allow''"

text \<open>A preorder on states that every elementary change of the gate respects.\<close>

locale gate_order =
  fixes le :: "'w gate_state \<Rightarrow> 'w gate_state \<Rightarrow> bool"
  assumes le_refl: "le st st"
    and le_trans: "le st st' \<Longrightarrow> le st' st'' \<Longrightarrow> le st st''"
    and le_world: "le st (st\<lparr>gs_world := w\<rparr>)"
    and le_log: "le st (on_prompt (\<lambda>s. s\<lparr>ps_decisions := ps_decisions s @ [rec]\<rparr>) st)"
    and le_quarantine: "quarantines (gs_prompt st) s \<Longrightarrow> le st (st\<lparr>gs_prompt := s\<rparr>)"
    and le_allow: "allows rec gr \<Longrightarrow>
      le st (grant_session gr (on_prompt (\<lambda>s. s\<lparr>ps_decisions := ps_decisions s @ [rec]\<rparr>) st))"
    and le_pending: "le st (on_prompt (\<lambda>s. s\<lparr>ps_pending_once := f s\<rparr>) st)"
    and le_deny: "le st (on_prompt (\<lambda>s. s\<lparr>ps_session_denials := finsert gr (ps_session_denials s)\<rparr>) st)"
    and le_deny_permanent:
      "le st (on_prompt (\<lambda>s. s\<lparr>ps_persistent_denials := finsert gr (ps_persistent_denials s)\<rparr>) st)"
    and le_store: "le st (on_prompt (\<lambda>s. snd (fold_ocap_approvals (s\<lparr>ps_ocap := ps\<rparr>))) st)"
    and le_cancel: "le st (st\<lparr>gs_cancel := a\<rparr>)"
    and le_exit: "le st (st\<lparr>gs_exit := b\<rparr>)"
    and le_retries: "le st (st\<lparr>gs_retries := r\<rparr>)"
begin

lemma le_record: "le st (record_decision g req decision scp st)"
  unfolding record_decision_def Let_def by (rule le_trans [OF le_world le_log])

lemma le_session: "le st (grant_session (rq_grant req) (record_decision g req ''allow'' scp st))"
  unfolding record_decision_def Let_def
  by (rule le_trans [OF le_world le_allow]) (simp add: allows_def PermissionRecord_new_def)

lemma le_policy: "le st (snd (policy_with_grants g base once st))"
proof -
  obtain res st' where p: "policy_with_grants g base once st = (res, st')" by force
  from le_quarantine [OF policy_with_grants_frame(1) [OF p]] policy_with_grants_frame(3) [OF p] p
  show ?thesis by simp
qed

lemma le_mint: "le st (snd (mint g base once st))"
proof -
  obtain res st' where m: "mint g base once st = (res, st')" by force
  have "le st (st\<lparr>gs_prompt := gs_prompt st'\<rparr>)" by (rule le_quarantine [OF mint_frame(1) [OF m]])
  from le_trans [OF this le_world [of _ "gs_world st'"]] mint_frame(2) [OF m] m show ?thesis by simp
qed

lemma le_authorize: "le st (snd (authorize g d aud decoded st))"
  by (simp add: authorize_def le_refl le_world split: prod.split)

lemma le_terminal: "le st (snd (ask_terminal g req st))"
proof (cases "permission_interaction (g_debug g) req (g_danger g) (gate_default g (gs_prompt st) req)")
  case (Inr si)
  obtain decoded w where d: "(case g_ask_surface g of
       Some surface \<Rightarrow> (let (out, w) = surface si (gs_world st) in (decode_outcome si out, w))
     | None \<Rightarrow> g_ask_human g si (gs_world st)) = (decoded, w)" by force
  obtain res st1 where a: "authorize g (si_definition si) Audience_Terminal decoded (st\<lparr>gs_world := w\<rparr>) =
      (res, st1)" by force
  have st1: "le st st1"
    using le_trans [OF le_world le_authorize [of "st\<lparr>gs_world := w\<rparr>" g "si_definition si"
        Audience_Terminal decoded]] a by simp
  have "snd (ask_terminal g req st) = (case res of Inr _ \<Rightarrow> st1 | Inl _ \<Rightarrow> note_refusal g req decoded st1)"
    unfolding ask_terminal_def Inr sum.case d by (simp add: a split: sum.splits)
  moreover have "le st (note_refusal g req decoded st1)"
    unfolding note_refusal_def Let_def by (rule le_trans [OF st1 le_record])
  ultimately show ?thesis using st1 by (simp split: sum.splits)
qed (simp add: ask_terminal_def le_refl)

lemma le_operator: "le st (snd (ask_operator g web req st))"
  by (simp add: ask_operator_def le_terminal le_world split: prod.split)

lemma le_persist: "le st (snd (persist_permanent g entry st))"
  unfolding persist_permanent_def
  by (auto simp: Let_def le_refl le_world intro: le_trans [OF le_world le_store]
      split: option.splits prod.splits sum.splits)

lemma le_control: "le st (apply_control g action st)"
proof -
  have "apply_control g action st = (st\<lparr>gs_cancel := gs_cancel st \<or> g_has_cancel g\<rparr>)
      \<lparr>gs_exit := gs_exit st \<or> action = Exit \<and> g_has_exit g\<rparr>"
    by (simp add: apply_control_def)
  then show ?thesis using le_trans [OF le_cancel le_exit] by metis
qed

lemma le_choice: "le st (snd (apply_choice g req choice scp b st))"
proof -
  have "le st (snd (persist_permanent g entry st))" for entry by (rule le_persist)
  then have permanent: "le st st1" if "persist_permanent g entry st = (sc, st1)" for entry sc st1
    using that by (metis snd_conv)
  show ?thesis
    unfolding apply_choice_def
    by (cases choice)
      (auto simp: Let_def intro: le_record le_control le_trans [OF le_record le_deny_permanent]
        le_session le_trans [OF le_record le_pending]
        le_trans [OF le_record le_deny] le_trans [OF le_trans [OF le_record le_world] le_deny_permanent]
        le_trans [OF permanent le_session]
        split: option.splits sum.splits prod.splits)
qed

lemma le_held: "le st (snd (already_held g baseline req st))"
proof -
  have "le st (snd (policy_with_grants g baseline [] st))" by (rule le_policy)
  then show ?thesis
    by (auto simp: already_held_def le_refl split: prod.splits sum.splits)
qed

lemma le_pending_or_ask: "le st (snd (pending_or_ask g web operation_only req b st))"
proof -
  obtain answer st1 where a: "ask_operator g web req st = (answer, st1)" by force
  have st1: "le st st1" using le_operator [of st g web req] a by simp
  show ?thesis
    unfolding pending_or_ask_def a
    by (auto simp: st1 intro: le_record le_trans [OF le_pending le_record] le_trans [OF st1 le_choice]
        split: option.splits prod.splits)
qed

lemma le_request: "le st (snd (ask_request g web baseline operation_only req b st))"
proof -
  obtain held st1 where h: "already_held g baseline req st = (held, st1)" by force
  have st1: "le st st1" using le_held [of st g baseline req] h by simp
  show ?thesis
    unfolding ask_request_def h Let_def
    by (auto simp: st1 intro: le_record le_trans [OF st1 le_record] le_trans [OF st1 le_pending_or_ask]
        split: option.splits)
qed

lemma le_requests: "le st (snd (ask_requests g web baseline operation_only reqs b st))"
proof (induction reqs arbitrary: b st)
  case (Cons req reqs)
  obtain fl st1 where r: "ask_request g web baseline operation_only req b st = (fl, st1)" by force
  have st1: "le st st1" using le_request [of st g web baseline operation_only req b] r by simp
  show ?case
    by (auto simp: r st1 intro: le_trans [OF st1 Cons.IH] split: flow.splits)
qed (simp add: le_refl)

lemma le_conclude: "le st (snd (conclude g baseline operation_only b st))"
proof -
  have "le st (snd (mint g baseline (bt_once b) st))" by (rule le_mint)
  then show ?thesis
    by (auto simp: conclude_def Let_def split: prod.splits sum.splits)
qed

lemma le_record_all: "le st (record_all g decision scp reqs st)"
  unfolding record_all_def
  by (induction reqs arbitrary: st) (auto simp: le_refl intro: le_trans [OF le_record])

lemma le_preapprove: "le st (snd (preapprove g baseline reqs st))"
proof -
  have each: "le st (foldl (\<lambda>st r. grant_session (rq_grant r)
      (record_decision g r ''allow'' ''session-full-access'' st)) st reqs)" for st
    by (induction reqs arbitrary: st)
      (auto simp: le_refl intro: le_trans [OF le_session])
  obtain res st1 where m: "mint g baseline [] st = (res, st1)" by force
  have "le st st1" using le_mint [of st g baseline "[]"] m by simp
  then show ?thesis
    unfolding preapprove_def m by (auto intro: le_trans [OF _ each] split: sum.splits)
qed

lemma le_protection: "le st (snd (protection_refuses g baseline reqs st))"
proof -
  have "le st (snd (policy_with_grants g baseline (map rq_grant reqs) st))" by (rule le_policy)
  then show ?thesis
    by (auto simp: protection_refuses_def le_refl Let_def split: option.splits prod.splits)
qed

lemma le_scoped: "le st (snd (ask_scoped g baseline reqs operation_only preapproved st))"
proof -
  obtain refused st1 where p: "protection_refuses g baseline reqs st = (refused, st1)" by force
  have st1: "le st st1" using le_protection [of st g baseline reqs] p by simp
  obtain fl st2 where r: "ask_requests g (ps_web (gs_prompt st1)) baseline operation_only reqs
      \<lparr>bt_once = [], bt_fence = None\<rparr> st1 = (fl, st2)" by force
  have st2: "le st st2"
    using le_trans [OF st1 le_requests] r by (metis snd_conv)
  show ?thesis
    unfolding ask_scoped_def p r Let_def prod.case
    by (auto simp: le_refl st1 st2 intro: le_trans [OF st1 le_record_all]
        le_trans [OF st1 le_preapprove] le_trans [OF st2 le_conclude] split: flow.splits)
qed

lemma le_apply_pending: "le st (snd (apply_pending_once g kind target baseline st))"
proof -
  obtain res st1 where m: "mint g baseline [(kind, target)] st = (res, st1)" by force
  have "le st st1" using le_mint [of st g baseline "[(kind, target)]"] m by simp
  then show ?thesis
    unfolding apply_pending_once_def m
    by (auto simp: le_refl consume_pending_once_def intro: le_trans [OF _ le_pending] split: sum.splits)
qed

lemma le_apply_retry: "le st (snd (apply_command_retry g command cwd base st))"
proof -
  have "le st (snd (mint g base grants st))" for grants by (rule le_mint)
  then have minted: "le st st1" if "mint g base grants st = (res, st1)" for grants res st1
    using that by (metis snd_conv)
  show ?thesis
    unfolding apply_command_retry_def drop_command_retry_def
    by (auto simp: le_refl minted intro: le_retries le_trans [OF minted le_retries]
        split: option.splits sum.splits prod.splits)
qed

lemma le_mcp: "le st (snd (ask_mcp_net_grant g req st))"
proof -
  obtain d st1 where a: "ask g [req] st = (d, st1)" by force
  have st1: "le st st1"
    using le_scoped [of st g "g_base g" "[req]" False False] a
    by (simp add: ask_def ask_with_caveats_def)
  have "quarantines (gs_prompt st1) s"
    if "recalled_grants g (g_danger g) (gs_world st1) (gs_prompt st1) = (grs, s)" for grs s
    using quarantines_recalled [of "gs_prompt st1" g "g_danger g" "gs_world st1"] that by simp
  then show ?thesis
    unfolding ask_mcp_net_grant_def a Let_def
    by (auto simp: le_refl st1 intro: le_trans [OF st1 le_quarantine]
        split: permission_decision.splits prod.splits)
qed

lemma le_call: "le st (after_call g call st)"
proof (cases call)
  case Call_Current
  then show ?thesis by (simp add: current_caveats_def le_mint)
next
  case (Call_Refresh base)
  have "le st (snd (mint g base [] st))" by (rule le_mint)
  then show ?thesis using Call_Refresh by (auto simp: refresh_caveats_def split: prod.splits sum.splits)
qed (simp_all add: ask_def ask_with_caveats_def ask_full_access_def ask_dependency_fetch_def le_scoped
    le_mcp consume_pending_once_def queue_pending_once_def le_pending le_apply_pending
    queue_command_retry_def le_retries le_apply_retry)

lemma run_respects: "session_run gates st st' \<Longrightarrow> le st st'"
  by (induction rule: session_run.induct) (auto intro: le_refl le_trans [OF _ le_call] le_trans [OF _ le_world])

end

section \<open>Orders the gate respects\<close>

text \<open>
  No denial is forgotten, no grant revoked; the record of decisions only grows, and every new
  session grant is in it.
\<close>

definition denials_kept :: "'w gate_state \<Rightarrow> 'w gate_state \<Rightarrow> bool" where
  "denials_kept st st' \<longleftrightarrow>
     ps_session_denials (gs_prompt st) |\<subseteq>| ps_session_denials (gs_prompt st') \<and>
     ps_persistent_denials (gs_prompt st) |\<subseteq>| ps_persistent_denials (gs_prompt st') \<and>
     ps_rejected (gs_prompt st) |\<subseteq>| ps_rejected (gs_prompt st')"

definition grants_kept :: "'w gate_state \<Rightarrow> 'w gate_state \<Rightarrow> bool" where
  "grants_kept st st' \<longleftrightarrow>
     ps_session_grants (gs_prompt st) |\<subseteq>| ps_session_grants (gs_prompt st') \<and>
     ps_durable_grants (gs_prompt st) |\<subseteq>| ps_durable_grants (gs_prompt st')"

definition audit_kept :: "'w gate_state \<Rightarrow> 'w gate_state \<Rightarrow> bool" where
  "audit_kept st st' \<longleftrightarrow>
     prefix (ps_decisions (gs_prompt st)) (ps_decisions (gs_prompt st')) \<and>
     (\<forall>gr. gr |\<in>| ps_session_grants (gs_prompt st') \<longrightarrow>
        gr |\<in>| ps_session_grants (gs_prompt st) \<or>
        (\<exists>rec \<in> set (ps_decisions (gs_prompt st')). allows rec gr))"

lemma audit_kept_trans:
  assumes "audit_kept st st'" "audit_kept st' st''"
  shows "audit_kept st st''"
proof -
  have "set (ps_decisions (gs_prompt st')) \<subseteq> set (ps_decisions (gs_prompt st''))"
    using assms(2) by (auto simp: audit_kept_def prefix_def)
  then show ?thesis
    using assms unfolding audit_kept_def by (meson prefix_order.trans subsetD)
qed

interpretation denial_order: gate_order denials_kept
  by unfold_locales
    (auto simp: denials_kept_def grant_session_def fold_ocap_approvals_def Let_def
      dest: quarantines_fields)

interpretation grant_order: gate_order grants_kept
  by unfold_locales
    (auto simp: grants_kept_def grant_session_def fold_ocap_approvals_def Let_def
      dest: quarantines_fields)

interpretation audit_order: gate_order audit_kept
proof unfold_locales
  show "audit_kept st st''" if "audit_kept st st'" "audit_kept st' st''" for st st' st'' :: "'a gate_state"
    using that by (rule audit_kept_trans)
qed (auto simp: audit_kept_def grant_session_def fold_ocap_approvals_def Let_def
    dest: quarantines_fields(1,7))

section \<open>The one-time grants of a batch\<close>

lemma request_once:
  assumes "ask_request g web baseline operation_only req b st = (Flow_Next b', st')"
  shows "set (bt_once b') \<subseteq> insert (rq_grant req) (set (bt_once b))"
proof -
  have chosen: "set (bt_once c') \<subseteq> insert (rq_grant req) (set (bt_once c))"
    if "apply_choice g req choice scp c s = (Flow_Next c', s')" for choice scp c s c' s'
    using that by (cases choice)
      (auto simp: apply_choice_def add_once_def Let_def split: if_splits option.splits sum.splits prod.splits)
  have asked: "set (bt_once b') \<subseteq> insert (rq_grant req) (set (bt_once b))"
    if "pending_or_ask g web operation_only req b s = (Flow_Next b', s')" for s s'
    using that chosen [of _ _ b]
    by (auto simp: pending_or_ask_def take_pending_once_def add_once_def
        split: if_splits option.splits prod.splits)
  have session: "set (bt_once b') \<subseteq> insert (rq_grant req) (set (bt_once b))"
    if "covered_by_session g baseline req s b = Flow_Next b'" for s
    using that by (auto simp: covered_by_session_def add_once_def Let_def split: if_splits option.splits sum.splits)
  show ?thesis
    using assms asked session
    by (auto simp: ask_request_def Let_def add_once_def split: option.splits prod.splits if_splits)
qed

lemma requests_once:
  "ask_requests g web baseline operation_only reqs b st = (Flow_Next b', st') \<Longrightarrow>
     set (bt_once b') \<subseteq> rq_grant ` set reqs \<union> set (bt_once b)"
proof (induction reqs arbitrary: b st)
  case (Cons req reqs)
  then obtain b1 st1 where r: "ask_request g web baseline operation_only req b st = (Flow_Next b1, st1)"
    "ask_requests g web baseline operation_only reqs b1 st1 = (Flow_Next b', st')"
    by (auto split: prod.splits flow.splits)
  from Cons.IH [OF r(2)] request_once [OF r(1)] show ?case by auto
qed simp

lemma derived_from_mono:
  assumes "derived_from g base once s c"
    and "ps_session_grants s |\<subseteq>| ps_session_grants s'" "ps_durable_grants s |\<subseteq>| ps_durable_grants s'"
    and "ps_session_denials s' = ps_session_denials s"
      "ps_persistent_denials s' = ps_persistent_denials s" "set once \<subseteq> set once'"
  shows "derived_from g base once' s' c"
  using assms unfolding derived_from_def not_refused_def by (auto 5 4)

lemma mint_derived_after:
  assumes laws: "gate_laws g" and m: "mint g base once st = (Inr c, st')"
    and "set once \<subseteq> set once'"
  shows "derived_from g base once' (gs_prompt st') c"
  using mint_derived [OF laws m] quarantines_fields [OF mint_frame(1) [OF m]] assms(3)
  by (auto intro: derived_from_mono)

lemma record_prompt:
  "gs_prompt (record_decision g req decision scp st) =
     (gs_prompt st)\<lparr>ps_decisions := ps_decisions (gs_prompt st) @
        [PermissionRecord_new (g_conversation g) (rq_tool req) (rq_kind req) (rq_target req) decision scp]\<rparr>"
  by (simp add: record_decision_def Let_def)

lemma preapprove_frame:
  fixes st :: "'w gate_state" and g :: "('w, 'g, 'k, 'v, 'c, 'x) gate"
  defines "f \<equiv> (\<lambda>(st :: 'w gate_state) r. grant_session (rq_grant r)
      (record_decision g r ''allow'' ''session-full-access'' st))"
  shows "ps_session_grants (gs_prompt (foldl f st reqs)) =
      ps_session_grants (gs_prompt st) |\<union>| fset_of_list (map rq_grant reqs)"
    "ps_durable_grants (gs_prompt (foldl f st reqs)) = ps_durable_grants (gs_prompt st)"
    "ps_session_denials (gs_prompt (foldl f st reqs)) = ps_session_denials (gs_prompt st)"
    "ps_persistent_denials (gs_prompt (foldl f st reqs)) = ps_persistent_denials (gs_prompt st)"
  by (induction reqs arbitrary: st) (auto simp: f_def grant_session_def record_prompt)

lemma scoped_derived:
  assumes laws: "gate_laws g"
    and a: "ask_scoped g baseline reqs operation_only preapproved st = (Decision_Allow c, st')"
  shows "derived_from g baseline (map rq_grant reqs) (gs_prompt st') c \<and>
     (operation_only \<longrightarrow> preapproved \<or> bounded_by c baseline)"
proof -
  obtain st1 where st1: "protection_refuses g baseline reqs st = (False, st1)"
    using a by (auto simp: ask_scoped_def Let_def split: if_splits prod.splits)
  show ?thesis
  proof (cases preapproved)
    case True
    then obtain st2 where m: "mint g baseline [] st1 = (Inr c, st2)"
      and st': "st' = foldl (\<lambda>st r. grant_session (rq_grant r)
                   (record_decision g r ''allow'' ''session-full-access'' st)) st2 reqs"
      using a st1 by (auto simp: ask_scoped_def preapprove_def Let_def split: if_splits prod.splits sum.splits)
    have "derived_from g baseline (map rq_grant reqs) (gs_prompt st2) c"
      using mint_derived_after [OF laws m] by simp
    then show ?thesis
      using True derived_from_mono [of g baseline "map rq_grant reqs" "gs_prompt st2" c "gs_prompt st'"
          "map rq_grant reqs"]
      unfolding st' by (simp add: preapprove_frame)
  next
    case False
    then obtain b st2 where r: "ask_requests g (ps_web (gs_prompt st1)) baseline operation_only reqs
        \<lparr>bt_once = [], bt_fence = None\<rparr> st1 = (Flow_Next b, st2)"
      and c: "conclude g baseline operation_only b st2 = (Decision_Allow c, st')"
      using a st1 by (auto simp: ask_scoped_def Let_def split: if_splits prod.splits flow.splits)
    obtain minted where m: "mint g baseline (bt_once b) st2 = (Inr minted, st')"
      using c by (auto simp: conclude_def Let_def split: if_splits prod.splits sum.splits)
    define allowed where "allowed = (case bt_fence b of Some fence \<Rightarrow> x_meet g minted fence | None \<Rightarrow> minted)"
    have cases: "operation_only \<and> c = x_meet g allowed baseline \<or> \<not> operation_only \<and> c = allowed"
      using c m by (auto simp: conclude_def allowed_def Let_def split: if_splits)
    have "bounded_by allowed minted"
      using meet_bounded [OF laws] by (auto simp: allowed_def split: option.splits)
    then have "bounded_by c minted" "operation_only \<longrightarrow> bounded_by c baseline"
      using cases meet_bounded [OF laws] bounded_by_trans by blast+
    moreover have "derived_from g baseline (map rq_grant reqs) (gs_prompt st') minted"
      using mint_derived_after [OF laws m] requests_once [OF r] by simp
    ultimately show ?thesis using derived_from_bounded by blast
  qed
qed

section \<open>Properties\<close>


text \<open>
  C7. A refusal is final: once a session or durable denial of a target is recorded, then however
  the session goes on (any calls of any of its gates, any answers, any change of the world), every
  batch that contains the target is denied, also an executable asked by another path with the
  refused name, also under full access, and the refused call grants nothing.
\<close>

theorem refusal_is_final:
  assumes "session_run gates st st'" and "r \<in> set reqs"
    and "(rq_kind r, t) |\<in>| ps_session_denials (gs_prompt st) |\<union>| ps_persistent_denials (gs_prompt st)"
    and "t = rq_target r \<or> rq_kind r = DenialKind_Exec \<and> t = exec_grant_basename (rq_target r)"
  shows "fst (ask_scoped g baseline reqs operation_only preapproved st') = Decision_Deny \<and>
     ps_session_grants (gs_prompt (snd (ask_scoped g baseline reqs operation_only preapproved st'))) =
       ps_session_grants (gs_prompt st') \<and>
     ps_pending_once (gs_prompt (snd (ask_scoped g baseline reqs operation_only preapproved st'))) =
       ps_pending_once (gs_prompt st')"
proof -
  obtain refused st1 where p: "protection_refuses g baseline reqs st' = (refused, st1)" by force
  have q: "quarantines (gs_prompt st') (gs_prompt st1)"
  proof -
    obtain res st2 where w: "policy_with_grants g baseline (map rq_grant reqs) st' = (res, st2)" by force
    show ?thesis
      using p policy_with_grants_frame(1) [OF w]
      by (auto simp: protection_refuses_def w split: option.splits if_splits)
  qed
  have "(rq_kind r, t) |\<in>| ps_session_denials (gs_prompt st1) |\<union>| ps_persistent_denials (gs_prompt st1)"
    using denial_order.run_respects [OF assms(1)] assms(3) quarantines_fields [OF q]
    by (auto simp: denials_kept_def)
  then have "denied g (gs_prompt st1) (rq_kind r) (rq_target r)"
    using assms(4) by (auto simp: denied_def denied_exactly_def)
  then have "list_ex (\<lambda>r. denied g (gs_prompt st1) (rq_kind r) (rq_target r)) reqs"
    using assms(2) by (auto simp: list_ex_iff)
  moreover have "ps_session_grants (gs_prompt (record_all g d sc reqs st1)) = ps_session_grants (gs_prompt st1)"
    "ps_pending_once (gs_prompt (record_all g d sc reqs st1)) = ps_pending_once (gs_prompt st1)" for d sc
    by (induction reqs arbitrary: st1) (auto simp: record_all_def record_prompt)
  ultimately show ?thesis
    using quarantines_fields [OF q] by (auto simp: ask_scoped_def p)
qed

text \<open>
  Every grant is accounted for: however a session goes on, no session or durable grant is
  lost, the record of decisions only grows, and each session grant that was not there at the
  start has an entry in it that allows exactly that access.
\<close>

theorem session_grants_are_recorded:
  assumes "session_run gates st st'"
  shows "prefix (ps_decisions (gs_prompt st)) (ps_decisions (gs_prompt st')) \<and>
     ps_session_grants (gs_prompt st) |\<subseteq>| ps_session_grants (gs_prompt st') \<and>
     ps_durable_grants (gs_prompt st) |\<subseteq>| ps_durable_grants (gs_prompt st') \<and>
     (\<forall>gr. gr |\<in>| ps_session_grants (gs_prompt st') \<longrightarrow>
        gr |\<in>| ps_session_grants (gs_prompt st) \<or>
        (\<exists>rec \<in> set (ps_decisions (gs_prompt st')).
           pe_kind rec = denial_kind_as_str (fst gr) \<and> pe_target rec = snd gr \<and>
           pe_decision rec = ''allow''))"
  using audit_order.run_respects [OF assms] grant_order.run_respects [OF assms]
  unfolding audit_kept_def grants_kept_def allows_def by blast

section \<open>Prompts off\<close>

text \<open>The gate with other surfaces; what does not ask does not depend on them.\<close>

definition with_surfaces ::
    "('w, 'g, 'k, 'v, 'c, 'x) gate \<Rightarrow> (surface_interaction \<Rightarrow> 'w \<Rightarrow> human_outcome \<times> 'w) option \<Rightarrow>
      (surface_interaction \<Rightarrow> 'w \<Rightarrow> permission_action \<times> 'w) \<Rightarrow>
      (permission_request \<Rightarrow> 'w \<Rightarrow> (permission_action \<times> string) \<times> 'w) \<Rightarrow>
      ('w, 'g, 'k, 'v, 'c, 'x) gate" where
  "with_surfaces g surface human web =
     g\<lparr>g_ask_surface := surface, g_ask_human := human, x_web_decision := web\<rparr>"

named_theorems unseen

lemma unseen_fields [unseen]:
  "g_base (with_surfaces g sf hu we) = g_base g" "g_key_path (with_surfaces g sf hu we) = g_key_path g"
  "g_conversation (with_surfaces g sf hu we) = g_conversation g"
  "g_log_path (with_surfaces g sf hu we) = g_log_path g"
  "g_preset_clamp (with_surfaces g sf hu we) = g_preset_clamp g"
  "g_delegation (with_surfaces g sf hu we) = g_delegation g"
  "g_danger (with_surfaces g sf hu we) = g_danger g"
  "g_prompts_enabled (with_surfaces g sf hu we) = g_prompts_enabled g"
  "x_platform (with_surfaces g sf hu we) = x_platform g" "x_view (with_surfaces g sf hu we) = x_view g"
  "x_meet (with_surfaces g sf hu we) = x_meet g" "x_leq (with_surfaces g sf hu we) = x_leq g"
  "x_build_caveats (with_surfaces g sf hu we) = x_build_caveats g"
  "x_protection (with_surfaces g sf hu we) = x_protection g"
  "x_mint_key (with_surfaces g sf hu we) = x_mint_key g"
  "x_enforced (with_surfaces g sf hu we) = x_enforced g"
  "x_policy_lib (with_surfaces g sf hu we) = x_policy_lib g"
  "x_append_log (with_surfaces g sf hu we) = x_append_log g"
  by (simp_all add: with_surfaces_def)

lemma unseen_aliases [unseen]: "gate_aliases (with_surfaces g sf hu we) = gate_aliases g"
  by (simp add: gate_aliases_def unseen)

lemma unseen_denied [unseen]: "denied (with_surfaces g sf hu we) = denied g"
  by (intro ext) (simp add: denied_def denied_exactly_def unseen)

lemma unseen_conflicts [unseen]:
  "recall_conflicts_with_denial (with_surfaces g sf hu we) = recall_conflicts_with_denial g"
  by (intro ext, unfold recall_conflicts_with_denial_def unseen) (rule refl)

lemma unseen_validate [unseen]:
  "validate_caveats (with_surfaces g sf hu we) = validate_caveats g"
  by (intro ext, unfold validate_caveats_def unseen) (rule refl)

lemma unseen_validate_request [unseen]:
  "validate_request (with_surfaces g sf hu we) = validate_request g"
  by (intro ext, unfold validate_request_def unseen) (rule refl)

lemma unseen_filter [unseen]: "recall_filter (with_surfaces g sf hu we) = recall_filter g"
  by (intro ext, unfold recall_filter_def unseen) (rule refl)

lemma unseen_recalled [unseen]: "recalled_grants (with_surfaces g sf hu we) = recalled_grants g"
proof (intro ext)
  fix danger w s
  have "recall_loop (with_surfaces g sf hu we) danger w q grs s = recall_loop g danger w q grs s" for q grs s
    by (induction grs arbitrary: s) (simp_all add: unseen)
  then show "recalled_grants (with_surfaces g sf hu we) danger w s = recalled_grants g danger w s"
    by (simp add: recalled_grants_def)
qed

lemma unseen_policy [unseen]: "policy_with_grants (with_surfaces g sf hu we) = policy_with_grants g"
  by (intro ext, unfold policy_with_grants_def clamp_policy_def unseen) (rule refl)

lemma unseen_mint [unseen]: "mint (with_surfaces g sf hu we) = mint g"
  by (intro ext, unfold mint_def unseen) (rule refl)

lemma unseen_record [unseen]: "record_decision (with_surfaces g sf hu we) = record_decision g"
  by (intro ext, unfold record_decision_def unseen) (rule refl)

lemma unseen_ceiling [unseen]: "ceiling_permits (with_surfaces g sf hu we) = ceiling_permits g"
  by (intro ext, unfold ceiling_permits_def unseen) (rule refl)

lemma unseen_request:
  assumes "\<not> g_prompts_enabled g"
  shows "ask_request (with_surfaces g sf hu we) = ask_request g"
proof -
  have pending: "pending_or_ask (with_surfaces g sf hu we) = pending_or_ask g"
    using assms
    by (intro ext) (auto simp: pending_or_ask_def unseen split: option.splits prod.splits)
  have floor: "floor_refusal (with_surfaces g sf hu we) = floor_refusal g"
    by (intro ext, unfold floor_refusal_def unseen) (rule refl)
  have held: "already_held (with_surfaces g sf hu we) = already_held g"
    by (intro ext, unfold already_held_def unseen) (rule refl)
  have cover: "covered_by_session (with_surfaces g sf hu we) = covered_by_session g"
    by (intro ext, unfold covered_by_session_def unseen) (rule refl)
  show ?thesis
    by (intro ext, unfold ask_request_def unseen pending floor held cover) (rule refl)
qed

lemma unseen_requests:
  assumes "\<not> g_prompts_enabled g"
  shows "ask_requests (with_surfaces g sf hu we) web baseline op reqs b st =
     ask_requests g web baseline op reqs b st"
  by (induction reqs arbitrary: b st)
    (simp_all add: unseen_request [OF assms] split: prod.split flow.split)

lemma unseen_scoped:
  assumes "\<not> g_prompts_enabled g"
  shows "ask_scoped (with_surfaces g sf hu we) baseline reqs op pre st = ask_scoped g baseline reqs op pre st"
  unfolding ask_scoped_def protection_refuses_def fence_exceeds_ceiling_def preset_refuses_batch_def
    delegation_refuses_def record_all_def preapprove_def conclude_def unseen
    unseen_requests [OF assms]
  by (rule refl)

text \<open>What stays as it was when nobody is asked.\<close>

definition only_consumes :: "'w gate_state \<Rightarrow> 'w gate_state \<Rightarrow> bool" where
  "only_consumes st st' \<longleftrightarrow>
     ps_session_grants (gs_prompt st') = ps_session_grants (gs_prompt st) \<and>
     ps_durable_grants (gs_prompt st') = ps_durable_grants (gs_prompt st) \<and>
     ps_session_denials (gs_prompt st') = ps_session_denials (gs_prompt st) \<and>
     ps_persistent_denials (gs_prompt st') = ps_persistent_denials (gs_prompt st) \<and>
     ps_pending_once (gs_prompt st') |\<subseteq>| ps_pending_once (gs_prompt st)"

lemma only_consumes_refl [simp, intro]: "only_consumes st st"
  by (simp add: only_consumes_def)

lemma only_consumes_trans: "only_consumes st st' \<Longrightarrow> only_consumes st' st'' \<Longrightarrow> only_consumes st st''"
  by (auto simp: only_consumes_def)

lemma only_consumes_quarantine: "quarantines (gs_prompt st) (gs_prompt st') \<Longrightarrow> only_consumes st st'"
  by (auto simp: only_consumes_def dest: quarantines_fields)

lemma only_consumes_record: "only_consumes st (record_decision g req decision scp st)"
  by (simp add: only_consumes_def record_prompt)

lemma held_consumes: "only_consumes st (snd (already_held g baseline req st))"
proof -
  obtain res st1 where p: "policy_with_grants g baseline [] st = (res, st1)" by force
  from only_consumes_quarantine [OF policy_with_grants_frame(1) [OF p]]
  show ?thesis by (auto simp: already_held_def p split: sum.splits)
qed

lemma quiet_request:
  assumes "\<not> g_prompts_enabled g"
  shows "only_consumes st (snd (ask_request g web baseline op req b st))"
proof -
  have quiet: "only_consumes s (snd (pending_or_ask g web op req b s))" for s op
  proof -
    have "only_consumes s (on_prompt (\<lambda>p. p\<lparr>ps_pending_once := pending\<rparr>) s)"
      if "pending |\<subseteq>| ps_pending_once (gs_prompt s)" for pending
      using that by (simp add: only_consumes_def)
    then show ?thesis
      using assms
      by (auto simp: pending_or_ask_def take_pending_once_def only_consumes_record
          intro!: only_consumes_trans [OF _ only_consumes_record])
  qed
  obtain held st1 where h: "already_held g baseline req st = (held, st1)" by force
  have "only_consumes st st1" using held_consumes [of st g baseline req] h by simp
  then show ?thesis
    by (auto simp: ask_request_def h Let_def only_consumes_record
        intro: only_consumes_trans [OF _ quiet] only_consumes_trans [OF _ only_consumes_record]
        split: option.splits)
qed

lemma quiet_requests:
  assumes "\<not> g_prompts_enabled g"
  shows "only_consumes st (snd (ask_requests g web baseline op reqs b st))"
proof (induction reqs arbitrary: b st)
  case (Cons req reqs)
  obtain fl st1 where r: "ask_request g web baseline op req b st = (fl, st1)" by force
  have st1: "only_consumes st st1" using quiet_request [OF assms, of st web baseline op req b] r by simp
  show ?case
    by (cases fl) (simp_all add: r st1 only_consumes_trans [OF st1 Cons.IH])
qed simp

lemma quiet_scoped:
  assumes off: "\<not> g_prompts_enabled g"
  shows "only_consumes st (snd (ask_scoped g baseline reqs op False st))"
proof -
  obtain refused st1 where p: "protection_refuses g baseline reqs st = (refused, st1)" by force
  have st1: "only_consumes st st1"
  proof -
    obtain res s where w: "policy_with_grants g baseline (map rq_grant reqs) st = (res, s)" by force
    show ?thesis
      using p only_consumes_quarantine [OF policy_with_grants_frame(1) [OF w]]
      by (auto simp: protection_refuses_def w split: option.splits if_splits)
  qed
  obtain fl st2 where r: "ask_requests g (ps_web (gs_prompt st1)) baseline op reqs
      \<lparr>bt_once = [], bt_fence = None\<rparr> st1 = (fl, st2)" by force
  have st2: "only_consumes st st2"
    using only_consumes_trans [OF st1 quiet_requests [OF off]] r by (metis snd_conv)
  have all: "only_consumes st1 (record_all g d sc reqs st1)" for d sc
    unfolding record_all_def
    by (induction reqs arbitrary: st1) (auto intro: only_consumes_trans [OF only_consumes_record])
  have concl: "only_consumes s (snd (conclude g baseline op b s))" for b s
  proof -
    obtain res s' where m: "mint g baseline (bt_once b) s = (res, s')" by force
    from only_consumes_quarantine [OF mint_frame(1) [OF m]] show ?thesis
      by (auto simp: conclude_def m Let_def split: sum.splits)
  qed
  show ?thesis
    using st1 st2 only_consumes_trans [OF st1 all] only_consumes_trans [OF st2 concl]
    by (auto simp: ask_scoped_def p r Let_def split: flow.splits)
qed

text \<open>
  With authorization prompts off nobody is asked: the decision, and the state after it, do
  not depend on the operator's terminal surface, on the direct prompt or on the web; the call adds
  no grant and no denial, and at most uses up one-time grants queued before.
\<close>

theorem prompts_off_asks_nobody:
  assumes "\<not> g_prompts_enabled g"
    and "ask_scoped g baseline reqs operation_only False st = (d, st')"
  shows "ask_scoped (g\<lparr>g_ask_surface := surface, g_ask_human := human, x_web_decision := web\<rparr>)
       baseline reqs operation_only False st = (d, st') \<and>
     ps_session_grants (gs_prompt st') = ps_session_grants (gs_prompt st) \<and>
     ps_durable_grants (gs_prompt st') = ps_durable_grants (gs_prompt st) \<and>
     ps_session_denials (gs_prompt st') = ps_session_denials (gs_prompt st) \<and>
     ps_persistent_denials (gs_prompt st') = ps_persistent_denials (gs_prompt st) \<and>
     ps_pending_once (gs_prompt st') |\<subseteq>| ps_pending_once (gs_prompt st)"
  using unseen_scoped [OF assms(1), of surface human web baseline reqs operation_only False st]
    quiet_scoped [OF assms(1), of st baseline reqs operation_only] assms(2)
  by (auto simp: with_surfaces_def only_consumes_def)

section \<open>Targets that climb\<close>

text \<open>A plain absolute path below the root, and its parent spelled with \<^verbatim>\<open>..\<close>.\<close>

definition plain_names :: "string list \<Rightarrow> bool" where
  "plain_names ns \<longleftrightarrow> ns \<noteq> [] \<and> list_all (\<lambda>n. proper_name n \<and> plain_char (last n)) ns"

definition absolute_text :: "string list \<Rightarrow> string" where
  "absolute_text ns = path_text (RootDir # map Normal ns)"

lemma absolute_text_shape:
  assumes "ns \<noteq> []"
  shows "absolute_text ns = join_on CHR ''/'' ([] # ns)"
  using assms by (simp add: absolute_text_def path_text_def comp_def)

lemma absolute_components:
  assumes "list_all proper_name ns"
  shows "path_components (absolute_text ns) = RootDir # map Normal ns"
proof (cases "ns = []")
  case True
  have "path_components ''/'' = [RootDir]" by code_simp
  then show ?thesis by (simp add: True absolute_text_def path_text_def)
next
  case False
  then show ?thesis
    unfolding absolute_text_def
    using assms by (intro components_of_text) (auto simp: list_all_iff proper_path_def)
qed

lemma climbing_components:
  assumes "ns \<noteq> []" "list_all proper_name ns"
  shows "path_components (absolute_text ns @ ''/..'') = RootDir # map Normal ns @ [ParentDir]"
proof -
  have "absolute_text ns @ ''/..'' = path_text (RootDir # map Normal ns @ [ParentDir])"
    using join_on_snoc [of "[] # ns" "CHR ''/''" "''..''"] assms(1)
    by (simp add: absolute_text_shape) (simp add: path_text_def comp_def)
  also have "path_components \<dots> = RootDir # map Normal ns @ [ParentDir]"
    using assms by (intro components_of_text) (auto simp: list_all_iff proper_path_def)
  finally show ?thesis .
qed

lemma trim_absolute:
  assumes "plain_names ns"
  shows "trim (absolute_text ns) = absolute_text ns" "trim (absolute_text ns @ ''/..'') = absolute_text ns @ ''/..''"
proof -
  have head: "absolute_text ns \<noteq> []" "hd (absolute_text ns) = CHR ''/''"
    using assms by (cases ns; simp add: absolute_text_shape plain_names_def)+
  have tail: "last (absolute_text ns) = last (last ns)"
  proof (cases ns rule: rev_cases)
    case (snoc ms m)
    then have "absolute_text ns = join_on CHR ''/'' ([] # ms) @ CHR ''/'' # m"
      using join_on_snoc [of "[] # ms" "CHR ''/''" m] by (simp add: absolute_text_shape)
    then show ?thesis
      using assms snoc by (auto simp: plain_names_def proper_name_def)
  qed (use assms in \<open>simp add: plain_names_def\<close>)
  have plain: "plain_char CHR ''/''" "plain_char CHR ''.''" by code_simp+
  have "last ns \<in> set ns" using assms by (simp add: plain_names_def)
  then have "plain_char (last (last ns))"
    using assms by (auto simp: plain_names_def list_all_iff)
  then show "trim (absolute_text ns) = absolute_text ns"
    using head tail plain by (intro trim_plain) simp_all
  show "trim (absolute_text ns @ ''/..'') = absolute_text ns @ ''/..''"
    using head plain by (intro trim_plain) simp_all
qed

lemma climbing_normalized:
  assumes "plain_names ns"
  shows "lexically_normalize [] (absolute_text ns @ ''/..'') = RootDir # map Normal (butlast ns)"
    "normalize_fs_path [] (absolute_text ns @ ''/..'') = Inr (absolute_text (butlast ns))"
proof -
  have ns: "ns \<noteq> []" "list_all proper_name ns" using assms by (auto simp: plain_names_def list_all_iff)
  show norm: "lexically_normalize [] (absolute_text ns @ ''/..'') = RootDir # map Normal (butlast ns)"
    by (simp add: lexically_normalize_def rewrite_alias_def climbing_components [OF ns] norm_climbing [OF ns(1)])
  show "normalize_fs_path [] (absolute_text ns @ ''/..'') = Inr (absolute_text (butlast ns))"
    unfolding normalize_fs_path_def Let_def norm climbing_components [OF ns]
    by (auto simp: path_is_absolute_def) (simp add: absolute_text_def)
qed

lemma climbing_tier:
  assumes ns: "plain_names ns" and k: "k = DenialKind_FsRead \<or> k = DenialKind_FsWrite"
    and table: "t = production_danger_table (Some (absolute_text ns)) cwd"
    and cwd: "\<And>c. cwd = Some c \<Longrightarrow> ParentDir \<notin> set (path_components c)"
  shows "danger_classify t k (absolute_text ns @ ''/..'') = DangerTier_Low"
    "danger_classify t k (absolute_text (butlast ns)) = DangerTier_High"
proof -
  have ne: "ns \<noteq> []" "list_all proper_name ns" using ns by (auto simp: plain_names_def list_all_iff)
  have home: "absolute_text ns \<noteq> []" using ne(1) by (cases ns) (simp_all add: absolute_text_shape)
  have root: "path_components ''/'' = [RootDir]" by code_simp
  have roots: "set (dt_broad_fs_roots t) \<subseteq>
      {[RootDir], RootDir # map Normal ns} \<union> path_components ` set_option cwd"
    unfolding table
    by (auto simp: production_danger_table_def with_fs_root_def danger_builtin_def root Let_def
        absolute_components [OF ne(2)] split: option.splits if_splits)
  have "ParentDir \<notin> set r" if "r \<in> set (dt_broad_fs_roots t)" for r
    using that roots cwd by fastforce
  moreover have "ParentDir \<in> set r" if "prefix (RootDir # map Normal ns @ [ParentDir]) r" for r
    using that by (auto simp: prefix_def)
  ultimately have "\<not> is_broad_path t (absolute_text ns @ ''/..'')"
    unfolding is_broad_path_iff trim_absolute(2) [OF ns] climbing_components [OF ne] by blast
  then show "danger_classify t k (absolute_text ns @ ''/..'') = DangerTier_Low"
    by (simp add: fs_tier [OF k])
  have "RootDir # map Normal ns \<in> set (dt_broad_fs_roots t)"
    using production_roots [of "Some (absolute_text ns)" "absolute_text ns" cwd] home
    by (simp add: table absolute_components [OF ne(2)])
  moreover have "trim (absolute_text (butlast ns)) = absolute_text (butlast ns)"
  proof (cases "butlast ns = []")
    case True
    have "trim ''/'' = ''/''" by (rule trim_plain; code_simp)
    then show ?thesis by (simp add: True absolute_text_def path_text_def)
  next
    case False
    then have "plain_names (butlast ns)"
      using ns by (auto simp: plain_names_def list_all_iff dest: in_set_butlastD)
    then show ?thesis by (rule trim_absolute(1))
  qed
  moreover have up: "path_components (absolute_text (butlast ns)) = RootDir # map Normal (butlast ns)"
    using ne(2) by (intro absolute_components) (auto simp: list_all_iff dest: in_set_butlastD)
  moreover have "prefix (RootDir # map Normal (butlast ns)) (RootDir # map Normal ns)"
    using ne(1) by (metis append_butlast_last_id map_append prefixI append_Cons)
  moreover have "absolute_text (butlast ns) \<noteq> []"
    using up empty_path by (metis list.distinct(1))
  ultimately have "is_broad_path t (absolute_text (butlast ns))"
    unfolding is_broad_path_iff by metis
  then show "danger_classify t k (absolute_text (butlast ns)) = DangerTier_High"
    by (simp add: fs_tier [OF k])
qed

text \<open>
  A climbing target passes the danger tier: the home directory is a broad root and its parent
  still broader, so a permanent grant of \<^verbatim>\<open>$HOME/..\<close> is refused; but that same text is
  low-danger for the session, where it is granted as written, and once granted it permits every
  path at or below the parent of the home directory.
\<close>

theorem climbing_session_grant:
  assumes "plain_names ns" and "x_platform g = Linux"
    and "g_danger g = production_danger_table (Some (absolute_text ns)) cwd"
    and "\<And>c. cwd = Some c \<Longrightarrow> ParentDir \<notin> set (path_components c)"
    and "rq_kind req = DenialKind_FsRead \<or> rq_kind req = DenialKind_FsWrite"
    and "rq_target req = absolute_text ns @ ''/..''"
    and "list_all proper_name ms"
  shows "fst (apply_choice g req AllowPermanent scp b st) = Flow_Deny \<and>
     fst (apply_choice g req AllowSession scp b st) = Flow_Next b \<and>
     rq_grant req |\<in>| ps_session_grants (gs_prompt (snd (apply_choice g req AllowSession scp b st))) \<and>
     permits_path [] (Scope_Only {|rq_target req|}) (absolute_text (butlast ns @ ms))"
proof -
  have low: "danger_classify (g_danger g) (rq_kind req) (rq_target req) = DangerTier_Low"
    and high: "danger_classify (g_danger g) (rq_kind req) (absolute_text (butlast ns)) = DangerTier_High"
    using climbing_tier [OF assms(1,5,3)] assms(4,6) by auto
  have tbl: "gate_aliases g = []" by (simp add: gate_aliases_def assms(2))
  have "normalized_danger_target [] (rq_kind req) (rq_target req) = absolute_text (butlast ns)"
    using assms(5) climbing_normalized(2) [OF assms(1)]
    by (auto simp: normalized_danger_target_def assms(6))
  then have "fst (apply_choice g req AllowPermanent scp b st) = Flow_Deny"
    by (simp add: apply_choice_def tbl high)
  moreover have names: "list_all proper_name (butlast ns @ ms)"
    using assms(1,7) by (auto simp: plain_names_def list_all_iff dest: in_set_butlastD)
  have "lexically_normalize [] (absolute_text (butlast ns @ ms)) = RootDir # map Normal (butlast ns @ ms)"
    by (simp add: lexically_normalize_def rewrite_alias_def absolute_components [OF names]
        norm_plain del: map_append)
  then have "permits_path [] (Scope_Only {|rq_target req|}) (absolute_text (butlast ns @ ms))"
    by (simp add: permits_path_iff assms(6) climbing_normalized(1) [OF assms(1)])
  ultimately show ?thesis
    by (simp add: apply_choice_def low grant_session_def)
qed

section \<open>A gate to instantiate the properties\<close>

fun axis_meet :: "'a Caveats.scope \<Rightarrow> 'a Caveats.scope \<Rightarrow> 'a Caveats.scope" where
  "axis_meet Scope_All s = s"
| "axis_meet s Scope_All = s"
| "axis_meet (Scope_Only a) (Scope_Only b) = Scope_Only (a |\<inter>| b)"

definition gate_meet :: "unit caveats \<Rightarrow> unit caveats \<Rightarrow> unit caveats" where
  "gate_meet a b =
     a\<lparr>cv_fs_read := axis_meet (cv_fs_read a) (cv_fs_read b),
       cv_fs_write := axis_meet (cv_fs_write a) (cv_fs_write b),
       cv_exec := axis_meet (cv_exec a) (cv_exec b), cv_net := axis_meet (cv_net a) (cv_net b)\<rparr>"

definition sample_gate :: "bool \<Rightarrow> permission_action \<Rightarrow> (unit, unit, unit, unit, string, unit) gate" where
  "sample_gate prompts answer =
     \<lparr>g_base = no_authority, g_key_path = None, g_conversation = ''c'', g_log_path = None,
      g_denials_path = None, g_config_path = None,
      g_preset_clamp = Some (no_authority\<lparr>cv_exec := Scope_All\<rparr>), g_delegation = None,
      g_danger = production_danger_table (Some (absolute_text [''h''])) None,
      g_prompts_enabled = prompts, g_has_cancel = True, g_has_exit = True, g_ask_surface = None,
      g_ask_human = (\<lambda>_ w. (answer, w)), g_debug = True, x_platform = Linux,
      x_view = (\<lambda>_. \<lparr>fv_canonicalize = (\<lambda>_. Inl Io_NotFound), fv_metadata = (\<lambda>_. Inl Io_NotFound)\<rparr>),
      x_meet = gate_meet, x_leq = (\<lambda>_ _. True), x_build_caveats = (\<lambda>_ _. no_authority),
      x_protection = None, x_mint_key = (\<lambda>_ _ w. (None, w)), x_enforced = (\<lambda>_. None),
      x_load_key = (\<lambda>_ _. None), x_policy_lib = sample_lib,
      x_store_io = (\<lambda>_. \<lparr>ai_lock = (\<lambda>w. (Inr (), w)), ai_read = (\<lambda>_. Inr []),
                            ai_atomic_write = (\<lambda>_ w. (Inr (), w))\<rparr>),
      x_store_read = (\<lambda>_ _ _. None), x_home_cwd = (\<lambda>_. (None, None)), x_append_log = (\<lambda>_ _ w. w),
      x_append_denial = (\<lambda>_ _ w. w), x_web_decision = (\<lambda>_ w. ((Deny, ''once''), w)),
      x_stamp = (\<lambda>w. (sample_stamp, w)), x_minting = sample_minting, x_content_id = id\<rparr>"

definition sample_state :: "unit gate_state" where
  "sample_state =
     \<lparr>gs_prompt = \<lparr>ps_prompt_default = None, ps_mcp_net_default = None, ps_web = False,
        ps_workspace_key = ''w'', ps_session_grants = {||}, ps_durable_grants = {||},
        ps_rejected = {||}, ps_session_denials = {||}, ps_persistent_denials = {||},
        ps_pending_once = {||}, ps_decisions = [], ps_ocap = (\<lambda>_. None)\<rparr>,
      gs_world = (), gs_cancel = False, gs_exit = False, gs_retries = (\<lambda>_. None)\<rparr>"

lemma gate_meet_bounded:
  "bounded_by (gate_meet a b) a" "bounded_by (gate_meet a b) b"
proof -
  have m: "permits (axis_meet s t) x \<longleftrightarrow> permits s x \<and> permits t x" for s t :: "string Caveats.scope" and x
    by (cases s; cases t) auto
  have "axis_permits (gate_meet a b) k x \<longleftrightarrow> axis_permits a k x \<and> axis_permits b k x" for k x
    by (cases k) (simp_all add: gate_meet_def m permits_exec_def permits_fs_read_def
        permits_fs_write_def permits_net_def)
  then show "bounded_by (gate_meet a b) a" "bounded_by (gate_meet a b) b"
    by (simp_all add: bounded_by_def)
qed

lemma sample_laws: "gate_laws (sample_gate prompts answer)"
  by (simp add: gate_laws_def sample_gate_def gate_meet_bounded)

text \<open>A run of \<^verbatim>\<open>/bin/ls\<close>, allowed once at the direct prompt.\<close>

abbreviation sample_exec :: permission_request where
  "sample_exec \<equiv> sample_request DenialKind_Exec ''/bin/ls''"

lemma sample_authorized:
  assumes "permission_interaction True sample_exec danger AllowOnce = Inr si"
  shows "gate_authorize sample_minting ''w'' ''c'' sample_stamp (si_definition si) Audience_Terminal
     AllowOnce = Inr AllowOnce"
proof -
  obtain d wanted where "si = with_default_option
      (OptionId (action_as_str (blank_choice sample_exec danger AllowOnce))) (SurfaceInteraction_blocking d)"
    and d: "def_controls d = permission_controls sample_exec danger Audience_Terminal wanted"
    using assms permission_interaction_total [of True sample_exec danger AllowOnce] by auto
  then have "si_definition si = d"
    by (simp add: with_default_option_def SurfaceInteraction_blocking_def)
  then show ?thesis
    using gate_authorize_complete [OF _ sample_mints d, of AllowOnce] by (simp add: offered_iff)
qed

lemma sample_prompt:
  "ask_terminal (sample_gate True AllowOnce) sample_exec sample_state =
     (Some (AllowOnce, ''once''), sample_state)"
proof -
  let ?t = "production_danger_table (Some (absolute_text [''h''])) None"
  obtain si where si: "permission_interaction True sample_exec ?t AllowOnce = Inr si"
    using permission_interaction_total [of True sample_exec ?t AllowOnce] by auto
  have "gate_default (sample_gate True AllowOnce) (gs_prompt sample_state) sample_exec = AllowOnce"
    by (simp add: gate_default_def sample_state_def)
  then show ?thesis
    using si sample_authorized [OF si]
    by (simp add: ask_terminal_def sample_gate_def authorize_def decision_scope_def sample_state_def)
qed

lemma sample_request_answer:
  assumes b: "b = \<lparr>bt_once = [], bt_fence = None\<rparr>"
  shows "ask_request (sample_gate True AllowOnce) False no_authority False sample_exec b sample_state =
     (Flow_Next (add_once (rq_grant sample_exec) b),
      record_decision (sample_gate True AllowOnce) sample_exec ''allow'' ''once'' sample_state)"
proof -
  have fields: "floor_refusal (sample_gate True AllowOnce) () sample_exec = None"
    "already_held (sample_gate True AllowOnce) no_authority sample_exec sample_state = (False, sample_state)"
    "g_prompts_enabled (sample_gate True AllowOnce)"
    "ps_session_grants (gs_prompt sample_state) = {||}" "ps_durable_grants (gs_prompt sample_state) = {||}"
    "ps_pending_once (gs_prompt sample_state) = {||}" "gs_world sample_state = ()"
    "evaluate_request (x_platform (sample_gate True AllowOnce)) (x_policy_lib (sample_gate True AllowOnce))
       (ps_ocap (gs_prompt sample_state)) (rq_kind sample_exec) (rq_target sample_exec) = None"
    by (simp_all add: floor_refusal_def already_held_def sample_gate_def sample_state_def
        evaluate_request_def sample_lib_def class_for_def)
  show ?thesis
    unfolding ask_request_def fields option.case Let_def prod.case
    by (simp add: fields b session_grant_covers_def pending_or_ask_def take_pending_once_def
        ask_operator_def sample_prompt apply_choice_def)
qed

lemma sample_asked:
  obtains c st' where "ask_scoped (sample_gate True AllowOnce) no_authority [sample_exec] False False
      sample_state = (Decision_Allow c, st')"
    and "permits_exec c ''/bin/ls''" "ps_session_grants (gs_prompt st') = {||}"
proof -
  let ?g = "sample_gate True AllowOnce"
  let ?st = "record_decision ?g sample_exec ''allow'' ''once'' sample_state"
  have pre: "protection_refuses ?g no_authority [sample_exec] sample_state = (False, sample_state)"
    "\<not> fence_exceeds_ceiling ?g no_authority [sample_exec] False"
    "\<not> preset_refuses_batch ?g () [sample_exec]" "\<not> delegation_refuses ?g () [sample_exec]"
    "\<not> malformed_operation no_authority [sample_exec] False"
    "gs_world sample_state = ()" "\<not> ps_web (gs_prompt sample_state)"
    by (simp_all add: protection_refuses_def fence_exceeds_ceiling_def preset_refuses_batch_def
        delegation_refuses_def malformed_operation_def sample_gate_def sample_state_def)
  have free: "\<not> denied ?g (gs_prompt sample_state) DenialKind_Exec ''/bin/ls''"
    by (simp add: denied_def denied_exactly_def sample_gate_def sample_state_def evaluate_request_def
        class_for_def sample_lib_def)
  let ?b = "\<lparr>bt_once = [rq_grant sample_exec], bt_fence = None\<rparr> :: unit batch"
  have batch: "ask_requests ?g False no_authority False [sample_exec] \<lparr>bt_once = [], bt_fence = None\<rparr>
      sample_state = (Flow_Next ?b, ?st)"
    by (simp add: sample_request_answer add_once_def)
  let ?c = "gate_meet (no_authority\<lparr>cv_exec := Scope_Only {|''/bin/ls''|}\<rparr>)
      (no_authority\<lparr>cv_exec := Scope_All\<rparr>)"
  have "standing_grants (gs_prompt ?st) = []"
    by (simp add: standing_grants_def record_prompt)
      (simp add: sample_state_def sorted_list_of_fset.rep_eq)
  then have recalled: "recalled_grants ?g d w (gs_prompt ?st) = ([], gs_prompt ?st)" for d w
    by (simp add: recalled_grants_def)
  have policy: "policy_with_grants ?g no_authority [rq_grant sample_exec] ?st = (Inr ?c, ?st)"
    by (simp add: policy_with_grants_def recalled Let_def)
      (simp add: validate_caveats_def clamp_policy_def sample_gate_def widen_caveats_def widen_one_def
        no_authority_def)
  then have "mint ?g no_authority [rq_grant sample_exec] ?st = (Inr ?c, ?st)"
    by (simp add: mint_def policy) (simp add: sample_gate_def validate_caveats_def)
  then have "conclude ?g no_authority False ?b ?st = (Decision_Allow ?c, ?st)"
    by (simp add: conclude_def validate_caveats_def) (simp add: sample_gate_def)
  then have "ask_scoped ?g no_authority [sample_exec] False False sample_state = (Decision_Allow ?c, ?st)"
    by (simp add: ask_scoped_def pre free batch del: ask_requests.simps)
  moreover have "permits_exec ?c ''/bin/ls''"
    by (simp add: permits_exec_def gate_meet_def)
  moreover have "ps_session_grants (gs_prompt ?st) = {||}"
    by (simp add: record_prompt) (simp add: sample_state_def)
  ultimately show ?thesis by (rule that)
qed


lemma refusal_is_final_witness:
  "fst (ask_scoped (sample_gate True AllowOnce) no_authority [sample_exec] False True
     (after_call (sample_gate True AllowOnce) (Call_Ask [sample_exec])
       (on_prompt (\<lambda>s. s\<lparr>ps_session_denials := {|(DenialKind_Exec, ''ls'')|}\<rparr>) sample_state))) =
   Decision_Deny"
proof -
  let ?st = "on_prompt (\<lambda>s. s\<lparr>ps_session_denials := {|(DenialKind_Exec, ''ls'')|}\<rparr>) sample_state"
  have run: "session_run {sample_gate True AllowOnce} ?st
      (after_call (sample_gate True AllowOnce) (Call_Ask [sample_exec]) ?st)"
    by (intro session_call session_start) simp
  have "exec_grant_basename ''/bin/ls'' = ''ls''" by code_simp
  then show ?thesis
    using refusal_is_final [OF run, of sample_exec "[sample_exec]" "''ls''"
        "sample_gate True AllowOnce" no_authority False True] by simp
qed

lemma session_grants_are_recorded_witness:
  "prefix (ps_decisions (gs_prompt sample_state))
     (ps_decisions (gs_prompt (after_call (sample_gate True AllowOnce)
        (Call_FullAccess [sample_exec]) sample_state)))"
proof -
  have "session_run {sample_gate True AllowOnce} sample_state
      (after_call (sample_gate True AllowOnce) (Call_FullAccess [sample_exec]) sample_state)"
    by (intro session_call session_start) simp
  from session_grants_are_recorded [OF this] show ?thesis by blast
qed

lemma prompts_off_asks_nobody_witness:
  "fst (ask_scoped (sample_gate False AllowOnce) no_authority [sample_exec] False False sample_state) =
     fst (ask_scoped (sample_gate False AllowSession) no_authority [sample_exec] False False sample_state)"
proof -
  have off: "\<not> g_prompts_enabled (sample_gate False AllowOnce)" by (simp add: sample_gate_def)
  obtain d st' where a: "ask_scoped (sample_gate False AllowOnce) no_authority [sample_exec] False False
      sample_state = (d, st')" by force
  have "(sample_gate False AllowOnce)\<lparr>g_ask_surface := None, g_ask_human := \<lambda>_ w. (AllowSession, w),
      x_web_decision := \<lambda>_ w. ((Deny, ''once''), w)\<rparr> = sample_gate False AllowSession"
    by (simp add: sample_gate_def)
  then show ?thesis
    using prompts_off_asks_nobody [OF off a, where surface = None and human = "\<lambda>_ w. (AllowSession, w)"
        and web = "\<lambda>_ w. ((Deny, ''once''), w)"] a
    by simp
qed

lemma climbing_session_grant_witness:
  "permits_path [] (Scope_Only {|absolute_text [''h''] @ ''/..''|}) (absolute_text [''etc'', ''shadow''])"
proof -
  let ?req = "sample_request DenialKind_FsRead (absolute_text [''h''] @ ''/..'')"
  have ns: "plain_names [''h'']" by (simp add: plain_names_def proper_name_def plain_char_def)
  have "list_all proper_name [''etc'', ''shadow'']" by (simp add: proper_name_def)
  from climbing_session_grant [OF ns _ _ _ _ _ this, of "sample_gate True AllowSession" None ?req]
  show ?thesis by (simp add: sample_gate_def)
qed

end
