(* ===== verification/GrantTree.thy ===== *)
theory GrantTree
  imports Grants
begin

text \<open>
  The typed grants and their display tree, \<^verbatim>\<open>newt-core/src/grant_tree.rs\<close>: targets by kind,
  the scope that only a promotion makes durable, the tree of the components of the targets, and
  the caveats a set of grants widens to. The field \<^verbatim>\<open>scope\<close> is private to the module; what
  a caller can do with a grant is the list of operations \<open>grant_op\<close>.
\<close>

section \<open>Grants\<close>

datatype grant_provenance = Provenance_Terminal | Provenance_Web

datatype grant_scope = GrantScope_Session grant_provenance | GrantScope_Durable

datatype target =
    Target_FsRead string bool
  | Target_FsWrite string bool
  | Target_Net string "string list" bool
  | Target_Mcp string string bool
  | Target_Exec string
  | Target_GitWrite string
  | Target_Build string

record tree_grant =
  tg_target :: target
  tg_scope :: grant_scope

text \<open>\<^verbatim>\<open>str::rsplit_once\<close> with a text for pattern: the last occurrence.\<close>

definition rsplit_once_str :: "string \<Rightarrow> string \<Rightarrow> (string \<times> string) option" where
  "rsplit_once_str pat s =
     (case List.find (\<lambda>i. prefix pat (drop i s)) (rev [0..<Suc (length s)]) of
        None \<Rightarrow> None
      | Some i \<Rightarrow> Some (take i s, drop (i + length pat) s))"

definition net_impl :: "string \<Rightarrow> bool \<Rightarrow> target" where
  "net_impl raw redacted =
     (let without_scheme = (case rsplit_once_str ''://'' raw of Some (_, rest) \<Rightarrow> rest | None \<Rightarrow> raw)
      in case filter (\<lambda>s. s \<noteq> []) (split_on CHR ''/'' without_scheme) of
           [] \<Rightarrow> Target_Net [] [] redacted
         | host # path \<Rightarrow> Target_Net host path redacted)"

fun target_kind :: "target \<Rightarrow> denial_kind" where
  "target_kind (Target_FsRead _ _) = DenialKind_FsRead"
| "target_kind (Target_FsWrite _ _) = DenialKind_FsWrite"
| "target_kind (Target_Net _ _ _) = DenialKind_Net"
| "target_kind (Target_Mcp _ _ _) = DenialKind_RemoteTool"
| "target_kind (Target_Exec _) = DenialKind_Exec"
| "target_kind (Target_GitWrite _) = DenialKind_GitWrite"
| "target_kind (Target_Build _) = DenialKind_Build"

definition path_parts :: "string \<Rightarrow> string list" where
  "path_parts path =
     (let parts = filter (\<lambda>s. s \<noteq> [])
            (split_on CHR ''/'' (map (\<lambda>c. if c = CHR 0x5C then CHR ''/'' else c) path))
      in if parts = [] then [path] else parts)"

fun target_components :: "target \<Rightarrow> string list" where
  "target_components (Target_FsRead path _) = path_parts path"
| "target_components (Target_FsWrite path _) = path_parts path"
| "target_components (Target_Net host path _) = host # path"
| "target_components (Target_Mcp server tool _) = [server, tool]"
| "target_components (Target_Exec program) = [program]"
| "target_components (Target_GitWrite t) = [t]"
| "target_components (Target_Build t) = [t]"

definition Grant_new :: "target \<Rightarrow> grant_provenance \<Rightarrow> tree_grant" where
  "Grant_new t p = \<lparr>tg_target = t, tg_scope = GrantScope_Session p\<rparr>"

datatype not_promotable = NotPromotable

definition promote :: "tree_grant \<Rightarrow> not_promotable + tree_grant" where
  "promote g =
     (if tg_scope g = GrantScope_Session Provenance_Terminal
      then Inr (g\<lparr>tg_scope := GrantScope_Durable\<rparr>)
      else Inl NotPromotable)"

section \<open>The tree\<close>

datatype node = Node (node_label: string) (node_grant: "tree_grant option") (node_children: "node list")

definition leaf :: "string \<Rightarrow> node" where
  "leaf label = Node label None []"

text \<open>\<^verbatim>\<open>child_mut\<close>: the child of that label, pushed when there is none, changed in place.\<close>

fun child_mut :: "string \<Rightarrow> (node \<Rightarrow> node) \<Rightarrow> node list \<Rightarrow> node list" where
  "child_mut label f [] = [f (leaf label)]"
| "child_mut label f (n # ns) =
     (if node_label n = label then f n # ns else n # child_mut label f ns)"

fun descend :: "tree_grant \<Rightarrow> string list \<Rightarrow> node \<Rightarrow> node" where
  "descend g [] (Node label _ children) = Node label (Some g) children"
| "descend g (part # parts) (Node label old children) =
     Node label old (child_mut part (descend g parts) children)"

definition tree_insert :: "node list \<Rightarrow> tree_grant \<Rightarrow> node list" where
  "tree_insert roots g =
     (case target_components (tg_target g) of
        [] \<Rightarrow> roots
      | part # parts \<Rightarrow> child_mut part (descend g parts) roots)"

definition tree :: "tree_grant list \<Rightarrow> node list" where
  "tree grants = foldl tree_insert [] grants"

section \<open>The caveats of a set of grants\<close>

record 'g caveat_delta =
  cd_caveats :: "'g caveats"
  cd_remote_tools :: "string list"
  cd_git_writes :: "string list"
  cd_builds :: "string list"

fun axis_grant :: "target \<Rightarrow> grant option" where
  "axis_grant (Target_FsRead path _) = Some (DenialKind_FsRead, path)"
| "axis_grant (Target_FsWrite path _) = Some (DenialKind_FsWrite, path)"
| "axis_grant (Target_Net host _ _) = Some (DenialKind_Net, host)"
| "axis_grant (Target_Exec program) = Some (DenialKind_Exec, program)"
| "axis_grant _ = None"

fun remote_tool :: "target \<Rightarrow> string option" where
  "remote_tool (Target_Mcp server tool _) = Some (server @ ''__'' @ tool)"
| "remote_tool _ = None"

fun git_write :: "target \<Rightarrow> string option" where
  "git_write (Target_GitWrite t) = Some t"
| "git_write _ = None"

fun build_grant :: "target \<Rightarrow> string option" where
  "build_grant (Target_Build t) = Some t"
| "build_grant _ = None"

definition to_caveat_delta ::
    "bool list \<Rightarrow> fs_view \<Rightarrow> 'g caveats \<Rightarrow> tree_grant list \<Rightarrow> 'g caveat_delta" where
  "to_caveat_delta table v base grants =
     (let targets = map tg_target grants in
      \<lparr>cd_caveats = widen_caveats table v base (List.map_filter axis_grant targets),
       cd_remote_tools = List.map_filter remote_tool targets,
       cd_git_writes = List.map_filter git_write targets,
       cd_builds = List.map_filter build_grant targets\<rparr>)"

section \<open>What a caller can do\<close>

text \<open>
  Outside the module a grant is made by \<^verbatim>\<open>Grant::new\<close>, its public target can be assigned, and it
  can be promoted, which consumes it when it is refused.
\<close>

datatype grant_op = Op_Promote | Op_Retarget target

fun use_grant :: "grant_op list \<Rightarrow> tree_grant \<Rightarrow> tree_grant option" where
  "use_grant [] g = Some g"
| "use_grant (Op_Promote # ops) g =
     (case promote g of Inl _ \<Rightarrow> None | Inr g' \<Rightarrow> use_grant ops g')"
| "use_grant (Op_Retarget t # ops) g = use_grant ops (g\<lparr>tg_target := t\<rparr>)"

definition promotions :: "grant_op list \<Rightarrow> nat" where
  "promotions ops = length (filter (\<lambda>op. op = Op_Promote) ops)"

lemma promotions_simps [simp]:
  "promotions [] = 0" "promotions (Op_Promote # ops) = Suc (promotions ops)"
  "promotions (Op_Retarget t # ops) = promotions ops"
  by (simp_all add: promotions_def)

text \<open>The scope after some promotions; assigning the target does not touch it.\<close>

fun scope_after :: "nat \<Rightarrow> grant_scope \<Rightarrow> grant_scope option" where
  "scope_after 0 sc = Some sc"
| "scope_after (Suc n) sc =
     (if sc = GrantScope_Session Provenance_Terminal then scope_after n GrantScope_Durable else None)"

lemma use_grant_scope:
  "map_option tg_scope (use_grant ops g) = scope_after (promotions ops) (tg_scope g)"
proof (induction ops arbitrary: g)
  case (Cons op ops)
  then show ?case by (cases op) (simp_all add: promote_def)
qed simp

lemma scope_after_session:
  "scope_after n (GrantScope_Session p) =
     (if n = 0 then Some (GrantScope_Session p)
      else if n = 1 \<and> p = Provenance_Terminal then Some GrantScope_Durable else None)"
proof (cases n)
  case (Suc m)
  then show ?thesis by (cases m) auto
qed simp

section \<open>Looking grants up\<close>

fun find_label :: "string \<Rightarrow> node list \<Rightarrow> node option" where
  "find_label label ns = List.find (\<lambda>n. node_label n = label) ns"

fun grant_below :: "string list \<Rightarrow> node \<Rightarrow> tree_grant option" where
  "grant_below [] n = node_grant n"
| "grant_below (part # parts) n =
     (case find_label part (node_children n) of None \<Rightarrow> None | Some c \<Rightarrow> grant_below parts c)"

definition grant_at :: "node list \<Rightarrow> string list \<Rightarrow> tree_grant option" where
  "grant_at roots parts = grant_below parts (Node [] None roots)"

lemma find_child_mut:
  "(\<And>n. node_label (f n) = node_label n) \<Longrightarrow>
     find_label l (child_mut label f ns) =
       (if l = label then Some (f (case find_label label ns of Some n \<Rightarrow> n | None \<Rightarrow> leaf label))
        else find_label l ns)"
  by (induction ns) (auto simp: leaf_def)

lemma descend_label [simp]: "node_label (descend g parts n) = node_label n"
  by (cases n; cases parts) simp_all

lemma leaf_below [simp]: "grant_below parts (leaf label) = None"
  by (cases parts) (simp_all add: leaf_def)

lemma descend_below:
  "grant_below qs (descend g parts n) = (if qs = parts then Some g else grant_below qs n)"
proof (induction parts arbitrary: n qs)
  case Nil
  then show ?case by (cases n; cases qs) simp_all
next
  case (Cons part parts)
  then show ?case
    by (cases n; cases qs) (auto simp: find_child_mut Cons.IH simp del: find_label.simps split: option.splits)
qed

lemma grant_at_insert:
  assumes "target_components (tg_target g) \<noteq> []" "qs \<noteq> []"
  shows "grant_at (tree_insert roots g) qs =
     (if qs = target_components (tg_target g) then Some g else grant_at roots qs)"
proof -
  obtain part parts where p: "target_components (tg_target g) = part # parts"
    using assms(1) by (cases "target_components (tg_target g)") auto
  have "Node [] None (tree_insert roots g) = descend g (part # parts) (Node [] None roots)"
    by (simp add: tree_insert_def p)
  then show ?thesis by (simp only: grant_at_def descend_below p)
qed

lemma components_ne [simp]: "target_components t \<noteq> []"
  by (cases t) (simp_all add: path_parts_def Let_def)

fun last_such :: "('a \<Rightarrow> bool) \<Rightarrow> 'a list \<Rightarrow> 'a option" where
  "last_such P xs = List.find P (rev xs)"

lemma tree_lookup:
  assumes "qs \<noteq> []"
  shows "grant_at (tree gs) qs = last_such (\<lambda>g. target_components (tg_target g) = qs) gs"
proof (induction gs rule: rev_induct)
  case Nil
  show ?case using assms by (cases qs) (simp_all add: tree_def grant_at_def)
next
  case (snoc g gs)
  then show ?case
    using assms by (auto simp: tree_def grant_at_insert)
qed

text \<open>No two children of a node share a label.\<close>

fun labels_distinct :: "node \<Rightarrow> bool" where
  "labels_distinct (Node _ _ children) \<longleftrightarrow>
     distinct (map node_label children) \<and> list_all labels_distinct children"

lemma child_mut_labels:
  "(\<And>n. node_label (f n) = node_label n) \<Longrightarrow>
     map node_label (child_mut label f ns) =
       (if label \<in> node_label ` set ns then map node_label ns else map node_label ns @ [label])"
  by (induction ns) (auto simp: leaf_def)

lemma child_mut_distinct:
  assumes "\<And>n. labels_distinct n \<Longrightarrow> labels_distinct (f n)"
  shows "list_all labels_distinct ns \<Longrightarrow> list_all labels_distinct (child_mut label f ns)"
  by (induction ns) (auto simp: leaf_def intro!: assms)

lemma descend_distinct: "labels_distinct n \<Longrightarrow> labels_distinct (descend g parts n)"
proof (induction parts arbitrary: n)
  case Nil
  then show ?case by (cases n) simp
next
  case (Cons part parts)
  then show ?case
    using child_mut_distinct [of "descend g parts"]
    by (cases n) (auto simp: child_mut_labels)
qed

lemma tree_labels:
  "distinct (map node_label (tree gs)) \<and> list_all labels_distinct (tree gs)"
proof (induction gs rule: rev_induct)
  case (snoc g gs)
  obtain part parts where "target_components (tg_target g) = part # parts"
    using components_ne by (metis neq_Nil_conv)
  then show ?case
    using snoc child_mut_distinct [OF descend_distinct]
    by (auto simp: tree_def tree_insert_def child_mut_labels)
qed (simp add: tree_def)

section \<open>What the grants of some targets widen\<close>

lemma axis_grant_iff:
  "axis_grant t = Some (DenialKind_Exec, y) \<longleftrightarrow> t = Target_Exec y"
  "axis_grant t = Some (DenialKind_Net, y) \<longleftrightarrow> (\<exists>path r. t = Target_Net y path r)"
  "axis_grant t = Some (DenialKind_FsRead, y) \<longleftrightarrow> (\<exists>secret. t = Target_FsRead y secret)"
  "axis_grant t = Some (DenialKind_FsWrite, y) \<longleftrightarrow> (\<exists>secret. t = Target_FsWrite y secret)"
  "remote_tool t = Some y \<longleftrightarrow> (\<exists>s u r. t = Target_Mcp s u r \<and> y = s @ ''__'' @ u)"
  "git_write t = Some y \<longleftrightarrow> t = Target_GitWrite y"
  "build_grant t = Some y \<longleftrightarrow> t = Target_Build y"
  by (cases t; auto)+

lemma added_by_targets:
  "(\<exists>g \<in> set (List.map_filter axis_grant ts). adds table v base k g x) \<longleftrightarrow>
     (\<exists>y. (\<exists>t \<in> set ts. axis_grant t = Some (k, y)) \<and> x = grant_text table (k, y) \<and>
          \<not> already_covered table v base (k, y))"
  by (force simp: map_filter_def adds_def)

lemma widened_axes:
  fixes base :: "'g caveats"
  defines "c \<equiv> \<lambda>table v ts. widen_caveats table v base (List.map_filter axis_grant ts)"
  shows "permits_exec (c table v ts) x \<longleftrightarrow> permits_exec base x \<or> Target_Exec x \<in> set ts"
    "permits_net (c table v ts) x \<longleftrightarrow> permits_net base x \<or> (\<exists>path r. Target_Net x path r \<in> set ts)"
    "permits_fs_read (c table v ts) x \<longleftrightarrow> permits_fs_read base x \<or>
       (\<exists>path secret. Target_FsRead path secret \<in> set ts \<and> x = rewrite_alias table path \<and>
          \<not> filesystem_grant_is_covered table v (cv_fs_read base) path)"
    "permits_fs_write (c table v ts) x \<longleftrightarrow> permits_fs_write base x \<or>
       (\<exists>path secret. Target_FsWrite path secret \<in> set ts \<and> x = rewrite_alias table path \<and>
          \<not> filesystem_grant_is_covered table v (cv_fs_write base) path)"
    "cv_max_calls (c table v ts) = cv_max_calls base" "cv_generation (c table v ts) = cv_generation base"
  unfolding c_def widen_caveats_def widen_axes_foldl added_by_targets axis_grant_iff
  by (auto simp: grant_text_def already_covered_def)

lemma listed_targets:
  "set (List.map_filter remote_tool ts) = {s @ ''__'' @ t | s t. \<exists>r. Target_Mcp s t r \<in> set ts}"
  "set (List.map_filter git_write ts) = {t. Target_GitWrite t \<in> set ts}"
  "set (List.map_filter build_grant ts) = {t. Target_Build t \<in> set ts}"
proof -
  have set_filter: "set (List.map_filter f ts) = {y. \<exists>t \<in> set ts. f t = Some y}" for f :: "target \<Rightarrow> string option"
    by (force simp: map_filter_def)
  show "set (List.map_filter remote_tool ts) = {s @ ''__'' @ t | s t. \<exists>r. Target_Mcp s t r \<in> set ts}"
    unfolding set_filter axis_grant_iff by fastforce
  show "set (List.map_filter git_write ts) = {t. Target_GitWrite t \<in> set ts}"
    "set (List.map_filter build_grant ts) = {t. Target_Build t \<in> set ts}"
    unfolding set_filter axis_grant_iff by auto
qed

section \<open>Properties\<close>

text \<open>
  C28. Durable is a type that only a terminal audit produces: whatever a caller does with a grant
  (any sequence of promotions and assignments of the public target), a grant it ends up with is
  durable only if it was made on the terminal and promoted, exactly once; a grant from the web is
  a session grant for ever and its promotion is refused; and a terminal grant can be promoted.
\<close>

theorem durable_only_by_promotion:
  "(\<forall>g. use_grant ops (Grant_new t p) = Some g \<longrightarrow>
       (tg_scope g = GrantScope_Durable \<longleftrightarrow> promotions ops = 1) \<and>
       (tg_scope g = GrantScope_Session p \<longleftrightarrow> promotions ops = 0) \<and>
       (p = Provenance_Web \<longrightarrow> tg_scope g = GrantScope_Session Provenance_Web)) \<and>
   ((\<exists>g. use_grant ops (Grant_new t p) = Some g) \<longleftrightarrow>
      promotions ops = 0 \<or> promotions ops = 1 \<and> p = Provenance_Terminal)"
proof -
  have "map_option tg_scope (use_grant ops (Grant_new t p)) = scope_after (promotions ops) (GrantScope_Session p)"
    by (simp add: use_grant_scope Grant_new_def)
  then show ?thesis
    by (cases "use_grant ops (Grant_new t p)") (auto simp: scope_after_session split: if_splits)
qed

text \<open>
  The display tree is the map it shows: under the components of a target stands the last
  grant of the list with those components, under any other path nothing, and no node lists two
  children with one label.
\<close>

theorem tree_shows_the_last_grant:
  assumes "parts \<noteq> []"
  shows "grant_at (tree gs) parts =
       List.find (\<lambda>g. target_components (tg_target g) = parts) (rev gs) \<and>
     distinct (map node_label (tree gs)) \<and> list_all labels_distinct (tree gs)"
  using tree_lookup [OF assms] tree_labels by simp

text \<open>
  Composing grants widens exactly what they name: an executable or a host is permitted when the
  base permits it or a grant names it (of a net target the host alone, never its path), a file
  path when the base permits it or a grant of that mode names it in its system spelling and no
  root of the base already covers it; the call and generation bounds stay, and remote tools, git
  writes and builds widen no axis but are listed.
\<close>

theorem delta_widens_exactly:
  "let d = to_caveat_delta table v base gs in
    (permits_exec (cd_caveats d) x \<longleftrightarrow>
      permits_exec base x \<or> Target_Exec x \<in> tg_target ` set gs) \<and>
    (permits_net (cd_caveats d) x \<longleftrightarrow>
      permits_net base x \<or> (\<exists>path r. Target_Net x path r \<in> tg_target ` set gs)) \<and>
    (permits_fs_read (cd_caveats d) x \<longleftrightarrow>
      permits_fs_read base x \<or>
      (\<exists>path secret. Target_FsRead path secret \<in> tg_target ` set gs \<and> x = rewrite_alias table path \<and>
         \<not> filesystem_grant_is_covered table v (cv_fs_read base) path)) \<and>
    (permits_fs_write (cd_caveats d) x \<longleftrightarrow>
      permits_fs_write base x \<or>
      (\<exists>path secret. Target_FsWrite path secret \<in> tg_target ` set gs \<and> x = rewrite_alias table path \<and>
         \<not> filesystem_grant_is_covered table v (cv_fs_write base) path)) \<and>
    cv_max_calls (cd_caveats d) = cv_max_calls base \<and> cv_generation (cd_caveats d) = cv_generation base \<and>
    set (cd_remote_tools d) =
      {s @ ''__'' @ t | s t. \<exists>r. Target_Mcp s t r \<in> tg_target ` set gs} \<and>
    set (cd_git_writes d) = {t. Target_GitWrite t \<in> tg_target ` set gs} \<and>
    set (cd_builds d) = {t. Target_Build t \<in> tg_target ` set gs}"
  by (simp only: to_caveat_delta_def Let_def caveat_delta.simps widened_axes listed_targets set_map
      simp_thms)

lemma find_skip: "List.find P xs = None \<Longrightarrow> List.find P (xs @ ys) = List.find P ys"
  by (induction xs) (auto split: if_splits)

lemma rsplit_last:
  assumes "prefix pat (drop i s)" "i \<le> length s" "\<And>j. i < j \<Longrightarrow> j \<le> length s \<Longrightarrow> \<not> prefix pat (drop j s)"
  shows "rsplit_once_str pat s = Some (take i s, drop (i + length pat) s)"
proof -
  have split: "[0..<Suc (length s)] = [0..<i] @ i # [Suc i..<Suc (length s)]"
    using assms(2) by (metis le_imp_less_Suc upt_add_eq_append less_imp_add_positive upt_conv_Cons
        add_0 less_eq_Suc_le le0 less_Suc_eq_le)
  have "\<not> prefix pat (drop j s)" if "j \<in> set [Suc i..<Suc (length s)]" for j
    using that assms(3) [of j] by (simp del: upt_Suc)
  then have "List.find (\<lambda>j. prefix pat (drop j s)) (rev [Suc i..<Suc (length s)]) = None"
    by (simp add: find_None_iff del: upt_Suc)
  then have "List.find (\<lambda>j. prefix pat (drop j s)) (rev [0..<Suc (length s)]) = Some i"
    using assms(1) unfolding split by (simp add: find_skip)
  then show ?thesis by (simp add: rsplit_once_str_def del: upt_Suc)
qed

text \<open>
  The host of a net target is what follows the last scheme separator of its text, not the
  first: a URL that carries another URL in its path or query is granted under the host of the
  inner one.
\<close>

theorem host_follows_the_last_scheme:
  assumes "host \<noteq> []" "CHR ''/'' \<notin> set host"
    and "\<And>i. \<not> prefix ''://'' (drop i (host @ CHR ''/'' # rest))"
  shows "\<exists>path. net_impl (outer @ ''://'' @ host @ CHR ''/'' # rest) redacted = Target_Net host path redacted"
proof -
  let ?suf = "host @ CHR ''/'' # rest"
  let ?s = "outer @ ''://'' @ ?suf"
  have "\<not> prefix ''://'' (drop j ?s)" if "length outer < j" for j
  proof -
    obtain k where k: "j = length outer + Suc k" using \<open>length outer < j\<close> less_imp_Suc_add by auto
    have "drop j ?s = drop (Suc k) (''://'' @ ?suf)" by (simp add: k)
    moreover have "\<not> prefix ''://'' (drop (Suc k) (''://'' @ ?suf))"
    proof (cases "k < 2")
      case True
      then have "k = 0 \<or> k = 1" by auto
      then show ?thesis by auto
    next
      case False
      then obtain m where "k = Suc (Suc m)" by (metis add_2_eq_Suc le_Suc_ex not_less)
      then show ?thesis using assms(3) [of m] by simp
    qed
    ultimately show ?thesis by simp
  qed
  then have "rsplit_once_str ''://'' ?s = Some (outer, ?suf)"
    by (subst rsplit_last [of _ "length outer"]) auto
  moreover have "split_on CHR ''/'' ?suf = host # split_on CHR ''/'' rest"
    by (rule split_on_append [OF assms(2)])
  ultimately show ?thesis using assms(1) by (simp add: net_impl_def)
qed

lemma host_follows_the_last_scheme_witness:
  "\<exists>path. net_impl ''https://good.org/?next=http://evil.org/x'' False = Target_Net ''evil.org'' path False"
proof -
  have none: "\<not> prefix ''://'' (drop i (''evil.org'' @ CHR ''/'' # ''x''))" for i
  proof
    assume "prefix ''://'' (drop i (''evil.org'' @ CHR ''/'' # ''x''))"
    then have "CHR '':'' \<in> set (drop i (''evil.org'' @ CHR ''/'' # ''x''))" by (auto simp: prefix_def)
    then have "CHR '':'' \<in> set (''evil.org'' @ CHR ''/'' # ''x'')" by (rule in_set_dropD)
    then show False by simp
  qed
  have "\<exists>path. net_impl (''https://good.org/?next=http'' @ ''://'' @ ''evil.org'' @ CHR ''/'' # ''x'') False =
      Target_Net ''evil.org'' path False"
    by (rule host_follows_the_last_scheme [OF _ _ none]) simp_all
  then show ?thesis by simp
qed

lemma tree_shows_the_last_grant_witness:
  "grant_at (tree [Grant_new (Target_FsRead ''/a/b'' False) Provenance_Terminal,
                   Grant_new (Target_FsWrite ''/a/b'' False) Provenance_Terminal]) [''a'', ''b''] =
     Some (Grant_new (Target_FsWrite ''/a/b'' False) Provenance_Terminal)"
proof -
  have "path_parts ''/a/b'' = [''a'', ''b'']" by code_simp
  then show ?thesis by (simp add: tree_shows_the_last_grant [THEN conjunct1] Grant_new_def)
qed

lemma durable_only_by_promotion_witness:
  "\<exists>g. use_grant [Op_Promote, Op_Retarget (Target_Exec ''rm'')]
        (Grant_new (Target_Exec ''ls'') Provenance_Terminal) = Some g \<and>
     tg_scope g = GrantScope_Durable \<and> tg_target g = Target_Exec ''rm''"
  using durable_only_by_promotion [of "[Op_Promote, Op_Retarget (Target_Exec ''rm'')]"
      "Target_Exec ''ls''" Provenance_Terminal]
  by (auto simp: promote_def Grant_new_def)

end
