(* ===== verification/Ocap.thy ===== *)
theory Ocap
  imports RustText "HOL-Library.List_Lexorder" "HOL-Library.Char_ord"
begin

text \<open>
  The capability gates, \<^verbatim>\<open>newt-core/src/ocap.rs\<close>: verifiers that answer with evidence or with
  a named deviation, the gates that require them, the disclosure filter and its scoped
  installation on a thread, and the report of what a platform achieves. The slot of the thread is
  an argument, and so are the answers of the host about its kernel fences; the four base64
  engines belong to the crate \<^verbatim>\<open>base64\<close>.
\<close>

section \<open>Verifications and gates\<close>

definition arrow :: string where
  "arrow = map char_of [226, 134, 146 :: nat]"

datatype verification = Verification_Verified string | Verification_Absent string string

fun is_verified :: "verification \<Rightarrow> bool" where
  "is_verified (Verification_Verified _) = True"
| "is_verified (Verification_Absent _ _) = False"

fun deviation :: "verification \<Rightarrow> string option" where
  "deviation (Verification_Absent d _) = Some d"
| "deviation (Verification_Verified _) = None"

record fail_closed =
  fc_deviation :: string
  fc_reason :: string

fun require :: "verification \<Rightarrow> fail_closed + unit" where
  "require (Verification_Verified _) = Inr ()"
| "require (Verification_Absent d reason) = Inl \<lparr>fc_deviation = d, fc_reason = reason\<rparr>"

section \<open>The floor of isolation\<close>

datatype b1_property =
    B1Property_FilesystemConfinement | B1Property_DirectNetworkEgressDenied | B1Property_MediatedEgressOnly | B1Property_EnvironmentIsolation
  | B1Property_InheritedHandleIsolation | B1Property_ProcessTreeContainment | B1Property_CredentialIsolation | B1Property_DisclosureFiltering
  | B1Property_FailClosedEnforcement

definition B1_REQUIRED :: "b1_property list" where
  "B1_REQUIRED =
     [B1Property_FilesystemConfinement, B1Property_DirectNetworkEgressDenied, B1Property_MediatedEgressOnly, B1Property_CredentialIsolation,
      B1Property_EnvironmentIsolation, B1Property_InheritedHandleIsolation, B1Property_ProcessTreeContainment, B1Property_DisclosureFiltering,
      B1Property_FailClosedEnforcement]"

fun b1_name :: "b1_property \<Rightarrow> string" where
  "b1_name B1Property_FilesystemConfinement = ''filesystem-confinement''"
| "b1_name B1Property_DirectNetworkEgressDenied = ''direct-network-egress-denied''"
| "b1_name B1Property_MediatedEgressOnly = ''mediated-egress-only''"
| "b1_name B1Property_EnvironmentIsolation = ''environment-isolation''"
| "b1_name B1Property_InheritedHandleIsolation = ''inherited-handle-isolation''"
| "b1_name B1Property_ProcessTreeContainment = ''process-tree-containment''"
| "b1_name B1Property_CredentialIsolation = ''credential-isolation''"
| "b1_name B1Property_DisclosureFiltering = ''disclosure-filtering''"
| "b1_name B1Property_FailClosedEnforcement = ''fail-closed-enforcement''"

record b1_floor =
  b1_unmet :: "b1_property list"

definition live_attacker_path :: b1_floor where
  "live_attacker_path =
     \<lparr>b1_unmet = [B1Property_MediatedEgressOnly, B1Property_InheritedHandleIsolation, B1Property_ProcessTreeContainment]\<rparr>"

definition first_unmet :: "b1_floor \<Rightarrow> b1_property option" where
  "first_unmet fl = List.find (\<lambda>p. p \<in> set (b1_unmet fl)) B1_REQUIRED"

definition b1_is_complete :: "b1_floor \<Rightarrow> bool" where
  "b1_is_complete fl \<longleftrightarrow> b1_unmet fl = []"

definition b1_reason :: "b1_floor \<Rightarrow> string" where
  "b1_reason fl =
     (case first_unmet fl of
        Some p \<Rightarrow>
          ''b1 credential-floor property not proven on the live attacker-exec path '' @
          ''(run_command '' @ arrow @ '' agent-bridle shell): '' @ b1_name p @ '' '' @ dash @
          '' DIRECT off-box socket creation IS now denied there (seccomp, agent-bridle 0.7.15 '' @
          ''DenyDirect), but there is no mediated-egress broker (deferred, #1599) and a confined '' @
          ''child can still reach a host AF_UNIX deputy (local-deputy-egress), so egress is not '' @
          ''broker-only; fd hygiene on this path is CLOEXEC-based and cgroup subtree-kill is not '' @
          ''wired here. b1 is a set of PROVEN properties, each met by ANY sufficient mechanism, '' @
          ''not a fixed uid-ns/netns stack''
      | None \<Rightarrow>
          ''b1 structural floor complete but live-session enforcement is unproven (per-session '' @
          ''evidence seam + canary grounding test pending)'')"

definition verify_b1 :: verification where
  "verify_b1 = Verification_Absent ''b1-os-isolation'' (b1_reason live_attacker_path)"

section \<open>The disclosure filter\<close>

record base64 =
  b64_standard :: "string \<Rightarrow> string"
  b64_standard_no_pad :: "string \<Rightarrow> string"
  b64_url_safe :: "string \<Rightarrow> string"
  b64_url_safe_no_pad :: "string \<Rightarrow> string"

record disclosure_filter =
  df_secrets :: "string list"

definition DisclosureFilter_new :: disclosure_filter where
  "DisclosureFilter_new = \<lparr>df_secrets = []\<rparr>"

definition register :: "string \<Rightarrow> disclosure_filter \<Rightarrow> disclosure_filter" where
  "register s f = (if s = [] then f else f\<lparr>df_secrets := df_secrets f @ [s]\<rparr>)"

definition hex_digit :: "bool \<Rightarrow> nat \<Rightarrow> char" where
  "hex_digit upper n =
     (if n < 10 then char_of (48 + n) else if upper then char_of (55 + n) else char_of (87 + n))"

definition hex_byte :: "bool \<Rightarrow> char \<Rightarrow> string" where
  "hex_byte upper c =
     (let n = of_char c :: nat in [hex_digit upper (n div 16), hex_digit upper (n mod 16)])"

definition each_byte :: "string \<Rightarrow> bool \<Rightarrow> string \<Rightarrow> string" where
  "each_byte lead upper s = concat (map (\<lambda>c. lead @ hex_byte upper c) s)"

definition backslash :: char where
  "backslash = CHR 0x5C"

definition encodings :: "base64 \<Rightarrow> string \<Rightarrow> string list" where
  "encodings b secret =
     remdups_adj (sort
       [secret, b64_standard b secret, b64_standard_no_pad b secret, b64_url_safe b secret,
        b64_url_safe_no_pad b secret, each_byte [] False secret, each_byte [] True secret,
        each_byte ''%'' True secret, each_byte ''%'' False secret,
        each_byte [backslash, CHR ''x''] False secret,
        each_byte [backslash, CHR ''u'', CHR ''0'', CHR ''0''] False secret])"

text \<open>Every White_Space character taken out of the text.\<close>

function strip_ws :: "string \<Rightarrow> string" where
  "strip_ws s =
     (case ws_split white_space s of
        Some t \<Rightarrow> strip_ws t
      | None \<Rightarrow> (case s of [] \<Rightarrow> [] | c # cs \<Rightarrow> c # strip_ws cs))"
  by pat_completeness auto
termination
  by (relation "measure length") (auto dest: ws_split_length)

declare strip_ws.simps [simp del]

definition leaks :: "base64 \<Rightarrow> disclosure_filter \<Rightarrow> string \<Rightarrow> bool" where
  "leaks b f t \<longleftrightarrow>
     (let normalized = strip_ws t in
      list_ex (\<lambda>s. list_ex (\<lambda>e. sublist e t \<or> sublist e normalized) (encodings b s))
        (df_secrets f))"

definition WITHHELD :: string where
  "WITHHELD = ''[REDACTED: withheld '' @ dash @ '' disclosed a registered secret]''"

definition excise :: "base64 \<Rightarrow> string \<Rightarrow> string \<Rightarrow> string" where
  "excise b secret t =
     foldl (\<lambda>out enc. str_replace enc ''[REDACTED]'' out) t (encodings b secret)"

definition redact :: "base64 \<Rightarrow> disclosure_filter \<Rightarrow> string \<Rightarrow> string" where
  "redact b f t =
     (let out = foldl (\<lambda>out s. excise b s out) t (df_secrets f)
      in if leaks b f out then WITHHELD else out)"

definition df_is_empty :: "disclosure_filter \<Rightarrow> bool" where
  "df_is_empty f \<longleftrightarrow> df_secrets f = []"

definition redacts_what_it_registered :: "base64 \<Rightarrow> disclosure_filter \<Rightarrow> bool" where
  "redacts_what_it_registered b f \<longleftrightarrow>
     df_secrets f \<noteq> [] \<and>
     list_all (\<lambda>s. list_all (\<lambda>enc.
         \<not> leaks b f (redact b f (''probe prefix '' @ enc @ '' probe suffix'')))
       (encodings b s)) (df_secrets f)"

definition session_disclosure_filter :: "string option \<Rightarrow> disclosure_filter" where
  "session_disclosure_filter api_key =
     (case api_key of
        None \<Rightarrow> DisclosureFilter_new
      | Some key \<Rightarrow>
          if 8 \<le> length key then register key DisclosureFilter_new else DisclosureFilter_new)"

text \<open>
  The guard: installing returns what was there, dropping it puts that back. The slot of a thread
  is the state.
\<close>

type_synonym slot = "disclosure_filter option"

definition scoped_session_disclosure :: "disclosure_filter \<Rightarrow> slot \<Rightarrow> slot \<times> slot" where
  "scoped_session_disclosure f slot = (slot, Some f)"

definition drop_guard :: "slot \<Rightarrow> slot \<Rightarrow> slot" where
  "drop_guard previous slot = previous"

definition redact_session_ingress :: "base64 \<Rightarrow> slot \<Rightarrow> string \<Rightarrow> string" where
  "redact_session_ingress b slot t = (case slot of Some f \<Rightarrow> redact b f t | None \<Rightarrow> t)"

definition verify_disclosure_gate :: "base64 \<Rightarrow> slot \<Rightarrow> verification" where
  "verify_disclosure_gate b slot =
     (case slot of
        None \<Rightarrow> Verification_Absent ''disclosure-gate-live-path''
          (''no session disclosure filter is installed on this thread, so '' @
           ''`redact_session_ingress` is the identity function here '' @ dash @ '' the memory / '' @
           ''observation / compaction / spill funnels would not value-filter. Expected outside a '' @
           ''live turn; inside one it means the turn is running on a thread that never installed '' @
           ''the guard.'')
      | Some f \<Rightarrow>
          if \<not> redacts_what_it_registered b f
          then Verification_Absent ''disclosure-gate-live-path''
            (if df_is_empty f
             then ''a session disclosure filter is installed on this thread but has no '' @
                  ''registered secrets, so it would catch nothing''
             else ''the session disclosure filter installed on this thread failed its own '' @
                  ''redaction probe '' @ dash @ '' a registered value survived `redact`'')
          else Verification_Verified
            (''probed live on this thread: the installed session filter redacted every value it '' @
             ''has registered, so the tool-result, summary, memory and repeat-steer model-ingress '' @
             ''funnels all value-filter (the last via the TLS backstop); guarded by '' @
             ''no_model_ingress_funnel_leaks_a_registered_session_secret + '' @
             ''redact_secrets_value_filters_a_registered_session_secret + '' @
             ''repeat_steer_value_filters_a_registered_session_secret''))"

definition seed_live_credential :: "base64 \<Rightarrow> slot \<Rightarrow> string \<Rightarrow> fail_closed + unit" where
  "seed_live_credential b slot cred =
     rbind (require verify_b1) (\<lambda>_.
     rbind (require (verify_disclosure_gate b slot)) (\<lambda>_. Inr ()))"

definition admit_untrusted_remote :: "string \<Rightarrow> fail_closed + unit" where
  "admit_untrusted_remote voice_fingerprint = rbind (require verify_b1) (\<lambda>_. Inr ())"

section \<open>Separation of duties\<close>

definition proposer_distinct :: "string \<Rightarrow> string \<Rightarrow> bool" where
  "proposer_distinct proposer worker \<longleftrightarrow> proposer \<noteq> [] \<and> proposer \<noteq> worker"

definition verify_sod :: "string \<Rightarrow> string \<Rightarrow> verification" where
  "verify_sod proposer worker =
     Verification_Absent ''sod-proposer-not-worker''
       (if \<not> proposer_distinct proposer worker
        then ''proposer key is not distinct from the worker (self-proposal)''
        else ''distinct proposer key confirmed, but taint-aware observe-then-propose is unbuilt'')"

definition auto_apply_policy :: "string \<Rightarrow> string \<Rightarrow> fail_closed + unit" where
  "auto_apply_policy proposer worker = rbind (require (verify_sod proposer worker)) (\<lambda>_. Inr ())"

section \<open>The report\<close>

datatype guarantee =
    Guarantee_FsConfinement | Guarantee_ProcessConfinement | Guarantee_NetworkConfinement | Guarantee_EnvIsolation | Guarantee_CredentialIsolation
  | Guarantee_DisclosureFiltering | Guarantee_FailClosedExecution

definition GUARANTEES :: "guarantee list" where
  "GUARANTEES =
     [Guarantee_FsConfinement, Guarantee_ProcessConfinement, Guarantee_NetworkConfinement, Guarantee_EnvIsolation, Guarantee_CredentialIsolation,
      Guarantee_DisclosureFiltering, Guarantee_FailClosedExecution]"

fun guarantee_label :: "guarantee \<Rightarrow> string" where
  "guarantee_label Guarantee_FsConfinement = ''fs-confinement''"
| "guarantee_label Guarantee_ProcessConfinement = ''process-confinement''"
| "guarantee_label Guarantee_NetworkConfinement = ''network-confinement''"
| "guarantee_label Guarantee_EnvIsolation = ''env-isolation''"
| "guarantee_label Guarantee_CredentialIsolation = ''credential-isolation''"
| "guarantee_label Guarantee_DisclosureFiltering = ''disclosure-filtering''"
| "guarantee_label Guarantee_FailClosedExecution = ''fail-closed-execution''"

datatype achieved = Achieved_Enforced string | Achieved_Unverified string string | Achieved_Unsupported string

fun is_enforced :: "achieved \<Rightarrow> bool" where
  "is_enforced (Achieved_Enforced _) = True"
| "is_enforced _ = False"

record platform_ceiling =
  pc_platform :: string
  pc_table :: "(guarantee \<times> string option) list"

definition cannot_provide :: "platform_ceiling \<Rightarrow> guarantee \<Rightarrow> string option" where
  "cannot_provide c g =
     (case List.find (\<lambda>(row, _). row = g) (pc_table c) of
        Some (_, reason) \<Rightarrow> reason
      | None \<Rightarrow> Some ''guarantee not present in this platform's ceiling table'')"

definition LINUX_CEILING :: platform_ceiling where
  "LINUX_CEILING = \<lparr>pc_platform = ''linux'', pc_table = map (\<lambda>g. (g, None)) GUARANTEES\<rparr>"

definition NO_OPENAT2 :: string where
  "NO_OPENAT2 = ''no openat2(RESOLVE_BENEATH); lexical fallback is not object-bound''"

definition NO_EGRESS :: string where
  "NO_EGRESS = ''no kernel-backed default-deny egress on this platform''"

definition AMBIENT :: string where
  "AMBIENT = ''without fs/process confinement, ambient credentials are reachable''"

definition MACOS_CEILING :: platform_ceiling where
  "MACOS_CEILING = \<lparr>pc_platform = ''macos'', pc_table =
     [(Guarantee_FsConfinement, Some NO_OPENAT2),
      (Guarantee_ProcessConfinement,
       Some ''Seatbelt floor unbuilt/unverified (no macOS runner); B1 unsupported here''),
      (Guarantee_NetworkConfinement, Some NO_EGRESS), (Guarantee_EnvIsolation, None), (Guarantee_CredentialIsolation, Some AMBIENT),
      (Guarantee_DisclosureFiltering, None), (Guarantee_FailClosedExecution, None)]\<rparr>"

definition WINDOWS_CEILING :: platform_ceiling where
  "WINDOWS_CEILING = \<lparr>pc_platform = ''windows'', pc_table =
     [(Guarantee_FsConfinement, Some NO_OPENAT2),
      (Guarantee_ProcessConfinement, Some ''AppContainer floor unbuilt; B1 unsupported here''),
      (Guarantee_NetworkConfinement, Some NO_EGRESS), (Guarantee_EnvIsolation, None), (Guarantee_CredentialIsolation, Some AMBIENT),
      (Guarantee_DisclosureFiltering, None), (Guarantee_FailClosedExecution, None)]\<rparr>"

definition UNKNOWN_CEILING :: platform_ceiling where
  "UNKNOWN_CEILING = \<lparr>pc_platform = ''unknown'', pc_table =
     map (\<lambda>g. (g, Some ''unrecognized platform'')) GUARANTEES\<rparr>"

datatype target_os = Os_Linux | Os_Macos | Os_Windows | Os_Other

fun current_platform_ceiling :: "target_os \<Rightarrow> platform_ceiling" where
  "current_platform_ceiling Os_Linux = LINUX_CEILING"
| "current_platform_ceiling Os_Macos = MACOS_CEILING"
| "current_platform_ceiling Os_Windows = WINDOWS_CEILING"
| "current_platform_ceiling Os_Other = UNKNOWN_CEILING"

text \<open>What the host answers about its kernel.\<close>

record host =
  h_fs_fence :: bool
  h_egress_deny :: bool

definition verify_fs_object_bound :: "target_os \<Rightarrow> verification" where
  "verify_fs_object_bound os =
     (if os = Os_Linux
      then Verification_Verified
        (''fs_cap::WorkspaceDir: openat2(RESOLVE_BENEATH|NO_MAGICLINKS) object-bound resolve on '' @
         ''every access; ENOSYS kernels refuse rather than degrade (register: '' @
         ''fs-canonical-containment closed on Linux)'')
      else Verification_Absent ''fs-canonical-containment''
        ''no openat2 on this platform; only the lexical-prefix fallback exists'')"

definition verify_constrained_executor :: "host \<Rightarrow> verification" where
  "verify_constrained_executor h =
     (if h_fs_fence h
      then Verification_Verified
        (''ConstrainedExecutor routes every attacker-influenced spawn through '' @
         ''agent_bridle::ConfinedCommand under a Kernel strength floor: the child is '' @
         ''env-cleared (only explicit grants) and the fs fence is kernel-enforced, '' @
         ''fail-closed when it cannot be; the CI spawn-inventory gate holds '' @
         ''agent-exec-todo-p4 at 0 so no attacker spawn bypasses it '' @
         ''(constrained_executor_truth.rs ties the gate to this verifier)'')
      else Verification_Absent ''p4-constrained-executor''
        (''the kernel fs fence is unavailable on this host '' @ dash @ '' an AgentInfluenced spawn '' @
         ''refuses (fail-closed) rather than confine (see docs/security/spawn-inventory.toml)''))"

definition verify_fail_closed_execution :: "target_os \<Rightarrow> verification" where
  "verify_fail_closed_execution os =
     (if os = Os_Linux
      then Verification_Verified
        (''require()/FailClosed capability gates; OCAP-DANGER/OCAP-GATE pairing statically '' @
         ''enforced in CI (scripts/ocap_check.py); confined-by-default launch lane '' @
         ''(resolve_lane: Yolo only via explicit --unsafe-host-exec)'')
      else Verification_Absent ''fs-canonical-containment''
        (''untrusted fs falls back to lexical containment off Linux '' @ dash @ '' a silent '' @
         ''downgrade, not a refusal''))"

definition verify_network_confinement :: "target_os \<Rightarrow> host \<Rightarrow> verification" where
  "verify_network_confinement os h =
     (if os = Os_Linux
      then if h_egress_deny h \<and> h_fs_fence h
           then Verification_Verified
             (''every live attacker-exec path denies direct egress by default, fail-closed: the '' @
              ''ConstrainedExecutor callers (build_check / crew) run under NetGrant::DenyAll -> '' @
              ''newt-net-guard seccomp socket() deny for AF_INET/AF_INET6/AF_PACKET '' @
              ''(net_guard_executor.rs), and run_command's agent-bridle shell installs the same '' @
              ''seccomp deny at the spawn owner via ChildNetworkPolicy::DenyDirect (agent-bridle '' @
              ''0.7.15), proven by run_command_child_under_net_none_cannot_open_a_socket_b1 '' @
              dash @ '' all beneath the Landlock fs fence. NARROW claim: no DIRECT off-box socket '' @
              ''(AF_INET/AF_INET6/AF_PACKET) can be created on any path. NOT a no-egress claim '' @
              dash @ '' AF_UNIX local-deputy egress is a separate ACTIVE residual '' @
              ''(local-deputy-egress)'')
           else Verification_Absent ''b1-os-isolation''
             (''the seccomp egress floor or the Landlock fs fence is unavailable on this host '' @
              dash @ '' an AgentInfluenced spawn refuses rather than run with weaker network '' @
              ''confinement'')
      else Verification_Absent ''b1-os-isolation''
        ''no seccomp egress floor off Linux; the platform ceiling reports this unsupported'')"

record runtime_evidence =
  re_b1 :: verification
  re_disclosure :: verification
  re_fs_object_bound :: verification
  re_constrained_executor :: verification
  re_fail_closed :: verification

definition RuntimeEvidence_current ::
    "target_os \<Rightarrow> host \<Rightarrow> base64 \<Rightarrow> slot \<Rightarrow> runtime_evidence" where
  "RuntimeEvidence_current os h b slot =
     \<lparr>re_b1 = verify_b1, re_disclosure = verify_disclosure_gate b slot,
      re_fs_object_bound = verify_fs_object_bound os,
      re_constrained_executor = verify_constrained_executor h,
      re_fail_closed = verify_fail_closed_execution os\<rparr>"

fun evidence_meet :: "verification \<Rightarrow> verification \<Rightarrow> verification" where
  "evidence_meet (Verification_Verified ea) (Verification_Verified eb) = Verification_Verified (ea @ ''; '' @ eb)"
| "evidence_meet (Verification_Absent d reason) b = Verification_Absent d reason"
| "evidence_meet a (Verification_Absent d reason) = Verification_Absent d reason"

fun for_guarantee :: "runtime_evidence \<Rightarrow> guarantee \<Rightarrow> verification" where
  "for_guarantee ev Guarantee_FsConfinement = re_fs_object_bound ev"
| "for_guarantee ev Guarantee_ProcessConfinement = evidence_meet (re_constrained_executor ev) (re_b1 ev)"
| "for_guarantee ev Guarantee_NetworkConfinement = re_b1 ev"
| "for_guarantee ev Guarantee_EnvIsolation = re_constrained_executor ev"
| "for_guarantee ev Guarantee_CredentialIsolation = evidence_meet (re_constrained_executor ev) (re_b1 ev)"
| "for_guarantee ev Guarantee_DisclosureFiltering = re_disclosure ev"
| "for_guarantee ev Guarantee_FailClosedExecution = re_fail_closed ev"

record security_report =
  sr_platform :: string
  sr_entries :: "(guarantee \<times> achieved) list"

definition achieve :: "platform_ceiling \<Rightarrow> runtime_evidence \<Rightarrow> guarantee \<Rightarrow> achieved" where
  "achieve c ev g =
     (case cannot_provide c g of
        Some reason \<Rightarrow> Achieved_Unsupported reason
      | None \<Rightarrow>
          (case for_guarantee ev g of
             Verification_Verified evidence \<Rightarrow> Achieved_Enforced evidence
           | Verification_Absent d reason \<Rightarrow> Achieved_Unverified d reason))"

definition from_parts :: "platform_ceiling \<Rightarrow> runtime_evidence \<Rightarrow> security_report" where
  "from_parts c ev =
     \<lparr>sr_platform = pc_platform c, sr_entries = map (\<lambda>g. (g, achieve c ev g)) GUARANTEES\<rparr>"

definition SecurityReport_current ::
    "target_os \<Rightarrow> host \<Rightarrow> base64 \<Rightarrow> slot \<Rightarrow> security_report" where
  "SecurityReport_current os h b slot =
     from_parts (current_platform_ceiling os) (RuntimeEvidence_current os h b slot)"

text \<open>The \<^verbatim>\<open>expect\<close> of the lookup is the value \<open>None\<close>.\<close>

definition report_achieved :: "security_report \<Rightarrow> guarantee \<Rightarrow> achieved option" where
  "report_achieved r g = map_option snd (List.find (\<lambda>(row, _). row = g) (sr_entries r))"

definition summary_line :: "string \<Rightarrow> guarantee \<times> achieved \<Rightarrow> string" where
  "summary_line plat = (\<lambda>(g, a). guarantee_label g @
     (case a of
        Achieved_Enforced _ \<Rightarrow> '': enforced''
      | Achieved_Unverified d _ \<Rightarrow> '': OPEN ('' @ d @ '')''
      | Achieved_Unsupported _ \<Rightarrow> '': unsupported on '' @ plat))"

definition summary_lines :: "security_report \<Rightarrow> string list" where
  "summary_lines r = map (summary_line (sr_platform r)) (sr_entries r)"

definition require_achieved :: "security_report \<Rightarrow> guarantee \<Rightarrow> (fail_closed + unit) option" where
  "require_achieved r g =
     map_option (\<lambda>a. case a of
         Achieved_Enforced _ \<Rightarrow> Inr ()
       | Achieved_Unverified d reason \<Rightarrow> Inl \<lparr>fc_deviation = d, fc_reason = reason\<rparr>
       | Achieved_Unsupported reason \<Rightarrow>
           Inl \<lparr>fc_deviation = ''platform-unsupported'',
                fc_reason = guarantee_label g @ '' is unsupported on '' @ sr_platform r @
                  '': '' @ reason\<rparr>)
       (report_achieved r g)"

section \<open>Redaction\<close>

lemma leaks_iff:
  "leaks b f t \<longleftrightarrow>
     (\<exists>s \<in> set (df_secrets f). \<exists>e \<in> set (encodings b s). sublist e t \<or> sublist e (strip_ws t))"
  by (simp add: leaks_def Let_def list_ex_iff)

lemma foldl_fixed: "(\<And>x. x \<in> set xs \<Longrightarrow> f a x = a) \<Longrightarrow> foldl f a xs = a"
  by (induction xs) simp_all

lemma redact_quiet: "\<not> leaks b f t \<Longrightarrow> redact b f t = t"
proof -
  assume q: "\<not> leaks b f t"
  have "excise b s t = t" if "s \<in> set (df_secrets f)" for s
    unfolding excise_def using q that
    by (intro foldl_fixed str_replace_absent) (auto simp: leaks_iff)
  then have "foldl (\<lambda>out s. excise b s out) t (df_secrets f) = t"
    by (intro foldl_fixed)
  then show ?thesis using q by (simp add: redact_def)
qed

lemma redact_leaks_iff: "leaks b f (redact b f t) \<longleftrightarrow> redact b f t = WITHHELD \<and> leaks b f WITHHELD"
  by (auto simp: redact_def Let_def)

lemma encodings_set:
  "set (encodings b secret) =
     {secret, b64_standard b secret, b64_standard_no_pad b secret, b64_url_safe b secret,
      b64_url_safe_no_pad b secret, each_byte [] False secret, each_byte [] True secret,
      each_byte ''%'' True secret, each_byte ''%'' False secret,
      each_byte [backslash, CHR ''x''] False secret,
      each_byte [backslash, CHR ''u'', CHR ''0'', CHR ''0''] False secret}"
  unfolding encodings_def remdups_adj_set set_sort by simp

lemma redact_idem: "redact b f t \<noteq> WITHHELD \<Longrightarrow> redact b f (redact b f t) = redact b f t"
  using redact_leaks_iff redact_quiet by blast

section \<open>Scopes\<close>

text \<open>
  What a thread does between installing a filter and dropping its guard: texts that go to the
  model, and further scopes, properly nested, which is how guards that live in Rust blocks run.
\<close>

datatype turn = Ingress string | Scoped disclosure_filter "turn list"

fun run_turn :: "base64 \<Rightarrow> turn \<Rightarrow> slot \<Rightarrow> string list \<times> slot"
  and run_turns :: "base64 \<Rightarrow> turn list \<Rightarrow> slot \<Rightarrow> string list \<times> slot" where
  "run_turn b (Ingress t) slot = ([redact_session_ingress b slot t], slot)"
| "run_turn b (Scoped f body) slot =
     (let (previous, slot1) = scoped_session_disclosure f slot;
          (out, slot2) = run_turns b body slot1
      in (out, drop_guard previous slot2))"
| "run_turns b [] slot = ([], slot)"
| "run_turns b (t # ts) slot =
     (let (out1, slot1) = run_turn b t slot; (out2, slot2) = run_turns b ts slot1
      in (out1 @ out2, slot2))"

text \<open>The same texts, each under the filter of the innermost scope around it.\<close>

fun under_scope :: "base64 \<Rightarrow> slot \<Rightarrow> turn \<Rightarrow> string list" where
  "under_scope b slot (Ingress t) = [case slot of Some f \<Rightarrow> redact b f t | None \<Rightarrow> t]"
| "under_scope b slot (Scoped f body) = concat (map (under_scope b (Some f)) body)"

lemma run_turn_under:
  "run_turn b t slot = (under_scope b slot t, slot)"
  "run_turns b ts slot = (concat (map (under_scope b slot) ts), slot)"
  by (induction b t slot and b ts slot rule: run_turn_run_turns.induct)
    (simp_all add: redact_session_ingress_def scoped_session_disclosure_def drop_guard_def)

section \<open>The report\<close>

lemma find_row: "g \<in> set gs \<Longrightarrow> List.find (\<lambda>(row, _). row = g) (map (\<lambda>g. (g, h g)) gs) = Some (g, h g)"
  by (induction gs) auto

lemma all_guarantees: "g \<in> set GUARANTEES"
  by (cases g) (simp_all add: GUARANTEES_def)

lemma from_parts_achieved: "report_achieved (from_parts c ev) g = Some (achieve c ev g)"
  by (simp add: report_achieved_def from_parts_def find_row [OF all_guarantees])

lemma achieve_enforced_iff:
  "is_enforced (achieve c ev g) \<longleftrightarrow> cannot_provide c g = None \<and> is_verified (for_guarantee ev g)"
  by (simp add: achieve_def split: option.splits verification.splits)

lemma require_enforced_iff:
  "require_achieved (from_parts c ev) g = Some (Inr ()) \<longleftrightarrow> is_enforced (achieve c ev g)"
  by (simp add: require_achieved_def from_parts_achieved split: achieved.splits)

lemma evidence_meet_verified [simp]:
  "is_verified (evidence_meet a b) \<longleftrightarrow> is_verified a \<and> is_verified b"
  by (cases a; cases b) simp_all

lemma b1_absent [simp]: "\<not> is_verified verify_b1"
  by (simp add: verify_b1_def)

lemma verifier_iffs [simp]:
  "is_verified (verify_fs_object_bound os) \<longleftrightarrow> os = Os_Linux"
  "is_verified (verify_fail_closed_execution os) \<longleftrightarrow> os = Os_Linux"
  "is_verified (verify_constrained_executor h) \<longleftrightarrow> h_fs_fence h"
  "is_verified (verify_disclosure_gate b slot) \<longleftrightarrow>
     (\<exists>f. slot = Some f \<and> redacts_what_it_registered b f)"
  by (simp_all add: verify_fs_object_bound_def verify_fail_closed_execution_def
      verify_constrained_executor_def verify_disclosure_gate_def split: option.splits)

text \<open>The guarantees a platform's table leaves possible.\<close>

definition possible_on :: "target_os \<Rightarrow> guarantee \<Rightarrow> bool" where
  "possible_on os g \<longleftrightarrow>
     os = Os_Linux \<or>
     os \<noteq> Os_Other \<and>
       g \<in> {Guarantee_EnvIsolation, Guarantee_DisclosureFiltering, Guarantee_FailClosedExecution}"

lemma ceiling_iff: "cannot_provide (current_platform_ceiling os) g = None \<longleftrightarrow> possible_on os g"
  by (cases os; cases g)
    (simp_all add: cannot_provide_def possible_on_def LINUX_CEILING_def MACOS_CEILING_def
      WINDOWS_CEILING_def UNKNOWN_CEILING_def GUARANTEES_def)

lemma require_Inr_iff: "require v = Inr () \<longleftrightarrow> is_verified v"
  by (cases v) simp_all

section \<open>Properties\<close>

text \<open>
  C29. The filter takes nothing away and lets nothing by: a text in which no registered secret
  occurs, in any encoding, whole or broken across white space, is passed on unchanged; any other
  comes out without all of them, or is withheld; and the result still discloses a secret only
  when it is the withholding message and that message itself contains the secret.
\<close>

theorem redaction_exact:
  "(if leaks b f t
    then redact b f t = WITHHELD \<or>
      (\<forall>s \<in> set (df_secrets f). \<forall>e \<in> set (encodings b s).
         \<not> sublist e (redact b f t) \<and> \<not> sublist e (strip_ws (redact b f t)))
    else redact b f t = t) \<and>
   (leaks b f (redact b f t) \<longleftrightarrow> redact b f t = WITHHELD \<and> leaks b f WITHHELD) \<and>
   (redact b f t = WITHHELD \<or> redact b f (redact b f t) = redact b f t)"
proof (intro conjI)
  show "if leaks b f t
    then redact b f t = WITHHELD \<or>
      (\<forall>s \<in> set (df_secrets f). \<forall>e \<in> set (encodings b s).
         \<not> sublist e (redact b f t) \<and> \<not> sublist e (strip_ws (redact b f t)))
    else redact b f t = t"
    using redact_quiet [of b f t] redact_leaks_iff [of b f t]
    unfolding leaks_iff [of b f "redact b f t"] by auto
qed (use redact_leaks_iff redact_idem in blast)+

text \<open>
  C30. What is reported is what is enforced, and no gate opens on less: the report of the running
  platform has an answer for every guarantee and calls it enforced exactly when the platform can
  provide it and its verifiers hold, which for the confinement of processes, of the network and
  of credentials is never, since the isolation floor is not proven; requiring a guarantee succeeds
  exactly when it is reported enforced; and the gates that rest on the floor or on the separation
  of duties refuse, naming the deviation.
\<close>

theorem report_matches_enforcement:
  "(\<exists>a. report_achieved (SecurityReport_current os h b slot) g = Some a \<and>
      (is_enforced a \<longleftrightarrow>
        (case g of
           Guarantee_FsConfinement \<Rightarrow> os = Os_Linux
         | Guarantee_FailClosedExecution \<Rightarrow> os = Os_Linux
         | Guarantee_EnvIsolation \<Rightarrow> os \<noteq> Os_Other \<and> h_fs_fence h
         | Guarantee_DisclosureFiltering \<Rightarrow>
             os \<noteq> Os_Other \<and> (\<exists>f. slot = Some f \<and> redacts_what_it_registered b f)
         | _ \<Rightarrow> False))) \<and>
   (require_achieved (from_parts c ev) g = Some (Inr ()) \<longleftrightarrow>
      cannot_provide c g = None \<and> is_verified (for_guarantee ev g)) \<and>
   (\<exists>reason. seed_live_credential b slot cred =
      Inl \<lparr>fc_deviation = ''b1-os-isolation'', fc_reason = reason\<rparr>) \<and>
   (\<exists>reason. admit_untrusted_remote voice =
      Inl \<lparr>fc_deviation = ''b1-os-isolation'', fc_reason = reason\<rparr>) \<and>
   (\<exists>reason. auto_apply_policy proposer worker =
      Inl \<lparr>fc_deviation = ''sod-proposer-not-worker'', fc_reason = reason\<rparr>)"
proof (intro conjI)
  show "\<exists>a. report_achieved (SecurityReport_current os h b slot) g = Some a \<and>
      (is_enforced a \<longleftrightarrow>
        (case g of
           Guarantee_FsConfinement \<Rightarrow> os = Os_Linux
         | Guarantee_FailClosedExecution \<Rightarrow> os = Os_Linux
         | Guarantee_EnvIsolation \<Rightarrow> os \<noteq> Os_Other \<and> h_fs_fence h
         | Guarantee_DisclosureFiltering \<Rightarrow>
             os \<noteq> Os_Other \<and> (\<exists>f. slot = Some f \<and> redacts_what_it_registered b f)
         | _ \<Rightarrow> False))"
    by (auto simp: SecurityReport_current_def from_parts_achieved achieve_enforced_iff ceiling_iff
        possible_on_def RuntimeEvidence_current_def split: guarantee.splits)
  show "require_achieved (from_parts c ev) g = Some (Inr ()) \<longleftrightarrow>
      cannot_provide c g = None \<and> is_verified (for_guarantee ev g)"
    by (simp add: require_enforced_iff achieve_enforced_iff)
qed (simp_all add: seed_live_credential_def admit_untrusted_remote_def auto_apply_policy_def
    verify_b1_def verify_sod_def)

text \<open>
  No filter outlives its scope: whatever scopes a thread opens and however they nest, the slot
  afterwards is what it was, and every text on its way to the model passed through the filter of
  the innermost scope around it.
\<close>

theorem filter_scopes_nest:
  "run_turns b ts slot = (concat (map (under_scope b slot) ts), slot)"
  by (rule run_turn_under)

section \<open>A secret inside the message\<close>

definition sample_base64 :: base64 where
  "sample_base64 =
     \<lparr>b64_standard = (\<lambda>s. ''eA'' @ s), b64_standard_no_pad = (\<lambda>s. ''eB'' @ s),
      b64_url_safe = (\<lambda>s. ''eC'' @ s), b64_url_safe_no_pad = (\<lambda>s. ''eD'' @ s)\<rparr>"

text \<open>A key of eight letters that occurs in the withholding message.\<close>

definition sample_filter :: disclosure_filter where
  "sample_filter = session_disclosure_filter (Some ''REDACTED'')"

lemma sample_secrets: "df_secrets sample_filter = [''REDACTED'']"
  by (simp add: sample_filter_def session_disclosure_filter_def register_def DisclosureFilter_new_def)

lemma sample_leaks: "sublist ''REDACTED'' t \<Longrightarrow> leaks b sample_filter t"
  by (auto simp: leaks_iff sample_secrets encodings_set)

lemma sample_withheld: "redact sample_base64 sample_filter ''key REDACTED'' = WITHHELD"
proof -
  have "sublist ''REDACTED'' (excise sample_base64 ''REDACTED'' ''key REDACTED'')"
    by code_simp
  then show ?thesis
    by (simp add: redact_def sample_secrets sample_leaks)
qed

lemma redaction_exact_witness:
  "leaks sample_base64 sample_filter (redact sample_base64 sample_filter ''key REDACTED'')"
proof -
  have "sublist ''REDACTED'' WITHHELD" by code_simp
  then have "leaks sample_base64 sample_filter WITHHELD" by (rule sample_leaks)
  then show ?thesis
    using redaction_exact [of sample_base64 sample_filter "''key REDACTED''"] sample_withheld
    by blast
qed

end
