(* ===== verification/Pool.thy ===== *)
theory Pool
  imports RustText "HOL-Library.List_Lexorder" "HOL-Library.Char_ord"
begin

text \<open>
  The pool of inference backends, \<^verbatim>\<open>newt-scheduler/src/lib.rs\<close>, with the failover of
  \<^verbatim>\<open>dispatch.rs\<close> and the health probing of \<^verbatim>\<open>probe.rs\<close>. A dispatcher, a prober and the
  attempt of a failover act on a world they may change; the wall-clock bound of a dispatch is one
  more way in which it fails. The HTTP client and the semaphore inside a backend belong to other
  crates and are not part of its record.
\<close>

section \<open>Backends\<close>

datatype tier = Tier_Fast | Tier_Standard | Tier_Complex | Tier_Review

datatype backend_kind = Kind_Ollama | Kind_Openai | Kind_Anthropic | Kind_Embedded

datatype health = Health_Up | Health_Busy | Health_Down

record pool_backend =
  pb_name :: string
  pb_endpoint :: string
  pb_slots :: nat
  pb_kind :: backend_kind
  pb_tiers :: "tier list"
  pb_models :: "string list"
  pb_health :: health
  pb_api_key :: "string option"
  pb_model_path :: "string option"

definition PoolBackend_new :: "string \<Rightarrow> string \<Rightarrow> backend_kind \<Rightarrow> pool_backend" where
  "PoolBackend_new name endpoint kind =
     \<lparr>pb_name = name, pb_endpoint = endpoint, pb_slots = 1, pb_kind = kind, pb_tiers = [],
      pb_models = [], pb_health = Health_Up, pb_api_key = None, pb_model_path = None\<rparr>"

definition non_empty :: "string option \<Rightarrow> string option" where
  "non_empty x = (case x of Some s \<Rightarrow> if s = [] then None else Some s | None \<Rightarrow> None)"

definition with_slots :: "nat \<Rightarrow> pool_backend \<Rightarrow> pool_backend" where
  "with_slots slots b = b\<lparr>pb_slots := slots\<rparr>"

definition with_model_path :: "string option \<Rightarrow> pool_backend \<Rightarrow> pool_backend" where
  "with_model_path path b = b\<lparr>pb_model_path := non_empty path\<rparr>"

definition with_api_key :: "string option \<Rightarrow> pool_backend \<Rightarrow> pool_backend" where
  "with_api_key key b = b\<lparr>pb_api_key := non_empty key\<rparr>"

definition with_tiers :: "tier list \<Rightarrow> pool_backend \<Rightarrow> pool_backend" where
  "with_tiers tiers b = b\<lparr>pb_tiers := tiers\<rparr>"

definition with_models :: "string list \<Rightarrow> pool_backend \<Rightarrow> pool_backend" where
  "with_models models b = b\<lparr>pb_models := models\<rparr>"

definition with_health :: "health \<Rightarrow> pool_backend \<Rightarrow> pool_backend" where
  "with_health h b = b\<lparr>pb_health := h\<rparr>"

definition is_live :: "pool_backend \<Rightarrow> bool" where
  "is_live b \<longleftrightarrow> pb_health b \<noteq> Health_Down"

definition serves :: "pool_backend \<Rightarrow> tier \<Rightarrow> string option \<Rightarrow> bool" where
  "serves b t model_pin \<longleftrightarrow>
     (pb_tiers b = [] \<or> t \<in> set (pb_tiers b)) \<and>
     (case model_pin of None \<Rightarrow> True | Some m \<Rightarrow> m \<in> set (pb_models b))"

text \<open>A configured backend; the resolved bearer token is an argument.\<close>

record backend_config =
  bc_name :: string
  bc_endpoint :: string
  bc_slots :: nat
  bc_model :: "string option"
  bc_model_path :: "string option"
  bc_tiers :: "tier list"
  bc_kind :: "backend_kind option"

definition effective_model :: "backend_config \<Rightarrow> string option" where
  "effective_model c =
     (case bc_model c of Some m \<Rightarrow> if trim m = [] then None else Some m | None \<Rightarrow> None)"

definition PoolBackend_from :: "backend_config \<Rightarrow> string option \<Rightarrow> pool_backend" where
  "PoolBackend_from c key =
     with_model_path (bc_model_path c)
       (with_api_key key
         (with_models (case effective_model c of None \<Rightarrow> [] | Some m \<Rightarrow> [m])
           (with_tiers (bc_tiers c)
             (with_slots (bc_slots c)
               (PoolBackend_new (bc_name c) (bc_endpoint c)
                 (case bc_kind c of None \<Rightarrow> Kind_Ollama | Some k \<Rightarrow> k))))))"

section \<open>The pool\<close>

type_synonym pool = "pool_backend list"

definition live_models :: "pool \<Rightarrow> string list" where
  "live_models p = remdups_adj (sort (concat (map pb_models (filter is_live p))))"

definition candidates :: "pool \<Rightarrow> tier \<Rightarrow> string option \<Rightarrow> pool_backend list" where
  "candidates p t model_pin = filter (\<lambda>b. is_live b \<and> serves b t model_pin) p"

fun health_rank :: "health \<Rightarrow> nat" where
  "health_rank Health_Up = 0"
| "health_rank Health_Busy = 1"
| "health_rank Health_Down = 2"

definition ranked_candidates :: "pool \<Rightarrow> tier \<Rightarrow> string option \<Rightarrow> pool_backend list" where
  "ranked_candidates p t model_pin =
     sort_key (\<lambda>b. health_rank (pb_health b)) (candidates p t model_pin)"

definition pool_select :: "pool \<Rightarrow> tier \<Rightarrow> string option \<Rightarrow> pool_backend option" where
  "pool_select p t model_pin =
     (case ranked_candidates p t model_pin of [] \<Rightarrow> None | b # _ \<Rightarrow> Some b)"

record 't failover =
  fo_chosen :: string
  fo_result :: 't
  fo_failed :: "string list"

fun failover_loop ::
    "(pool_backend \<Rightarrow> 'w \<Rightarrow> ('e + 't) \<times> 'w) \<Rightarrow> pool_backend list \<Rightarrow> string list \<Rightarrow> 'w \<Rightarrow>
      't failover option \<times> 'w" where
  "failover_loop attempt [] failed w = (None, w)"
| "failover_loop attempt (b # bs) failed w =
     (case attempt b w of
        (Inr result, w') \<Rightarrow>
          (Some \<lparr>fo_chosen = pb_name b, fo_result = result, fo_failed = failed\<rparr>, w')
      | (Inl _, w') \<Rightarrow> failover_loop attempt bs (failed @ [pb_name b]) w')"

definition dispatch_with_failover ::
    "pool \<Rightarrow> tier \<Rightarrow> string option \<Rightarrow> (pool_backend \<Rightarrow> 'w \<Rightarrow> ('e + 't) \<times> 'w) \<Rightarrow> 'w \<Rightarrow>
      't failover option \<times> 'w" where
  "dispatch_with_failover p t model_pin attempt w =
     failover_loop attempt (ranked_candidates p t model_pin) [] w"

datatype dispatch_strategy = Strategy_Refuse | Strategy_TimeSlice | Strategy_FanOut nat

definition strategy :: "pool \<Rightarrow> tier \<Rightarrow> string option \<Rightarrow> dispatch_strategy" where
  "strategy p t model_pin =
     (let n = length (candidates p t model_pin) in
      if n = 0 then Strategy_Refuse else if n = 1 then Strategy_TimeSlice else Strategy_FanOut n)"

fun pool_mark :: "string \<Rightarrow> health \<Rightarrow> pool \<Rightarrow> bool \<times> pool" where
  "pool_mark name h [] = (False, [])"
| "pool_mark name h (b # bs) =
     (if pb_name b = name then (True, b\<lparr>pb_health := h\<rparr> # bs)
      else (let (found, bs') = pool_mark name h bs in (found, b # bs')))"

section \<open>Running a role\<close>

record message =
  msg_role :: string
  msg_content :: string

record chat_request =
  rq_messages :: "message list"
  rq_max_tokens :: "nat option"

definition ChatRequest_new :: chat_request where
  "ChatRequest_new = \<lparr>rq_messages = [], rq_max_tokens = None\<rparr>"

definition system_message :: "string \<Rightarrow> chat_request \<Rightarrow> chat_request" where
  "system_message content r =
     r\<lparr>rq_messages := rq_messages r @ [\<lparr>msg_role = ''system'', msg_content = content\<rparr>]\<rparr>"

definition user_message :: "string \<Rightarrow> chat_request \<Rightarrow> chat_request" where
  "user_message content r =
     r\<lparr>rq_messages := rq_messages r @ [\<lparr>msg_role = ''user'', msg_content = content\<rparr>]\<rparr>"

record token_usage =
  tu_input_tokens :: nat
  tu_output_tokens :: nat

record chat_reply =
  cr_content :: string
  cr_model_id :: string
  cr_usage :: "token_usage option"

text \<open>What a dispatch under a wall-clock bound (in nanoseconds) ends in.\<close>

datatype dispatch_outcome = Replied chat_reply | Refused | Elapsed

type_synonym 'w dispatcher =
  "nat \<Rightarrow> pool_backend \<Rightarrow> string \<Rightarrow> chat_request \<Rightarrow> 'w \<Rightarrow> dispatch_outcome \<times> 'w"

fun role_loop ::
    "(pool_backend \<Rightarrow> 'w \<Rightarrow> dispatch_outcome \<times> 'w) \<Rightarrow> pool_backend list \<Rightarrow> string list \<Rightarrow> 'w \<Rightarrow>
      chat_reply failover option \<times> 'w" where
  "role_loop dispatch [] failed w = (None, w)"
| "role_loop dispatch (b # bs) failed w =
     (case dispatch b w of
        (Replied result, w') \<Rightarrow>
          (Some \<lparr>fo_chosen = pb_name b, fo_result = result, fo_failed = failed\<rparr>, w')
      | (_, w') \<Rightarrow> role_loop dispatch bs (failed @ [pb_name b]) w')"

definition run_role_with_timeout ::
    "pool \<Rightarrow> 'w dispatcher \<Rightarrow> tier \<Rightarrow> string \<Rightarrow> chat_request \<Rightarrow> nat \<Rightarrow> 'w \<Rightarrow>
      chat_reply failover option \<times> 'w" where
  "run_role_with_timeout p d t model req bound w =
     role_loop (\<lambda>b. d bound b model req) (ranked_candidates p t (Some model)) [] w"

definition NANOS :: nat where
  "NANOS = 1000000000"

definition role_dispatch_timeout :: "string option \<Rightarrow> nat" where
  "role_dispatch_timeout env =
     (case Option.bind env (parse_bounded (2 ^ 64)) of
        Some secs \<Rightarrow> if 0 < secs then secs * NANOS else 600 * NANOS
      | None \<Rightarrow> 600 * NANOS)"

definition run_role ::
    "pool \<Rightarrow> 'w dispatcher \<Rightarrow> string option \<Rightarrow> tier \<Rightarrow> string \<Rightarrow> chat_request \<Rightarrow> 'w \<Rightarrow>
      chat_reply failover option \<times> 'w" where
  "run_role p d env t model req w =
     run_role_with_timeout p d t model req (role_dispatch_timeout env) w"

section \<open>Probing\<close>

definition host_port :: "string \<Rightarrow> (string \<times> nat) option" where
  "host_port endpoint =
     (let (scheme, rest) =
            (case after_str ''://'' endpoint of
               Some r \<Rightarrow> (before_str ''://'' endpoint, r) | None \<Rightarrow> (''http'', endpoint));
          authority = takeWhile (\<lambda>c. c \<noteq> CHR ''/'' \<and> c \<noteq> CHR ''?'') rest;
          default_port =
            (if map ascii_lower scheme = ''https'' then 443 else 80)
      in if authority = [] then None
         else (case rsplit_once CHR '':'' authority of
                 Some (host, port) \<Rightarrow>
                   if host \<noteq> []
                   then map_option (\<lambda>n. (host, n)) (parse_bounded (2 ^ 16) port)
                   else None
               | None \<Rightarrow> Some (authority, default_port)))"

fun refresh_health ::
    "(pool_backend \<Rightarrow> 'w \<Rightarrow> health \<times> 'w) \<Rightarrow> pool \<Rightarrow> 'w \<Rightarrow> (nat \<times> pool) \<times> 'w" where
  "refresh_health prober [] w = ((0, []), w)"
| "refresh_health prober (b # bs) w =
     (case prober b w of
        (h, w1) \<Rightarrow>
          (case refresh_health prober bs w1 of
             ((changed, bs'), w2) \<Rightarrow>
               if h \<noteq> pb_health b then ((changed + 1, b\<lparr>pb_health := h\<rparr> # bs'), w2)
               else ((changed, b # bs'), w2)))"

text \<open>The prober of the crate, over the answer of the network.\<close>

definition tcp_probe :: "(string \<Rightarrow> nat \<Rightarrow> 'w \<Rightarrow> bool \<times> 'w) \<Rightarrow> pool_backend \<Rightarrow> 'w \<Rightarrow> health \<times> 'w" where
  "tcp_probe reachable b w =
     (case host_port (pb_endpoint b) of
        Some (host, port) \<Rightarrow>
          (case reachable host port w of
             (ok, w') \<Rightarrow> (if ok then Health_Up else Health_Down, w'))
      | None \<Rightarrow> (Health_Down, w))"

section \<open>Lemmas\<close>

lemma candidates_iff:
  "b \<in> set (candidates p t m) \<longleftrightarrow> b \<in> set p \<and> is_live b \<and> serves b t m"
  by (auto simp: candidates_def)

lemma ranked_iff [simp]: "set (ranked_candidates p t m) = set (candidates p t m)"
  by (simp add: ranked_candidates_def)

lemma ranked_order:
  "sorted (map (\<lambda>b. health_rank (pb_health b)) (ranked_candidates p t m))"
  by (simp add: ranked_candidates_def)

lemma insort_key_past:
  "\<forall>y \<in> set ys. f y < f x \<Longrightarrow> insort_key f x (ys @ zs) = ys @ insort_key f x zs"
  by (induction ys) auto

lemma sort_two_ranks:
  "\<forall>x \<in> set xs. f x = (0::nat) \<or> f x = 1 \<Longrightarrow>
     sort_key f xs = filter (\<lambda>x. f x = 0) xs @ filter (\<lambda>x. f x = 1) xs"
  by (induction xs) (auto simp: insort_key_past insort_is_Cons)

text \<open>The idle candidates come first and then the busy ones, each in the order of the pool.\<close>

lemma ranked_split:
  "ranked_candidates p t m =
     filter (\<lambda>b. pb_health b = Health_Up) (candidates p t m) @
     filter (\<lambda>b. pb_health b = Health_Busy) (candidates p t m)"
proof -
  have rank: "health_rank h = 0 \<longleftrightarrow> h = Health_Up" "health_rank h = Suc 0 \<longleftrightarrow> h = Health_Busy" for h
    by (cases h; simp)+
  have "\<forall>b \<in> set (candidates p t m). pb_health b = Health_Up \<or> pb_health b = Health_Busy"
    by (auto simp: candidates_iff is_live_def) (meson health.exhaust)
  then show ?thesis
    unfolding ranked_candidates_def
    by (subst sort_two_ranks) (simp_all add: rank)
qed

lemma role_loop_is_failover:
  "role_loop dispatch bs failed w =
     failover_loop (\<lambda>b w. case dispatch b w of
         (Replied r, w') \<Rightarrow> (Inr r, w') | (Refused, w') \<Rightarrow> (Inl (), w') | (Elapsed, w') \<Rightarrow> (Inl (), w'))
       bs failed w"
  by (induction bs arbitrary: failed w) (auto split: prod.splits dispatch_outcome.splits)

text \<open>The candidates are tried in order, the failed ones are named, and the first reply ends it.\<close>

lemma failover_loop_Some:
  "failover_loop attempt bs failed w = (Some f, w') \<Longrightarrow>
     \<exists>xs b ys. bs = xs @ b # ys \<and> fo_chosen f = pb_name b \<and>
       fo_failed f = failed @ map pb_name xs \<and>
       (\<exists>w1. attempt b w1 = (Inr (fo_result f), w'))"
proof (induction bs arbitrary: failed w)
  case (Cons b bs)
  show ?case
  proof (cases "attempt b w")
    case (Pair res w1)
    show ?thesis
    proof (cases res)
      case (Inr r)
      then show ?thesis
        using Cons.prems Pair by (auto intro!: exI [of _ "[]"])
    next
      case (Inl e)
      then have "failover_loop attempt bs (failed @ [pb_name b]) w1 = (Some f, w')"
        using Cons.prems Pair by simp
      from Cons.IH [OF this] obtain xs c ys where
        "bs = xs @ c # ys" "fo_chosen f = pb_name c"
        "fo_failed f = (failed @ [pb_name b]) @ map pb_name xs"
        "\<exists>w1. attempt c w1 = (Inr (fo_result f), w')" by blast
      then show ?thesis by (intro exI [of _ "b # xs"] exI [of _ c] exI [of _ ys]) simp
    qed
  qed
qed simp

lemma failover_loop_answers:
  assumes "b \<in> set bs" "\<And>w. \<exists>r w'. attempt b w = (Inr r, w')"
  shows "\<exists>f w'. failover_loop attempt bs failed w = (Some f, w')"
  using assms(1)
proof (induction bs arbitrary: failed w)
  case (Cons x bs)
  show ?case
  proof (cases "attempt x w")
    case (Pair res w1)
    then show ?thesis
      using Cons assms(2) [of w] by (cases res) auto
  qed
qed simp

lemma failover_loop_none:
  "(\<And>b w. b \<in> set bs \<Longrightarrow> \<exists>e w'. attempt b w = (Inl e, w')) \<Longrightarrow>
     \<exists>w'. failover_loop attempt bs failed w = (None, w')"
proof (induction bs arbitrary: failed w)
  case (Cons b bs)
  obtain e w1 where "attempt b w = (Inl e, w1)" using Cons.prems [of b w] by auto
  then show ?case using Cons by simp
qed simp

lemma pool_mark_health:
  "map (\<lambda>b. b\<lparr>pb_health := Health_Up\<rparr>) (snd (pool_mark name h p)) = map (\<lambda>b. b\<lparr>pb_health := Health_Up\<rparr>) p"
  "fst (pool_mark name h p) \<longleftrightarrow> name \<in> pb_name ` set p"
  by (induction p) (auto split: prod.splits)

section \<open>Properties\<close>


text \<open>A pool of a busy backend and two idle ones, of which only the last replies in time.\<close>

definition sample_pool :: pool where
  "sample_pool =
     [with_health Health_Busy (with_models [''m''] (PoolBackend_new ''busy'' ''http://a'' Kind_Ollama)),
      with_models [''m''] (PoolBackend_new ''slow'' ''http://b'' Kind_Ollama),
      with_models [''m''] (PoolBackend_new ''good'' ''http://c'' Kind_Openai)]"

definition sample_dispatcher :: "nat dispatcher" where
  "sample_dispatcher = (\<lambda>bound b model req w.
     (if pb_name b = ''good'' then Replied \<lparr>cr_content = ''ok'', cr_model_id = model, cr_usage = None\<rparr>
      else Elapsed, w + 1))"


end
