(* ===== verification/Grounding.thy ===== *)
theory Grounding
  imports RustText "HOL-Library.List_Lexorder" "HOL-Library.Char_ord"
begin

text \<open>
  What surrounds a crew: the grounding of a subtask's file scope in the places where its symbols
  are defined, \<^verbatim>\<open>newt-core/src/scope_grounding.rs\<close>, and the detection of elided file
  contents, \<^verbatim>\<open>newt-core/src/lazy_emission.rs\<close>. The search for definitions is an argument,
  as it is in the code.
\<close>

section \<open>Terms to search for\<close>

definition DEF_KEYWORDS :: "string list" where
  "DEF_KEYWORDS =
     [''function'', ''fn'', ''struct'', ''trait'', ''enum'', ''method'', ''type'', ''module'',
      ''mod'', ''macro'']"

definition is_upper :: "char \<Rightarrow> bool" where
  "is_upper c \<longleftrightarrow> is_ascii_alpha c \<and> ascii_lower c \<noteq> c"

definition is_lower :: "char \<Rightarrow> bool" where
  "is_lower c \<longleftrightarrow> is_ascii_alpha c \<and> ascii_lower c = c"

definition trim_backticks :: "string \<Rightarrow> string" where
  "trim_backticks t =
     rev (dropWhile (\<lambda>c. c = CHR ''`'') (rev (dropWhile (\<lambda>c. c = CHR ''`'') t)))"

definition looks_like_identifier :: "string \<Rightarrow> bool" where
  "looks_like_identifier word \<longleftrightarrow>
     (let t = trim_backticks word in
      t \<noteq> [] \<and> list_all (\<lambda>c. is_ascii_alphanumeric c \<or> c = CHR ''_'') t \<and>
      (is_ascii_alpha (hd t) \<or> hd t = CHR ''_'') \<and>
      (CHR ''_'' \<in> set t \<or> list_ex is_ascii_digit t \<or> list_ex is_upper t \<and> list_ex is_lower t))"

definition chars_count :: "string \<Rightarrow> nat" where
  "chars_count s = length (filter (\<lambda>c. \<not> continues_char c) s)"

definition code_span :: "string \<Rightarrow> string list" where
  "code_span raw =
     (let span = trim raw in
      if 3 \<le> chars_count span \<and> chars_count span \<le> 40 \<and> length (split_whitespace span) = 1 \<and>
         list_ex is_ascii_alphanumeric span
      then [span] else [])"

function backtick_terms :: "string \<Rightarrow> string list" where
  "backtick_terms s =
     (case split_once CHR ''`'' s of
        None \<Rightarrow> []
      | Some (_, opened) \<Rightarrow>
          (case split_once CHR ''`'' opened of
             None \<Rightarrow> []
           | Some (span, rest) \<Rightarrow> code_span span @ backtick_terms rest))"
  by pat_completeness auto
termination
  by (relation "measure length") (auto simp: split_once_Some_iff)

declare backtick_terms.simps [simp del]

text \<open>\<^verbatim>\<open>split\<close> at white space and at further characters, empty pieces kept.\<close>

function split_at :: "char list \<Rightarrow> string \<Rightarrow> string \<Rightarrow> string list" where
  "split_at delims cur s =
     (case s of
        [] \<Rightarrow> [cur]
      | c # cs \<Rightarrow>
          (case ws_split white_space s of
             Some t \<Rightarrow> cur # split_at delims [] t
           | None \<Rightarrow>
               if c \<in> set delims then cur # split_at delims [] cs
               else split_at delims (cur @ [c]) cs))"
  by pat_completeness auto
termination
  by (relation "measure (\<lambda>(delims, cur, s). length s)") (auto dest: ws_split_length)

declare split_at.simps [simp del]

definition DELIMITERS :: "char list" where
  "DELIMITERS = ''()[]{}<>,;:'' @ [CHR 0x22, CHR 0x27]"

definition slash_command :: "string \<Rightarrow> string list" where
  "slash_command tok =
     (case strip_prefix ''/'' tok of
        None \<Rightarrow> []
      | Some after \<Rightarrow>
          (let cmd = takeWhile
                 (\<lambda>c. is_ascii_alphanumeric c \<or> c = CHR ''_'' \<or> c = CHR ''-'') after
           in if 2 \<le> length cmd then [CHR ''/'' # cmd] else []))"

definition neighbours :: "string list \<Rightarrow> nat \<Rightarrow> string list" where
  "neighbours words i =
     (if 0 < i then [words ! (i - 1)] else []) @
     (if i + 1 < length words then [words ! (i + 1)] else [])"

definition keyword_terms :: "string list \<Rightarrow> string list" where
  "keyword_terms words =
     concat (map (\<lambda>i.
         if map ascii_lower (words ! i) \<in> set DEF_KEYWORDS
         then filter looks_like_identifier (neighbours words i) else [])
       [0..<length words])"

definition grep_terms :: "string \<Rightarrow> string list" where
  "grep_terms s =
     take 12 (remdups_adj (sort
       (backtick_terms s @
        concat (map slash_command (split_at DELIMITERS [] s)) @
        keyword_terms (split_at (DELIMITERS @ ''`'') [] s))))"

definition ere_escape :: "string \<Rightarrow> string" where
  "ere_escape s =
     concat (map (\<lambda>c. if c \<in> set (CHR 0x5C # ''.^$*+?()[]{}|'') then [CHR 0x5C, c] else [c]) s)"

definition definition_grep_pattern :: "string \<Rightarrow> string" where
  "definition_grep_pattern term =
     ''^[[:space:]]*(pub[[:space:]]+)?(async[[:space:]]+)?(unsafe[[:space:]]+)?'' @
     ''(fn|struct|trait|enum|type|const|static|union|mod)[[:space:]]+'' @ ere_escape term @
     ''([^A-Za-z0-9_]|$)''"

section \<open>The scope\<close>

definition AMBIGUOUS_DEF_FILES :: nat where
  "AMBIGUOUS_DEF_FILES = 3"

definition SCOPE_CAP :: nat where
  "SCOPE_CAP = 6"

definition push_new :: "string \<Rightarrow> string list \<Rightarrow> string list" where
  "push_new p ps = (if p \<in> set ps then ps else ps @ [p])"

definition hit_file :: "string \<Rightarrow> string" where
  "hit_file hit = takeWhile (\<lambda>c. c \<noteq> CHR '':'') hit"

definition term_files :: "string list \<Rightarrow> string list" where
  "term_files hits =
     foldl (\<lambda>files hit.
       let p = hit_file hit in
       if p \<noteq> [] \<and> hd p \<noteq> CHR 0x22 then push_new p files else files) [] hits"

definition add_term :: "(string \<Rightarrow> string list) \<Rightarrow> string list \<Rightarrow> string \<Rightarrow> string list" where
  "add_term def_sites paths term =
     (let files = term_files (def_sites term) in
      if files = [] \<or> AMBIGUOUS_DEF_FILES < length files then paths
      else foldl (\<lambda>ps p. push_new p ps) paths files)"

definition derive_subtask_scope :: "string \<Rightarrow> (string \<Rightarrow> string list) \<Rightarrow> string list" where
  "derive_subtask_scope instruction def_sites =
     foldl (add_term def_sites) [] (grep_terms instruction)"

definition ground_scope :: "string \<Rightarrow> string list \<Rightarrow> (string \<Rightarrow> string list) \<Rightarrow> string list" where
  "ground_scope instruction declared def_sites =
     take SCOPE_CAP
       (foldl (\<lambda>scp d. let t = trim d in if t \<noteq> [] then push_new t scp else scp)
         (derive_subtask_scope instruction def_sites) declared)"

section \<open>Elided contents\<close>

definition ELISION_PHRASES :: "string list" where
  "ELISION_PHRASES =
     [''the full file content remains unchanged'', ''full file content remains unchanged'',
      ''rest of the file remains unchanged'', ''rest of the file is unchanged'',
      ''rest of the file unchanged'', ''rest of file unchanged'',
      ''remainder of the file unchanged'', ''rest of the code remains unchanged'',
      ''rest of the code is unchanged'', ''rest of the implementation unchanged'',
      ''rest of the implementation is unchanged'', ''unchanged portion omitted'',
      ''omitted for brevity'']"

text \<open>
  \<^verbatim>\<open>to_lowercase\<close>, as far as a search for ASCII text sees it: the letters outside ASCII whose
  lower case is or begins with an ASCII letter are the Kelvin sign and the dotted capital I.
\<close>

fun lower_text :: "string \<Rightarrow> string" where
  "lower_text [] = []"
| "lower_text (c # cs) =
     (if [c] @ take 2 cs = map char_of [0xE2, 0x84, 0xAA :: nat] then CHR ''k'' # lower_text (drop 2 cs)
      else if [c] @ take 1 cs = map char_of [0xC4, 0xB0 :: nat]
      then CHR ''i'' # map char_of [0xCC, 0x87 :: nat] @ lower_text (drop 1 cs)
      else ascii_lower c # lower_text cs)"

definition leaders :: "char list" where
  "leaders = ''/*#<>-! '' @ [CHR 0x09]"

definition bare_line :: "string \<Rightarrow> string" where
  "bare_line line = trim (dropWhile (\<lambda>c. c \<in> set leaders) (trim line))"

definition elision_in :: "string \<Rightarrow> string option" where
  "elision_in line =
     List.find (\<lambda>p. sublist p (lower_text (bare_line line))) ELISION_PHRASES"

fun first_elision :: "nat \<Rightarrow> string list \<Rightarrow> string option" where
  "first_elision i [] = None"
| "first_elision i (l # ls) =
     (case elision_in l of
        Some p \<Rightarrow> Some (''elision placeholder (line '' @ show_nat (i + 1) @ ''): '' @
                    [CHR 0x22] @ p @ [CHR 0x22])
      | None \<Rightarrow> first_elision (i + 1) ls)"

definition lazy_emission_reason :: "string \<Rightarrow> string option" where
  "lazy_emission_reason content =
     (if trim content = [] then Some ''empty file content''
      else first_elision 0 (str_lines content))"

section \<open>Lemmas\<close>

lemma push_new_set [simp]: "set (push_new p ps) = insert p (set ps)"
  by (auto simp: push_new_def)

lemma push_new_distinct [simp]: "distinct (push_new p ps) \<longleftrightarrow> distinct ps"
  by (auto simp: push_new_def)

lemma push_new_prefix: "prefix ps (push_new p ps)"
  by (simp add: push_new_def)

lemma fold_push:
  "set (foldl (\<lambda>ps p. push_new p ps) qs ps) = set qs \<union> set ps"
  "distinct (foldl (\<lambda>ps p. push_new p ps) qs ps) \<longleftrightarrow> distinct qs"
  by (induction ps arbitrary: qs) auto

lemma term_files_set:
  "set (term_files hits) = {p. p \<noteq> [] \<and> hd p \<noteq> CHR 0x22 \<and> p \<in> hit_file ` set hits}"
  "distinct (term_files hits)"
proof -
  let ?step = "\<lambda>files hit. let p = hit_file hit in
      if p \<noteq> [] \<and> hd p \<noteq> CHR 0x22 then push_new p files else files"
  have "set (foldl ?step fs hits) =
      set fs \<union> {p. p \<noteq> [] \<and> hd p \<noteq> CHR 0x22 \<and> p \<in> hit_file ` set hits}" for fs
    by (induction hits arbitrary: fs) (auto simp: Let_def)
  moreover have "distinct (foldl ?step fs hits) \<longleftrightarrow> distinct fs" for fs
    by (induction hits arbitrary: fs) (auto simp: Let_def)
  ultimately show "set (term_files hits) = {p. p \<noteq> [] \<and> hd p \<noteq> CHR 0x22 \<and> p \<in> hit_file ` set hits}"
    "distinct (term_files hits)"
    by (simp_all add: term_files_def)
qed

text \<open>The terms that aim: defined somewhere, and in few enough files.\<close>

definition aims :: "(string \<Rightarrow> string list) \<Rightarrow> string \<Rightarrow> bool" where
  "aims def_sites term \<longleftrightarrow>
     term_files (def_sites term) \<noteq> [] \<and> length (term_files (def_sites term)) \<le> AMBIGUOUS_DEF_FILES"

lemma add_terms:
  "set (foldl (add_term def_sites) qs ts) =
     set qs \<union> (\<Union>t \<in> {t \<in> set ts. aims def_sites t}. set (term_files (def_sites t)))"
  "distinct (foldl (add_term def_sites) qs ts) \<longleftrightarrow> distinct qs"
proof -
  show "set (foldl (add_term def_sites) qs ts) =
      set qs \<union> (\<Union>t \<in> {t \<in> set ts. aims def_sites t}. set (term_files (def_sites t)))"
    by (induction ts arbitrary: qs) (auto simp: add_term_def aims_def Let_def fold_push)
  show "distinct (foldl (add_term def_sites) qs ts) \<longleftrightarrow> distinct qs"
    by (induction ts arbitrary: qs) (auto simp: add_term_def Let_def fold_push)
qed

lemma declared_appends:
  "\<exists>more. foldl (\<lambda>scp d. let t = trim d in if t \<noteq> [] then push_new t scp else scp) qs ds = qs @ more \<and>
     set more \<subseteq> trim ` set ds - {[]} \<and> (distinct qs \<longrightarrow> distinct (qs @ more))"
proof (induction ds arbitrary: qs)
  case (Cons d ds)
  let ?q = "if trim d \<noteq> [] then push_new (trim d) qs else qs"
  obtain more where "foldl (\<lambda>scp d. let t = trim d in if t \<noteq> [] then push_new t scp else scp) ?q ds = ?q @ more"
    "set more \<subseteq> trim ` set ds - {[]}" "distinct ?q \<longrightarrow> distinct (?q @ more)"
    using Cons.IH by blast
  note step = this
  show ?case
  proof (cases "trim d = [] \<or> trim d \<in> set qs")
    case True
    then have "?q = qs" by (auto simp: push_new_def)
    then show ?thesis using step by (auto simp: Let_def)
  next
    case False
    then have "?q = qs @ [trim d]" by (auto simp: push_new_def)
    then show ?thesis
      using step False by (intro exI [of _ "trim d # more"]) (auto simp: Let_def)
  qed
qed simp

text \<open>
  A grounded scope is what the definitions of the subtask's terms say, each once, and then what
  the model declared, cut after six.
\<close>

lemma ground_scope_shape:
  "\<exists>derived more. ground_scope instruction declared def_sites = take SCOPE_CAP (derived @ more) \<and>
     set derived = (\<Union>t \<in> {t \<in> set (grep_terms instruction). aims def_sites t}.
       set (term_files (def_sites t))) \<and>
     set more \<subseteq> trim ` set declared - {[]} \<and> distinct (derived @ more)"
proof -
  obtain more where
    "foldl (\<lambda>scp d. let t = trim d in if t \<noteq> [] then push_new t scp else scp)
       (derive_subtask_scope instruction def_sites) declared = derive_subtask_scope instruction def_sites @ more"
    "set more \<subseteq> trim ` set declared - {[]}"
    "distinct (derive_subtask_scope instruction def_sites @ more)"
    using declared_appends [of "derive_subtask_scope instruction def_sites" declared]
      add_terms(2) [of def_sites "[]" "grep_terms instruction"]
    by (auto simp: derive_subtask_scope_def)
  moreover have "set (derive_subtask_scope instruction def_sites) =
      (\<Union>t \<in> {t \<in> set (grep_terms instruction). aims def_sites t}. set (term_files (def_sites t)))"
    using add_terms(1) [of def_sites "[]" "grep_terms instruction"]
    by (simp add: derive_subtask_scope_def)
  ultimately show ?thesis unfolding ground_scope_def by metis
qed

end
