(* ===== verification/Crew.thy ===== *)
theory Crew
  imports Pool Grounding Caveats
begin

text \<open>
  The crew, \<^verbatim>\<open>newt-scheduler/src/crew.rs\<close>: a navigator picks files, a planner emits edits,
  the harness applies and verifies them, and a triage role explains a failure to the next round.
  Both sides of the loop are traits in the code and records of functions here, over one world: the
  dispatcher of \<open>Pool\<close> and the workspace. Parsing of JSON belongs to the crate
  \<^verbatim>\<open>serde_json\<close> and is an argument. The state of a run carries a log of the calls that have
  an effect, which the code does not keep and the properties speak of.
\<close>

section \<open>Data\<close>

record edit =
  ed_path :: string
  ed_content :: string

datatype crew_status = CrewStatus_Passed | CrewStatus_NeedsHumanReview | CrewStatus_VacuousVerify

record role_step =
  rs_role :: string
  rs_tier :: tier
  rs_model :: string
  rs_backend :: "string option"
  rs_failed_over :: "string list"
  rs_model_id :: "string option"
  rs_usage :: "token_usage option"

definition step_succeeded :: "string \<Rightarrow> tier \<Rightarrow> string \<Rightarrow> chat_reply failover \<Rightarrow> role_step" where
  "step_succeeded role t model f =
     \<lparr>rs_role = role, rs_tier = t, rs_model = model, rs_backend = Some (fo_chosen f),
      rs_failed_over = fo_failed f, rs_model_id = Some (cr_model_id (fo_result f)),
      rs_usage = cr_usage (fo_result f)\<rparr>"

definition step_failed :: "string \<Rightarrow> tier \<Rightarrow> string \<Rightarrow> string list \<Rightarrow> role_step" where
  "step_failed role t model failed =
     \<lparr>rs_role = role, rs_tier = t, rs_model = model, rs_backend = None, rs_failed_over = failed,
      rs_model_id = None, rs_usage = None\<rparr>"

record crew_outcome =
  co_status :: crew_status
  co_attempts :: nat
  co_touched :: "string list"
  co_refused :: "string list"
  co_steps :: "role_step list"

text \<open>A workspace: what it lists and reads, what applying edits writes, its test.\<close>

record 'w workspace =
  ws_files :: "'w \<Rightarrow> string list"
  ws_read :: "string \<Rightarrow> 'w \<Rightarrow> string option"
  ws_apply :: "edit list \<Rightarrow> 'w \<Rightarrow> string list \<times> 'w"
  ws_run_test :: "'w \<Rightarrow> (bool \<times> string) \<times> 'w"
  ws_set_test_command :: "string \<Rightarrow> 'w \<Rightarrow> 'w"

record crew_config =
  cc_navigator_model :: string
  cc_planner_model :: string
  cc_triage_model :: string
  cc_max_attempts :: nat
  cc_role_timeout :: "nat option"
  cc_calibrate_baseline :: bool

section \<open>Replies\<close>

text \<open>The JSON objects of the roles: relevant files, edits, summary and next action.\<close>

record role_json =
  rj_navigator :: "string \<Rightarrow> string list option"
  rj_planner :: "string \<Rightarrow> edit list option"
  rj_triage :: "string \<Rightarrow> (string \<times> string) option"

definition position_of :: "char \<Rightarrow> string \<Rightarrow> nat option" where
  "position_of c s = (if c \<in> set s then Some (length (takeWhile (\<lambda>d. d \<noteq> c) s)) else None)"

definition last_position_of :: "char \<Rightarrow> string \<Rightarrow> nat option" where
  "last_position_of c s = map_option (\<lambda>i. length s - 1 - i) (position_of c (rev s))"

definition outermost_block :: "string \<Rightarrow> string option" where
  "outermost_block s =
     (case (position_of CHR 0x7B s, last_position_of CHR 0x7D s) of
        (Some i, Some j) \<Rightarrow> if i < j then Some (take (j + 1 - i) (drop i s)) else None
      | _ \<Rightarrow> None)"

definition parse_reply :: "(string \<Rightarrow> 'a option) \<Rightarrow> 'a \<Rightarrow> string \<Rightarrow> 'a" where
  "parse_reply from_str dflt content =
     (case from_str content of
        Some v \<Rightarrow> v
      | None \<Rightarrow>
          (case Option.bind (outermost_block content) from_str of
             Some v \<Rightarrow> v | None \<Rightarrow> dflt))"

text \<open>The lines of a block up to its end, and what follows.\<close>

fun take_block :: "string list \<Rightarrow> string list \<Rightarrow> (string list \<times> string list) option" where
  "take_block body [] = None"
| "take_block body (l # ls) =
     (if trim l = ''END-FILE'' then Some (body, ls) else take_block (body @ [l]) ls)"

lemma take_block_length [termination_simp]:
  "take_block body ls = Some (b, rest) \<Longrightarrow> length rest < length ls"
  by (induction body ls rule: take_block.induct) (auto split: if_splits)

fun file_blocks :: "string list \<Rightarrow> edit list" where
  "file_blocks [] = []"
| "file_blocks (l # ls) =
     (case strip_prefix ''FILE:'' l of
        None \<Rightarrow> file_blocks ls
      | Some p \<Rightarrow>
          if trim p = [] then file_blocks ls
          else (case take_block [] ls of
                  None \<Rightarrow> []
                | Some (body, rest) \<Rightarrow>
                    \<lparr>ed_path = trim p, ed_content = join_on newline body\<rparr> # file_blocks rest))"

definition parse_file_blocks :: "string \<Rightarrow> edit list" where
  "parse_file_blocks content = file_blocks (str_lines content)"

definition parse_edits :: "role_json \<Rightarrow> string \<Rightarrow> edit list" where
  "parse_edits js content =
     (let blocks = parse_file_blocks content in
      if blocks \<noteq> [] then blocks else parse_reply (rj_planner js) [] content)"

definition CHANGE_WORDS :: "string list" where
  "CHANGE_WORDS =
     [''add'', ''modify'', ''implement'', ''refactor'', ''create'', ''write'', ''fix'', ''change'',
      ''update'', ''remove'', ''rename'', ''replace'', ''introduce'', ''build'', ''edit'',
      ''delete'', ''rewrite'', ''wire'', ''extract'']"

definition VERIFY_WORDS :: "string list" where
  "VERIFY_WORDS = [''ensure'', ''verify'', ''validate'', ''confirm'']"

definition task_requires_change :: "string \<Rightarrow> bool" where
  "task_requires_change task \<longleftrightarrow>
     (let t = map ascii_lower task in
      list_ex (\<lambda>v. sublist v t) CHANGE_WORDS \<or> \<not> list_ex (\<lambda>v. sublist v t) VERIFY_WORDS)"

section \<open>The fence of a leaf\<close>

definition nl :: string where
  "nl = [newline]"

definition one_step_directive :: "string list \<Rightarrow> string" where
  "one_step_directive scp =
     str_replace ''{scope}'' (join_str '', '' scp)
       (nl @ nl @ ''You are implementing ONE STEP of a larger plan. '' @
        ''Confine your edits to these files: {scope}. '' @
        ''Do NOT implement other steps of the plan.'')"

definition without_dot_slash :: "string \<Rightarrow> string" where
  "without_dot_slash p = (case strip_prefix ''./'' p of Some q \<Rightarrow> q | None \<Rightarrow> p)"

definition without_last_slash :: "string \<Rightarrow> string" where
  "without_last_slash e = (if e \<noteq> [] \<and> last e = CHR ''/'' then butlast e else e)"

definition entry_permits :: "string \<Rightarrow> string \<Rightarrow> bool" where
  "entry_permits path entry =
     (let norm = without_dot_slash path;
          e = without_dot_slash (trim entry);
          dir = without_last_slash e
      in if dir = [] \<or> dir = ''.'' then True
         else norm = e \<or> norm = dir \<or> prefix (dir @ ''/'') norm)"

definition scope_permits :: "string list \<Rightarrow> string \<Rightarrow> bool" where
  "scope_permits scp path \<longleftrightarrow> scp = [] \<or> list_ex (entry_permits path) scp"

datatype verify_calibration = Discriminating | KeepGreen | Vacuous | StillFailing

definition classify_verify :: "bool \<Rightarrow> bool \<Rightarrow> bool \<Rightarrow> verify_calibration" where
  "classify_verify baseline_ok edited_ok made_edits =
     (if \<not> edited_ok then StillFailing
      else if \<not> baseline_ok then Discriminating
      else if made_edits then Vacuous else KeepGreen)"

section \<open>Prompts\<close>

text \<open>
  \<^verbatim>\<open>{:?}\<close> of a list of texts. Characters outside ASCII are shown as they are, which is what
  Rust does with the printable ones.
\<close>

definition hex_nat :: "nat \<Rightarrow> string" where
  "hex_nat n =
     (let digit = (\<lambda>d. if d < 10 then char_of (48 + d) else char_of (87 + d)) in
      if n < 16 then [digit n] else [digit (n div 16), digit (n mod 16)])"

definition debug_char :: "char \<Rightarrow> string" where
  "debug_char c =
     (let n = of_char c :: nat in
      if n = 9 then [CHR 0x5C, CHR ''t''] else if n = 13 then [CHR 0x5C, CHR ''r'']
      else if n = 10 then [CHR 0x5C, CHR ''n''] else if n = 0 then [CHR 0x5C, CHR ''0'']
      else if n = 34 \<or> n = 92 then [CHR 0x5C, c]
      else if n < 32 \<or> n = 127
      then [CHR 0x5C, CHR ''u'', CHR 0x7B] @ hex_nat n @ [CHR 0x7D]
      else [c])"

definition debug_str :: "string \<Rightarrow> string" where
  "debug_str s = [CHR 0x22] @ concat (map debug_char s) @ [CHR 0x22]"

definition debug_list :: "string list \<Rightarrow> string" where
  "debug_list xs = ''['' @ join_str '', '' (map debug_str xs) @ '']''"

definition quoted :: "string \<Rightarrow> string" where
  "quoted s = [CHR 0x22] @ s @ [CHR 0x22]"

definition ellipsis :: string where
  "ellipsis = map char_of [0xE2, 0x80, 0xA6 :: nat]"

definition CREW_PLAN_SYSTEM :: string where
  "CREW_PLAN_SYSTEM =
     ''You are a senior engineer implementing a change. For EACH file you modify, emit the '' @
     ''COMPLETE updated file in EXACTLY this block format '' @ dash @ '' no diffs, no JSON, no '' @
     ''code fences, no prose, no explanation:'' @ nl @ ''FILE: <relative/path>'' @ nl @
     ''<the full, updated file content, verbatim>'' @ nl @ ''END-FILE'' @ nl @
     ''Repeat the block for every changed file. Write the file content RAW between the markers '' @
     dash @ '' do NOT escape it. Emit the COMPLETE file '' @ dash @ '' NEVER a diff, an ellipsis, '' @
     ''or a placeholder such as '' @ [CHR 0x27] @ ''<the full file content remains unchanged>'' @
     [CHR 0x27] @ '' or '' @ [CHR 0x27] @ ellipsis @ '' rest of the file unchanged '' @ ellipsis @
     [CHR 0x27] @ ''. If a file is unchanged, omit its block. When a task asks you to extract, add, '' @
     ''or define a new helper or function, define it as a top-level sibling function next to the '' @
     ''caller '' @ dash @ '' never nested inside another function'' @ [CHR 0x27] @
     ''s body. Give it exactly the requested name and signature, and keep it private unless the '' @
     ''task explicitly says `pub`. Do not introduce a new panic, unwrap, or other failure path '' @
     ''the task did not ask for.''"

definition navigator_request :: "string \<Rightarrow> string list \<Rightarrow> string list \<Rightarrow> chat_request" where
  "navigator_request task scp files =
     user_message
       (''TASK:'' @ nl @ task @ nl @ nl @ ''AVAILABLE FILES:'' @ nl @ debug_list files @
        (if scp = [] then []
         else nl @ nl @ ''PLAN SCOPE: this step is expected to need only these files '' @ dash @
           '' prefer them: '' @ join_str '', '' scp))
       (system_message
         (''You are a repository navigator. Reply with ONLY JSON {'' @ quoted ''relevant_files'' @
          '':['' @ quoted ''path'' @ '', ...]} listing the files needed to do the task.'')
         ChatRequest_new)"

definition planner_request :: "string \<Rightarrow> string list \<Rightarrow> string \<Rightarrow> string list \<Rightarrow> chat_request" where
  "planner_request task scp curated failures =
     user_message
       (''TASK:'' @ nl @ task @ (if scp = [] then [] else one_step_directive scp) @ nl @ nl @
        ''RELEVANT FILES:'' @ nl @ curated @
        (if failures = [] then []
         else nl @ nl @ ''The previous attempt FAILED verification:'' @ nl @ last failures @ nl @
           ''Fix it.''))
       (system_message CREW_PLAN_SYSTEM ChatRequest_new)"

definition triage_request :: "string \<Rightarrow> string \<Rightarrow> chat_request" where
  "triage_request task output =
     user_message (''TASK:'' @ nl @ task @ nl @ nl @ ''VERIFICATION OUTPUT:'' @ nl @ output)
       (system_message
         (''You are a build cop. Reply with ONLY JSON {'' @ quoted ''summary'' @ '':'' @
          quoted ''what failed'' @ '','' @ quoted ''next_action'' @ '':'' @ quoted ''what to change'' @ ''}.'')
         ChatRequest_new)"

section \<open>The run\<close>

record ('w, 'g) crew_env =
  ce_pool :: pool
  ce_dispatcher :: "'w dispatcher"
  ce_workspace :: "'w workspace"
  ce_config :: crew_config
  ce_caveats :: "'g caveats"
  ce_task :: string
  ce_scope :: "string list"
  ce_timeout_env :: "string option"
  ce_json :: role_json

datatype crew_event =
    Ev_Role string
  | Ev_Read string
  | Ev_Apply "edit list"
  | Ev_Test bool

record 'w crew =
  cw_world :: 'w
  cw_log :: "crew_event list"
  cw_calls :: u64
  cw_steps :: "role_step list"
  cw_failures :: "string list"
  cw_touched :: "string list"
  cw_refused :: "string list"
  cw_reprompted :: bool

definition crew_start :: "'w \<Rightarrow> 'w crew" where
  "crew_start w =
     \<lparr>cw_world = w, cw_log = [], cw_calls = 0, cw_steps = [], cw_failures = [], cw_touched = [],
      cw_refused = [], cw_reprompted = False\<rparr>"

definition role_bound :: "('w, 'g) crew_env \<Rightarrow> nat" where
  "role_bound k =
     (case cc_role_timeout (ce_config k) of
        Some b \<Rightarrow> b | None \<Rightarrow> role_dispatch_timeout (ce_timeout_env k))"

text \<open>The budget is asked before every dispatch; a dispatch spends one call and leaves one step.\<close>

definition may_call :: "('w, 'g) crew_env \<Rightarrow> 'w crew \<Rightarrow> bool" where
  "may_call k s \<longleftrightarrow> permits_one_more (cv_max_calls (ce_caveats k)) (cw_calls s)"

definition call_role ::
    "('w, 'g) crew_env \<Rightarrow> string \<Rightarrow> tier \<Rightarrow> string \<Rightarrow> chat_request \<Rightarrow> 'w crew \<Rightarrow>
      string option \<times> 'w crew" where
  "call_role k role t model req s =
     (case run_role_with_timeout (ce_pool k) (ce_dispatcher k) t model req (role_bound k)
             (cw_world s) of
        (res, w') \<Rightarrow>
          (map_option (\<lambda>f. cr_content (fo_result f)) res,
           s\<lparr>cw_world := w', cw_log := cw_log s @ [Ev_Role role], cw_calls := cw_calls s + 1,
             cw_steps := cw_steps s @
               [case res of
                  Some f \<Rightarrow> step_succeeded role t model f
                | None \<Rightarrow> step_failed role t model
                    (map pb_name (ranked_candidates (ce_pool k) t (Some model)))]\<rparr>))"

definition crew_exit :: "crew_status \<Rightarrow> nat \<Rightarrow> 'w crew \<Rightarrow> crew_outcome" where
  "crew_exit status attempts s =
     \<lparr>co_status = status, co_attempts = attempts, co_touched = cw_touched s,
      co_refused = cw_refused s, co_steps = cw_steps s\<rparr>"

text \<open>The files the navigator chose that the leash lets the crew read.\<close>

definition curate :: "('w, 'g) crew_env \<Rightarrow> string list \<Rightarrow> 'w crew \<Rightarrow> string \<times> 'w crew" where
  "curate k relevant s =
     (let readable = filter (permits_fs_read (ce_caveats k)) relevant;
          denied = filter (\<lambda>f. \<not> permits_fs_read (ce_caveats k) f) relevant;
          texts = List.map_filter (\<lambda>f. map_option (\<lambda>c. ''=== '' @ f @ '' ==='' @ nl @ c)
                    (ws_read (ce_workspace k) f (cw_world s))) readable;
          curated = join_str (nl @ nl) texts;
          note = show_nat (length denied) @ '' file(s) not readable under your fs_read caveat: '' @
                 join_str '', '' denied
      in (if denied = [] then curated
          else if curated = [] then note else curated @ nl @ nl @ note,
          s\<lparr>cw_log := cw_log s @ map Ev_Read readable\<rparr>))"

definition run_test :: "('w, 'g) crew_env \<Rightarrow> 'w crew \<Rightarrow> (bool \<times> string) \<times> 'w crew" where
  "run_test k s =
     (case ws_run_test (ce_workspace k) (cw_world s) of
        ((ok, output), w') \<Rightarrow>
          ((ok, output), s\<lparr>cw_world := w', cw_log := cw_log s @ [Ev_Test ok]\<rparr>))"

definition apply_edits :: "('w, 'g) crew_env \<Rightarrow> edit list \<Rightarrow> 'w crew \<Rightarrow> 'w crew" where
  "apply_edits k edits s =
     (case ws_apply (ce_workspace k) edits (cw_world s) of
        (touched, w') \<Rightarrow>
          s\<lparr>cw_world := w', cw_log := cw_log s @ [Ev_Apply edits], cw_touched := touched\<rparr>)"

definition push_failure :: "string \<Rightarrow> 'w crew \<Rightarrow> 'w crew" where
  "push_failure f s = s\<lparr>cw_failures := cw_failures s @ [f]\<rparr>"

definition lazy_note :: "edit list \<Rightarrow> string" where
  "lazy_note lazy =
     ''LAZY/ELIDED EMISSION refused '' @ dash @ '' these files were NOT modified; re-emit each as '' @
     ''the COMPLETE file verbatim, with NO '' @ [CHR 0x27] @ ''<'' @ ellipsis @ ''>'' @ [CHR 0x27] @
     '' or '' @ [CHR 0x27] @ ellipsis @ ''unchanged'' @ ellipsis @ [CHR 0x27] @ '' placeholders: '' @
     join_str ''; '' (map (\<lambda>e. ed_path e @ '' ('' @
       (case lazy_emission_reason (ed_content e) of Some r \<Rightarrow> r | None \<Rightarrow> []) @ '')'') lazy)"

definition ZERO_EDIT_NOTE :: string where
  "ZERO_EDIT_NOTE =
     ''Your reply landed NO file edits. If this task requires changing code, emit the COMPLETE '' @
     ''file(s) in the edits JSON now '' @ dash @ '' emit the change itself, do not just describe '' @
     ''it. If NO code change is needed (a verify-only task), reply again with no edits to confirm.''"

definition refusal_notes :: "string list \<Rightarrow> edit list \<Rightarrow> edit list \<Rightarrow> string list" where
  "refusal_notes scp refused scope_refused =
     (if refused = [] then []
      else [''REFUSED (outside the fs_write leash '' @ dash @
            '' attenuate the task or widen the grant): '' @ join_str '', '' (map ed_path refused)]) @
     (if scope_refused = [] then []
      else [''REFUSED (outside this leaf'' @ [CHR 0x27] @ ''s scope '' @ dash @
            '' implement ONLY this step; the scoped files are: '' @ join_str '', '' scp @ ''): '' @
            join_str '', '' (map ed_path scope_refused)])"

text \<open>The triage of a failed check, or the end when the budget is spent.\<close>

definition triage :: "('w, 'g) crew_env \<Rightarrow> nat \<Rightarrow> string \<Rightarrow> 'w crew \<Rightarrow> crew_outcome option \<times> 'w crew" where
  "triage k attempt output s =
     (if \<not> may_call k s then (Some (crew_exit CrewStatus_NeedsHumanReview attempt s), s)
      else
        (case call_role k ''triage'' Tier_Fast (cc_triage_model (ce_config k))
                (triage_request (ce_task k) output) s of
           (reply, s1) \<Rightarrow>
             let (summary, next_action) =
                   (case reply of
                      Some content \<Rightarrow> parse_reply (rj_triage (ce_json k)) ([], []) content
                    | None \<Rightarrow> ([], []))
             in (None, push_failure (summary @ '' -> '' @ next_action) s1)))"

text \<open>A round after its edits are applied: re-prompt, verify, judge, and triage.\<close>

definition judge ::
    "('w, 'g) crew_env \<Rightarrow> bool \<Rightarrow> nat \<Rightarrow> edit list \<Rightarrow> edit list \<Rightarrow> 'w crew \<Rightarrow>
      crew_outcome option \<times> 'w crew" where
  "judge k baseline_ok attempt refused scope_refused s =
     (if cw_touched s = [] \<and> refused = [] \<and> scope_refused = [] \<and> \<not> cw_reprompted s \<and>
         attempt < cc_max_attempts (ce_config k) \<and> task_requires_change (ce_task k)
      then (None, push_failure ZERO_EDIT_NOTE (s\<lparr>cw_reprompted := True\<rparr>))
      else
        (let notes = refusal_notes (ce_scope k) refused scope_refused in
         case run_test k s of
           ((ok, output), s1) \<Rightarrow>
             if ok
             then if classify_verify baseline_ok True (cw_touched s1 \<noteq> []) = Vacuous
                  then (Some (crew_exit CrewStatus_VacuousVerify attempt s1), s1)
                  else if cw_touched s1 = [] \<and> notes \<noteq> []
                  then (None, push_failure (join_str nl notes) s1)
                  else (Some (crew_exit CrewStatus_Passed attempt s1), s1)
             else triage k attempt
               (if notes = [] then output else join_str nl notes @ nl @ output) s1))"

text \<open>The edits of a round go through the leash, then the fence, then the check for elisions.\<close>

definition apply_round ::
    "('w, 'g) crew_env \<Rightarrow> bool \<Rightarrow> nat \<Rightarrow> edit list \<Rightarrow> 'w crew \<Rightarrow> crew_outcome option \<times> 'w crew" where
  "apply_round k baseline_ok attempt edits s =
     (let leashed = filter (\<lambda>e. permits_fs_write (ce_caveats k) (ed_path e)) edits;
          refused = filter (\<lambda>e. \<not> permits_fs_write (ce_caveats k) (ed_path e)) edits;
          allowed = filter (\<lambda>e. scope_permits (ce_scope k) (ed_path e)) leashed;
          scope_refused = filter (\<lambda>e. \<not> scope_permits (ce_scope k) (ed_path e)) leashed;
          clean = filter (\<lambda>e. lazy_emission_reason (ed_content e) = None) allowed;
          lazy = filter (\<lambda>e. lazy_emission_reason (ed_content e) \<noteq> None) allowed;
          s1 = apply_edits k clean (s\<lparr>cw_refused := map ed_path (refused @ scope_refused)\<rparr>)
      in if lazy \<noteq> [] then (None, push_failure (lazy_note lazy) s1)
         else judge k baseline_ok attempt refused scope_refused s1)"

definition crew_round ::
    "('w, 'g) crew_env \<Rightarrow> string \<Rightarrow> bool \<Rightarrow> nat \<Rightarrow> 'w crew \<Rightarrow> crew_outcome option \<times> 'w crew" where
  "crew_round k curated baseline_ok attempt s =
     (if \<not> may_call k s then (Some (crew_exit CrewStatus_NeedsHumanReview (attempt - 1) s), s)
      else
        (case call_role k ''planner'' Tier_Complex (cc_planner_model (ce_config k))
                (planner_request (ce_task k) (ce_scope k) curated (cw_failures s)) s of
           (None, s1) \<Rightarrow> (Some (crew_exit CrewStatus_NeedsHumanReview attempt s1), s1)
         | (Some content, s1) \<Rightarrow>
             apply_round k baseline_ok attempt (parse_edits (ce_json k) content) s1))"

text \<open>The rounds that are left; \<open>attempt\<close> is the number of the next one.\<close>

fun crew_rounds ::
    "('w, 'g) crew_env \<Rightarrow> string \<Rightarrow> bool \<Rightarrow> nat \<Rightarrow> nat \<Rightarrow> 'w crew \<Rightarrow> crew_outcome \<times> 'w crew" where
  "crew_rounds k curated baseline_ok 0 attempt s =
     (crew_exit CrewStatus_NeedsHumanReview (cc_max_attempts (ce_config k)) s, s)"
| "crew_rounds k curated baseline_ok (Suc n) attempt s =
     (case crew_round k curated baseline_ok attempt s of
        (Some out, s1) \<Rightarrow> (out, s1)
      | (None, s1) \<Rightarrow> crew_rounds k curated baseline_ok n (attempt + 1) s1)"

definition run_crew :: "('w, 'g) crew_env \<Rightarrow> 'w \<Rightarrow> crew_outcome \<times> 'w crew" where
  "run_crew k w =
     (let s = crew_start w in
      if \<not> may_call k s then (crew_exit CrewStatus_NeedsHumanReview 0 s, s)
      else
        (case call_role k ''navigator'' Tier_Standard (cc_navigator_model (ce_config k))
                (navigator_request (ce_task k) (ce_scope k) (ws_files (ce_workspace k) w)) s of
           (None, s1) \<Rightarrow> (crew_exit CrewStatus_NeedsHumanReview 0 s1, s1)
         | (Some content, s1) \<Rightarrow>
             let (curated, s2) = curate k (parse_reply (rj_navigator (ce_json k)) [] content) s1;
                 (baseline_ok, s3) =
                   (if cc_calibrate_baseline (ce_config k)
                    then (case run_test k s2 of ((ok, _), s3) \<Rightarrow> (ok, s3)) else (False, s2))
             in crew_rounds k curated baseline_ok (cc_max_attempts (ce_config k)) 1 s3))"

section \<open>What holds throughout a run\<close>

definition on_leash :: "('w, 'g) crew_env \<Rightarrow> crew_event \<Rightarrow> bool" where
  "on_leash k ev =
     (case ev of
        Ev_Apply es \<Rightarrow> list_all (\<lambda>e. permits_fs_write (ce_caveats k) (ed_path e) \<and>
            scope_permits (ce_scope k) (ed_path e) \<and> lazy_emission_reason (ed_content e) = None) es
      | Ev_Read f \<Rightarrow> permits_fs_read (ce_caveats k) f
      | _ \<Rightarrow> True)"

fun is_role :: "crew_event \<Rightarrow> bool" where
  "is_role (Ev_Role _) = True"
| "is_role _ = False"

definition dispatches :: "crew_event list \<Rightarrow> nat" where
  "dispatches log = length (filter is_role log)"

lemma dispatches_simps [simp]:
  "dispatches [] = 0" "dispatches (xs @ ys) = dispatches xs + dispatches ys"
  "dispatches (ev # log) = (if is_role ev then Suc (dispatches log) else dispatches log)"
  "dispatches (map Ev_Read fs) = 0"
  by (simp_all add: dispatches_def)

definition within_budget :: "('w, 'g) crew_env \<Rightarrow> 'w crew \<Rightarrow> bool" where
  "within_budget k s \<longleftrightarrow>
     (\<forall>n. cv_max_calls (ce_caveats k) = CountBound_AtMost n \<longrightarrow>
        unat (cw_calls s) = dispatches (cw_log s) \<and> cw_calls s \<le> n)"

definition crew_ok :: "('w, 'g) crew_env \<Rightarrow> 'w crew \<Rightarrow> bool" where
  "crew_ok k s \<longleftrightarrow>
     list_all (on_leash k) (cw_log s) \<and> length (cw_steps s) = dispatches (cw_log s) \<and>
     within_budget k s"

named_theorems kept

lemma crew_ok_start [kept]: "crew_ok k (crew_start w)"
  by (simp add: crew_ok_def within_budget_def crew_start_def)

lemma one_more:
  fixes a n :: u64
  shows "a < n \<Longrightarrow> unat (a + 1) = Suc (unat a) \<and> a + 1 \<le> n"
proof -
  assume less: "a < n"
  have "unat n < 2 ^ 64" using unsigned_less [of n] by simp
  then have "Suc (unat a) < 2 ^ 64" using less by (simp add: word_less_nat_alt)
  then show ?thesis using less by (simp add: inc_le unat_word_ariths)
qed

lemma call_role_ok:
  assumes "call_role k role t model req s = (reply, s1)" "may_call k s" "crew_ok k s"
  shows "crew_ok k s1"
  using assms one_more
  by (auto simp: call_role_def crew_ok_def within_budget_def may_call_def on_leash_def
      split: prod.splits)

lemma state_only_ok [kept]:
  "crew_ok k (push_failure f s) \<longleftrightarrow> crew_ok k s"
  "crew_ok k (s\<lparr>cw_reprompted := b\<rparr>) \<longleftrightarrow> crew_ok k s"
  "crew_ok k (s\<lparr>cw_refused := r\<rparr>) \<longleftrightarrow> crew_ok k s"
  by (simp_all add: crew_ok_def within_budget_def push_failure_def)

lemma run_test_ok: "run_test k s = (res, s1) \<Longrightarrow> crew_ok k s1 \<longleftrightarrow> crew_ok k s"
  by (auto simp: run_test_def crew_ok_def within_budget_def on_leash_def split: prod.splits)

lemma curate_ok: "curate k fs s = (res, s1) \<Longrightarrow> crew_ok k s1 \<longleftrightarrow> crew_ok k s"
  by (auto simp: curate_def crew_ok_def within_budget_def on_leash_def list_all_iff Let_def)

lemma apply_edits_ok:
  "list_all (\<lambda>e. permits_fs_write (ce_caveats k) (ed_path e) \<and>
       scope_permits (ce_scope k) (ed_path e) \<and> lazy_emission_reason (ed_content e) = None) es \<Longrightarrow>
     crew_ok k (apply_edits k es s) \<longleftrightarrow> crew_ok k s"
  by (auto simp: apply_edits_def crew_ok_def within_budget_def on_leash_def split: prod.splits)

lemma triage_ok: "triage k attempt output s = (res, s1) \<Longrightarrow> crew_ok k s \<Longrightarrow> crew_ok k s1"
  by (auto simp: triage_def kept split: if_splits prod.splits dest: call_role_ok)

lemma judge_ok: "judge k b attempt refused scope_refused s = (res, s1) \<Longrightarrow> crew_ok k s \<Longrightarrow> crew_ok k s1"
  by (auto simp: judge_def kept Let_def split: if_splits prod.splits dest: triage_ok run_test_ok)

lemma apply_round_ok: "apply_round k b attempt edits s = (res, s1) \<Longrightarrow> crew_ok k s \<Longrightarrow> crew_ok k s1"
  by (auto simp: apply_round_def kept Let_def apply_edits_ok list_all_iff split: if_splits dest!: judge_ok)

lemma crew_round_ok: "crew_round k c b attempt s = (res, s1) \<Longrightarrow> crew_ok k s \<Longrightarrow> crew_ok k s1"
  by (auto simp: crew_round_def split: if_splits prod.splits option.splits
      dest: call_role_ok apply_round_ok)

lemma crew_rounds_ok: "crew_rounds k c b n attempt s = (out, s1) \<Longrightarrow> crew_ok k s \<Longrightarrow> crew_ok k s1"
  by (induction n arbitrary: attempt s)
    (auto split: prod.splits option.splits dest: crew_round_ok)

text \<open>The log only grows.\<close>

lemma call_role_log: "call_role k role t model req s = (reply, s1) \<Longrightarrow> cw_log s1 = cw_log s @ [Ev_Role role]"
  by (auto simp: call_role_def split: prod.splits)

lemma run_test_log:
  "run_test k s = ((ok, output), s1) \<Longrightarrow>
     cw_log s1 = cw_log s @ [Ev_Test ok] \<and> cw_touched s1 = cw_touched s \<and> cw_refused s1 = cw_refused s"
  by (auto simp: run_test_def split: prod.splits)

lemma apply_edits_log: "cw_log (apply_edits k es s) = cw_log s @ [Ev_Apply es]"
    "cw_refused (apply_edits k es s) = cw_refused s"
  by (auto simp: apply_edits_def split: prod.splits)

lemma push_failure_log [simp]: "cw_log (push_failure f s) = cw_log s"
  by (simp add: push_failure_def)

lemma triage_log: "triage k attempt output s = (res, s1) \<Longrightarrow> prefix (cw_log s) (cw_log s1)"
  by (auto simp: triage_def split: if_splits prod.splits dest!: call_role_log)

lemma judge_log: "judge k b attempt refused scope_refused s = (res, s1) \<Longrightarrow> prefix (cw_log s) (cw_log s1)"
  by (auto simp: judge_def Let_def split: if_splits prod.splits dest!: run_test_log triage_log
      dest: append_prefixD)

lemma apply_round_log: "apply_round k b attempt edits s = (res, s1) \<Longrightarrow> prefix (cw_log s) (cw_log s1)"
  by (auto simp: apply_round_def Let_def apply_edits_log split: if_splits dest!: judge_log
      dest: append_prefixD)

lemma crew_round_log: "crew_round k c b attempt s = (res, s1) \<Longrightarrow> prefix (cw_log s) (cw_log s1)"
  by (auto simp: crew_round_def split: if_splits prod.splits option.splits
      dest!: call_role_log apply_round_log dest: append_prefixD)

lemma crew_rounds_log: "crew_rounds k c b n attempt s = (out, s1) \<Longrightarrow> prefix (cw_log s) (cw_log s1)"
proof (induction n arbitrary: attempt s)
  case (Suc n)
  obtain res s2 where r: "crew_round k c b attempt s = (res, s2)" by force
  then show ?case
    using Suc crew_round_log [OF r] by (cases res) (auto intro: prefix_order.trans)
qed simp

text \<open>How a run ends: a judgement of success stands on the last two calls.\<close>

definition verdict_stands :: "bool \<Rightarrow> crew_outcome \<Rightarrow> crew_event list \<Rightarrow> bool" where
  "verdict_stands baseline_ok out log \<longleftrightarrow>
     co_status out = CrewStatus_NeedsHumanReview \<or>
     (\<exists>pre es. log = pre @ [Ev_Apply es, Ev_Test True]) \<and>
     (co_status out = CrewStatus_Passed \<longrightarrow>
        (co_touched out = [] \<longrightarrow> co_refused out = []) \<and> (baseline_ok \<longrightarrow> co_touched out = [])) \<and>
     (co_status out = CrewStatus_VacuousVerify \<longrightarrow> baseline_ok \<and> co_touched out \<noteq> [])"

lemma triage_exit:
  "triage k attempt output s = (Some out, s1) \<Longrightarrow>
     co_status out = CrewStatus_NeedsHumanReview \<and> co_attempts out = attempt"
  by (auto simp: triage_def crew_exit_def split: if_splits prod.splits)

lemma notes_nil: "refusal_notes scp refused scope_refused = [] \<longleftrightarrow> refused = [] \<and> scope_refused = []"
  by (simp add: refusal_notes_def)

lemma judge_exit:
  assumes "judge k b attempt refused scope_refused s = (Some out, s1)"
    and "cw_log s = pre @ [Ev_Apply es]" and "cw_refused s = map ed_path (refused @ scope_refused)"
  shows "verdict_stands b out (cw_log s1) \<and> co_attempts out = attempt"
proof -
  obtain ok msg s2 where t: "run_test k s = ((ok, msg), s2)" by (metis prod.exhaust)
  have log: "cw_log s2 = pre @ [Ev_Apply es, Ev_Test ok]" "cw_refused s2 = map ed_path (refused @ scope_refused)"
    using run_test_log [OF t] assms(2,3) by simp_all
  let ?quiet = "cw_touched s = [] \<and> refused = [] \<and> scope_refused = [] \<and> \<not> cw_reprompted s \<and>
      attempt < cc_max_attempts (ce_config k) \<and> task_requires_change (ce_task k)"
  let ?notes = "refusal_notes (ce_scope k) refused scope_refused"
  let ?verdict = "if ok
      then if classify_verify b True (cw_touched s2 \<noteq> []) = Vacuous
           then (Some (crew_exit CrewStatus_VacuousVerify attempt s2), s2)
           else if cw_touched s2 = [] \<and> ?notes \<noteq> []
           then (None, push_failure (join_str nl ?notes) s2)
           else (Some (crew_exit CrewStatus_Passed attempt s2), s2)
      else triage k attempt (if ?notes = [] then msg else join_str nl ?notes @ nl @ msg) s2"
  have "judge k b attempt refused scope_refused s =
      (if ?quiet then (None, push_failure ZERO_EDIT_NOTE (s\<lparr>cw_reprompted := True\<rparr>)) else ?verdict)"
    unfolding judge_def t prod.case Let_def ..
  then have judged: "?verdict = (Some out, s1)"
    using assms(1) by (cases ?quiet) (simp_all only: if_True if_False prod.inject option.distinct simp_thms)
  show ?thesis
  proof (cases ok)
    case False
    then have "triage k attempt (if ?notes = [] then msg else join_str nl ?notes @ nl @ msg) s2 = (Some out, s1)"
      using judged by simp
    from triage_exit [OF this] show ?thesis by (simp add: verdict_stands_def)
  next
    case True
    have vacuous: "classify_verify b True m = Vacuous \<longleftrightarrow> b \<and> m" for m
      by (simp add: classify_verify_def)
    consider (vac) "b" "cw_touched s2 \<noteq> []" | (passed) "\<not> (b \<and> cw_touched s2 \<noteq> [])"
        "cw_touched s2 = [] \<longrightarrow> refused = [] \<and> scope_refused = []"
      using judged True by (auto simp: vacuous notes_nil split: if_splits)
    then show ?thesis
    proof cases
      case vac
      then have c: "classify_verify b True (cw_touched s2 \<noteq> []) = Vacuous" by (simp add: classify_verify_def)
      have "(Some (crew_exit CrewStatus_VacuousVerify attempt s2), s2) = (Some out, s1)"
        using judged unfolding if_P [OF True] if_P [OF c] .
      then have "out = crew_exit CrewStatus_VacuousVerify attempt s2" "s1 = s2"
        by (metis Pair_inject option.inject)+
      then show ?thesis using log True vac by (auto simp: verdict_stands_def crew_exit_def)
    next
      case passed
      then have "out = crew_exit CrewStatus_Passed attempt s2" "s1 = s2"
        using judged True by (auto simp: vacuous notes_nil split: if_splits)
      then show ?thesis using log True passed by (auto simp: verdict_stands_def crew_exit_def)
    qed
  qed
qed

lemma apply_round_exit:
  assumes "apply_round k b attempt edits s = (Some out, s1)"
  shows "verdict_stands b out (cw_log s1) \<and> co_attempts out = attempt"
proof -
  let ?leash = "\<lambda>e. permits_fs_write (ce_caveats k) (ed_path e)"
  let ?scope = "\<lambda>e. scope_permits (ce_scope k) (ed_path e)"
  let ?refused = "filter (\<lambda>e. \<not> ?leash e) edits"
  let ?out = "filter (\<lambda>e. \<not> ?scope e) (filter ?leash edits)"
  let ?clean = "filter (\<lambda>e. lazy_emission_reason (ed_content e) = None) (filter ?scope (filter ?leash edits))"
  let ?s1 = "apply_edits k ?clean (s\<lparr>cw_refused := map ed_path (?refused @ ?out)\<rparr>)"
  have "judge k b attempt ?refused ?out ?s1 = (Some out, s1)"
    using assms unfolding apply_round_def Let_def by (simp only: split: if_splits) simp
  then show ?thesis
    by (rule judge_exit) (simp_all add: apply_edits_log)
qed

lemma crew_round_exit:
  assumes "crew_round k c b attempt s = (Some out, s1)" "0 < attempt"
  shows "verdict_stands b out (cw_log s1) \<and> co_attempts out \<le> attempt"
proof (cases "may_call k s")
  case False
  then show ?thesis using assms by (auto simp: crew_round_def crew_exit_def verdict_stands_def)
next
  case True
  obtain reply s2 where c: "call_role k ''planner'' Tier_Complex (cc_planner_model (ce_config k))
      (planner_request (ce_task k) (ce_scope k) c (cw_failures s)) s = (reply, s2)" by force
  show ?thesis
  proof (cases reply)
    case None
    then show ?thesis using assms True c by (auto simp: crew_round_def crew_exit_def verdict_stands_def)
  next
    case (Some content)
    then have "apply_round k b attempt (parse_edits (ce_json k) content) s2 = (Some out, s1)"
      using assms(1) True c by (simp add: crew_round_def)
    then show ?thesis using apply_round_exit by fastforce
  qed
qed

lemma crew_rounds_exit:
  assumes "crew_rounds k c b n attempt s = (out, s1)" "0 < attempt"
    and "attempt + n = Suc (cc_max_attempts (ce_config k))"
  shows "verdict_stands b out (cw_log s1) \<and> co_attempts out \<le> cc_max_attempts (ce_config k)"
  using assms
proof (induction n arbitrary: attempt s)
  case 0
  then show ?case by (auto simp: crew_exit_def verdict_stands_def)
next
  case (Suc n)
  obtain res s2 where r: "crew_round k c b attempt s = (res, s2)" by force
  show ?case
  proof (cases res)
    case None
    then show ?thesis using Suc.IH [of "attempt + 1" s2] Suc.prems r by simp
  next
    case (Some o1)
    then show ?thesis using Suc.prems r crew_round_exit [of k c b attempt s o1 s2] by auto
  qed
qed

text \<open>The start of a run: the navigator, the reads, and the check of the tree before any edit.\<close>

lemma run_crew_parts:
  assumes "run_crew k w = (out, s)"
  obtains (stopped) "co_status out = CrewStatus_NeedsHumanReview" "co_attempts out = 0" "crew_ok k s"
  | (rounds) curated baseline_ok s0 fs
      where "crew_rounds k curated baseline_ok (cc_max_attempts (ce_config k)) 1 s0 = (out, s)"
        "crew_ok k s0"
        "cw_log s0 = Ev_Role ''navigator'' # map Ev_Read fs @
           (if cc_calibrate_baseline (ce_config k) then [Ev_Test baseline_ok] else [])"
        "baseline_ok \<longrightarrow> cc_calibrate_baseline (ce_config k)"
proof (cases "may_call k (crew_start w)")
  case False
  then show ?thesis
    using assms stopped crew_ok_start [of k w] by (simp add: run_crew_def crew_exit_def Let_def) auto
next
  case True
  obtain reply s1 where c: "call_role k ''navigator'' Tier_Standard (cc_navigator_model (ce_config k))
      (navigator_request (ce_task k) (ce_scope k) (ws_files (ce_workspace k) w)) (crew_start w) = (reply, s1)"
    by force
  have ok: "crew_ok k s1" by (rule call_role_ok [OF c True crew_ok_start])
  show ?thesis
  proof (cases reply)
    case None
    then show ?thesis
      using assms stopped ok c True by (simp add: run_crew_def crew_exit_def Let_def) auto
  next
    case (Some content)
    obtain curated s2 where cur: "curate k (parse_reply (rj_navigator (ce_json k)) [] content) s1 = (curated, s2)"
      by force
    define fs where "fs = filter (permits_fs_read (ce_caveats k)) (parse_reply (rj_navigator (ce_json k)) [] content)"
    have log: "cw_log s2 = Ev_Role ''navigator'' # map Ev_Read fs"
      using cur call_role_log [OF c] by (auto simp: curate_def Let_def fs_def crew_start_def)
    obtain b msg s3 where t: "run_test k s2 = ((b, msg), s3)" by (metis prod.exhaust)
    show ?thesis
    proof (cases "cc_calibrate_baseline (ce_config k)")
      case True
      have "crew_rounds k curated b (cc_max_attempts (ce_config k)) 1 s3 = (out, s)"
        using assms \<open>may_call k (crew_start w)\<close> c Some cur t True by (simp add: run_crew_def Let_def)
      then show ?thesis
        using True log run_test_log [OF t] ok curate_ok [OF cur] run_test_ok [OF t]
        by (intro rounds [of curated b s3 fs]) auto
    next
      case False
      have "crew_rounds k curated False (cc_max_attempts (ce_config k)) 1 s2 = (out, s)"
        using assms \<open>may_call k (crew_start w)\<close> c Some cur False by (simp add: run_crew_def Let_def)
      then show ?thesis
        using False log ok curate_ok [OF cur] by (intro rounds [of curated False s2 fs]) auto
    qed
  qed
qed

section \<open>Properties\<close>



section \<open>A run to instantiate the properties\<close>

definition sample_env :: "(bool, unit) crew_env" where
  "sample_env =
     \<lparr>ce_pool = [with_models [''n'', ''p'', ''t''] (PoolBackend_new ''b'' ''http://b'' Kind_Ollama)],
      ce_dispatcher = (\<lambda>_ _ model _ w.
        (Replied \<lparr>cr_content = ''{}'', cr_model_id = model, cr_usage = None\<rparr>, w)),
      ce_workspace = \<lparr>ws_files = (\<lambda>_. [''a'']), ws_read = (\<lambda>_ _. Some ''old''),
        ws_apply = (\<lambda>es w. (map ed_path es, es \<noteq> [] \<or> w)),
        ws_run_test = (\<lambda>w. ((w, []), w)), ws_set_test_command = (\<lambda>_ w. w)\<rparr>,
      ce_config = \<lparr>cc_navigator_model = ''n'', cc_planner_model = ''p'', cc_triage_model = ''t'',
        cc_max_attempts = 3, cc_role_timeout = Some 1, cc_calibrate_baseline = True\<rparr>,
      ce_caveats = \<lparr>cv_fs_read = Scope_Only {|''a''|}, cv_fs_write = Scope_Only {|''a''|},
        cv_exec = Scope_All, cv_net = Scope_All, cv_max_calls = CountBound_AtMost 2,
        cv_generation = Scope_All\<rparr>,
      ce_task = ''fix a'', ce_scope = [], ce_timeout_env = None,
      ce_json = \<lparr>rj_navigator = (\<lambda>_. Some [''a'', ''secret'']),
        rj_planner = (\<lambda>_. Some [\<lparr>ed_path = ''a'', ed_content = ''new''\<rparr>,
          \<lparr>ed_path = ''secret'', ed_content = ''new''\<rparr>]),
        rj_triage = (\<lambda>_. None)\<rparr>\<rparr>"

lemma sample_call:
  assumes "model \<in> {''n'', ''p'', ''t''}" "cw_steps s = steps"
  shows "\<exists>step. call_role sample_env role t model req s =
     (Some ''{}'', s\<lparr>cw_log := cw_log s @ [Ev_Role role], cw_calls := cw_calls s + 1,
        cw_steps := steps @ [step]\<rparr>)"
  using assms
  by (auto simp: call_role_def sample_env_def run_role_with_timeout_def ranked_candidates_def
      candidates_def is_live_def serves_def with_models_def PoolBackend_new_def)

lemma sample_plain: "lazy_emission_reason ''new'' = None"
proof -
  have "trim ''new'' = ''new''" by (rule trim_plain; code_simp)
  moreover have "str_lines ''new'' = [''new'']" by code_simp
  moreover have "dropWhile (\<lambda>c. c \<in> set leaders) ''new'' = ''new''" by code_simp
  moreover have "List.find (\<lambda>p. sublist p (lower_text ''new'')) ELISION_PHRASES = None" by code_simp
  ultimately show ?thesis
    by (simp add: lazy_emission_reason_def elision_in_def bare_line_def)
qed

lemma sample_blocks: "parse_file_blocks ''{}'' = []"
proof -
  have "str_lines ''{}'' = [''{}'']" by code_simp
  then show ?thesis by (simp add: parse_file_blocks_def strip_prefix_def)
qed

lemma sample_run:
  "\<exists>out s. run_crew sample_env False = (out, s) \<and> co_status out = CrewStatus_Passed \<and>
     co_attempts out = 1 \<and> co_touched out = [''a''] \<and> co_refused out = [''secret''] \<and>
     cw_log s = [Ev_Role ''navigator'', Ev_Read ''a'', Ev_Test False, Ev_Role ''planner'',
       Ev_Apply [\<lparr>ed_path = ''a'', ed_content = ''new''\<rparr>], Ev_Test True]"
proof -
  let ?s = "crew_start False"
  obtain step1 where c1: "call_role sample_env ''navigator'' Tier_Standard ''n''
      (navigator_request (ce_task sample_env) (ce_scope sample_env) (ws_files (ce_workspace sample_env) False)) ?s =
      (Some ''{}'', ?s\<lparr>cw_log := [Ev_Role ''navigator''], cw_calls := 1, cw_steps := [step1]\<rparr>)"
    using sample_call [of "''n''" ?s "[]" "''navigator''" Tier_Standard
      "navigator_request (ce_task sample_env) (ce_scope sample_env) (ws_files (ce_workspace sample_env) False)"]
    by (auto simp: crew_start_def)
  let ?s3 = "?s\<lparr>cw_log := [Ev_Role ''navigator'', Ev_Read ''a'', Ev_Test False], cw_calls := 1,
      cw_steps := [step1]\<rparr>"
  obtain curated where cur: "curate sample_env [''a'', ''secret'']
      (?s\<lparr>cw_log := [Ev_Role ''navigator''], cw_calls := 1, cw_steps := [step1]\<rparr>) =
      (curated, ?s\<lparr>cw_log := [Ev_Role ''navigator'', Ev_Read ''a''], cw_calls := 1, cw_steps := [step1]\<rparr>)"
    by (simp add: curate_def Let_def sample_env_def permits_fs_read_def)
  have test: "run_test sample_env (?s\<lparr>cw_log := [Ev_Role ''navigator'', Ev_Read ''a''], cw_calls := 1,
      cw_steps := [step1]\<rparr>) = ((False, []), ?s3)"
    by (simp add: run_test_def sample_env_def crew_start_def)
  obtain step2 where c2: "call_role sample_env ''planner'' Tier_Complex ''p''
      (planner_request (ce_task sample_env) (ce_scope sample_env) curated []) ?s3 =
      (Some ''{}'', ?s3\<lparr>cw_log := cw_log ?s3 @ [Ev_Role ''planner''], cw_calls := 2,
         cw_steps := [step1, step2]\<rparr>)"
    using sample_call [of "''p''" ?s3 "[step1]" "''planner''" Tier_Complex
      "planner_request (ce_task sample_env) (ce_scope sample_env) curated []"] by auto
  have budget: "may_call sample_env ?s" "may_call sample_env ?s3"
    by (simp_all add: may_call_def sample_env_def crew_start_def)
  have models: "cc_navigator_model (ce_config sample_env) = ''n''"
    "cc_planner_model (ce_config sample_env) = ''p''" "cc_max_attempts (ce_config sample_env) = 3"
    "cc_calibrate_baseline (ce_config sample_env)" "cw_failures ?s3 = []"
    "parse_reply (rj_navigator (ce_json sample_env)) [] ''{}'' = [''a'', ''secret'']"
    by (simp_all add: sample_env_def crew_start_def parse_reply_def)
  have edits: "parse_edits (ce_json sample_env) ''{}'' =
      [\<lparr>ed_path = ''a'', ed_content = ''new''\<rparr>, \<lparr>ed_path = ''secret'', ed_content = ''new''\<rparr>]"
    by (simp add: parse_edits_def sample_blocks parse_reply_def sample_env_def)
  let ?s4 = "?s3\<lparr>cw_log := cw_log ?s3 @ [Ev_Role ''planner''], cw_calls := 2, cw_steps := [step1, step2]\<rparr>"
  obtain out s where r: "apply_round sample_env False 1 [\<lparr>ed_path = ''a'', ed_content = ''new''\<rparr>,
      \<lparr>ed_path = ''secret'', ed_content = ''new''\<rparr>] ?s4 = (Some out, s)"
    and out: "co_status out = CrewStatus_Passed" "co_attempts out = 1" "co_touched out = [''a'']"
      "co_refused out = [''secret'']"
      "cw_log s = [Ev_Role ''navigator'', Ev_Read ''a'', Ev_Test False, Ev_Role ''planner'',
       Ev_Apply [\<lparr>ed_path = ''a'', ed_content = ''new''\<rparr>], Ev_Test True]"
    by (simp add: apply_round_def judge_def Let_def permits_fs_write_def scope_permits_def
        sample_plain apply_edits_def run_test_def sample_env_def classify_verify_def crew_exit_def
        crew_start_def)
  have "crew_round sample_env curated False 1 ?s3 = (Some out, s)"
    using budget(2) c2 r by (simp add: crew_round_def models edits)
  then have "crew_rounds sample_env curated False 3 1 ?s3 = (out, s)"
    by (simp add: eval_nat_numeral)
  then have "run_crew sample_env False = (out, s)"
    using budget(1) c1 cur test by (simp add: run_crew_def Let_def models)
  then show ?thesis using out by blast
qed



section \<open>Where calibration does not look\<close>

text \<open>
  A crew with a verify-only task whose check always succeeds: its first reply carries one file and
  one elided file, its second carries none.
\<close>

definition lazy_env :: "(nat, unit) crew_env" where
  "lazy_env =
     \<lparr>ce_pool = [with_models [''n'', ''p'', ''t''] (PoolBackend_new ''b'' ''http://b'' Kind_Ollama)],
      ce_dispatcher = (\<lambda>_ _ model _ w.
        (Replied \<lparr>cr_content = (if w = 1 then ''first'' else ''{}''), cr_model_id = model, cr_usage = None\<rparr>, w + 1)),
      ce_workspace = \<lparr>ws_files = (\<lambda>_. [''a'']), ws_read = (\<lambda>_ _. Some ''old''),
        ws_apply = (\<lambda>es w. (map ed_path es, w)),
        ws_run_test = (\<lambda>w. ((True, []), w)), ws_set_test_command = (\<lambda>_ w. w)\<rparr>,
      ce_config = \<lparr>cc_navigator_model = ''n'', cc_planner_model = ''p'', cc_triage_model = ''t'',
        cc_max_attempts = 2, cc_role_timeout = Some 1, cc_calibrate_baseline = True\<rparr>,
      ce_caveats = \<lparr>cv_fs_read = Scope_All, cv_fs_write = Scope_All,
        cv_exec = Scope_All, cv_net = Scope_All, cv_max_calls = CountBound_Unlimited,
        cv_generation = Scope_All\<rparr>,
      ce_task = ''verify'', ce_scope = [], ce_timeout_env = None,
      ce_json = \<lparr>rj_navigator = (\<lambda>_. Some []),
        rj_planner = (\<lambda>c. if c = ''first'' then Some [\<lparr>ed_path = ''a'', ed_content = ''new''\<rparr>,
          \<lparr>ed_path = ''b'', ed_content = []\<rparr>] else Some []),
        rj_triage = (\<lambda>_. None)\<rparr>\<rparr>"

lemma lazy_call:
  assumes "model \<in> {''n'', ''p'', ''t''}"
  shows "\<exists>step. call_role lazy_env role t model req s =
     (Some (if cw_world s = 1 then ''first'' else ''{}''),
      s\<lparr>cw_world := cw_world s + 1, cw_log := cw_log s @ [Ev_Role role],
        cw_calls := cw_calls s + 1, cw_steps := cw_steps s @ [step]\<rparr>)"
  using assms
  by (auto simp: call_role_def lazy_env_def run_role_with_timeout_def ranked_candidates_def
      candidates_def is_live_def serves_def with_models_def PoolBackend_new_def)

text \<open>
  Calibration looks at what the last applied plan wrote. Edits that an earlier round landed are
  forgotten when the last round writes nothing: a check that was already green before any edit is
  then reported as a pass, although the crew changed the tree.
\<close>

lemma calibration_forgets_earlier_edits:
  "\<exists>out s. run_crew lazy_env 0 = (out, s) \<and> cc_calibrate_baseline (ce_config lazy_env) \<and>
     co_status out = CrewStatus_Passed \<and> co_touched out = [] \<and>
     cw_log s = [Ev_Role ''navigator'', Ev_Test True, Ev_Role ''planner'',
       Ev_Apply [\<lparr>ed_path = ''a'', ed_content = ''new''\<rparr>], Ev_Role ''planner'', Ev_Apply [], Ev_Test True]"
proof -
  have budget: "may_call lazy_env s" for s by (simp add: may_call_def lazy_env_def)
  have fields: "cc_navigator_model (ce_config lazy_env) = ''n''" "cc_planner_model (ce_config lazy_env) = ''p''"
    "cc_max_attempts (ce_config lazy_env) = 2" "cc_calibrate_baseline (ce_config lazy_env)"
    "ce_scope lazy_env = []" "ce_task lazy_env = ''verify''"
    "parse_reply (rj_navigator (ce_json lazy_env)) [] ''{}'' = []"
    "permits_fs_write (ce_caveats lazy_env) f" "ws_apply (ce_workspace lazy_env) es v = (map ed_path es, v)"
    "ws_run_test (ce_workspace lazy_env) v = ((True, []), v)" for f es v
    by (simp_all add: lazy_env_def parse_reply_def permits_fs_write_def)
  have first: "parse_file_blocks ''first'' = []"
  proof -
    have "str_lines ''first'' = [''first'']" by code_simp
    then show ?thesis by (simp add: parse_file_blocks_def strip_prefix_def)
  qed
  have edits: "parse_edits (ce_json lazy_env) ''first'' =
      [\<lparr>ed_path = ''a'', ed_content = ''new''\<rparr>, \<lparr>ed_path = ''b'', ed_content = []\<rparr>]"
    "parse_edits (ce_json lazy_env) ''{}'' = []"
    by (simp_all add: parse_edits_def first sample_blocks parse_reply_def lazy_env_def)
  have empty: "lazy_emission_reason [] = Some ''empty file content''"
  proof -
    have "trim [] = []"
      by (simp add: trim_def trim_start_def trim_end_def trim_start_of_id ws_split_None_iff)
    then show ?thesis by (simp add: lazy_emission_reason_def)
  qed
  have idle: "\<not> task_requires_change ''verify''"
    unfolding task_requires_change_def by code_simp
  obtain step1 where c1: "call_role lazy_env ''navigator'' Tier_Standard ''n''
      (navigator_request ''verify'' [] (ws_files (ce_workspace lazy_env) 0)) (crew_start 0) =
      (Some ''{}'', (crew_start 0)\<lparr>cw_world := 1, cw_log := [Ev_Role ''navigator''], cw_calls := 1, cw_steps := [step1]\<rparr>)"
    using lazy_call [of "''n''" "''navigator''" Tier_Standard
      "navigator_request ''verify'' [] (ws_files (ce_workspace lazy_env) 0)" "crew_start 0"]
    by (auto simp: crew_start_def)
  let ?s1 = "(crew_start 0)\<lparr>cw_world := 1, cw_log := [Ev_Role ''navigator''], cw_calls := 1, cw_steps := [step1]\<rparr>"
  let ?s2 = "?s1\<lparr>cw_log := [Ev_Role ''navigator'', Ev_Test True]\<rparr>"
  have cur: "curate lazy_env [] ?s1 = ([], ?s1)"
    by (simp add: curate_def Let_def map_filter_def)
  have test: "run_test lazy_env ?s1 = ((True, []), ?s2)"
    by (simp add: run_test_def lazy_env_def crew_start_def)
  obtain step2 where c2: "call_role lazy_env ''planner'' Tier_Complex ''p''
      (planner_request ''verify'' [] [] []) ?s2 =
      (Some ''first'', ?s2\<lparr>cw_world := 2, cw_log := cw_log ?s2 @ [Ev_Role ''planner''], cw_calls := 2,
         cw_steps := [step1, step2]\<rparr>)"
    using lazy_call [of "''p''" "''planner''" Tier_Complex "planner_request ''verify'' [] [] []" ?s2]
    by (auto simp: crew_start_def)
  obtain s3 where r1: "crew_round lazy_env [] True 1 ?s2 = (None, s3)"
    and s3: "cw_world s3 = 2" "cw_log s3 = [Ev_Role ''navigator'', Ev_Test True, Ev_Role ''planner'',
       Ev_Apply [\<lparr>ed_path = ''a'', ed_content = ''new''\<rparr>]]"
    using c2 by (simp add: crew_round_def budget fields edits apply_round_def
        scope_permits_def sample_plain empty apply_edits_def push_failure_def crew_start_def)
  obtain step3 where c3: "call_role lazy_env ''planner'' Tier_Complex ''p''
      (planner_request ''verify'' [] [] (cw_failures s3)) s3 =
      (Some ''{}'', s3\<lparr>cw_world := 3, cw_log := cw_log s3 @ [Ev_Role ''planner''],
         cw_calls := cw_calls s3 + 1, cw_steps := cw_steps s3 @ [step3]\<rparr>)"
    using lazy_call [of "''p''" "''planner''" Tier_Complex "planner_request ''verify'' [] [] (cw_failures s3)" s3] s3
    by auto
  obtain out s4 where r2: "crew_round lazy_env [] True 2 s3 = (Some out, s4)"
    and out: "co_status out = CrewStatus_Passed" "co_touched out = []"
      "cw_log s4 = cw_log s3 @ [Ev_Role ''planner'', Ev_Apply [], Ev_Test True]"
    using c3 by (simp add: crew_round_def budget fields edits apply_round_def judge_def idle
        apply_edits_def run_test_def refusal_notes_def classify_verify_def crew_exit_def)
  have "crew_rounds lazy_env [] True 2 1 ?s2 = (out, s4)"
    using r1 r2 by (simp add: eval_nat_numeral)
  then have "run_crew lazy_env 0 = (out, s4)"
    using c1 cur test by (simp add: run_crew_def Let_def fields budget)
  then show ?thesis using out s3 fields by simp
qed

section \<open>Reading an emission\<close>

text \<open>The lines of the block in which a reply carries the lines of one file.\<close>

definition block_lines :: "string \<times> string list \<Rightarrow> string list" where
  "block_lines b = [''FILE: '' @ fst b] @ snd b @ [''END-FILE'']"

lemma trim_space: "trim (CHR '' '' # s) = trim s"
proof -
  have "trim_start (CHR '' '' # s) = trim_start s"
    unfolding trim_start_def
    by (subst trim_start_of.simps) (simp add: ws_split_def white_space_def char_of_eq_iff)
  then show ?thesis by (simp add: trim_def)
qed

lemma take_block_end:
  assumes "\<forall>l \<in> set ls. trim l \<noteq> ''END-FILE''"
  shows "take_block body (ls @ ''END-FILE'' # rest) = Some (body @ ls, rest)"
proof -
  have "trim ''END-FILE'' = ''END-FILE''" by (rule trim_plain; code_simp)
  then show ?thesis using assms by (induction ls arbitrary: body) auto
qed

lemma file_blocks_lines:
  assumes "\<forall>b \<in> set bs. trim (fst b) = fst b \<and> fst b \<noteq> [] \<and> (\<forall>l \<in> set (snd b). trim l \<noteq> ''END-FILE'')"
  shows "file_blocks (concat (map block_lines bs)) =
     map (\<lambda>b. \<lparr>ed_path = fst b, ed_content = join_on newline (snd b)\<rparr>) bs"
  using assms
proof (induction bs)
  case (Cons b bs)
  have "strip_prefix ''FILE:'' (''FILE: '' @ fst b) = Some (CHR '' '' # fst b)"
    by (simp add: strip_prefix_Some_iff)
  then show ?case
    using Cons by (simp add: block_lines_def take_block_end trim_space)
qed simp

lemma strip_cr_last: "l \<noteq> [] \<Longrightarrow> last l \<noteq> char_of (13::nat) \<Longrightarrow> strip_cr l = l"
  by (simp add: strip_cr_def)

text \<open>
  A reply of blocks is read as the files it carries, in order, but not verbatim: whatever lines
  of whatever files a reply carries (no line of a body reading as the end marker), each file is
  read with its lines joined by bare newlines, so the newline that ends the last line and the
  carriage returns of all lines are lost.
\<close>

theorem emission_loses_line_ends:
  assumes "\<forall>b \<in> set bs. fst b \<noteq> [] \<and> plain_char (hd (fst b)) \<and> plain_char (last (fst b)) \<and>
      newline \<notin> set (fst b) \<and>
      (\<forall>l \<in> set (snd b). newline \<notin> set l \<and> trim (strip_cr l) \<noteq> ''END-FILE'')"
  shows "parse_file_blocks (lines_terminated (concat (map block_lines bs))) =
     map (\<lambda>b. \<lparr>ed_path = fst b, ed_content = join_on newline (map strip_cr (snd b))\<rparr>) bs"
proof -
  let ?strip = "\<lambda>b. (fst b, map strip_cr (snd b))"
  have no_newline: "newline \<notin> set ''FILE: ''" "newline \<notin> set ''END-FILE''"
    by (simp_all add: newline_def char_of_eq_iff)
  have lines: "\<forall>l \<in> set (concat (map block_lines bs)). newline \<notin> set l"
    using assms no_newline by (auto simp: block_lines_def)
  have cr: "\<not> plain_char (char_of (13::nat))" by code_simp
  have ends: "strip_cr ''END-FILE'' = ''END-FILE''" by code_simp
  have "map strip_cr (block_lines b) = block_lines (?strip b)" if "b \<in> set bs" for b
  proof -
    have "last (''FILE: '' @ fst b) \<noteq> char_of (13::nat)"
      using assms that cr by (auto simp: last_append)
    then have "strip_cr (''FILE: '' @ fst b) = ''FILE: '' @ fst b" by (intro strip_cr_last) simp_all
    then show ?thesis using ends by (simp add: block_lines_def)
  qed
  then have "map strip_cr (concat (map block_lines bs)) = concat (map block_lines (map ?strip bs))"
    by (simp add: map_concat comp_def cong: map_cong)
  then have "str_lines (lines_terminated (concat (map block_lines bs))) = concat (map block_lines (map ?strip bs))"
    by (simp only: str_lines_terminated [OF lines])
  moreover have "\<forall>b \<in> set (map ?strip bs). trim (fst b) = fst b \<and> fst b \<noteq> [] \<and>
      (\<forall>l \<in> set (snd b). trim l \<noteq> ''END-FILE'')"
    using assms trim_plain by fastforce
  then have "file_blocks (concat (map block_lines (map ?strip bs))) =
      map (\<lambda>b. \<lparr>ed_path = fst b, ed_content = join_on newline (snd b)\<rparr>) (map ?strip bs)"
    by (rule file_blocks_lines)
  ultimately show ?thesis by (simp add: parse_file_blocks_def comp_def)
qed

lemma emission_loses_line_ends_witness:
  "parse_file_blocks (lines_terminated (block_lines (''a.rs'', [''fn a() {'', ''}'']))) =
     [\<lparr>ed_path = ''a.rs'', ed_content = ''fn a() {'' @ [newline] @ ''}''\<rparr>]"
proof -
  have marks: "trim ''fn a() {'' = ''fn a() {''" "trim ''}'' = ''}''"
    by (rule trim_plain; code_simp)+
  have strip: "strip_cr ''fn a() {'' = ''fn a() {''" "strip_cr ''}'' = ''}''" by code_simp+
  have plain: "plain_char CHR ''a''" "plain_char CHR ''s''" by code_simp+
  show ?thesis
    using emission_loses_line_ends [of "[(''a.rs'', [''fn a() {'', ''}''])]"] marks strip plain
    by (simp add: newline_def char_of_eq_iff)
qed

text \<open>The fence compares texts: a path that climbs out of a listed directory is inside it.\<close>

lemma fence_is_not_normalised: "scope_permits [''src/''] ''src/../Cargo.toml''"
proof -
  have "trim ''src/'' = ''src/''" by (rule trim_plain; code_simp)
  then show ?thesis
    by (simp add: scope_permits_def entry_permits_def without_dot_slash_def without_last_slash_def
        strip_prefix_def)
qed

end
