(* ===== verification/Team.thy ===== *)
theory Team
  imports Crew
begin

text \<open>
  Teams and panels, \<^verbatim>\<open>newt-scheduler/src/team.rs\<close> and \<^verbatim>\<open>panel.rs\<close>. A team breaks a
  goal into subtasks and gives each to a crew in a workspace of its own, up to the first that
  blocks; a panel puts one task to several models and accepts the passing answer that most of them
  gave. The factory of workspaces and the verifier are traits, records of functions over the world.
\<close>

section \<open>Teams\<close>

record team_config =
  tc_lead_model :: string
  tc_lead_tier :: tier
  tc_crew :: crew_config
  tc_max_subtasks :: nat

datatype leaf_status = SubtaskStatus_Passed | SubtaskStatus_NeedsHumanReview | SubtaskStatus_Skipped

record subtask_result =
  sr_subtask :: string
  sr_status :: leaf_status
  sr_attempts :: nat

datatype team_status = TeamStatus_AllPassed | TeamStatus_Blocked | TeamStatus_NoPlan

record team_outcome =
  to_status :: team_status
  to_plan :: "string list"
  to_results :: "subtask_result list"
  to_consolidated :: "string option"

record 'w workspace_factory =
  wf_create :: "string \<Rightarrow> 'w \<Rightarrow> (string + 'w workspace) \<times> 'w"
  wf_land :: "'w workspace \<Rightarrow> string \<Rightarrow> 'w \<Rightarrow> (string + string) \<times> 'w"
  wf_consolidate :: "string list \<Rightarrow> 'w \<Rightarrow> (string + string) \<times> 'w"

record planned =
  pd_task :: string
  pd_verify :: "string option"
  pd_files :: "string list"

text \<open>An entry of the lead's plan; the JSON of the plan is an argument.\<close>

datatype subtask_spec = Spec_Plain string | Spec_Detailed string "string option" "string list"

fun planned_of :: "subtask_spec \<Rightarrow> planned" where
  "planned_of (Spec_Plain task) = \<lparr>pd_task = task, pd_verify = None, pd_files = []\<rparr>"
| "planned_of (Spec_Detailed task verify files) =
     \<lparr>pd_task = task,
      pd_verify = (case verify of Some v \<Rightarrow> if trim v = [] then None else Some v | None \<Rightarrow> None),
      pd_files = filter (\<lambda>f. f \<noteq> []) (map trim files)\<rparr>"

definition parse_plan :: "(string \<Rightarrow> subtask_spec list option) \<Rightarrow> string \<Rightarrow> nat \<Rightarrow> planned list" where
  "parse_plan from_str content cap =
     take cap (filter (\<lambda>s. pd_task s \<noteq> [])
       (map (\<lambda>spec. let s = planned_of spec in s\<lparr>pd_task := trim (pd_task s)\<rparr>)
         (parse_reply from_str [] content)))"

definition lead_request :: "string \<Rightarrow> nat \<Rightarrow> chat_request" where
  "lead_request goal cap =
     user_message
       (''GOAL:'' @ nl @ goal @ nl @ nl @ ''At most '' @ show_nat cap @ '' subtasks.'')
       (system_message
         (''You are a tech lead. Break the GOAL into an ordered list of small, '' @
          ''independently-verifiable engineering subtasks. Reply with ONLY JSON {'' @
          quoted ''subtasks'' @ '':[{'' @ quoted ''task'' @ '':'' @ quoted ''<imperative step>'' @ '','' @
          quoted ''verify'' @ '':'' @
          quoted (''<a shell command that exits 0 once THIS step is done; omit if there is no '' @
                  ''per-step check>'') @ '','' @
          quoted ''files'' @ '':['' @
          quoted (''<relative path of a REAL existing file this step edits; omit if unknown>'') @
          '']}]} '' @ dash @ '' concrete, smallest-first.'')
         ChatRequest_new)"

text \<open>
  What a team is run with. Everything but the workspace, the task and the scope of a crew comes
  from here.
\<close>

record ('w, 'g) team_env =
  te_pool :: pool
  te_dispatcher :: "'w dispatcher"
  te_factory :: "'w workspace_factory"
  te_config :: team_config
  te_caveats :: "'g caveats"
  te_timeout_env :: "string option"
  te_json :: role_json
  te_plan_json :: "string \<Rightarrow> subtask_spec list option"
  te_def_sites :: "string \<Rightarrow> string list"

text \<open>The calls on the factory and on the crews, in order.\<close>

datatype team_event =
    Te_Create string
  | Te_Verify string
  | Te_Crew string "string list" crew_outcome
  | Te_Land string
  | Te_Consolidate "string list"

record 'w team =
  tw_world :: 'w
  tw_log :: "team_event list"
  tw_results :: "subtask_result list"
  tw_branches :: "string list"
  tw_blocked :: bool

definition result_of :: "string \<Rightarrow> leaf_status \<Rightarrow> nat \<Rightarrow> subtask_result" where
  "result_of task status attempts =
     \<lparr>sr_subtask = task, sr_status = status, sr_attempts = attempts\<rparr>"

definition leaf_env :: "('w, 'g) team_env \<Rightarrow> 'w workspace \<Rightarrow> planned \<Rightarrow> ('w, 'g) crew_env" where
  "leaf_env k ws st =
     \<lparr>ce_pool = te_pool k, ce_dispatcher = te_dispatcher k, ce_workspace = ws,
      ce_config = tc_crew (te_config k), ce_caveats = te_caveats k, ce_task = pd_task st,
      ce_scope = ground_scope (pd_task st) (pd_files st) (te_def_sites k),
      ce_timeout_env = te_timeout_env k, ce_json = te_json k\<rparr>"

text \<open>The lead's check is installed only when the exec caveat permits that very command.\<close>

definition install_verify :: "('w, 'g) team_env \<Rightarrow> 'w workspace \<Rightarrow> planned \<Rightarrow> 'w team \<Rightarrow> 'w team" where
  "install_verify k ws st s =
     (case pd_verify st of
        Some v \<Rightarrow>
          if permits_exec (te_caveats k) v
          then s\<lparr>tw_world := ws_set_test_command ws v (tw_world s),
                 tw_log := tw_log s @ [Te_Verify v]\<rparr>
          else s
      | None \<Rightarrow> s)"

definition record_result :: "planned \<Rightarrow> leaf_status \<Rightarrow> nat \<Rightarrow> 'w team \<Rightarrow> 'w team" where
  "record_result st status attempts s =
     s\<lparr>tw_results := tw_results s @ [result_of (pd_task st) status attempts]\<rparr>"

definition run_subtask :: "('w, 'g) team_env \<Rightarrow> planned \<Rightarrow> 'w team \<Rightarrow> 'w team" where
  "run_subtask k st s =
     (if tw_blocked s then record_result st SubtaskStatus_Skipped 0 s
      else
        (case wf_create (te_factory k) (pd_task st) (tw_world s) of
           (Inl _, w1) \<Rightarrow>
             record_result st SubtaskStatus_NeedsHumanReview 0
               (s\<lparr>tw_world := w1, tw_log := tw_log s @ [Te_Create (pd_task st)], tw_blocked := True\<rparr>)
         | (Inr ws, w1) \<Rightarrow>
             (let s1 = install_verify k ws st
                    (s\<lparr>tw_world := w1, tw_log := tw_log s @ [Te_Create (pd_task st)]\<rparr>);
                  (outcome, crew) = run_crew (leaf_env k ws st) (tw_world s1);
                  s2 = s1\<lparr>tw_world := cw_world crew,
                    tw_log := tw_log s1 @ [Te_Crew (pd_task st) (ce_scope (leaf_env k ws st)) outcome]\<rparr>
              in if co_status outcome = CrewStatus_Passed
                 then (case wf_land (te_factory k) ws (pd_task st) (tw_world s2) of
                         (Inr branch, w2) \<Rightarrow>
                           record_result st SubtaskStatus_Passed (co_attempts outcome)
                             (s2\<lparr>tw_world := w2, tw_log := tw_log s2 @ [Te_Land (pd_task st)],
                                tw_branches := tw_branches s2 @ [branch]\<rparr>)
                       | (Inl _, w2) \<Rightarrow>
                           record_result st SubtaskStatus_NeedsHumanReview (co_attempts outcome)
                             (s2\<lparr>tw_world := w2, tw_log := tw_log s2 @ [Te_Land (pd_task st)],
                                tw_blocked := True\<rparr>))
                 else record_result st SubtaskStatus_NeedsHumanReview (co_attempts outcome)
                        (s2\<lparr>tw_blocked := True\<rparr>))))"

definition no_plan :: team_outcome where
  "no_plan = \<lparr>to_status = TeamStatus_NoPlan, to_plan = [], to_results = [], to_consolidated = None\<rparr>"

definition consolidate_team :: "('w, 'g) team_env \<Rightarrow> planned list \<Rightarrow> 'w team \<Rightarrow> team_outcome \<times> 'w team" where
  "consolidate_team k plan s =
     (let (consolidated, s1) =
        (if tw_blocked s then (None, s)
         else
           (case wf_consolidate (te_factory k) (tw_branches s) (tw_world s) of
              (Inr artifact, w') \<Rightarrow>
                (Some artifact, s\<lparr>tw_world := w', tw_log := tw_log s @ [Te_Consolidate (tw_branches s)]\<rparr>)
            | (Inl _, w') \<Rightarrow>
                (None, s\<lparr>tw_world := w', tw_log := tw_log s @ [Te_Consolidate (tw_branches s)],
                         tw_blocked := True\<rparr>)))
      in (\<lparr>to_status = (if tw_blocked s1 then TeamStatus_Blocked else TeamStatus_AllPassed),
           to_plan = map pd_task plan, to_results = tw_results s1, to_consolidated = consolidated\<rparr>,
          s1))"

definition team_start :: "'w \<Rightarrow> 'w team" where
  "team_start w = \<lparr>tw_world = w, tw_log = [], tw_results = [], tw_branches = [], tw_blocked = False\<rparr>"

definition run_team :: "('w, 'g) team_env \<Rightarrow> string \<Rightarrow> 'w \<Rightarrow> team_outcome \<times> 'w team" where
  "run_team k goal w =
     (case run_role (te_pool k) (te_dispatcher k) (te_timeout_env k) (tc_lead_tier (te_config k))
             (tc_lead_model (te_config k)) (lead_request goal (tc_max_subtasks (te_config k))) w of
        (None, w1) \<Rightarrow> (no_plan, team_start w1)
      | (Some f, w1) \<Rightarrow>
          (let plan = parse_plan (te_plan_json k) (cr_content (fo_result f))
                 (tc_max_subtasks (te_config k))
           in if plan = [] then (no_plan, team_start w1)
              else consolidate_team k plan (foldl (\<lambda>s st. run_subtask k st s) (team_start w1) plan)))"

section \<open>Panels\<close>

record voice_spec =
  vs_name :: string
  vs_model :: string

record panel_config =
  pc_voices :: "voice_spec list"
  pc_tier :: tier

record vote =
  vo_voice :: string
  vo_passed :: bool
  vo_candidate :: "string option"

datatype panel_status = PanelStatus_Accepted | PanelStatus_NeedsHumanReview

record panel_outcome =
  po_status :: panel_status
  po_accepted :: "string option"
  po_votes :: "vote list"

definition passers :: "panel_outcome \<Rightarrow> nat" where
  "passers out = length (filter vo_passed (po_votes out))"

definition voice_request :: "string \<Rightarrow> chat_request" where
  "voice_request task =
     user_message task
       (system_message
         (''You are ONE independent voice on a review panel. Answer the task on your own; do not '' @
          ''assume other voices agree with you.'')
         ChatRequest_new)"

text \<open>
  The counts of the code are kept in a map from candidates, and the candidates in the order of
  their first insertion.
\<close>

fun tally :: "string list \<Rightarrow> (string \<rightharpoonup> nat) \<Rightarrow> string list \<Rightarrow> (string \<rightharpoonup> nat) \<times> string list" where
  "tally [] counts order = (counts, order)"
| "tally (c # cs) counts order =
     tally cs (counts(c \<mapsto> (case counts c of None \<Rightarrow> 1 | Some n \<Rightarrow> n + 1)))
       (if counts c = None then order @ [c] else order)"

definition passing_candidates :: "vote list \<Rightarrow> string list" where
  "passing_candidates votes = List.map_filter vo_candidate (filter vo_passed votes)"

definition select_by_agreement :: "vote list \<Rightarrow> string option" where
  "select_by_agreement votes =
     (let (counts, order) = tally (passing_candidates votes) (\<lambda>_. None) []
      in max_by_key (\<lambda>c. the (counts c)) order)"

definition ask_voice ::
    "pool \<Rightarrow> 'w dispatcher \<Rightarrow> string option \<Rightarrow> (string \<Rightarrow> string \<Rightarrow> 'w \<Rightarrow> bool \<times> 'w) \<Rightarrow> tier \<Rightarrow>
      string \<Rightarrow> voice_spec \<Rightarrow> 'w \<Rightarrow> vote \<times> 'w" where
  "ask_voice p d env verify t task voice w =
     (case run_role p d env t (vs_model voice) (voice_request task) w of
        (Some f, w1) \<Rightarrow>
          (let c = cr_content (fo_result f); (passed, w2) = verify (vs_name voice) c w1
           in (\<lparr>vo_voice = vs_name voice, vo_passed = passed, vo_candidate = Some c\<rparr>, w2))
      | (None, w1) \<Rightarrow>
          (\<lparr>vo_voice = vs_name voice, vo_passed = False, vo_candidate = None\<rparr>, w1))"

fun ask_voices ::
    "(voice_spec \<Rightarrow> 'w \<Rightarrow> vote \<times> 'w) \<Rightarrow> voice_spec list \<Rightarrow> 'w \<Rightarrow> vote list \<times> 'w" where
  "ask_voices one [] w = ([], w)"
| "ask_voices one (v # vs) w =
     (case one v w of (vt, w1) \<Rightarrow> (case ask_voices one vs w1 of (vts, w2) \<Rightarrow> (vt # vts, w2)))"

definition run_panel ::
    "pool \<Rightarrow> 'w dispatcher \<Rightarrow> string option \<Rightarrow> (string \<Rightarrow> string \<Rightarrow> 'w \<Rightarrow> bool \<times> 'w) \<Rightarrow>
      panel_config \<Rightarrow> string \<Rightarrow> 'w \<Rightarrow> panel_outcome \<times> 'w" where
  "run_panel p d env verify cfg task w =
     (case ask_voices (ask_voice p d env verify (pc_tier cfg) task) (pc_voices cfg) w of
        (votes, w1) \<Rightarrow>
          (let accepted = select_by_agreement votes
           in (\<lparr>po_status = (if accepted \<noteq> None then PanelStatus_Accepted
                            else PanelStatus_NeedsHumanReview),
                po_accepted = accepted, po_votes = votes\<rparr>, w1)))"

section \<open>The shape of a team's run\<close>

fun created :: "team_event list \<Rightarrow> string list" where
  "created [] = []"
| "created (Te_Create t # log) = t # created log"
| "created (_ # log) = created log"

lemma created_append [simp]: "created (xs @ ys) = created xs @ created ys"
  by (induction xs rule: created.induct) simp_all

text \<open>Passed up to the first that blocked, that one for review, and the rest skipped.\<close>

definition statuses :: "nat \<Rightarrow> nat \<Rightarrow> leaf_status list" where
  "statuses all passed =
     replicate passed SubtaskStatus_Passed @
     (if passed < all
      then SubtaskStatus_NeedsHumanReview # replicate (all - Suc passed) SubtaskStatus_Skipped
      else [])"

definition team_inv :: "('w, 'g) team_env \<Rightarrow> planned list \<Rightarrow> nat \<Rightarrow> 'w team \<Rightarrow> bool" where
  "team_inv k sts0 n s \<longleftrightarrow>
     map sr_subtask (tw_results s) = map pd_task sts0 \<and>
     map sr_status (tw_results s) = statuses (length sts0) n \<and> n \<le> length sts0 \<and>
     (tw_blocked s \<longleftrightarrow> n < length sts0) \<and> length (tw_branches s) = n \<and>
     created (tw_log s) = take (Suc n) (map pd_task sts0) \<and>
     (\<forall>r \<in> set (tw_results s). sr_status r = SubtaskStatus_Skipped \<longrightarrow> sr_attempts r = 0) \<and>
     (\<forall>v. Te_Verify v \<in> set (tw_log s) \<longrightarrow> permits_exec (te_caveats k) v) \<and>
     (\<forall>bs. Te_Consolidate bs \<notin> set (tw_log s))"

lemma statuses_grow:
  "statuses (Suc n) (Suc n) = statuses n n @ [SubtaskStatus_Passed]"
  "statuses (Suc n) n = statuses n n @ [SubtaskStatus_NeedsHumanReview]"
  "p < n \<Longrightarrow> statuses (Suc n) p = statuses n p @ [SubtaskStatus_Skipped]"
  by (simp_all add: statuses_def Suc_diff_Suc replicate_append_same flip: replicate_Suc)

lemma install_verify_frame:
  "tw_results (install_verify k ws st s) = tw_results s"
  "tw_branches (install_verify k ws st s) = tw_branches s"
  "tw_blocked (install_verify k ws st s) = tw_blocked s"
  "created (tw_log (install_verify k ws st s)) = created (tw_log s)"
  "Te_Verify v \<in> set (tw_log (install_verify k ws st s)) \<Longrightarrow>
     Te_Verify v \<in> set (tw_log s) \<or> permits_exec (te_caveats k) v"
  "Te_Consolidate bs \<in> set (tw_log (install_verify k ws st s)) \<longleftrightarrow> Te_Consolidate bs \<in> set (tw_log s)"
  by (auto simp: install_verify_def split: option.splits if_splits)

text \<open>What a subtask does to an unblocked state: one result, passed with a branch or for review.\<close>

lemma run_subtask_free:
  assumes "\<not> tw_blocked s"
  obtains (landed) attempts branch where
      "tw_results (run_subtask k st s) = tw_results s @ [result_of (pd_task st) SubtaskStatus_Passed attempts]"
      "tw_branches (run_subtask k st s) = tw_branches s @ [branch]" "\<not> tw_blocked (run_subtask k st s)"
  | (blocked) attempts where
      "tw_results (run_subtask k st s) = tw_results s @ [result_of (pd_task st) SubtaskStatus_NeedsHumanReview attempts]"
      "tw_branches (run_subtask k st s) = tw_branches s" "tw_blocked (run_subtask k st s)"
proof -
  let ?s = "run_subtask k st s"
  have "(\<exists>attempts branch.
      tw_results ?s = tw_results s @ [result_of (pd_task st) SubtaskStatus_Passed attempts] \<and>
      tw_branches ?s = tw_branches s @ [branch] \<and> \<not> tw_blocked ?s) \<or>
    (\<exists>attempts.
      tw_results ?s = tw_results s @ [result_of (pd_task st) SubtaskStatus_NeedsHumanReview attempts] \<and>
      tw_branches ?s = tw_branches s \<and> tw_blocked ?s)"
    using assms
    by (auto simp: run_subtask_def record_result_def install_verify_frame Let_def
        split: prod.splits sum.splits)
  then show ?thesis using landed blocked by blast
qed

lemma run_subtask_log:
  "created (tw_log (run_subtask k st s)) =
     created (tw_log s) @ (if tw_blocked s then [] else [pd_task st])"
  "Te_Verify v \<in> set (tw_log (run_subtask k st s)) \<Longrightarrow>
     Te_Verify v \<in> set (tw_log s) \<or> permits_exec (te_caveats k) v"
  "Te_Consolidate bs \<in> set (tw_log (run_subtask k st s)) \<longleftrightarrow> Te_Consolidate bs \<in> set (tw_log s)"
  by (auto simp: run_subtask_def record_result_def install_verify_frame Let_def
      split: prod.splits sum.splits if_splits dest!: install_verify_frame(5))

lemma team_inv_step:
  assumes "team_inv k sts0 n s"
  shows "\<exists>m. team_inv k (sts0 @ [st]) m (run_subtask k st s)"
proof (cases "tw_blocked s")
  case True
  then have "team_inv k (sts0 @ [st]) n (run_subtask k st s)"
    using assms run_subtask_log [where k = k and st = st and s = s]
    by (auto simp: team_inv_def statuses_grow run_subtask_def record_result_def result_of_def)
  then show ?thesis ..
next
  case False
  then have n: "n = length sts0" using assms by (auto simp: team_inv_def)
  from False show ?thesis
  proof (cases rule: run_subtask_free [of s k st])
    case (landed attempts branch)
    then have "team_inv k (sts0 @ [st]) (Suc n) (run_subtask k st s)"
      using assms False n run_subtask_log [where k = k and st = st and s = s]
      by (auto simp: team_inv_def statuses_grow result_of_def)
    then show ?thesis ..
  next
    case (blocked attempts)
    then have "team_inv k (sts0 @ [st]) n (run_subtask k st s)"
      using assms False n run_subtask_log [where k = k and st = st and s = s]
      by (auto simp: team_inv_def statuses_grow result_of_def)
    then show ?thesis ..
  qed
qed

lemma team_inv_all:
  "team_inv k sts0 n s \<Longrightarrow>
     \<exists>m. team_inv k (sts0 @ sts) m (foldl (\<lambda>s st. run_subtask k st s) s sts)"
proof (induction sts arbitrary: sts0 n s)
  case (Cons st sts)
  obtain m where "team_inv k (sts0 @ [st]) m (run_subtask k st s)"
    using team_inv_step [OF Cons.prems] by blast
  then show ?case using Cons.IH by fastforce
qed auto

section \<open>Agreement\<close>

text \<open>Where a text is first seen in a list.\<close>

definition first_seen :: "string list \<Rightarrow> string \<Rightarrow> nat" where
  "first_seen cs c = length (takeWhile (\<lambda>d. d \<noteq> c) cs)"

lemma first_seen_snoc:
  "c \<in> set cs \<Longrightarrow> first_seen (cs @ [d]) c = first_seen cs c \<and> first_seen cs c < length cs"
  "c \<notin> set cs \<Longrightarrow> first_seen (cs @ [c]) c = length cs"
proof -
  assume "c \<in> set cs"
  moreover have "length (takeWhile (\<lambda>d. d \<noteq> c) cs) < length cs" using \<open>c \<in> set cs\<close>
    by (induction cs) auto
  ultimately show "first_seen (cs @ [d]) c = first_seen cs c \<and> first_seen cs c < length cs"
    by (auto simp: first_seen_def takeWhile_append1)
next
  assume "c \<notin> set cs"
  then have "takeWhile (\<lambda>d. d \<noteq> c) (cs @ [c]) = cs" by (subst takeWhile_append2) auto
  then show "first_seen (cs @ [c]) c = length cs" by (simp add: first_seen_def)
qed

lemma tally_snoc:
  "tally (cs @ [c]) m o1 =
     (let (m', o') = tally cs m o1 in
      (m'(c \<mapsto> (case m' c of None \<Rightarrow> 1 | Some n \<Rightarrow> n + 1)), if m' c = None then o' @ [c] else o'))"
  by (induction cs arbitrary: m o1) (auto simp: Let_def)

lemma tally_spec:
  assumes "tally cs (\<lambda>_. None) [] = (m, order)"
  shows "(\<forall>c. m c = (if c \<in> set cs then Some (count_list cs c) else None)) \<and> set order = set cs \<and>
    sorted_wrt (\<lambda>c d. first_seen cs c < first_seen cs d) order"
  using assms
proof (induction cs arbitrary: m order rule: rev_induct)
  case Nil
  then have "m = (\<lambda>_. None)" "order = []" by simp_all
  then show ?case by simp
next
  case (snoc c cs)
  obtain m' o' where t: "tally cs (\<lambda>_. None) [] = (m', o')" by force
  note ih0 = snoc.IH [OF t]
  have ih: "m' x = (if x \<in> set cs then Some (count_list cs x) else None)"
    "set o' = set cs" "sorted_wrt (\<lambda>c d. first_seen cs c < first_seen cs d) o'" for x
    using ih0 by blast+
  have mo: "m = m'(c \<mapsto> (case m' c of None \<Rightarrow> 1 | Some n \<Rightarrow> n + 1))"
    "order = (if m' c = None then o' @ [c] else o')"
    using snoc.prems by (auto simp: tally_snoc t)
  have counts: "m x = (if x \<in> set (cs @ [c]) then Some (count_list (cs @ [c]) x) else None)" for x
    by (auto simp: mo(1) ih(1) count_list_append count_list_0_iff)
  have "sorted_wrt (\<lambda>x y. first_seen (cs @ [c]) x < first_seen (cs @ [c]) y) o'"
    using ih(3) by (rule sorted_wrt_mono_rel [rotated]) (simp add: ih(2) first_seen_snoc(1))
  then have "sorted_wrt (\<lambda>x y. first_seen (cs @ [c]) x < first_seen (cs @ [c]) y) order"
    by (auto simp: mo(2) ih(1,2) sorted_wrt_append first_seen_snoc split: if_splits)
  moreover have "set order = set (cs @ [c])" by (auto simp: mo(2) ih(1,2) split: if_splits)
  ultimately show ?case using counts by blast
qed

lemma select_None: "select_by_agreement votes = None \<longleftrightarrow> passing_candidates votes = []"
proof -
  obtain m order where t: "tally (passing_candidates votes) (\<lambda>_. None) [] = (m, order)" by force
  have "set order = set (passing_candidates votes)" using tally_spec [OF t] by blast
  then show ?thesis by (auto simp: select_by_agreement_def t extreme_None)
qed

lemma select_Some:
  assumes "select_by_agreement votes = Some c"
  defines "cs \<equiv> passing_candidates votes"
  shows "c \<in> set cs \<and> (\<forall>d \<in> set cs. count_list cs d \<le> count_list cs c) \<and>
    (\<forall>d \<in> set cs. d \<noteq> c \<and> count_list cs d = count_list cs c \<longrightarrow> first_seen cs d < first_seen cs c)"
proof -
  obtain m order where t: "tally cs (\<lambda>_. None) [] = (m, order)" by force
  then have "max_by_key (\<lambda>c. the (m c)) order = Some c"
    using assms by (simp add: select_by_agreement_def)
  from max_by_key_Some [OF this] obtain as bs where o: "order = as @ c # bs"
    "\<forall>x \<in> set as. the (m x) \<le> the (m c)" "\<forall>x \<in> set bs. the (m x) < the (m c)"
    by blast
  note spec = tally_spec [OF t]
  have counts: "the (m x) = count_list cs x" if "x \<in> set order" for x
    using spec that by auto
  have all: "set order = set cs" using spec by blast
  have before: "\<forall>x \<in> set as. first_seen cs x < first_seen cs c"
    using spec unfolding o(1) by (auto simp: sorted_wrt_append)
  have "c \<in> set cs" using o(1) all by auto
  moreover have "count_list cs d \<le> count_list cs c \<and>
      (d \<noteq> c \<and> count_list cs d = count_list cs c \<longrightarrow> first_seen cs d < first_seen cs c)"
    if "d \<in> set cs" for d
  proof -
    have "d \<in> set as \<or> d = c \<or> d \<in> set bs" using that all o(1) by auto
    have eq: "the (m c) = count_list cs c" "the (m d) = count_list cs d"
      using counts o(1) that all by auto
    from \<open>d \<in> set as \<or> d = c \<or> d \<in> set bs\<close> consider (as) "d \<in> set as" | (c) "d = c" | (bs) "d \<in> set bs" by blast
    then show ?thesis
    proof cases
      case as
      then show ?thesis using o(2) before eq by auto
    next
      case bs
      then show ?thesis using o(3) eq by auto
    qed simp
  qed
  ultimately show ?thesis by blast
qed

lemma ask_voices_all:
  assumes "ask_voices one vs w = (votes, w1)" and "\<And>x w vt w'. one x w = (vt, w') \<Longrightarrow> P x vt"
  shows "list_all2 P vs votes"
  using assms(1)
proof (induction vs arbitrary: w votes)
  case (Cons x vs)
  then show ?case using assms(2) by (auto split: prod.splits)
qed simp

lemma ask_voices_votes:
  assumes "ask_voices (ask_voice p d env verify t task) vs w = (votes, w1)"
  shows "map vo_voice votes = map vs_name vs"
    and "v \<in> set votes \<Longrightarrow> vo_passed v \<Longrightarrow> \<exists>c. vo_candidate v = Some c \<and> (\<exists>w2 w3. verify (vo_voice v) c w2 = (True, w3))"
proof -
  have "list_all2 (\<lambda>x v. vo_voice v = vs_name x \<and> (vo_passed v \<longrightarrow>
      (\<exists>c. vo_candidate v = Some c \<and> (\<exists>w2 w3. verify (vo_voice v) c w2 = (True, w3))))) vs votes"
    by (rule ask_voices_all [OF assms]) (auto simp: ask_voice_def Let_def split: prod.splits option.splits, metis)
  then show "map vo_voice votes = map vs_name vs"
    "v \<in> set votes \<Longrightarrow> vo_passed v \<Longrightarrow> \<exists>c. vo_candidate v = Some c \<and> (\<exists>w2 w3. verify (vo_voice v) c w2 = (True, w3))"
    by (auto simp: list_all2_conv_all_nth in_set_conv_nth intro: nth_equalityI)
qed

section \<open>Properties\<close>


text \<open>
  A panel accepts only what passed: it accepts an answer exactly when some voice's answer passed
  the verifier, and then one that as many passing voices gave as any; of several such answers it
  takes the one that was first given last.
\<close>

theorem panel_accepts_the_most_agreed:
  assumes "run_panel p d env verify cfg task w = (out, w1)"
  defines "cs \<equiv> passing_candidates (po_votes out)"
  shows "map vo_voice (po_votes out) = map vs_name (pc_voices cfg) \<and>
    (po_status out = PanelStatus_Accepted \<longleftrightarrow> (\<exists>v \<in> set (po_votes out). vo_passed v)) \<and>
    (po_status out = PanelStatus_Accepted \<longleftrightarrow> po_accepted out \<noteq> None) \<and>
    (\<forall>c. po_accepted out = Some c \<longrightarrow>
       (\<exists>v \<in> set (po_votes out). vo_candidate v = Some c \<and> (\<exists>w2 w3. verify (vo_voice v) c w2 = (True, w3))) \<and>
       (\<forall>d \<in> set cs. count_list cs d \<le> count_list cs c) \<and>
       (\<forall>d \<in> set cs. d \<noteq> c \<and> count_list cs d = count_list cs c \<longrightarrow> first_seen cs d < first_seen cs c))"
proof -
  obtain votes where v: "ask_voices (ask_voice p d env verify (pc_tier cfg) task) (pc_voices cfg) w = (votes, w1)"
    and out: "po_votes out = votes" "po_accepted out = select_by_agreement votes"
      "po_status out = (if select_by_agreement votes \<noteq> None then PanelStatus_Accepted else PanelStatus_NeedsHumanReview)"
    using assms(1) by (auto simp: run_panel_def Let_def split: prod.splits)
  note asked = ask_voices_votes [OF v]
  have in_cs: "c \<in> set cs \<longleftrightarrow> (\<exists>v \<in> set votes. vo_passed v \<and> vo_candidate v = Some c)" for c
    by (force simp: cs_def out(1) passing_candidates_def map_filter_def)
  have "cs = [] \<longleftrightarrow> \<not> (\<exists>v \<in> set votes. vo_passed v)"
  proof
    show "\<not> (\<exists>v \<in> set votes. vo_passed v)" if "cs = []"
      using in_cs that asked(2) by fastforce
    show "cs = []" if "\<not> (\<exists>v \<in> set votes. vo_passed v)"
      using in_cs that by (metis list.set_intros(1) neq_Nil_conv)
  qed
  then have status: "po_status out = PanelStatus_Accepted \<longleftrightarrow> (\<exists>v \<in> set votes. vo_passed v)"
    unfolding out(3) using select_None [of votes] by (simp add: cs_def out(1))
  have "(\<exists>v \<in> set votes. vo_candidate v = Some c \<and> (\<exists>w2 w3. verify (vo_voice v) c w2 = (True, w3))) \<and>
      (\<forall>d \<in> set cs. count_list cs d \<le> count_list cs c) \<and>
      (\<forall>d \<in> set cs. d \<noteq> c \<and> count_list cs d = count_list cs c \<longrightarrow> first_seen cs d < first_seen cs c)"
    if "po_accepted out = Some c" for c
  proof -
    have s: "select_by_agreement votes = Some c" using that out by simp
    then have "c \<in> set cs" using select_Some [OF s] by (simp add: cs_def out)
    then obtain v where "v \<in> set votes" "vo_passed v" "vo_candidate v = Some c" using in_cs by blast
    then show ?thesis using asked select_Some [OF s] unfolding cs_def out(1) by fastforce
  qed
  moreover have "po_status out = PanelStatus_Accepted \<longleftrightarrow> po_accepted out \<noteq> None"
    using out by simp
  moreover have "map vo_voice votes = map vs_name (pc_voices cfg)" using asked by blast
  ultimately show ?thesis using status unfolding out(1) by blast
qed
section \<open>Witnesses\<close>

text \<open>
  A team whose factory has room for one workspace, with a crew as in the sample of the crew's
  theory, and a plan of two subtasks.
\<close>

definition sample_team :: "(bool, unit) team_env" where
  "sample_team =
     \<lparr>te_pool = ce_pool sample_env, te_dispatcher = ce_dispatcher sample_env,
      te_factory = \<lparr>wf_create = (\<lambda>task w. (if task = ''fix a'' then Inr (ce_workspace sample_env) else Inl ''full'', w)),
        wf_land = (\<lambda>_ task w. (Inr task, w)), wf_consolidate = (\<lambda>_ w. (Inr ''merged'', w))\<rparr>,
      te_config = \<lparr>tc_lead_model = ''p'', tc_lead_tier = Tier_Complex, tc_crew = ce_config sample_env,
        tc_max_subtasks = 5\<rparr>,
      te_caveats = ce_caveats sample_env, te_timeout_env = None, te_json = ce_json sample_env,
      te_plan_json = (\<lambda>_. Some [Spec_Plain ''fix a'', Spec_Plain ''fix b'']), te_def_sites = (\<lambda>_. [])\<rparr>"

lemma sample_team_plan:
  "parse_plan (te_plan_json sample_team) c (tc_max_subtasks (te_config sample_team)) =
     [\<lparr>pd_task = ''fix a'', pd_verify = None, pd_files = []\<rparr>, \<lparr>pd_task = ''fix b'', pd_verify = None, pd_files = []\<rparr>]"
proof -
  have "trim ''fix a'' = ''fix a''" "trim ''fix b'' = ''fix b''" by (rule trim_plain; code_simp)+
  then show ?thesis by (simp add: parse_plan_def parse_reply_def sample_team_def)
qed

lemma sample_team_runs:
  "\<exists>out s. run_team sample_team ''goal'' w = (out, s) \<and> to_status out \<noteq> TeamStatus_NoPlan \<and>
     to_plan out = [''fix a'', ''fix b'']"
proof -
  obtain f w1 where "run_role (te_pool sample_team) (te_dispatcher sample_team) (te_timeout_env sample_team)
      (tc_lead_tier (te_config sample_team)) (tc_lead_model (te_config sample_team)) req w = (Some f, w1)" for req
    by (simp add: sample_team_def sample_env_def run_role_def run_role_with_timeout_def ranked_candidates_def
      candidates_def is_live_def serves_def with_models_def PoolBackend_new_def)
  then show ?thesis
    by (simp add: run_team_def sample_team_plan consolidate_team_def Let_def split: prod.splits sum.splits)
qed


text \<open>Three voices with an answer each, and a verifier that passes all but the first.\<close>

definition sample_panel :: panel_config where
  "sample_panel =
     \<lparr>pc_voices = [\<lparr>vs_name = ''x'', vs_model = ''n''\<rparr>, \<lparr>vs_name = ''y'', vs_model = ''p''\<rparr>,
        \<lparr>vs_name = ''z'', vs_model = ''t''\<rparr>], pc_tier = Tier_Standard\<rparr>"

definition sample_voices :: "nat dispatcher" where
  "sample_voices = (\<lambda>_ _ model _ w.
     (Replied \<lparr>cr_content = (if model = ''n'' then ''one'' else model), cr_model_id = model, cr_usage = None\<rparr>, w + 1))"

lemma panel_accepts_the_most_agreed_witness:
  "\<exists>out w1. run_panel (ce_pool sample_env) sample_voices None (\<lambda>voice _ w. (voice \<noteq> ''x'', w)) sample_panel ''task'' 0 =
     (out, w1) \<and> po_status out = PanelStatus_Accepted \<and> po_accepted out = Some ''t'' \<and>
     first_seen (passing_candidates (po_votes out)) ''p'' < first_seen (passing_candidates (po_votes out)) ''t''"
proof -
  obtain out w1 where run: "run_panel (ce_pool sample_env) sample_voices None
      (\<lambda>voice _ w. (voice \<noteq> ''x'', w)) sample_panel ''task'' 0 = (out, w1)" by force
  have votes: "passing_candidates (po_votes out) = [''p'', ''t'']" and accepted: "po_accepted out = Some ''t''"
    using run
    by (auto simp: run_panel_def ask_voice_def sample_panel_def sample_voices_def sample_env_def run_role_def
      run_role_with_timeout_def ranked_candidates_def candidates_def is_live_def serves_def with_models_def
      PoolBackend_new_def Let_def passing_candidates_def map_filter_def select_by_agreement_def)
  note all = panel_accepts_the_most_agreed [OF run, unfolded votes accepted]
  have "po_status out = PanelStatus_Accepted" using all by blast
  moreover have "first_seen [''p'', ''t''] ''p'' < first_seen [''p'', ''t''] ''t''"
    using all by simp
  ultimately show ?thesis using run accepted votes by auto
qed

end
