(* ===== verification/Roster.thy ===== *)
theory Roster
  imports Team "HOL-Library.Multiset"
begin

text \<open>
  Who fills which role, \<^verbatim>\<open>newt-scheduler/src/roster.rs\<close>: what a model's name says of it, and the
  roster that is proposed for the models of a pool. Names are compared and sorted as their bytes.
\<close>

section \<open>Priors\<close>

datatype roster_mode = Mode_Crew | Mode_Team | Mode_Panel

record model_prior =
  mp_model :: string
  mp_planning :: u8
  mp_navigation :: u8
  mp_fabricates :: bool

record roster_spec =
  rs_mode :: roster_mode
  rs_lead :: "string option"
  rs_planner :: string
  rs_navigator :: string
  rs_triage :: string
  rs_voices :: "string list"
  rs_rationale :: "string list"

definition to_crew :: "roster_spec \<Rightarrow> nat \<Rightarrow> crew_config" where
  "to_crew r max_attempts =
     \<lparr>cc_navigator_model = rs_navigator r, cc_planner_model = rs_planner r,
      cc_triage_model = rs_triage r, cc_max_attempts = max_attempts, cc_role_timeout = None,
      cc_calibrate_baseline = False\<rparr>"

definition to_team :: "roster_spec \<Rightarrow> tier \<Rightarrow> nat \<Rightarrow> nat \<Rightarrow> team_config" where
  "to_team r lead_tier max_attempts max_subtasks =
     \<lparr>tc_lead_model = (case rs_lead r of Some l \<Rightarrow> l | None \<Rightarrow> rs_planner r),
      tc_lead_tier = lead_tier, tc_crew = to_crew r max_attempts, tc_max_subtasks = max_subtasks\<rparr>"

definition model_family :: "string \<Rightarrow> string" where
  "model_family model = map ascii_lower (takeWhile is_ascii_alpha model)"

text \<open>The digits just before a position, and the size read off the first \<open>b\<close> that has some.\<close>

definition digits_before :: "string \<Rightarrow> string" where
  "digits_before seen = List.rev (takeWhile is_ascii_digit (List.rev seen))"

fun param_from :: "string \<Rightarrow> string \<Rightarrow> nat" where
  "param_from seen [] = 0"
| "param_from seen (c # cs) =
     (if (c = CHR ''b'' \<or> c = CHR ''B'') \<and> digits_before seen \<noteq> []
      then (case parse_u32 (digits_before seen) of
              Some n \<Rightarrow> n | None \<Rightarrow> param_from (seen @ [c]) cs)
      else param_from (seen @ [c]) cs)"

definition param_b :: "string \<Rightarrow> nat" where
  "param_b model = param_from [] model"

text \<open>The sum is one of \<^verbatim>\<open>u32\<close>s: in a release build it wraps.\<close>

definition planning_of_size :: "nat \<Rightarrow> u8" where
  "planning_of_size n = of_nat (unat (min (30 + of_nat n * 2 :: u32) 98))"

definition prior_for :: "string \<Rightarrow> model_prior list \<Rightarrow> model_prior" where
  "prior_for model priors =
     (case List.find (\<lambda>p. mp_model p = model) priors of
        Some p \<Rightarrow> p
      | None \<Rightarrow>
          (let planning = planning_of_size (param_b model);
               is_coder = sublist ''coder'' model \<or> sublist ''codestral'' model \<or>
                 sublist ''deepseek'' model;
               navigation =
                 (if is_coder then min (planning div 2 + 40) 95 else planning div 2)
           in \<lparr>mp_model = model, mp_planning = planning, mp_navigation = navigation,
               mp_fabricates = sublist ''nemotron'' model\<rparr>))"

section \<open>Composing a roster\<close>

definition pick_planner :: "model_prior list \<Rightarrow> string option" where
  "pick_planner models =
     map_option mp_model
       (or_else (max_by_key (\<lambda>p. unat (mp_planning p)) (filter (\<lambda>p. \<not> mp_fabricates p) models))
         (max_by_key (\<lambda>p. unat (mp_planning p)) models))"

definition pick_navigator :: "model_prior list \<Rightarrow> string \<Rightarrow> string" where
  "pick_navigator models planner =
     (case or_else (max_by_key (\<lambda>p. unat (mp_navigation p)) (filter (\<lambda>p. mp_model p \<noteq> planner) models))
         (max_by_key (\<lambda>p. unat (mp_navigation p)) models) of
        Some p \<Rightarrow> mp_model p | None \<Rightarrow> planner)"

definition pick_triage :: "model_prior list \<Rightarrow> string \<Rightarrow> string" where
  "pick_triage models planner =
     (case min_by_key (\<lambda>p. param_b (mp_model p)) models of
        Some p \<Rightarrow> mp_model p | None \<Rightarrow> planner)"

text \<open>The strongest first, equals by name: the models are already sorted by name.\<close>

definition by_strength :: "model_prior list \<Rightarrow> model_prior list" where
  "by_strength models = sort_key (\<lambda>p. 255 - unat (mp_planning p)) (sort_key mp_model models)"

fun voices_of :: "model_prior list \<Rightarrow> string list \<Rightarrow> string list \<Rightarrow> string list \<times> string list" where
  "voices_of [] seen voices = (seen, voices)"
| "voices_of (p # ps) seen voices =
     (let fam = model_family (mp_model p)
      in if fam \<in> set seen then voices_of ps seen voices
         else voices_of ps (seen @ [fam]) (voices @ [mp_model p]))"

text \<open>The left_arrow and the warning sign of the messages, in UTF-8.\<close>

definition left_arrow :: string where
  "left_arrow = map char_of [226, 134, 144 :: nat]"

definition warning :: string where
  "warning = map char_of [226, 154, 160 :: nat]"

definition planner_rationale :: "model_prior list \<Rightarrow> string \<Rightarrow> string" where
  "planner_rationale models planner =
     (let fab = (case List.find (\<lambda>p. mp_model p = planner) models of
                   Some p \<Rightarrow> mp_fabricates p | None \<Rightarrow> False)
      in ''planner '' @ left_arrow @ '' '' @ planner @ '' (strongest planner'' @
         (if fab then ''; '' @ warning @ '' fabrication-prone (no clean alternative)''
          else ''; low fabrication risk'') @ '')'')"

definition compose_roster :: "string list \<Rightarrow> model_prior list \<Rightarrow> roster_mode \<Rightarrow> roster_spec option" where
  "compose_roster available priors mode =
     (if available = [] then None
      else
        let models = sort_key mp_model (map (\<lambda>m. prior_for m priors) available) in
        Option.bind (pick_planner models) (\<lambda>planner.
          let navigator = pick_navigator models planner;
              triage = pick_triage models planner;
              (seen, voices) =
                (if mode = Mode_Panel then voices_of (by_strength models) [] [] else ([], []));
              lead = (if mode = Mode_Team then Some planner else None)
          in Some
            \<lparr>rs_mode = mode, rs_lead = lead, rs_planner = planner, rs_navigator = navigator,
             rs_triage = triage, rs_voices = voices,
             rs_rationale =
               [planner_rationale models planner,
                ''navigator '' @ left_arrow @ '' '' @ navigator @ '' (best context-curation score)'',
                ''triage '' @ left_arrow @ '' '' @ triage @ '' (smallest/cheapest for diagnosis)''] @
               (if mode = Mode_Panel
                then [''panel '' @ left_arrow @ '' '' @ show_nat (length voices) @ '' voices across '' @
                  show_nat (length seen) @ '' distinct families (anti-groupthink)'']
                else []) @
               (if mode = Mode_Team
                then [''lead '' @ left_arrow @ '' '' @ planner @ '' (decomposes the goal)''] else [])\<rparr>))"

definition compose_from_pool :: "pool \<Rightarrow> model_prior list \<Rightarrow> roster_mode \<Rightarrow> roster_spec option" where
  "compose_from_pool p priors mode = compose_roster (live_models p) priors mode"

section \<open>Lemmas\<close>

lemma prior_for_model [simp]: "mp_model (prior_for m priors) = m"
  by (auto simp: prior_for_def Let_def split: option.splits dest: find_SomeD)

lemma insort_key_map: "insort_key g (f x) (map f xs) = map f (insort_key (\<lambda>x. g (f x)) x xs)"
  by (induction xs) simp_all

lemma sort_key_map: "sort_key g (map f xs) = map f (sort_key (\<lambda>x. g (f x)) xs)"
  by (induction xs) (simp_all add: insort_key_map)

lemma sorted_priors:
  "sort_key mp_model (map (\<lambda>m. prior_for m priors) xs) = map (\<lambda>m. prior_for m priors) (sort xs)"
  by (simp add: sort_key_map)

lemma pick_planner_Some:
  assumes "pick_planner ps = Some m"
  shows "\<exists>p \<in> set ps. mp_model p = m \<and> (mp_fabricates p \<longrightarrow> (\<forall>q \<in> set ps. mp_fabricates q)) \<and>
    (\<forall>q \<in> set ps. (mp_fabricates p \<or> \<not> mp_fabricates q) \<longrightarrow> mp_planning q \<le> mp_planning p \<and>
       (sorted (map mp_model ps) \<and> mp_planning q = mp_planning p \<longrightarrow> mp_model q \<le> m))"
proof -
  let ?key = "\<lambda>p. unat (mp_planning p)" and ?clean = "\<lambda>p. \<not> mp_fabricates p"
  have "ps \<noteq> []" using assms by (auto simp: pick_planner_def or_else_def)
  from greatest.chosen_preferring [OF this, of ?key ?clean] obtain p where
    p: "p \<in> set ps" "or_else (max_by_key ?key (filter ?clean ps)) (max_by_key ?key ps) = Some p"
      "(\<exists>q \<in> set ps. ?clean q) \<longrightarrow> ?clean p"
      "\<forall>q \<in> set ps. ?clean q \<or> \<not> ?clean p \<longrightarrow> ?key q \<le> ?key p" by blast
  have m: "m = mp_model p" using assms p(2) by (simp add: pick_planner_def)
  have "mp_model q \<le> m"
    if "q \<in> set ps" "mp_fabricates p \<or> ?clean q" "sorted (map mp_model ps)" "mp_planning q = mp_planning p" for q
  proof (cases "max_by_key ?key (filter ?clean ps)")
    case None
    then have "max_by_key ?key ps = Some p" using p(2) by (simp add: or_else_def)
    from max_by_key_last [OF this that(3,1)] that(4) show ?thesis by (simp add: m)
  next
    case (Some p')
    then have "max_by_key ?key (filter ?clean ps) = Some p" "?clean p"
      using p(2) greatest.pick_Some [OF Some] by (auto simp: or_else_def)
    from max_by_key_last [OF this(1) sorted_filter [OF that(3)], of q] this(2) that show ?thesis
      by (simp add: m)
  qed
  then show ?thesis using p(1,3,4) by (intro bexI [of _ p]) (auto simp: m word_le_nat_alt)
qed

lemma pick_planner_None: "pick_planner ps = None \<longleftrightarrow> ps = []"
  by (auto simp: pick_planner_def or_else_def extreme_None split: option.splits)

lemma pick_navigator_best:
  assumes "ps \<noteq> []"
  shows "\<exists>p \<in> set ps. mp_model p = pick_navigator ps planner \<and>
    ((\<exists>q \<in> set ps. mp_model q \<noteq> planner) \<longrightarrow> mp_model p \<noteq> planner) \<and>
    (\<forall>q \<in> set ps. mp_model q \<noteq> planner \<longrightarrow> mp_navigation q \<le> mp_navigation p)"
  using greatest.chosen_preferring [OF assms, of "\<lambda>p. unat (mp_navigation p)" "\<lambda>p. mp_model p \<noteq> planner"]
  by (force simp: pick_navigator_def word_le_nat_alt)

lemma pick_triage_least:
  assumes "ps \<noteq> []"
  shows "\<exists>p \<in> set ps. mp_model p = pick_triage ps planner \<and>
    (\<forall>q \<in> set ps. param_b (mp_model p) \<le> param_b (mp_model q))"
  using least.chosen [OF assms, of "\<lambda>p. param_b (mp_model p)"] by (force simp: pick_triage_def)

text \<open>The voices are those of the first prior of each family that was not yet seen.\<close>

lemma voices_of_spec:
  "voices_of ps seen vs = (seen', vs') \<Longrightarrow> seen = map model_family vs \<Longrightarrow> distinct seen \<Longrightarrow>
     seen' = map model_family vs' \<and> distinct seen' \<and> set vs' \<subseteq> set vs \<union> mp_model ` set ps \<and>
     set seen' = set seen \<union> (\<lambda>p. model_family (mp_model p)) ` set ps"
proof (induction ps arbitrary: seen vs)
  case (Cons p ps)
  show ?case
  proof (cases "model_family (mp_model p) \<in> set seen")
    case True
    then show ?thesis using Cons.IH [of seen vs] Cons.prems by auto
  next
    case False
    then show ?thesis using Cons.IH [of "seen @ [model_family (mp_model p)]" "vs @ [mp_model p]"] Cons.prems
      by auto
  qed
qed (metis UN_I Un_empty_right image_empty list.set(1) prod.inject set_eq_subset sup_ge1 voices_of.simps(1))

lemma voices_of_grows: "voices_of ps seen vs = (seen', vs') \<Longrightarrow> set vs \<subseteq> set vs'"
  by (induction ps arbitrary: seen vs) (fastforce simp: Let_def split: if_splits)+

lemma voices_of_strongest:
  "voices_of ps seen vs = (seen', vs') \<Longrightarrow> sorted (map k ps) \<Longrightarrow> p \<in> set ps \<Longrightarrow>
     model_family (mp_model p) \<notin> set seen \<Longrightarrow>
     \<exists>q \<in> set ps. mp_model q \<in> set vs' \<and> model_family (mp_model q) = model_family (mp_model p) \<and> k q \<le> k p"
proof (induction ps arbitrary: seen vs)
  case (Cons x ps)
  show ?case
  proof (cases "model_family (mp_model x) = model_family (mp_model p)")
    case True
    then have "voices_of ps (seen @ [model_family (mp_model x)]) (vs @ [mp_model x]) = (seen', vs')"
      using Cons.prems by auto
    then have "mp_model x \<in> set vs'" using voices_of_grows by fastforce
    moreover have "k x \<le> k p" using Cons.prems(2,3) by auto
    ultimately show ?thesis using True by auto
  next
    case False
    then have p: "p \<in> set ps" using Cons.prems(3) by auto
    obtain seen1 vs1 where rest: "voices_of ps seen1 vs1 = (seen', vs')"
      and "model_family (mp_model p) \<notin> set seen1"
      using Cons.prems(1,4) False by (auto simp: Let_def split: if_splits)
    then show ?thesis using Cons.IH [OF rest] Cons.prems(2) p by auto
  qed
qed simp


definition priors_of :: "string list \<Rightarrow> model_prior list \<Rightarrow> model_prior list" where
  "priors_of available priors = map (\<lambda>m. prior_for m priors) (sort available)"

lemma priors_of_simps:
  "sort_key mp_model (map (\<lambda>m. prior_for m priors) available) = priors_of available priors"
  "priors_of available priors = [] \<longleftrightarrow> available = []"
  "sorted (map mp_model (priors_of available priors))"
  "(\<exists>p \<in> set (priors_of available priors). Q p) \<longleftrightarrow> (\<exists>m \<in> set available. Q (prior_for m priors))"
  "(\<forall>p \<in> set (priors_of available priors). Q p) \<longleftrightarrow> (\<forall>m \<in> set available. Q (prior_for m priors))"
  by (simp_all add: priors_of_def sorted_priors comp_def flip: length_0_conv)

lemma compose_roster_None: "compose_roster available priors mode = None \<longleftrightarrow> available = []"
  by (auto simp: compose_roster_def priors_of_simps Let_def pick_planner_None Option.bind_eq_None_conv
      split: prod.splits)

lemma compose_roster_Some:
  assumes "compose_roster available priors mode = Some r"
  defines "ps \<equiv> priors_of available priors"
  shows "ps \<noteq> []" "pick_planner ps = Some (rs_planner r)"
    "rs_navigator r = pick_navigator ps (rs_planner r)" "rs_triage r = pick_triage ps (rs_planner r)"
    "rs_voices r = (if mode = Mode_Panel then snd (voices_of (by_strength ps) [] []) else [])"
    "rs_lead r = (if mode = Mode_Team then Some (rs_planner r) else None)"
proof -
  obtain seen voices where v: "voices_of (by_strength ps) [] [] = (seen, voices)" by force
  have ne: "available \<noteq> []" using assms(1) compose_roster_None by (metis option.distinct(1))
  then show "ps \<noteq> []" by (simp add: ps_def priors_of_simps)
  show "pick_planner ps = Some (rs_planner r)"
    "rs_navigator r = pick_navigator ps (rs_planner r)" "rs_triage r = pick_triage ps (rs_planner r)"
    "rs_voices r = (if mode = Mode_Panel then snd (voices_of (by_strength ps) [] []) else [])"
    "rs_lead r = (if mode = Mode_Team then Some (rs_planner r) else None)"
    using assms(1) ne
    by (cases mode; auto simp: compose_roster_def priors_of_simps Let_def bind_eq_Some_conv v simp flip: ps_def)+
qed

lemma panel_voices:
  assumes "voices_of (by_strength ps) [] [] = (seen, voices)"
  shows "distinct (map model_family voices)" "set voices \<subseteq> mp_model ` set ps"
    "model_family ` set voices = (\<lambda>p. model_family (mp_model p)) ` set ps"
    "p \<in> set ps \<Longrightarrow> v \<in> set voices \<Longrightarrow> model_family v = model_family (mp_model p) \<Longrightarrow>
       \<exists>q \<in> set ps. mp_model q = v \<and> mp_planning p \<le> mp_planning q"
proof -
  have set: "set (by_strength ps) = set ps" by (simp add: by_strength_def)
  note spec = voices_of_spec [OF assms] 
  show "distinct (map model_family voices)" "set voices \<subseteq> mp_model ` set ps"
    using spec set by auto
  show "model_family ` set voices = (\<lambda>p. model_family (mp_model p)) ` set ps"
    using spec set by (metis distinct.simps(1) list.map(1) list.set(1) set_map sup_bot_left)
  assume p: "p \<in> set ps" and v: "v \<in> set voices" "model_family v = model_family (mp_model p)"
  have "sorted (map (\<lambda>p. 255 - unat (mp_planning p)) (by_strength ps))" by (simp add: by_strength_def)
  from voices_of_strongest [OF assms this, of p] p obtain q where
    q: "q \<in> set ps" "mp_model q \<in> set voices" "model_family (mp_model q) = model_family (mp_model p)"
      "255 - unat (mp_planning q) \<le> 255 - unat (mp_planning p)" by (auto simp: set)
  have "inj_on model_family (set voices)" using spec by (auto simp: distinct_map)
  then have "mp_model q = v" using q(2,3) v by (metis inj_onD)
  moreover have "unat w \<le> 255" for w :: u8
  proof -
    have "unat w < 2 ^ LENGTH(8)" by (rule unsigned_less)
    then show ?thesis by simp
  qed
  from this [of "mp_planning p"] have "mp_planning p \<le> mp_planning q"
    using q(4) by (simp add: word_le_nat_alt)
  ultimately show "\<exists>q \<in> set ps. mp_model q = v \<and> mp_planning p \<le> mp_planning q" using q(1) by blast
qed

section \<open>Properties\<close>

text \<open>
  C37. A roster fields the best of the models on offer: nothing is proposed exactly when no model is
  available; every role and every voice is an available model; the planner plans best, by the
  priors, of those that do not fabricate, or of all when all do, and among equals is the one whose
  name sorts last; the navigator is not the planner unless there is no other model, and navigates
  best of the others; no model is smaller than the triage model; and a panel has one voice of each
  family on offer, as strong a planner as any model of the family.
\<close>

theorem roster_fields_the_best:
  "(compose_roster available priors mode = None \<longleftrightarrow> available = []) \<and>
   (\<forall>r. compose_roster available priors mode = Some r \<longrightarrow>
     (let P = (\<lambda>m. prior_for m priors) in
      {rs_planner r, rs_navigator r, rs_triage r} \<union> set (rs_voices r) \<subseteq> set available \<and>
      (mp_fabricates (P (rs_planner r)) \<longrightarrow> (\<forall>m \<in> set available. mp_fabricates (P m))) \<and>
      (\<forall>m \<in> set available. mp_fabricates (P (rs_planner r)) \<or> \<not> mp_fabricates (P m) \<longrightarrow>
         mp_planning (P m) \<le> mp_planning (P (rs_planner r)) \<and>
         (mp_planning (P m) = mp_planning (P (rs_planner r)) \<longrightarrow> m \<le> rs_planner r)) \<and>
      (set available \<noteq> {rs_planner r} \<longrightarrow> rs_navigator r \<noteq> rs_planner r) \<and>
      (\<forall>m \<in> set available. m \<noteq> rs_planner r \<longrightarrow> mp_navigation (P m) \<le> mp_navigation (P (rs_navigator r))) \<and>
      (\<forall>m \<in> set available. param_b (rs_triage r) \<le> param_b m) \<and>
      (if mode = Mode_Panel
       then distinct (map model_family (rs_voices r)) \<and> model_family ` set (rs_voices r) = model_family ` set available \<and>
         (\<forall>m \<in> set available. \<forall>v \<in> set (rs_voices r).
            model_family v = model_family m \<longrightarrow> mp_planning (P m) \<le> mp_planning (P v))
       else rs_voices r = []) \<and>
      rs_lead r = (if mode = Mode_Team then Some (rs_planner r) else None)))"
proof -
  let ?P = "\<lambda>m. prior_for m priors" and ?ps = "priors_of available priors"
  have "{rs_planner r, rs_navigator r, rs_triage r} \<union> set (rs_voices r) \<subseteq> set available \<and>
      (mp_fabricates (?P (rs_planner r)) \<longrightarrow> (\<forall>m \<in> set available. mp_fabricates (?P m))) \<and>
      (\<forall>m \<in> set available. mp_fabricates (?P (rs_planner r)) \<or> \<not> mp_fabricates (?P m) \<longrightarrow>
         mp_planning (?P m) \<le> mp_planning (?P (rs_planner r)) \<and>
         (mp_planning (?P m) = mp_planning (?P (rs_planner r)) \<longrightarrow> m \<le> rs_planner r)) \<and>
      (set available \<noteq> {rs_planner r} \<longrightarrow> rs_navigator r \<noteq> rs_planner r) \<and>
      (\<forall>m \<in> set available. m \<noteq> rs_planner r \<longrightarrow> mp_navigation (?P m) \<le> mp_navigation (?P (rs_navigator r))) \<and>
      (\<forall>m \<in> set available. param_b (rs_triage r) \<le> param_b m) \<and>
      (if mode = Mode_Panel
       then distinct (map model_family (rs_voices r)) \<and> model_family ` set (rs_voices r) = model_family ` set available \<and>
         (\<forall>m \<in> set available. \<forall>v \<in> set (rs_voices r).
            model_family v = model_family m \<longrightarrow> mp_planning (?P m) \<le> mp_planning (?P v))
       else rs_voices r = []) \<and>
      rs_lead r = (if mode = Mode_Team then Some (rs_planner r) else None)"
    (is "?in \<and> ?fab \<and> ?best \<and> ?other \<and> ?nav \<and> ?small \<and> ?panel \<and> ?lead")
    if "compose_roster available priors mode = Some r" for r
  proof -
    note parts = compose_roster_Some [OF that]
    obtain seen voices where v: "voices_of (by_strength ?ps) [] [] = (seen, voices)" by force
    have all: "set ?ps = ?P ` set available" by (simp add: priors_of_def)
    note planner = pick_planner_Some [OF parts(2), unfolded priors_of_simps, simplified]
    note navigator = pick_navigator_best [OF parts(1), of "rs_planner r", folded parts(3), unfolded priors_of_simps, simplified]
    note triage = pick_triage_least [OF parts(1), of "rs_planner r", folded parts(4), unfolded priors_of_simps, simplified]
    have vs: "rs_voices r = (if mode = Mode_Panel then voices else [])" by (simp add: parts(5) v)
    have "rs_planner r \<in> set available" using planner by blast
    moreover have "rs_navigator r \<in> set available" using navigator by blast
    moreover have "rs_triage r \<in> set available" using triage by blast
    moreover have "set voices \<subseteq> set available" using panel_voices(2) [OF v] by (simp add: all image_image)
    ultimately have ?in by (auto simp: vs)
    moreover have ?fab using planner by blast
    moreover have "sorted (map mp_model ?ps)" by (rule priors_of_simps(3))
    then have ?best using planner by blast
    moreover have ?other using navigator planner by blast
    moreover have ?nav using navigator by blast
    moreover have ?small using triage by blast
    moreover have "mp_planning (?P m) \<le> mp_planning (?P x)"
      if "m \<in> set available" "x \<in> set voices" "model_family x = model_family m" for m x
      using panel_voices(4) [OF v, of "?P m" x] that by (auto simp: all)
    then have ?panel using panel_voices(1,3) [OF v] by (simp add: vs all image_image)
    ultimately show ?thesis using parts(6) by blast
  qed
  then show ?thesis by (simp add: compose_roster_None Let_def)
qed

text \<open>
  The proposal depends on what is on offer and not on the order of it: the same models in any
  order give the same roster, rationale included.
\<close>

theorem roster_ignores_the_order:
  assumes "mset xs = mset ys"
  shows "compose_roster xs priors mode = compose_roster ys priors mode"
proof -
  have "sort xs = sort ys" using assms by (metis sorted_list_of_multiset_mset)
  then have "priors_of xs priors = priors_of ys priors" by (simp add: priors_of_def)
  moreover have "xs = [] \<longleftrightarrow> ys = []" using assms by auto
  ultimately show ?thesis by (simp add: compose_roster_def priors_of_simps)
qed


section \<open>Witnesses\<close>

lemma roster_fields_the_best_witness:
  "\<exists>r. compose_roster [''m'', ''a'', ''n''] [] Mode_Team = Some r \<and> rs_lead r = Some (rs_planner r) \<and>
     rs_navigator r \<noteq> rs_planner r"
proof -
  note all = roster_fields_the_best [of "[''m'', ''a'', ''n'']" "[]" Mode_Team, unfolded Let_def]
  obtain r where r: "compose_roster [''m'', ''a'', ''n''] [] Mode_Team = Some r" using all by fastforce
  have "set [''m'', ''a'', ''n''] \<noteq> {rs_planner r}"
    by (cases "rs_planner r = ''a''") auto
  then show ?thesis using all r by auto
qed

lemma roster_ignores_the_order_witness:
  "compose_roster [''m:7b'', ''coder''] [] Mode_Panel = compose_roster [''coder'', ''m:7b''] [] Mode_Panel"
  by (rule roster_ignores_the_order) simp

text \<open>
  A model of two to the thirty-first billion parameters, as the name says, is taken for one of none:
  the sum wraps.
\<close>

lemma planning_wraps: "planning_of_size (2 ^ 31) = planning_of_size 0" "planning_of_size 4 = 38"
  by (simp_all add: planning_of_size_def)

end
