(* ===== verification/JsonValue.thy ===== *)
theory JsonValue
  imports RustText "HOL-Library.AList"
begin

text \<open>
  The JSON values of the transcript, \<^verbatim>\<open>serde_json::Value\<close>, with the calls that the modelled code
  makes on them: indexing, the accessors, removing and inserting a key, and the compact text. A
  message is such a value. An object is the list of its entries; nothing that is modelled depends
  on their order.
\<close>

section \<open>Values\<close>

text \<open>A number is held as \<^verbatim>\<open>u64\<close>, as negative \<^verbatim>\<open>i64\<close>, or as the text of a float.\<close>

datatype json_number = PosInt nat | NegInt int | Float string

datatype json =
    JNull
  | JBool bool
  | JNumber json_number
  | JString string
  | JArray "json list"
  | JObject "(string \<times> json) list"

text \<open>\<^verbatim>\<open>value["key"]\<close> is null where there is no such entry.\<close>

definition jget :: "json \<Rightarrow> string \<Rightarrow> json" where
  "jget v key =
     (case v of
        JObject entries \<Rightarrow> (case map_of entries key of Some x \<Rightarrow> x | None \<Rightarrow> JNull)
      | _ \<Rightarrow> JNull)"

definition as_str :: "json \<Rightarrow> string option" where
  "as_str v = (case v of JString s \<Rightarrow> Some s | _ \<Rightarrow> None)"

definition as_array :: "json \<Rightarrow> json list option" where
  "as_array v = (case v of JArray xs \<Rightarrow> Some xs | _ \<Rightarrow> None)"

definition as_u64 :: "json \<Rightarrow> nat option" where
  "as_u64 v = (case v of JNumber (PosInt n) \<Rightarrow> Some n | _ \<Rightarrow> None)"

text \<open>\<^verbatim>\<open>Map::remove\<close>, and \<^verbatim>\<open>entry(key).or_insert\<close>; a value that is no object is left alone.\<close>

definition jremove :: "string \<Rightarrow> json \<Rightarrow> json" where
  "jremove key v =
     (case v of JObject entries \<Rightarrow> JObject (filter (\<lambda>(k, x). k \<noteq> key) entries) | _ \<Rightarrow> v)"

definition jor_insert :: "string \<Rightarrow> json \<Rightarrow> json \<Rightarrow> json" where
  "jor_insert key x v =
     (case v of
        JObject entries \<Rightarrow> if key \<in> fst ` set entries then v else JObject (entries @ [(key, x)])
      | _ \<Rightarrow> v)"

text \<open>Rewriting the value of a key that is there, through \<^verbatim>\<open>get_mut\<close>.\<close>

definition jmap_entry :: "string \<Rightarrow> (json \<Rightarrow> json) \<Rightarrow> json \<Rightarrow> json" where
  "jmap_entry key f v =
     (case v of JObject entries \<Rightarrow> JObject (AList.map_entry key f entries) | _ \<Rightarrow> v)"

section \<open>Text\<close>

definition json_hex :: "nat \<Rightarrow> char" where
  "json_hex d = (if d < 10 then char_of (48 + d) else char_of (87 + d))"

definition json_char :: "char \<Rightarrow> string" where
  "json_char c =
     (let n = of_char c :: nat in
      if n = 34 \<or> n = 92 then [CHR 0x5C, c]
      else if n = 8 then [CHR 0x5C, CHR ''b''] else if n = 9 then [CHR 0x5C, CHR ''t'']
      else if n = 10 then [CHR 0x5C, CHR ''n''] else if n = 12 then [CHR 0x5C, CHR ''f'']
      else if n = 13 then [CHR 0x5C, CHR ''r'']
      else if n < 32
      then [CHR 0x5C, CHR ''u'', CHR ''0'', CHR ''0'', json_hex (n div 16), json_hex (n mod 16)]
      else [c])"

definition json_quote :: "string \<Rightarrow> string" where
  "json_quote s = [CHR 0x22] @ concat (map json_char s) @ [CHR 0x22]"

definition number_text :: "json_number \<Rightarrow> string" where
  "number_text n = (case n of PosInt k \<Rightarrow> show_nat k | NegInt i \<Rightarrow> show_int i | Float t \<Rightarrow> t)"

fun json_text :: "json \<Rightarrow> string" where
  "json_text JNull = ''null''"
| "json_text (JBool b) = (if b then ''true'' else ''false'')"
| "json_text (JNumber n) = number_text n"
| "json_text (JString s) = json_quote s"
| "json_text (JArray xs) = ''['' @ join_str '','' (map json_text xs) @ '']''"
| "json_text (JObject entries) =
     [CHR 0x7B] @ join_str '','' (map (\<lambda>(k, v). json_quote k @ '':'' @ json_text v) entries) @ [CHR 0x7D]"

definition json_len :: "json \<Rightarrow> nat" where
  "json_len v = length (json_text v)"

definition json_str_len :: "string \<Rightarrow> nat" where
  "json_str_len s = json_len (JString s)"

section \<open>Lemmas\<close>

lemma jget_object [simp]:
  "jget (JObject entries) key = (case map_of entries key of Some x \<Rightarrow> x | None \<Rightarrow> JNull)"
  by (simp add: jget_def)

lemma accessors [simp]:
  "as_str JNull = None" "as_str (JString s) = Some s" "as_str (JArray xs) = None" "as_str (JObject es) = None"
  "as_array JNull = None" "as_array (JArray xs) = Some xs" "as_array (JString s) = None"
  by (simp_all add: as_str_def as_array_def)

lemma jget_remove_other: "k \<noteq> key \<Longrightarrow> jget (jremove key v) k = jget v k"
proof (cases v)
  case (JObject entries)
  assume "k \<noteq> key"
  then have "map_of (filter (\<lambda>(k, x). k \<noteq> key) entries) k = map_of entries k"
    by (induction entries) auto
  then show ?thesis using JObject by (simp add: jremove_def)
qed (simp_all add: jremove_def)

lemma jget_remove_same: "jget (jremove key v) key = JNull"
proof (cases v)
  case (JObject entries)
  have "map_of (filter (\<lambda>(k, x). k \<noteq> key) entries) key = None"
    by (induction entries) auto
  then show ?thesis using JObject by (simp add: jremove_def)
qed (simp_all add: jremove_def jget_def)

lemma jget_or_insert_other: "k \<noteq> key \<Longrightarrow> jget (jor_insert key x v) k = jget v k"
  by (cases v) (auto simp: jor_insert_def map_add_def split: option.splits)

lemma jget_or_insert_same:
  "jget v key \<noteq> JNull \<Longrightarrow> jget (jor_insert key x v) key = jget v key"
proof (cases v)
  case (JObject entries)
  assume "jget v key \<noteq> JNull"
  then have "key \<in> fst ` set entries" using JObject by (auto split: option.splits dest: map_of_SomeD simp: image_iff) (force dest: map_of_SomeD)
  then show ?thesis using JObject by (simp add: jor_insert_def)
qed (simp_all add: jor_insert_def)

lemma jget_map_entry_other: "k \<noteq> key \<Longrightarrow> jget (jmap_entry key f v) k = jget v k"
  by (cases v) (auto simp: jmap_entry_def AList.map_of_map_entry jget_def split: option.splits)

lemma jget_map_entry_same:
  "jget v key \<noteq> JNull \<or> f JNull = JNull \<Longrightarrow> jget (jmap_entry key f v) key = f (jget v key)"
  by (cases v) (auto simp: jmap_entry_def AList.map_of_map_entry jget_def split: option.splits)

lemma jmap_entry_twice: "jmap_entry key (\<lambda>_. x) (jmap_entry key (\<lambda>_. y) v) = jmap_entry key (\<lambda>_. x) v"
proof (cases v)
  case (JObject entries)
  have "AList.map_entry key (\<lambda>_. x) (AList.map_entry key (\<lambda>_. y) entries) = AList.map_entry key (\<lambda>_. x) entries"
    by (induction entries) auto
  then show ?thesis using JObject by (simp add: jmap_entry_def)
qed (simp_all add: jmap_entry_def)

subsection \<open>The length of the text\<close>

lemma join_str_length:
  "length (join_str sep ts) = sum_list (map length ts) + length sep * (length ts - 1)"
  by (induction sep ts rule: join_str.induct) auto

lemma json_len_map_entry:
  "json_len (f (jget v key)) \<le> json_len (jget v key) \<Longrightarrow> json_len (jmap_entry key f v) \<le> json_len v"
proof (cases v)
  case (JObject entries)
  let ?texts = "map (\<lambda>(k, x). json_quote k @ '':'' @ json_text x)"
  assume shrinks: "json_len (f (jget v key)) \<le> json_len (jget v key)"
  have "json_len (f x) \<le> json_len x" if "map_of entries key = Some x" for x
    using shrinks that JObject by simp
  then have "sum_list (map length (?texts (AList.map_entry key f entries))) \<le> sum_list (map length (?texts entries))"
    by (induction entries) (auto simp: json_len_def)
  moreover have "length (AList.map_entry key f entries) = length entries"
    by (induction entries) auto
  ultimately show ?thesis using JObject by (simp add: json_len_def jmap_entry_def join_str_length)
qed (simp_all add: jmap_entry_def json_len_def)

lemma json_len_array:
  "list_all2 (\<lambda>x y. json_len y \<le> json_len x) xs ys \<Longrightarrow> json_len (JArray ys) \<le> json_len (JArray xs)"
proof -
  assume rel: "list_all2 (\<lambda>x y. json_len y \<le> json_len x) xs ys"
  then have "sum_list (map length (map json_text ys)) \<le> sum_list (map length (map json_text xs))"
    by (induction rule: list_all2_induct) (auto simp: json_len_def)
  then show ?thesis using list_all2_lengthD [OF rel] by (simp add: json_len_def join_str_length)
qed

end
