(* ===== verification/ContextTrim.thy ===== *)
theory ContextTrim
  imports JsonValue Grounding Pool
begin

text \<open>
  Keeping a transcript within its window, \<^verbatim>\<open>newt-core/src/agentic/trim.rs\<close> and
  \<^verbatim>\<open>newt-core/src/tokens.rs\<close>: the estimate of tokens, the protected head, the trim for a summary
  and the repair of tool calls and results that a cut has parted. A message is a JSON value. The
  calibration of an estimate is in floating point and is an argument.
\<close>

section \<open>Messages\<close>

definition msg_role :: "json \<Rightarrow> string option" where
  "msg_role m = as_str (jget m ''role'')"

definition content_of :: "json \<Rightarrow> string option" where
  "content_of m = as_str (jget m ''content'')"

definition calls_of :: "json \<Rightarrow> json list option" where
  "calls_of m = as_array (jget m ''tool_calls'')"

definition result_id :: "json \<Rightarrow> string option" where
  "result_id m = as_str (jget m ''tool_call_id'')"

definition call_ids :: "json list \<Rightarrow> string list" where
  "call_ids calls = List.map_filter (\<lambda>c. as_str (jget c ''id'')) calls"

definition starts_with :: "string \<Rightarrow> string option \<Rightarrow> bool" where
  "starts_with pre content = (case content of Some c \<Rightarrow> prefix pre c | None \<Rightarrow> False)"

section \<open>Estimates\<close>

definition tokens_for_chars :: "nat \<Rightarrow> nat \<Rightarrow> nat" where
  "tokens_for_chars per_token chars =
     (let d = max per_token 1 in (chars + d - 1) div d)"

definition estimate_value_tokens :: "nat \<Rightarrow> json \<Rightarrow> nat" where
  "estimate_value_tokens est v = tokens_for_chars est (chars_count (json_text v))"

definition estimate_tokens :: "nat \<Rightarrow> json list \<Rightarrow> nat" where
  "estimate_tokens est messages = sum_list (map (estimate_value_tokens est) messages)"

definition estimate_request_tokens :: "nat \<Rightarrow> json list \<Rightarrow> json option \<Rightarrow> nat" where
  "estimate_request_tokens est messages tools =
     estimate_tokens est messages +
     (case tools of Some t \<Rightarrow> estimate_value_tokens est t | None \<Rightarrow> 0)"

text \<open>The backend's last report, with the number of messages it covered.\<close>

type_synonym prompt_tracker = "(nat \<times> nat) option"

definition tracker_new :: prompt_tracker where
  "tracker_new = None"

definition tracker_record :: "nat \<Rightarrow> nat \<Rightarrow> prompt_tracker \<Rightarrow> prompt_tracker" where
  "tracker_record prompt_tokens message_count t = Some (prompt_tokens, message_count)"

definition tracker_invalidate :: "prompt_tracker \<Rightarrow> prompt_tracker" where
  "tracker_invalidate t = None"

definition tracker_current ::
    "(nat \<Rightarrow> nat) \<Rightarrow> nat \<Rightarrow> prompt_tracker \<Rightarrow> json list \<Rightarrow> json option \<Rightarrow> nat" where
  "tracker_current calibrate_up est t messages tools =
     (case t of
        Some (tokens, count) \<Rightarrow>
          if count \<le> length messages
          then tokens + calibrate_up (estimate_tokens est (drop count messages))
          else calibrate_up (estimate_request_tokens est messages tools)
      | None \<Rightarrow> calibrate_up (estimate_request_tokens est messages tools))"

section \<open>The protected head\<close>

definition ACTIVE_PROMPT_PREFIX :: string where
  "ACTIVE_PROMPT_PREFIX = ''[NEWT ACTIVE PROMPT v1]''"

definition SELECTED_PREFIX :: string where
  "SELECTED_PREFIX = ''[NEWT SELECTED SOURCE v1]''"

definition protected_prompt_head_len :: "json list \<Rightarrow> string \<Rightarrow> nat" where
  "protected_prompt_head_len messages active_prefix =
     (let systems = length (takeWhile (\<lambda>m. msg_role m = Some ''system'') messages);
          head = (if 0 < systems \<and> starts_with active_prefix (content_of (messages ! (systems - 1))) \<and>
                     systems < length messages \<and> msg_role (messages ! systems) = Some ''user''
                  then systems + 1 else systems)
      in if head < length messages \<and> msg_role (messages ! head) = Some ''user'' \<and>
            starts_with SELECTED_PREFIX (content_of (messages ! head))
         then head + 1 else head)"

section \<open>Pairing calls and results\<close>

definition result_ids :: "json list \<Rightarrow> string list" where
  "result_ids messages =
     List.map_filter result_id (filter (\<lambda>m. msg_role m = Some ''tool'') messages)"

text \<open>An assistant message loses its calls when one of them has no result.\<close>

definition should_strip :: "json list \<Rightarrow> nat \<Rightarrow> bool" where
  "should_strip messages i =
     (msg_role (messages ! i) = Some ''assistant'' \<and>
      (case calls_of (messages ! i) of
         None \<Rightarrow> False
       | Some calls \<Rightarrow>
           if calls = [] then False
           else if call_ids calls = []
           then \<not> (Suc i < length messages \<and> msg_role (messages ! Suc i) = Some ''tool'')
           else \<not> list_all (\<lambda>c. c \<in> set (result_ids messages)) (call_ids calls)))"

definition strip_calls :: "json \<Rightarrow> json" where
  "strip_calls m = jor_insert ''content'' (JString ''[tool calls omitted]'') (jremove ''tool_calls'' m)"

definition live_call_ids :: "json list \<Rightarrow> string list" where
  "live_call_ids messages =
     concat (map call_ids
       (List.map_filter calls_of (filter (\<lambda>m. msg_role m = Some ''assistant'') messages)))"

definition keeps_result :: "json list \<Rightarrow> json \<Rightarrow> bool" where
  "keeps_result messages m =
     (if msg_role m \<noteq> Some ''tool'' then True
      else (case result_id m of
              Some i \<Rightarrow> if i \<noteq> [] then i \<in> set (live_call_ids messages) else True
            | None \<Rightarrow> True))"

definition strip_pass :: "json list \<Rightarrow> json list" where
  "strip_pass messages =
     map (\<lambda>i. if should_strip messages i then strip_calls (messages ! i) else messages ! i)
       [0..<length messages]"

definition repair_orphaned_tool_calls :: "json list \<Rightarrow> json list" where
  "repair_orphaned_tool_calls messages =
     (let stripped = strip_pass messages in filter (keeps_result stripped) stripped)"

definition omitted_note :: "nat \<Rightarrow> json" where
  "omitted_note dropped =
     JObject [(''role'', JString ''user''),
       (''content'', JString (''['' @ show_nat dropped @
          '' earlier tool-call messages omitted to keep context within model limits]''))]"

text \<open>The slices of the code are out of bounds when \<open>head + tail\<close> is larger; then nothing is cut.\<close>

definition trim_for_summary :: "json list \<Rightarrow> nat \<Rightarrow> nat \<Rightarrow> json list" where
  "trim_for_summary messages head tail =
     (if length messages \<le> head + tail then messages
      else
        (let dropped = length messages - head - tail in
         repair_orphaned_tool_calls
           (take head messages @ [omitted_note dropped] @ drop (length messages - tail) messages)))"

section \<open>Usage\<close>

record round_usage =
  ru_input :: u32
  ru_output :: u32

text \<open>
  The usage record of a back end, with its counts at their width. The input of a turn is the largest
  of its rounds, the output their saturating sum.
\<close>

definition merge_round_usage :: "round_usage option \<Rightarrow> round_usage option \<Rightarrow> round_usage option" where
  "merge_round_usage acc new =
     (case (acc, new) of
        (Some a, Some b) \<Rightarrow>
          Some \<lparr>ru_input = max (ru_input a) (ru_input b), ru_output = sat_add_u32 (ru_output a) (ru_output b)\<rparr>
      | (Some a, None) \<Rightarrow> Some a
      | (None, Some b) \<Rightarrow> Some b
      | (None, None) \<Rightarrow> None)"

text \<open>A reported number is taken modulo the width of \<^verbatim>\<open>u32\<close>.\<close>

definition ollama_usage :: "json \<Rightarrow> round_usage option" where
  "ollama_usage j =
     Option.bind (as_u64 (jget j ''prompt_eval_count'')) (\<lambda>input.
       map_option (\<lambda>output. \<lparr>ru_input = of_nat input, ru_output = of_nat output\<rparr>)
         (as_u64 (jget j ''eval_count'')))"

definition openai_usage :: "json \<Rightarrow> round_usage option" where
  "openai_usage usage =
     Option.bind (as_u64 (jget usage ''prompt_tokens'')) (\<lambda>input.
       map_option (\<lambda>output. \<lparr>ru_input = of_nat input, ru_output = of_nat output\<rparr>)
         (as_u64 (jget usage ''completion_tokens'')))"

section \<open>Lemmas\<close>

lemma strip_calls_fields [simp]:
  "msg_role (strip_calls m) = msg_role m" "result_id (strip_calls m) = result_id m"
  "calls_of (strip_calls m) = None"
  by (simp_all add: msg_role_def result_id_def calls_of_def strip_calls_def jget_or_insert_other
      jget_remove_other jget_remove_same)

lemma length_strip_pass [simp]: "length (strip_pass ms) = length ms"
  by (simp add: strip_pass_def)

lemma nth_strip_pass [simp]:
  "i < length ms \<Longrightarrow> strip_pass ms ! i = (if should_strip ms i then strip_calls (ms ! i) else ms ! i)"
  by (simp add: strip_pass_def)

lemma strip_pass_roles: "map msg_role (strip_pass ms) = map msg_role ms"
  by (rule nth_equalityI) auto

lemma strip_pass_same:
  assumes "\<And>m. f (strip_calls m) = f m"
  shows "map f (strip_pass ms) = map f ms"
  by (rule nth_equalityI) (auto simp: assms)

lemma in_strip_pass:
  assumes "m \<in> set (strip_pass ms)"
  obtains (stripped) i where "i < length ms" "m = strip_calls (ms ! i)" "should_strip ms i"
  | (same) i where "i < length ms" "m = ms ! i" "\<not> should_strip ms i"
  using assms by (auto simp: in_set_conv_nth split: if_splits)

lemma result_ids_map:
  "result_ids ms = List.map_filter (\<lambda>(r, i). if r = Some ''tool'' then i else None)
     (map (\<lambda>m. (msg_role m, result_id m)) ms)"
  by (induction ms) (auto simp: result_ids_def map_filter_simps split: option.splits)

lemma result_ids_strip [simp]: "result_ids (strip_pass ms) = result_ids ms"
  by (simp add: result_ids_map strip_pass_same)

lemma in_result_ids:
  "i \<in> set (result_ids ms) \<longleftrightarrow> (\<exists>m \<in> set ms. msg_role m = Some ''tool'' \<and> result_id m = Some i)"
  by (induction ms) (auto simp: result_ids_def map_filter_simps split: option.splits)

lemma in_live_call_ids:
  "i \<in> set (live_call_ids ms) \<longleftrightarrow>
     (\<exists>m \<in> set ms. msg_role m = Some ''assistant'' \<and> (\<exists>calls. calls_of m = Some calls \<and> i \<in> set (call_ids calls)))"
  by (induction ms) (auto simp: live_call_ids_def map_filter_simps split: option.splits)

lemma live_after_filter [simp]: "live_call_ids (filter (keeps_result st) ms) = live_call_ids ms"
proof -
  have "filter (\<lambda>m. msg_role m = Some ''assistant'') (filter (keeps_result st) ms) =
      filter (\<lambda>m. msg_role m = Some ''assistant'') ms"
    by (induction ms) (simp_all add: keeps_result_def)
  then show ?thesis by (simp add: live_call_ids_def)
qed

lemma call_ids_nil [simp]: "call_ids [] = []"
  by (simp add: call_ids_def map_filter_simps)

lemma repair_calls_answered:
  assumes "m \<in> set (repair_orphaned_tool_calls ms)" "msg_role m = Some ''assistant''"
    and "calls_of m = Some calls" "i \<in> set (call_ids calls)"
  shows "i \<in> set (result_ids (repair_orphaned_tool_calls ms))"
proof -
  have m: "m \<in> set (strip_pass ms)" using assms(1) by (auto simp: repair_orphaned_tool_calls_def Let_def)
  then have "i \<in> set (result_ids ms)"
  proof (cases rule: in_strip_pass)
    case (stripped k)
    then show ?thesis using assms(3) by simp
  next
    case (same k)
    then show ?thesis using assms(2-4) by (auto simp: should_strip_def list_all_iff split: if_splits)
  qed
  then obtain t where t: "t \<in> set (strip_pass ms)" "msg_role t = Some ''tool''" "result_id t = Some i"
    using in_result_ids [of i "strip_pass ms"] by auto
  have "i \<in> set (live_call_ids (strip_pass ms))" using m assms(2-4) in_live_call_ids by blast
  then have "keeps_result (strip_pass ms) t" using t by (simp add: keeps_result_def)
  then show ?thesis using t by (auto simp: in_result_ids repair_orphaned_tool_calls_def Let_def)
qed

lemma repair_results_called:
  assumes "m \<in> set (repair_orphaned_tool_calls ms)" "msg_role m = Some ''tool''"
    and "result_id m = Some i" "i \<noteq> []"
  shows "i \<in> set (live_call_ids (repair_orphaned_tool_calls ms))"
  using assms by (auto simp: repair_orphaned_tool_calls_def Let_def keeps_result_def)

text \<open>What a repair may do to a message that it keeps.\<close>

definition repaired :: "json \<Rightarrow> json \<Rightarrow> bool" where
  "repaired m m' \<longleftrightarrow> m' = m \<or> msg_role m = Some ''assistant'' \<and> m' = strip_calls m"

lemma strip_pass_repaired: "list_all2 repaired ms (strip_pass ms)"
  by (auto simp: list_all2_conv_all_nth repaired_def should_strip_def)

lemma others_kept:
  assumes "list_all2 repaired ms ms'" "\<And>m. P m \<Longrightarrow> msg_role m \<noteq> Some ''assistant'' \<and> msg_role m \<noteq> Some ''tool''"
  shows "filter P ms = filter P (filter (keeps_result st) ms')"
  using assms(1)
proof (induction rule: list_all2_induct)
  case (Cons m ms m' ms')
  have "P m' \<longleftrightarrow> P m" using Cons(1) assms(2) [of m] assms(2) [of m'] by (auto simp: repaired_def)
  moreover have "P m \<Longrightarrow> m' = m \<and> keeps_result st m'"
    using Cons(1) assms(2) [of m] by (auto simp: repaired_def keeps_result_def)
  ultimately show ?case using Cons by auto
qed simp

text \<open>Every call that is listed carries an id, and calls and results answer each other.\<close>

definition calls_named :: "json list \<Rightarrow> bool" where
  "calls_named ms \<longleftrightarrow>
     (\<forall>m \<in> set ms. msg_role m = Some ''assistant'' \<longrightarrow>
        (\<forall>calls. calls_of m = Some calls \<longrightarrow> calls = [] \<or> call_ids calls \<noteq> []))"

definition results_called :: "json list \<Rightarrow> bool" where
  "results_called ms \<longleftrightarrow>
     (\<forall>m \<in> set ms. msg_role m = Some ''tool'' \<longrightarrow>
        (\<forall>i. result_id m = Some i \<and> i \<noteq> [] \<longrightarrow> i \<in> set (live_call_ids ms)))"

definition calls_answered :: "json list \<Rightarrow> bool" where
  "calls_answered ms \<longleftrightarrow>
     (\<forall>m \<in> set ms. msg_role m = Some ''assistant'' \<longrightarrow>
        (\<forall>calls. calls_of m = Some calls \<longrightarrow> set (call_ids calls) \<subseteq> set (result_ids ms)))"

lemma repair_balanced:
  assumes "calls_named ms" "results_called ms" "calls_answered ms"
  shows "repair_orphaned_tool_calls ms = ms"
proof -
  have "\<not> should_strip ms i" if "i < length ms" for i
    using assms(1,3) nth_mem [OF that]
    by (auto simp: should_strip_def calls_named_def calls_answered_def list_all_iff subset_iff split: option.splits)
  then have "strip_pass ms = ms" by (intro nth_equalityI) auto
  moreover have "\<forall>m \<in> set ms. keeps_result ms m"
    using assms(2) by (auto simp: keeps_result_def results_called_def split: option.splits)
  ultimately show ?thesis by (simp add: repair_orphaned_tool_calls_def Let_def)
qed

lemma repair_named:
  assumes "calls_named ms"
  shows "calls_named (repair_orphaned_tool_calls ms)"
proof -
  have "\<forall>calls. calls_of m = Some calls \<longrightarrow> calls = [] \<or> call_ids calls \<noteq> []"
    if "m \<in> set (strip_pass ms)" "msg_role m = Some ''assistant''" for m
    using that(1)
  proof (cases rule: in_strip_pass)
    case (same i)
    then show ?thesis using assms that(2) by (auto simp: calls_named_def)
  qed simp
  then show ?thesis by (auto simp: calls_named_def repair_orphaned_tool_calls_def Let_def)
qed

section \<open>Properties\<close>


text \<open>A system message, two calls of which one is answered, and a result of a call that was cut.\<close>

definition sample_message :: "string \<Rightarrow> (string \<times> json) list \<Rightarrow> json" where
  "sample_message role entries = JObject ((''role'', JString role) # entries)"

definition sample_transcript :: "json list" where
  "sample_transcript =
     [sample_message ''system'' [(''content'', JString ''s'')],
      sample_message ''tool'' [(''tool_call_id'', JString ''gone'')],
      sample_message ''assistant'' [(''tool_calls'', JArray [JObject [(''id'', JString ''a'')]])],
      sample_message ''tool'' [(''tool_call_id'', JString ''a'')],
      sample_message ''assistant'' [(''tool_calls'', JArray [JObject [(''id'', JString ''b'')]])]]"


text \<open>
  The fallback for calls without ids looks at the next message before results are dropped: here the
  next message is dropped, and the call stays behind without a result.
\<close>

lemma unnamed_call_is_orphaned:
  "let call = sample_message ''assistant'' [(''tool_calls'', JArray [JObject []])] in
   repair_orphaned_tool_calls [call, sample_message ''tool'' [(''tool_call_id'', JString ''x'')]] = [call]"
  by code_simp

end
