(* ===== verification/ContextBudget.thy ===== *)
theory ContextBudget
  imports ContextTrim
begin

text \<open>
  How much a request may hold and when a transcript is compressed:
  \<^verbatim>\<open>newt-core/src/agentic/send_budget.rs\<close>, the percentage ceiling of
  \<^verbatim>\<open>newt-core/src/config/context.rs\<close>, and the trigger and the boundary of
  \<^verbatim>\<open>newt-core/src/agentic/compress.rs\<close>. Windows are \<^verbatim>\<open>u32\<close> values in the code; they are
  naturals here and the conversions to \<^verbatim>\<open>u32\<close> are written out. Calibration is in floating point
  and is an argument.
\<close>

section \<open>Ceilings\<close>

definition U32 :: nat where
  "U32 = 2 ^ 32"

definition normalize_input_ceiling_pct :: "nat \<Rightarrow> nat" where
  "normalize_input_ceiling_pct value = (if 1 \<le> value \<and> value \<le> 99 then value else 80)"

definition input_percentage_ceiling :: "nat \<Rightarrow> nat \<Rightarrow> nat" where
  "input_percentage_ceiling window pct =
     (window * normalize_input_ceiling_pct pct div 100) mod U32"

definition context_window_split :: "nat \<Rightarrow> nat \<Rightarrow> nat \<Rightarrow> nat \<times> nat" where
  "context_window_split window input_limit output_reserve =
     (let input = min input_limit (window - output_reserve)
      in (input, window - input mod U32))"

definition num_ctx_input_ceiling :: "nat option \<Rightarrow> nat \<Rightarrow> nat option \<Rightarrow> nat option" where
  "num_ctx_input_ceiling num_ctx pct max_output =
     map_option (\<lambda>window.
       fst (context_window_split window (input_percentage_ceiling window pct)
         (case max_output of Some r \<Rightarrow> r | None \<Rightarrow> 0))) num_ctx"

text \<open>The tighter of two optional bounds, and one of them where the other is absent.\<close>

definition tighter :: "nat option \<Rightarrow> nat option \<Rightarrow> nat option" where
  "tighter a b =
     (case (a, b) of (Some x, Some y) \<Rightarrow> Some (min x y) | (Some x, None) \<Rightarrow> Some x | (None, _) \<Rightarrow> b)"

definition authoritative_request_budget :: "nat option \<Rightarrow> bool \<Rightarrow> nat option \<Rightarrow> nat option" where
  "authoritative_request_budget send_budget authoritative token_threshold =
     (let send = (if authoritative then send_budget else None);
          threshold = (case token_threshold of Some b \<Rightarrow> if 0 < b then Some b else None | None \<Rightarrow> None)
      in tighter send threshold)"

definition initial_send_budget :: "nat option \<Rightarrow> nat option \<Rightarrow> nat option \<Rightarrow> nat option" where
  "initial_send_budget max_ok_input safe_context input_ceiling =
     (let cached = (case (max_ok_input, safe_context) of
                      (Some m, Some s) \<Rightarrow> Some (max m s)
                    | (Some m, None) \<Rightarrow> Some m
                    | (None, s) \<Rightarrow> s)
      in tighter cached input_ceiling)"

definition exposure_budget_tokens :: "nat option \<Rightarrow> nat option \<Rightarrow> nat option" where
  "exposure_budget_tokens send_budget safe_context =
     (case send_budget of Some b \<Rightarrow> Some b | None \<Rightarrow> safe_context)"

definition recovered_input_budget :: "nat \<Rightarrow> nat \<Rightarrow> nat option \<Rightarrow> nat option \<Rightarrow> nat" where
  "recovered_input_budget window pct max_output declared =
     (let recovered =
            fst (context_window_split window (input_percentage_ceiling window pct)
              (case max_output of Some r \<Rightarrow> r | None \<Rightarrow> 0))
      in (case declared of Some d \<Rightarrow> min recovered d | None \<Rightarrow> recovered))"

definition count_guard_has_headroom :: "nat \<Rightarrow> nat option \<Rightarrow> nat option \<Rightarrow> bool" where
  "count_guard_has_headroom current_tokens authoritative_budget max_ok_input \<longleftrightarrow>
     authoritative_budget \<noteq> None \<or>
     (case max_ok_input of Some accepted \<Rightarrow> current_tokens \<le> accepted | None \<Rightarrow> False)"

definition capped_accepted_prompt_tokens :: "nat \<Rightarrow> nat option \<Rightarrow> nat" where
  "capped_accepted_prompt_tokens accepted declared =
     (case declared of Some d \<Rightarrow> min accepted d | None \<Rightarrow> accepted)"

definition is_truncation_suspect :: "nat \<Rightarrow> nat option \<Rightarrow> bool" where
  "is_truncation_suspect input_tokens num_ctx =
     (case num_ctx of Some c \<Rightarrow> min (c * 95) (U32 - 1) div 100 \<le> input_tokens | None \<Rightarrow> False)"

section \<open>Admission\<close>

definition full_message_request_real_tokens ::
    "(nat \<Rightarrow> nat) \<Rightarrow> nat \<Rightarrow> json list \<Rightarrow> json option \<Rightarrow> nat" where
  "full_message_request_real_tokens calibrate_up est messages tools =
     calibrate_up (estimate_request_tokens est messages tools)"

definition full_message_request_pressure_tokens ::
    "(nat \<Rightarrow> nat) \<Rightarrow> nat \<Rightarrow> nat \<Rightarrow> json list \<Rightarrow> json option \<Rightarrow> nat" where
  "full_message_request_pressure_tokens calibrate_up est tracked messages tools =
     max tracked (full_message_request_real_tokens calibrate_up est messages tools)"

text \<open>A refusal carries what was needed and what there was.\<close>

definition preflight_full_message_request ::
    "(nat \<Rightarrow> nat) \<Rightarrow> nat \<Rightarrow> nat option \<Rightarrow> json list \<Rightarrow> json option \<Rightarrow> (nat \<times> nat) + unit" where
  "preflight_full_message_request calibrate_up est budget messages tools =
     (case budget of
        None \<Rightarrow> Inr ()
      | Some b \<Rightarrow>
          (let required = full_message_request_real_tokens calibrate_up est messages tools
           in if b < required then Inl (required, b) else Inr ()))"

definition preflight_irreducible_request ::
    "(nat \<Rightarrow> nat) \<Rightarrow> nat \<Rightarrow> nat option \<Rightarrow> json list \<Rightarrow> json option \<Rightarrow> (nat \<times> nat) + unit" where
  "preflight_irreducible_request calibrate_up est budget messages tools =
     (case budget of
        None \<Rightarrow> Inr ()
      | Some b \<Rightarrow>
          (let head = protected_prompt_head_len messages ACTIVE_PROMPT_PREFIX;
               newest = List.find (\<lambda>m. msg_role m = Some ''user'') (List.rev (drop head messages));
               estimated = estimate_request_tokens est (take head messages) tools +
                 (case newest of Some m \<Rightarrow> estimate_value_tokens est m | None \<Rightarrow> 0);
               required = calibrate_up estimated
           in if b < required then Inl (required, b) else Inr ()))"

section \<open>The budget of a turn\<close>

record budget_state =
  bs_num_ctx :: "nat option"
  bs_input_ceiling_pct :: nat
  bs_output_reserve :: "nat option"
  bs_safe_context :: "nat option"
  bs_tool_schema_tokens :: nat
  bs_learned_hard_ceiling :: "nat option"
  bs_soft_send_budget :: "nat option"
  bs_preflight_budget :: "nat option"
  bs_mid_loop_trim :: "nat option"

definition budget_new ::
    "nat option \<Rightarrow> nat \<Rightarrow> nat option \<Rightarrow> nat option \<Rightarrow> nat option \<Rightarrow> nat option \<Rightarrow> budget_state" where
  "budget_new num_ctx pct output_reserve max_ok_input safe_context mid_loop_trim =
     (let seed = num_ctx_input_ceiling num_ctx pct output_reserve;
          soft = initial_send_budget max_ok_input safe_context seed;
          authoritative = (safe_context \<noteq> None \<or> seed \<noteq> None)
      in \<lparr>bs_num_ctx = num_ctx, bs_input_ceiling_pct = pct, bs_output_reserve = output_reserve,
          bs_safe_context = safe_context, bs_tool_schema_tokens = 0, bs_learned_hard_ceiling = seed,
          bs_soft_send_budget = soft,
          bs_preflight_budget = authoritative_request_budget soft authoritative mid_loop_trim,
          bs_mid_loop_trim = mid_loop_trim\<rparr>)"

definition set_tool_schema_tokens :: "nat \<Rightarrow> budget_state \<Rightarrow> budget_state" where
  "set_tool_schema_tokens tokens b = b\<lparr>bs_tool_schema_tokens := tokens\<rparr>"

definition exposure_budget :: "budget_state \<Rightarrow> nat option" where
  "exposure_budget b = exposure_budget_tokens (bs_soft_send_budget b) (bs_safe_context b)"

definition actionable_input_budget :: "budget_state \<Rightarrow> nat option" where
  "actionable_input_budget b = bs_preflight_budget b"

definition recovered_budget_for_window :: "nat \<Rightarrow> budget_state \<Rightarrow> nat" where
  "recovered_budget_for_window window b =
     recovered_input_budget window (bs_input_ceiling_pct b) (bs_output_reserve b) (bs_learned_hard_ceiling b)"

definition recover_from_cw400 :: "nat \<Rightarrow> budget_state \<Rightarrow> budget_state" where
  "recover_from_cw400 recovered b =
     (let new = (case bs_learned_hard_ceiling b of Some c \<Rightarrow> min recovered c | None \<Rightarrow> recovered)
      in b\<lparr>bs_soft_send_budget := Some new, bs_learned_hard_ceiling := Some new,
           bs_preflight_budget := authoritative_request_budget (Some new) True (bs_mid_loop_trim b)\<rparr>)"

definition compaction_budget :: "(nat \<Rightarrow> nat) \<Rightarrow> bool \<Rightarrow> budget_state \<Rightarrow> nat" where
  "compaction_budget calibrate_down with_tool_schemas b =
     (let ceiling = (case bs_preflight_budget b of Some c \<Rightarrow> c | None \<Rightarrow> 0);
          overhead = (if with_tool_schemas then bs_tool_schema_tokens b else 0)
      in calibrate_down (ceiling - overhead))"

section \<open>The trigger of a compression\<close>

datatype trigger_policy = HeadroomAware | PolicyMessageCount

datatype trigger_cause = Cause_MessageCount | Cause_TokenThreshold | Cause_SendBudget

record trigger_limits =
  tl_count_threshold :: nat
  tl_token_threshold :: "nat option"
  tl_send_budget :: "nat option"
  tl_tool_tokens :: nat
  tl_policy :: trigger_policy
  tl_has_headroom :: bool

record compress_trigger =
  ct_budget :: nat
  ct_max_messages :: "nat option"
  ct_hard_budget :: bool
  ct_policy :: trigger_policy
  ct_message_count :: nat
  ct_message_count_threshold :: nat
  ct_current_tokens :: nat
  ct_token_threshold :: "nat option"
  ct_send_budget :: "nat option"
  ct_has_headroom :: bool
  ct_count_fired :: bool
  ct_token_fired :: bool
  ct_send_budget_fired :: bool
  ct_primary_cause :: trigger_cause

definition positive :: "nat option \<Rightarrow> nat option" where
  "positive b = (case b of Some n \<Rightarrow> if 0 < n then Some n else None | None \<Rightarrow> None)"

definition exceeds :: "nat \<Rightarrow> nat option \<Rightarrow> bool" where
  "exceeds n b = (case b of Some m \<Rightarrow> m < n | None \<Rightarrow> False)"

text \<open>The largest \<^verbatim>\<open>usize\<close> stands for no budget in the code, and so it does here.\<close>

definition USIZE_MAX :: nat where
  "USIZE_MAX = 18446744073709551615"

definition compression_trigger :: "nat \<Rightarrow> nat \<Rightarrow> nat \<Rightarrow> trigger_limits \<Rightarrow> compress_trigger option" where
  "compression_trigger len current_tokens message_tokens l =
     (let token_threshold = positive (tl_token_threshold l);
          send_budget = positive (tl_send_budget l);
          count_fired = (tl_count_threshold l < len \<and>
            (tl_policy l = PolicyMessageCount \<or> \<not> tl_has_headroom l));
          token_fired = exceeds current_tokens token_threshold;
          send_fired = exceeds current_tokens send_budget
      in if \<not> (count_fired \<or> token_fired \<or> send_fired) then None
         else
           (let token_budget = (if token_fired then map_option (\<lambda>b. b - tl_tool_tokens l) token_threshold else None);
                send_target = (if send_fired then map_option (\<lambda>b. b - tl_tool_tokens l) send_budget else None);
                (target, cause) =
                  (case (token_budget, send_target) of
                     (Some t, Some s) \<Rightarrow> if s \<le> t then (s, Cause_SendBudget) else (t, Cause_TokenThreshold)
                   | (Some t, None) \<Rightarrow> (t, Cause_TokenThreshold)
                   | (None, Some s) \<Rightarrow> (s, Cause_SendBudget)
                   | (None, None) \<Rightarrow> (USIZE_MAX, Cause_MessageCount));
                hard = (target \<noteq> USIZE_MAX)
            in Some \<lparr>ct_budget = (if hard then target else message_tokens div 2),
                 ct_max_messages = (if count_fired then Some (tl_count_threshold l div 2) else None),
                 ct_hard_budget = hard, ct_policy = tl_policy l, ct_message_count = len,
                 ct_message_count_threshold = tl_count_threshold l, ct_current_tokens = current_tokens,
                 ct_token_threshold = token_threshold, ct_send_budget = send_budget,
                 ct_has_headroom = tl_has_headroom l, ct_count_fired = count_fired,
                 ct_token_fired = token_fired, ct_send_budget_fired = send_fired,
                 ct_primary_cause = cause\<rparr>))"

section \<open>Lemmas\<close>

lemma tighter_None [simp]: "tighter a b = None \<longleftrightarrow> a = None \<and> b = None"
  by (simp add: tighter_def split: option.splits)

lemma tighter_Some:
  "tighter a b = Some c \<longleftrightarrow>
     (a = Some c \<or> b = Some c) \<and> (\<forall>x. a = Some x \<longrightarrow> c \<le> x) \<and> (\<forall>y. b = Some y \<longrightarrow> c \<le> y)"
  by (auto simp: tighter_def min_def split: option.splits)

lemma split_bounds:
  "fst (context_window_split window lim reserve) \<le> lim"
  "fst (context_window_split window lim reserve) \<le> window - reserve"
  "window < U32 \<Longrightarrow>
     fst (context_window_split window lim reserve) + snd (context_window_split window lim reserve) = window"
  by (auto simp: context_window_split_def Let_def)

text \<open>The room of a window: its percentage, and what the reserve leaves of it.\<close>

definition room :: "nat \<Rightarrow> nat option \<Rightarrow> nat \<Rightarrow> nat" where
  "room pct reserve w =
     min (input_percentage_ceiling w pct) (w - (case reserve of Some r \<Rightarrow> r | None \<Rightarrow> 0))"

lemma ceiling_room: "num_ctx_input_ceiling num_ctx pct reserve = map_option (room pct reserve) num_ctx"
  by (cases num_ctx) (simp_all add: num_ctx_input_ceiling_def context_window_split_def room_def Let_def)

lemma recovered_room:
  "recovered_input_budget w pct reserve declared =
     (case declared of Some d \<Rightarrow> min (room pct reserve w) d | None \<Rightarrow> room pct reserve w)"
  by (simp add: recovered_input_budget_def context_window_split_def room_def Let_def split: option.splits)

definition recover_window :: "nat \<Rightarrow> budget_state \<Rightarrow> budget_state" where
  "recover_window w b = recover_from_cw400 (recovered_budget_for_window w b) b"

lemma recover_window_fields:
  "bs_num_ctx (recover_window w b) = bs_num_ctx b"
  "bs_input_ceiling_pct (recover_window w b) = bs_input_ceiling_pct b"
  "bs_output_reserve (recover_window w b) = bs_output_reserve b"
  "bs_mid_loop_trim (recover_window w b) = bs_mid_loop_trim b"
  "bs_learned_hard_ceiling (recover_window w b) =
     tighter (bs_learned_hard_ceiling b) (Some (room (bs_input_ceiling_pct b) (bs_output_reserve b) w))"
  "bs_soft_send_budget (recover_window w b) = bs_learned_hard_ceiling (recover_window w b)"
  "bs_preflight_budget (recover_window w b) =
     authoritative_request_budget (bs_learned_hard_ceiling (recover_window w b)) True (bs_mid_loop_trim b)"
  by (auto simp: recover_window_def recover_from_cw400_def recovered_budget_for_window_def
      recovered_room tighter_def Let_def min_def split: option.splits)

text \<open>What holds of a budget at every point of a turn, for the windows that it has met.\<close>

definition budget_inv :: "nat \<Rightarrow> nat option \<Rightarrow> nat option \<Rightarrow> nat set \<Rightarrow> budget_state \<Rightarrow> bool" where
  "budget_inv pct reserve mid seen b \<longleftrightarrow>
     bs_input_ceiling_pct b = pct \<and> bs_output_reserve b = reserve \<and> bs_mid_loop_trim b = mid \<and>
     (bs_learned_hard_ceiling b = None \<longleftrightarrow> seen = {}) \<and>
     (\<forall>c. bs_learned_hard_ceiling b = Some c \<longrightarrow>
        c \<in> room pct reserve ` seen \<and> (\<forall>w \<in> seen. c \<le> room pct reserve w) \<and>
        (\<exists>a. bs_preflight_budget b = Some a \<and> a \<le> c)) \<and>
     (\<forall>a t. bs_preflight_budget b = Some a \<and> mid = Some t \<and> 0 < t \<longrightarrow> a \<le> t)"

lemma authoritative_tight:
  "authoritative_request_budget (Some s) True mid = Some a \<Longrightarrow> a \<le> s \<and> (\<forall>t. mid = Some t \<and> 0 < t \<longrightarrow> a \<le> t)"
  "\<exists>a. authoritative_request_budget (Some s) True mid = Some a"
  "authoritative_request_budget sb auth mid = Some a \<Longrightarrow> mid = Some t \<Longrightarrow> 0 < t \<Longrightarrow> a \<le> t"
  by (auto simp: authoritative_request_budget_def Let_def tighter_def split: option.splits if_splits)

lemma budget_inv_recover:
  assumes "budget_inv pct reserve mid seen b"
  shows "budget_inv pct reserve mid (insert w seen) (recover_window w b)"
proof -
  obtain c where c: "bs_learned_hard_ceiling (recover_window w b) = Some c"
    by (metis not_None_eq option.distinct(1) recover_window_fields(5) tighter_None)
  then have t: "tighter (bs_learned_hard_ceiling b) (Some (room pct reserve w)) = Some c"
    using assms by (simp add: recover_window_fields budget_inv_def)
  have "c \<in> room pct reserve ` insert w seen \<and> (\<forall>v \<in> insert w seen. c \<le> room pct reserve v)"
  proof (cases "bs_learned_hard_ceiling b")
    case None
    then show ?thesis using t assms by (simp add: budget_inv_def tighter_def)
  next
    case (Some d)
    then have "d \<in> room pct reserve ` seen" "\<forall>v \<in> seen. d \<le> room pct reserve v"
      using assms by (auto simp: budget_inv_def)
    moreover have "c = min d (room pct reserve w)" using t Some by (simp add: tighter_def)
    ultimately show ?thesis by (auto simp: min_def intro: order_trans)
  qed
  moreover obtain a where a: "bs_preflight_budget (recover_window w b) = Some a"
    using authoritative_tight(2) [of c "bs_mid_loop_trim b"] by (auto simp: recover_window_fields(7) c)
  moreover have "a \<le> c \<and> (\<forall>t. mid = Some t \<and> 0 < t \<longrightarrow> a \<le> t)"
    using authoritative_tight(1) [of c mid a] a assms
    by (simp add: recover_window_fields(7) c budget_inv_def)
  ultimately show ?thesis using c assms by (auto simp: budget_inv_def recover_window_fields(2-4))
qed

lemma initial_within: "\<exists>s. initial_send_budget m k (Some c) = Some s \<and> s \<le> c"
  by (cases m; cases k) (simp_all add: initial_send_budget_def tighter_def)

lemma budget_inv_new:
  "budget_inv pct reserve mid (set_option num_ctx) (budget_new num_ctx pct reserve max_ok safe mid)"
proof (cases num_ctx)
  case None
  then show ?thesis
    by (auto simp: budget_inv_def budget_new_def Let_def ceiling_room dest: authoritative_tight(3))
next
  case (Some w)
  let ?seed = "Some (room pct reserve w)"
  obtain s where s: "initial_send_budget max_ok safe ?seed = Some s" "s \<le> room pct reserve w"
    using initial_within by blast
  obtain a where "authoritative_request_budget (Some s) True mid = Some a"
    using authoritative_tight(2) by blast
  then show ?thesis
    using s authoritative_tight(1) [of s mid a] Some
    by (auto simp: budget_inv_def budget_new_def Let_def ceiling_room)
qed

lemma budget_inv_run:
  "budget_inv pct reserve mid seen b \<Longrightarrow>
     budget_inv pct reserve mid (seen \<union> set ws) (fold recover_window ws b)"
proof (induction ws arbitrary: seen b)
  case (Cons w ws)
  then show ?case using Cons.IH [OF budget_inv_recover [OF Cons.prems, of w]] by simp
qed simp

section \<open>Properties\<close>

text \<open>
  C25. The budget of a turn only tightens: after any sequence of windows that a backend reports in
  its refusals, the learned ceiling is the least room of the windows that are known, declared or
  reported (the room of a window is its percentage, or what the output reserve leaves of it when
  that is less); the budget that a request is refused against is at most that ceiling and at most
  a positive trim threshold; it exists as soon as a window is known; and one more report never
  raises the ceiling.
\<close>

theorem budget_only_tightens:
  fixes num_ctx reserve max_ok safe mid :: "nat option" and pct :: nat
  defines "turn \<equiv> \<lambda>ws. fold recover_window ws (budget_new num_ctx pct reserve max_ok safe mid)"
  shows "(\<forall>c. bs_learned_hard_ceiling (turn ws) = Some c \<longrightarrow>
        c = Min (room pct reserve ` (set_option num_ctx \<union> set ws)) \<and>
        (\<exists>a. actionable_input_budget (turn ws) = Some a \<and> a \<le> c)) \<and>
    (bs_learned_hard_ceiling (turn ws) = None \<longleftrightarrow> num_ctx = None \<and> ws = []) \<and>
    (\<forall>a t. actionable_input_budget (turn ws) = Some a \<and> mid = Some t \<and> 0 < t \<longrightarrow> a \<le> t) \<and>
    (\<forall>c w. bs_learned_hard_ceiling (turn ws) = Some c \<longrightarrow>
       (\<exists>d. bs_learned_hard_ceiling (turn (ws @ [w])) = Some d \<and> d \<le> c))"
proof -
  let ?seen = "set_option num_ctx \<union> set ws"
  have inv: "budget_inv pct reserve mid ?seen (turn ws)"
    unfolding turn_def by (rule budget_inv_run [OF budget_inv_new])
  have "c = Min (room pct reserve ` ?seen)" if "bs_learned_hard_ceiling (turn ws) = Some c" for c
    using inv that by (intro Min_eqI [symmetric]) (auto simp: budget_inv_def)
  moreover have "\<exists>d. bs_learned_hard_ceiling (turn (ws @ [w])) = Some d \<and> d \<le> c"
    if "bs_learned_hard_ceiling (turn ws) = Some c" for c w
    using that by (simp add: turn_def recover_window_fields(5) tighter_def)
  moreover have "bs_learned_hard_ceiling (turn ws) = None \<longleftrightarrow> num_ctx = None \<and> ws = []"
    using inv by (cases num_ctx) (auto simp: budget_inv_def)
  ultimately show ?thesis using inv by (auto simp: budget_inv_def actionable_input_budget_def)
qed

lemma budget_only_tightens_witness:
  "bs_learned_hard_ceiling (fold recover_window [1000] (budget_new (Some 8192) 80 (Some 300) None None None)) = Some 700 \<and>
   (\<exists>d. bs_learned_hard_ceiling (fold recover_window [1000, 4096] (budget_new (Some 8192) 80 (Some 300) None None None)) = Some d \<and>
      d \<le> 700)"
proof -
  have "bs_learned_hard_ceiling (fold recover_window [1000] (budget_new (Some 8192) 80 (Some 300) None None None)) = Some 700"
    by (simp add: recover_window_fields budget_new_def Let_def ceiling_room room_def tighter_def
        input_percentage_ceiling_def normalize_input_ceiling_pct_def U32_def)
  then obtain d where "bs_learned_hard_ceiling (fold recover_window ([1000] @ [4096])
      (budget_new (Some 8192) 80 (Some 300) None None None)) = Some d" "d \<le> 700"
    using budget_only_tightens [where ws = "[1000]" and num_ctx = "Some 8192" and pct = 80
      and reserve = "Some 300" and max_ok = None and safe = None and mid = None] by blast
  moreover note \<open>bs_learned_hard_ceiling _ = Some 700\<close>
  ultimately show ?thesis by (metis append_Cons append_Nil)
qed

text \<open>
  C34. Compression fires exactly when a guard does: the count of messages, where the policy counts
  them or no ceiling is known, or a positive token threshold or send budget that the request
  exceeds. The budget it aims for is hard exactly when a token guard fired, and then leaves room
  for the tool schemas below every guard that fired and lies below the current size; otherwise it
  is half of the messages. The count is capped only when the count guard fired, so under a known
  ceiling a policy that minds the headroom never caps it.
\<close>

theorem trigger_decides:
  fixes l :: trigger_limits and len current :: nat
  assumes "current \<le> USIZE_MAX"
  defines "guards \<equiv> {b. 0 < b \<and> b < current \<and> (tl_token_threshold l = Some b \<or> tl_send_budget l = Some b)}"
    and "count \<equiv> tl_count_threshold l < len \<and> (tl_policy l = PolicyMessageCount \<or> \<not> tl_has_headroom l)"
  shows "(compression_trigger len current message_tokens l = None \<longleftrightarrow> \<not> count \<and> guards = {}) \<and>
    (\<forall>t. compression_trigger len current message_tokens l = Some t \<longrightarrow>
       (ct_hard_budget t \<longleftrightarrow> guards \<noteq> {}) \<and>
       (ct_hard_budget t \<longrightarrow> ct_budget t \<in> (\<lambda>b. b - tl_tool_tokens l) ` guards \<and> ct_budget t < current \<and>
          (\<forall>b \<in> guards. ct_budget t \<le> b - tl_tool_tokens l)) \<and>
       (\<not> ct_hard_budget t \<longrightarrow> ct_budget t = message_tokens div 2 \<and> ct_primary_cause t = Cause_MessageCount) \<and>
       ct_max_messages t = (if count then Some (tl_count_threshold l div 2) else None))"
proof -
  let ?tok = "positive (tl_token_threshold l)" and ?send = "positive (tl_send_budget l)"
  have pos: "positive o' = Some b \<longleftrightarrow> o' = Some b \<and> 0 < b" for o' b
    by (auto simp: positive_def split: option.splits if_splits)
  have guards: "guards = {b. b < current \<and> (?tok = Some b \<or> ?send = Some b)}"
    by (auto simp: guards_def pos)
  have exceeds: "exceeds current o' \<longleftrightarrow> (\<exists>b. o' = Some b \<and> b < current)" for o'
    by (auto simp: exceeds_def split: option.splits)
  have less: "b < current \<Longrightarrow> b - tl_tool_tokens l \<noteq> USIZE_MAX" for b using assms(1) by simp
  show ?thesis
    unfolding compression_trigger_def Let_def count_def [symmetric] guards exceeds
    using less
    by (cases ?tok; cases ?send; cases "the ?tok < current"; cases "the ?send < current")
      (auto split: if_splits)
qed

lemma trigger_decides_witness:
  "\<exists>t. compression_trigger 3 5000 900 \<lparr>tl_count_threshold = 40, tl_token_threshold = Some 4000, tl_send_budget = Some 3000,
      tl_tool_tokens = 500, tl_policy = HeadroomAware, tl_has_headroom = True\<rparr> = Some t \<and>
     ct_hard_budget t \<and> ct_budget t \<le> 2500 \<and> ct_max_messages t = None"
proof -
  let ?l = "\<lparr>tl_count_threshold = 40, tl_token_threshold = Some 4000, tl_send_budget = Some 3000,
      tl_tool_tokens = 500, tl_policy = HeadroomAware, tl_has_headroom = True\<rparr>"
  have small: "(5000::nat) \<le> USIZE_MAX" by (simp add: USIZE_MAX_def)
  let ?guards = "{b. 0 < b \<and> b < 5000 \<and> (tl_token_threshold ?l = Some b \<or> tl_send_budget ?l = Some b)}"
  have fired: "compression_trigger 3 5000 900 ?l \<noteq> None"
    by (simp add: compression_trigger_def positive_def exceeds_def Let_def)
  then obtain t where t: "compression_trigger 3 5000 900 ?l = Some t" by blast
  have guard: "3000 \<in> ?guards" by simp
  note all = trigger_decides [OF small, where l = ?l and len = 3 and message_tokens = 900,
      THEN conjunct2, rule_format, OF t]
  have hard: "ct_hard_budget t" using all guard by blast
  then have "ct_budget t \<le> 3000 - tl_tool_tokens ?l" using all guard by blast
  moreover have "ct_max_messages t = None" using all by simp
  ultimately show ?thesis using t hard by simp
qed

end
