(* ===== verification/ContextBoundary.thy ===== *)
theory ContextBoundary
  imports ContextBudget
begin

text \<open>
  Where a transcript is cut, \<^verbatim>\<open>newt-core/src/agentic/compress.rs\<close>: the messages of the pipeline
  itself, the protected head and tail between which the middle is summarised, and the trailing
  group of fresh tool results. An index out of bounds, which ends the program, is \<open>None\<close>.
\<close>

section \<open>Messages of the pipeline\<close>

definition SUMMARY_PREFIX :: string where
  "SUMMARY_PREFIX = ''[CONTEXT COMPACTION '' @ dash @ '' REFERENCE ONLY]''"

definition CONTINUATION_PREFIX :: string where
  "CONTINUATION_PREFIX = ''[POST-COMPACTION '' @ dash @ '' CONTINUE]''"

definition PLAN_APPROVAL_PREFIX :: string where
  "PLAN_APPROVAL_PREFIX = ''[plan-mode/approval]''"

definition LOOP_GUIDANCE_PREFIX :: string where
  "LOOP_GUIDANCE_PREFIX = ''[loop-guidance]''"

definition is_compaction_message :: "json \<Rightarrow> bool" where
  "is_compaction_message m \<longleftrightarrow>
     starts_with SUMMARY_PREFIX (content_of m) \<or> starts_with CONTINUATION_PREFIX (content_of m) \<or>
     starts_with LOOP_GUIDANCE_PREFIX (content_of m) \<or> starts_with PLAN_APPROVAL_PREFIX (content_of m)"

definition is_continuation_message :: "json \<Rightarrow> bool" where
  "is_continuation_message m \<longleftrightarrow> starts_with CONTINUATION_PREFIX (content_of m)"

definition is_compaction_text :: "string \<Rightarrow> bool" where
  "is_compaction_text content \<longleftrightarrow> prefix SUMMARY_PREFIX content"

text \<open>\<^verbatim>\<open>rposition\<close>: the last index that satisfies a predicate.\<close>

definition rposition :: "('a \<Rightarrow> bool) \<Rightarrow> 'a list \<Rightarrow> nat option" where
  "rposition P xs = List.find (\<lambda>i. P (xs ! i)) (List.rev [0..<length xs])"

section \<open>The boundary\<close>

definition TAIL_MIN_MESSAGES :: nat where
  "TAIL_MIN_MESSAGES = 3"

text \<open>Walking back from the end while the tail may still grow.\<close>

fun walk_tail :: "nat \<Rightarrow> json list \<Rightarrow> nat \<Rightarrow> nat option \<Rightarrow> nat \<Rightarrow> nat \<Rightarrow> nat \<Rightarrow> nat \<Rightarrow> nat" where
  "walk_tail est ms head max_tail tail_budget 0 acc kept = 0"
| "walk_tail est ms head max_tail tail_budget (Suc n) acc kept =
     (if Suc n \<le> head then Suc n
      else if (case max_tail of Some m \<Rightarrow> m \<le> kept | None \<Rightarrow> False) then Suc n
      else
        (let t = estimate_value_tokens est (ms ! n)
         in if TAIL_MIN_MESSAGES \<le> kept \<and> tail_budget < acc + t then Suc n
            else walk_tail est ms head max_tail tail_budget n (acc + t) (kept + 1)))"

text \<open>Walking back from the results of a call to the message that made it.\<close>

fun align_tail :: "json list \<Rightarrow> nat \<Rightarrow> nat \<Rightarrow> nat option" where
  "align_tail ms head 0 = Some 0"
| "align_tail ms head (Suc n) =
     (if Suc n \<le> head then Some (Suc n)
      else if length ms \<le> Suc n then None
      else if msg_role (ms ! Suc n) = Some ''tool'' then align_tail ms head n
      else Some (Suc n))"

definition anchored_tail :: "nat \<Rightarrow> json list \<Rightarrow> nat \<Rightarrow> nat option \<Rightarrow> nat \<Rightarrow> nat" where
  "anchored_tail est ms head max_tail budget =
     (let walked = walk_tail est ms head max_tail (max (budget div 4) 1) (length ms) 0 0
      in (case rposition (\<lambda>m. msg_role m = Some ''user'' \<and> \<not> is_compaction_message m) ms of
            Some u \<Rightarrow> if head \<le> u then min walked u else walked
          | None \<Rightarrow> walked))"

text \<open>The cap on the count is applied again after the anchor.\<close>

definition capped_tail :: "json list \<Rightarrow> nat \<Rightarrow> nat option \<Rightarrow> nat \<Rightarrow> nat option" where
  "capped_tail ms head max_tail aligned =
     (case max_tail of
        None \<Rightarrow> Some aligned
      | Some m \<Rightarrow>
          let cap = length ms - m
          in if aligned < cap then align_tail ms head cap else Some aligned)"

definition compute_boundary ::
    "nat \<Rightarrow> json list \<Rightarrow> nat \<Rightarrow> nat option \<Rightarrow> nat \<Rightarrow> (nat \<times> nat) option" where
  "compute_boundary est ms budget max_messages replay_len =
     (let head = protected_prompt_head_len ms ACTIVE_PROMPT_PREFIX;
          replay = min replay_len (length ms);
          max_tail = map_option (\<lambda>m. max (m - (head + 1)) 1) max_messages
      in Option.bind (align_tail ms head (anchored_tail est ms head max_tail budget)) (\<lambda>aligned.
         Option.bind (capped_tail ms head max_tail aligned) (\<lambda>capped.
         Some (head, if 0 < replay then min capped (length ms - replay) else capped))))"

definition compression_message_count :: "json list \<Rightarrow> nat \<Rightarrow> nat" where
  "compression_message_count ms replay_len =
     (if replay_len = 0 then length ms else length ms - min replay_len (length ms) + 1)"

text \<open>The fresh results: from the last message that carries calls, or what must be replayed.\<close>

definition trailing_tool_group_len :: "json list \<Rightarrow> nat \<Rightarrow> nat" where
  "trailing_tool_group_len ms replay_len =
     (let replay = min replay_len (length ms) in
      if 0 < replay then replay
      else (case rposition (\<lambda>m. case calls_of m of Some cs \<Rightarrow> cs \<noteq> [] | None \<Rightarrow> False) ms of
              Some i \<Rightarrow> length ms - i | None \<Rightarrow> 0))"

section \<open>Lemmas\<close>

lemma rposition_Some:
  assumes "rposition P xs = Some i"
  shows "i < length xs \<and> P (xs ! i) \<and> (\<forall>j < length xs. P (xs ! j) \<longrightarrow> j \<le> i)"
proof -
  obtain before after where split: "List.rev [0..<length xs] = before @ i # after"
    "P (xs ! i)" "\<forall>j \<in> set before. \<not> P (xs ! j)"
    using assms find_Some_split [of "\<lambda>i. P (xs ! i)" "List.rev [0..<length xs]" i]
    by (auto simp: rposition_def)
  have "sorted_wrt (>) (before @ i # after)"
    unfolding split(1) [symmetric] by (simp add: sorted_wrt_rev)
  then have "\<forall>j \<in> set after. j < i" by (auto simp: sorted_wrt_append)
  moreover have members: "set (before @ i # after) = {..<length xs}"
    unfolding split(1) [symmetric] by auto
  ultimately have "j \<le> i" if "j < length xs" "P (xs ! j)" for j
    using that split(3) by (metis Un_iff insert_iff lessThan_iff less_imp_le list.set(2) order_refl set_append)
  moreover have "i < length xs" using members by auto
  ultimately show ?thesis using split(2) by blast
qed

lemma walk_tail_bounds:
  "head \<le> n \<Longrightarrow> head \<le> walk_tail est ms head max_tail tb n acc kept \<and> walk_tail est ms head max_tail tb n acc kept \<le> n"
  by (induction est ms head max_tail tb n acc kept rule: walk_tail.induct) (auto simp: Let_def)

text \<open>The walk takes a message unless it may take none, and at least three unless there is a cap.\<close>

lemma walk_tail_first:
  "head < n \<Longrightarrow> (\<And>m. max_tail = Some m \<Longrightarrow> 0 < m) \<Longrightarrow> walk_tail est ms head max_tail tb n acc 0 < n"
proof (cases n)
  case (Suc k)
  assume "head < n" "\<And>m. max_tail = Some m \<Longrightarrow> 0 < m"
  then show ?thesis
    using Suc walk_tail_bounds [of head k] by (auto simp: Let_def TAIL_MIN_MESSAGES_def less_Suc_eq_le split: option.splits)
qed simp

lemma walk_tail_keeps:
  "head \<le> n \<Longrightarrow> min (n - head) (TAIL_MIN_MESSAGES - kept) \<le> n - walk_tail est ms head None tb n acc kept"
proof (induction n arbitrary: acc kept)
  case (Suc n)
  show ?case
  proof (cases "head \<le> n \<and> \<not> (TAIL_MIN_MESSAGES \<le> kept \<and> tb < acc + estimate_value_tokens est (ms ! n))")
    case True
    let ?w = "walk_tail est ms head None tb n (acc + estimate_value_tokens est (ms ! n)) (kept + 1)"
    have "min (n - head) (TAIL_MIN_MESSAGES - (kept + 1)) \<le> n - ?w" using Suc.IH True by blast
    moreover have "?w \<le> n" using walk_tail_bounds True by blast
    moreover have "walk_tail est ms head None tb (Suc n) acc kept = ?w" using True by (auto simp: Let_def)
    ultimately show ?thesis using True by linarith
  next
    case False
    then show ?thesis using Suc.prems by auto
  qed
qed simp

lemma align_tail_Some:
  assumes "t < length ms \<or> t = head" "head \<le> t"
  shows "\<exists>a. align_tail ms head t = Some a \<and> head \<le> a \<and> a \<le> t \<and>
    (a = head \<or> msg_role (ms ! a) \<noteq> Some ''tool'')"
  using assms
proof (induction ms head t rule: align_tail.induct)
  case (2 ms head n)
  then show ?case by (cases "Suc n = head") (auto simp: le_Suc_eq)
qed auto

lemma anchored_tail_bounds:
  assumes "head \<le> length ms" "\<And>m. max_tail = Some m \<Longrightarrow> 0 < m"
  shows "head \<le> anchored_tail est ms head max_tail budget"
    "anchored_tail est ms head max_tail budget \<le> length ms"
    "anchored_tail est ms head max_tail budget < length ms \<or> anchored_tail est ms head max_tail budget = head"
proof -
  let ?walked = "walk_tail est ms head max_tail (max (budget div 4) 1) (length ms) 0 0"
  let ?a = "anchored_tail est ms head max_tail budget"
  have walked: "head \<le> ?walked" "?walked \<le> length ms" using walk_tail_bounds [OF assms(1)] by blast+
  have first: "?walked < length ms" if "head < length ms" using walk_tail_first [OF that assms(2)] .
  have "head \<le> ?a \<and> ?a \<le> ?walked"
    using walked(1) by (simp add: anchored_tail_def Let_def split: option.splits)
  then show "head \<le> ?a" "?a \<le> length ms" "?a < length ms \<or> ?a = head" using walked first by linarith+
qed

lemma anchored_tail_keeps:
  assumes "head \<le> length ms"
  shows "min (length ms - head) TAIL_MIN_MESSAGES \<le> length ms - anchored_tail est ms head None budget"
    and "rposition (\<lambda>m. msg_role m = Some ''user'' \<and> \<not> is_compaction_message m) ms = Some u \<Longrightarrow> head \<le> u \<Longrightarrow>
      anchored_tail est ms head None budget \<le> u"
proof -
  let ?walked = "walk_tail est ms head None (max (budget div 4) 1) (length ms) 0 0"
  have "min (length ms - head) TAIL_MIN_MESSAGES \<le> length ms - ?walked"
    using walk_tail_keeps [OF assms, of 0] by simp
  moreover have "anchored_tail est ms head None budget \<le> ?walked"
    by (simp add: anchored_tail_def Let_def split: option.splits)
  ultimately show "min (length ms - head) TAIL_MIN_MESSAGES \<le> length ms - anchored_tail est ms head None budget"
    by linarith
qed (simp add: anchored_tail_def Let_def)

lemma capped_tail_Some:
  assumes "head \<le> a" "a < length ms \<or> a = head" "a = head \<or> msg_role (ms ! a) \<noteq> Some ''tool''"
    and "\<And>m. max_tail = Some m \<Longrightarrow> 0 < m"
  shows "\<exists>c. capped_tail ms head max_tail a = Some c \<and> head \<le> c \<and> (c < length ms \<or> c = head) \<and>
    (c = head \<or> msg_role (ms ! c) \<noteq> Some ''tool'') \<and> (max_tail = None \<longrightarrow> c = a)"
proof (cases "\<exists>m. max_tail = Some m \<and> a < length ms - m")
  case True
  then obtain m where m: "max_tail = Some m" "a < length ms - m" by blast
  then have "0 < m" using assms(4) by blast
  then have cap: "length ms - m < length ms" "head \<le> length ms - m" using m(2) assms(1) by linarith+
  then obtain c where "align_tail ms head (length ms - m) = Some c" "head \<le> c" "c \<le> length ms - m"
    "c = head \<or> msg_role (ms ! c) \<noteq> Some ''tool''" using align_tail_Some by blast
  then show ?thesis using m cap by (intro exI [of _ c]) (simp add: capped_tail_def)
next
  case False
  then show ?thesis using assms by (intro exI [of _ a]) (simp add: capped_tail_def Let_def split: option.splits)
qed

section \<open>Properties\<close>


text \<open>
  A head of two, an answered call, a request of the operator, a summary, and a call with its two
  results: the tail is pulled back from the second result to the request.
\<close>

definition long_transcript :: "json list" where
  "long_transcript =
     [sample_message ''system'' [(''content'', JString (ACTIVE_PROMPT_PREFIX @ '' x''))],
      sample_message ''user'' [(''content'', JString ''task'')],
      sample_message ''assistant'' [(''content'', JString ''old'')],
      sample_message ''assistant'' [(''content'', JString ''older'')],
      sample_message ''user'' [(''content'', JString ''also this'')],
      sample_message ''user'' [(''content'', JString SUMMARY_PREFIX)],
      sample_message ''assistant'' [(''tool_calls'', JArray [JObject [(''id'', JString ''a'')], JObject [(''id'', JString ''b'')]])],
      sample_message ''tool'' [(''tool_call_id'', JString ''a'')],
      sample_message ''tool'' [(''tool_call_id'', JString ''b'')],
      sample_message ''assistant'' [(''content'', JString ''done'')]]"


end
