(* ===== verification/Prune.thy ===== *)
theory Prune
  imports ContextTrim
begin

text \<open>
  Making a transcript smaller without a model, \<^verbatim>\<open>newt-core/src/prune.rs\<close>: later copies of a
  long tool result, aged results and oversized arguments are rewritten in place, never a message
  added or dropped; and the reader of what a rewritten result said of its own outcome. The parser
  of JSON (\<open>parse\<close>) and the content hash (\<open>hash\<close>) are crates outside the repository and
  are arguments, as is the page of a source file (\<open>page\<close>), which rests on a syntax tree
  and on a keyed tag.
\<close>

section \<open>Characters\<close>

text \<open>\<^verbatim>\<open>chars().take(n)\<close> on UTF-8, and the ellipsis_mark.\<close>

fun take_chars :: "nat \<Rightarrow> string \<Rightarrow> string" where
  "take_chars n [] = []"
| "take_chars n (c # cs) =
     (if continues_char c then c # take_chars n cs
      else case n of 0 \<Rightarrow> [] | Suc k \<Rightarrow> c # take_chars k cs)"

definition ellipsis_mark :: string where
  "ellipsis_mark = map char_of [226, 128, 166 :: nat]"

text \<open>\<^verbatim>\<open>rsplit_once\<close> on a text: the last occurrence.\<close>

fun rsplit_str :: "string \<Rightarrow> string \<Rightarrow> (string \<times> string) option" where
  "rsplit_str pat [] = (if pat = [] then Some ([], []) else None)"
| "rsplit_str pat (c # cs) =
     (case rsplit_str pat cs of
        Some (a, b) \<Rightarrow> Some (c # a, b)
      | None \<Rightarrow> if prefix pat (c # cs) then Some ([], drop (length pat) (c # cs)) else None)"

definition strip_suffix :: "string \<Rightarrow> string \<Rightarrow> string option" where
  "strip_suffix p s = (if suffix p s then Some (take (length s - length p) s) else None)"

text \<open>\<^verbatim>\<open>parse::<i32>\<close>.\<close>

definition parse_i32 :: "string \<Rightarrow> int option" where
  "parse_i32 s =
     (case parse_i64 s of
        Some i \<Rightarrow> if - (2 ^ 31) \<le> i \<and> i < 2 ^ 31 then Some i else None
      | None \<Rightarrow> None)"

section \<open>Configuration\<close>

record prune_config =
  keep_last :: nat
  dedupe_min_chars :: nat
  summarize_min_chars :: nat
  args_max_chars :: nat
  arg_string_cap :: nat

definition prune_default :: prune_config where
  "prune_default =
     \<lparr>keep_last = 10, dedupe_min_chars = 200, summarize_min_chars = 200,
      args_max_chars = 500, arg_string_cap = 200\<rparr>"

definition MIN_ARG_STRING_CAP :: nat where
  "MIN_ARG_STRING_CAP = 32"

definition effective_arg_string_cap :: "prune_config \<Rightarrow> nat" where
  "effective_arg_string_cap cfg = max (arg_string_cap cfg) MIN_ARG_STRING_CAP"

definition aged_len :: "prune_config \<Rightarrow> nat \<Rightarrow> nat" where
  "aged_len cfg n = n - keep_last cfg"

section \<open>Pairing results with calls\<close>

record paired_call =
  call_name :: string
  call_args :: json

type_synonym pairing = "(paired_call \<times> nat option) list \<times> (string \<times> nat) list"

definition call_of :: "(string \<Rightarrow> json option) \<Rightarrow> json \<Rightarrow> paired_call" where
  "call_of parse tc =
     (let fn = jget tc ''function'' in
      \<lparr>call_name = (case as_str (jget fn ''name'') of Some n \<Rightarrow> n | None \<Rightarrow> ''tool''),
       call_args = (case jget fn ''arguments'' of
                      JString s \<Rightarrow> (case parse s of Some v \<Rightarrow> v | None \<Rightarrow> JNull)
                    | v \<Rightarrow> v)\<rparr>)"

definition pending_position :: "string \<Rightarrow> (string \<times> nat) list \<Rightarrow> nat option" where
  "pending_position i pending =
     (if i = [] then (if pending \<noteq> [] then Some 0 else None)
      else List.find (\<lambda>p. fst (pending ! p) = i) [0..<length pending])"

definition open_call :: "(string \<Rightarrow> json option) \<Rightarrow> json \<Rightarrow> pairing \<Rightarrow> pairing" where
  "open_call parse tc = (\<lambda>(calls, pending).
     (calls @ [(call_of parse tc, None)],
      pending @ [(case as_str (jget tc ''id'') of Some i \<Rightarrow> i | None \<Rightarrow> [], length calls)]))"

definition pair_step :: "(string \<Rightarrow> json option) \<Rightarrow> nat \<times> json \<Rightarrow> pairing \<Rightarrow> pairing" where
  "pair_step parse = (\<lambda>(i, m) (calls, pending).
     if msg_role m = Some ''tool''
     then (case pending_position (case result_id m of Some t \<Rightarrow> t | None \<Rightarrow> []) pending of
             Some p \<Rightarrow>
               let k = snd (pending ! p) in
               (calls[k := (fst (calls ! k), Some i)], take p pending @ drop (Suc p) pending)
           | None \<Rightarrow> (calls, pending))
     else if msg_role m = Some ''assistant''
     then fold (open_call parse) (case calls_of m of Some tcs \<Rightarrow> tcs | None \<Rightarrow> []) (calls, [])
     else (calls, []))"

definition pair_calls :: "(string \<Rightarrow> json option) \<Rightarrow> json list \<Rightarrow> (paired_call \<times> nat option) list" where
  "pair_calls parse ms = fst (fold (pair_step parse) (enumerate 0 ms) ([], []))"

definition pair_tool_results :: "(string \<Rightarrow> json option) \<Rightarrow> json list \<Rightarrow> paired_call option list" where
  "pair_tool_results parse ms =
     fold (\<lambda>(c, r) paired. case r of Some i \<Rightarrow> paired[i := Some c] | None \<Rightarrow> paired)
       (pair_calls parse ms) (replicate (length ms) None)"

definition paired_name :: "paired_call option list \<Rightarrow> nat \<Rightarrow> string" where
  "paired_name paired i = (case paired ! i of Some p \<Rightarrow> call_name p | None \<Rightarrow> ''tool'')"

section \<open>Outcomes\<close>

text \<open>\<^verbatim>\<open>newt-core/src/agentic/tools.rs\<close> and \<^verbatim>\<open>compress.rs\<close>: what a raw result says of itself.\<close>

definition tool_result_ok :: "string \<Rightarrow> bool" where
  "tool_result_ok result =
     (let r = trim_start result in
      \<not> (prefix ''error:'' r \<or> prefix ''capability denied:'' r \<or> prefix ''unknown tool'' r \<or>
         prefix ''no command configured'' r))"

definition exit_code_of :: "string \<Rightarrow> int option" where
  "exit_code_of result =
     Option.bind (strip_prefix ''error: command exited '' (trim_start result))
       (\<lambda>rest. parse_i32 (takeWhile (\<lambda>c. is_ascii_digit c \<or> c = CHR ''-'') rest))"

definition looks_like_error :: "string \<Rightarrow> bool" where
  "looks_like_error content =
     (let t = trim_start content in
      prefix ''error'' t \<or> prefix ''Error'' t \<or> prefix ''capability denied'' t)"

definition failure_label :: "string \<Rightarrow> string option" where
  "failure_label content =
     (if \<not> (looks_like_error content \<or> \<not> tool_result_ok content) then None
      else Some (case exit_code_of content of
                   Some code \<Rightarrow> ''error (exit '' @ show_int code @ '')''
                 | None \<Rightarrow> ''error''))"

text \<open>Whether the call failed, and its exit code.\<close>

type_synonym outcome = "bool \<times> int option"

definition status_outcome :: "string \<Rightarrow> outcome" where
  "status_outcome status =
     (case strip_prefix ''error'' status of
        None \<Rightarrow> (False, None)
      | Some rest \<Rightarrow>
          (True, Option.bind (strip_prefix '' (exit '' rest)
                   (\<lambda>r. Option.bind (strip_suffix '')'' r) parse_i32)))"

definition PAGE_MAP_MARKER :: string where
  "PAGE_MAP_MARKER = '' (page map; re-read any span with offset/limit): ''"

definition is_one_line_summary :: "string \<Rightarrow> bool" where
  "is_one_line_summary content =
     (let t = trim_start content in
      if \<not> prefix ''['' t then False
      else (case after_str ''] '' t of
              None \<Rightarrow> False
            | Some rest \<Rightarrow>
                if newline \<in> set rest then False
                else sublist '' -> ok, '' rest \<or> sublist '' -> error, '' rest \<or>
                     sublist '' -> error (exit '' rest \<or> sublist PAGE_MAP_MARKER rest))"

definition raw_outcome :: "string \<Rightarrow> outcome" where
  "raw_outcome content = (failure_label content \<noteq> None, exit_code_of content)"

definition marker_outcome :: "string \<Rightarrow> outcome option" where
  "marker_outcome content =
     (case strip_prefix ''[duplicate of message '' content of
        Some rest \<Rightarrow>
          map_option status_outcome
            (Option.bind (after_str '': identical '' rest)
              (\<lambda>r. Option.bind (after_str ''-char '' r) (strip_suffix '' result elided]'')))
      | None \<Rightarrow>
          if is_one_line_summary content
          then if prefix ''[read_file] '' content \<and> sublist '' (page map; re-read any span'' content then None
               else Option.bind (rsplit_str '' -> '' content) (\<lambda>(_, tail).
                    case after_str '', '' tail of
                      None \<Rightarrow> None
                    | Some count \<Rightarrow>
                        if (case count of c # _ \<Rightarrow> is_ascii_digit c | [] \<Rightarrow> False)
                        then Some (status_outcome (before_str '', '' tail)) else None)
          else Some (raw_outcome content))"

section \<open>One line for a result\<close>

definition excerpt :: "string \<Rightarrow> nat \<Rightarrow> string" where
  "excerpt s max_chars =
     (let cleaned = map (\<lambda>c. if c = newline \<or> c = char_of (13::nat) then CHR '' '' else c) s in
      if chars_count cleaned \<le> max_chars then cleaned else take_chars max_chars cleaned @ ellipsis_mark)"

definition arg_text :: "json option \<Rightarrow> string \<Rightarrow> string" where
  "arg_text args key =
     (case Option.bind args (\<lambda>a. as_str (jget a key)) of Some s \<Rightarrow> excerpt s 80 | None \<Rightarrow> ''?'')"

text \<open>\<^verbatim>\<open>a.get("query").or_else(|| a.get("pattern"))\<close>: a query that is there but no text wins.\<close>

definition has_key :: "json \<Rightarrow> string \<Rightarrow> bool" where
  "has_key v key = (case v of JObject entries \<Rightarrow> map_of entries key \<noteq> None | _ \<Rightarrow> False)"

definition query_text :: "json option \<Rightarrow> string" where
  "query_text args =
     (case args of
        Some a \<Rightarrow> arg_text args (if has_key a ''query'' then ''query'' else ''pattern'')
      | None \<Rightarrow> ''?'')"

definition one_liner :: "string \<Rightarrow> string \<Rightarrow> string \<Rightarrow> string \<Rightarrow> string" where
  "one_liner tag what status count = ''['' @ tag @ ''] '' @ what @ '' -> '' @ status @ '', '' @ count"

definition one_line_summary ::
    "(string \<Rightarrow> json option \<Rightarrow> string \<Rightarrow> string option) \<Rightarrow> string \<Rightarrow> json option \<Rightarrow> string \<Rightarrow> string" where
  "one_line_summary page name args content =
     (let lines = show_nat (length (str_lines content));
          chars = show_nat (chars_count content);
          status = (case failure_label content of Some l \<Rightarrow> l | None \<Rightarrow> ''ok'');
          arg = (\<lambda>key. [CHR 0x27] @ arg_text args key @ [CHR 0x27])
      in if name = ''run_command''
         then one_liner name (''ran '' @ arg ''command'') status (lines @ '' lines output'')
         else if name = ''read_file''
         then (case if failure_label content = None then page (arg_text args ''path'') args content else None of
                 Some p \<Rightarrow> p
               | None \<Rightarrow> one_liner name (''read '' @ arg ''path'') status (lines @ '' lines ('' @ chars @ '' chars)''))
         else if name = ''write_file''
         then one_liner name (''wrote '' @ arg ''path'') status (lines @ '' lines result'')
         else if name = ''edit_file''
         then one_liner name (''edited '' @ arg ''path'') status (lines @ '' lines result'')
         else if name = ''list_dir''
         then one_liner name (''listed '' @ arg ''path'') status (lines @ '' entries'')
         else if name = ''search''
         then one_liner name (''searched '' @ [CHR 0x27] @ query_text args @ [CHR 0x27]) status (lines @ '' matching lines'')
         else if name = ''web_fetch''
         then one_liner name (''fetched '' @ arg ''url'') status (lines @ '' lines ('' @ chars @ '' chars)'')
         else one_liner name ''result elided'' status (lines @ '' lines ('' @ chars @ '' chars)''))"
section \<open>The passes\<close>

definition already_pruned :: "string \<Rightarrow> string \<Rightarrow> bool" where
  "already_pruned content name \<longleftrightarrow>
     prefix ''[duplicate of message '' content \<or> prefix (''['' @ name @ ''] '') content"

definition duplicate_line :: "nat \<Rightarrow> string \<Rightarrow> string" where
  "duplicate_line first content =
     ''[duplicate of message '' @ show_nat first @ '': identical '' @ show_nat (chars_count content) @
     ''-char '' @ (case failure_label content of Some l \<Rightarrow> l | None \<Rightarrow> ''tool'') @ '' result elided]''"

definition set_content :: "string \<Rightarrow> json \<Rightarrow> json" where
  "set_content line = jmap_entry ''content'' (\<lambda>_. JString line)"

text \<open>Pass 1, one message: remember a long result, or note what replaces a later aged copy.\<close>

definition collapse_step ::
    "(string \<Rightarrow> 'h) \<Rightarrow> prune_config \<Rightarrow> json list \<Rightarrow> paired_call option list \<Rightarrow> nat \<Rightarrow>
     ('h \<rightharpoonup> nat) \<times> (nat \<times> string) list \<Rightarrow> ('h \<rightharpoonup> nat) \<times> (nat \<times> string) list" where
  "collapse_step hash cfg ms paired i = (\<lambda>(first_seen, replacements).
     if msg_role (ms ! i) \<noteq> Some ''tool'' then (first_seen, replacements)
     else (case content_of (ms ! i) of
             None \<Rightarrow> (first_seen, replacements)
           | Some content \<Rightarrow>
               if chars_count content \<le> dedupe_min_chars cfg \<or> already_pruned content (paired_name paired i)
               then (first_seen, replacements)
               else (case first_seen (hash content) of
                       None \<Rightarrow> (first_seen(hash content \<mapsto> i), replacements)
                     | Some first \<Rightarrow>
                         if i < aged_len cfg (length ms) \<and> content_of (ms ! first) = Some content \<and>
                            json_str_len (duplicate_line first content) < json_str_len content
                         then (first_seen, replacements @ [(i, duplicate_line first content)])
                         else (first_seen, replacements))))"

definition collapse_duplicate_tool_results ::
    "(string \<Rightarrow> json option) \<Rightarrow> (string \<Rightarrow> 'h) \<Rightarrow> prune_config \<Rightarrow> json list \<Rightarrow> json list" where
  "collapse_duplicate_tool_results parse hash cfg ms =
     fold (\<lambda>(i, line) out. out[i := set_content line (out ! i)])
       (snd (fold (collapse_step hash cfg ms (pair_tool_results parse ms)) [0..<length ms] (Map.empty, [])))
       ms"

text \<open>Pass 2, one message.\<close>

definition summarize_message ::
    "(string \<Rightarrow> json option \<Rightarrow> string \<Rightarrow> string option) \<Rightarrow> prune_config \<Rightarrow> paired_call option list \<Rightarrow>
     nat \<Rightarrow> json \<Rightarrow> json" where
  "summarize_message page cfg paired i m =
     (if msg_role m \<noteq> Some ''tool'' then m
      else (case content_of m of
              None \<Rightarrow> m
            | Some content \<Rightarrow>
                if chars_count content \<le> summarize_min_chars cfg \<or> already_pruned content (paired_name paired i)
                then m
                else
                  (let line = (case paired ! i of
                                 Some p \<Rightarrow> one_line_summary page (call_name p) (Some (call_args p)) content
                               | None \<Rightarrow> one_line_summary page ''tool'' None content)
                   in if json_str_len content \<le> json_str_len line then m else set_content line m)))"

definition summarize_aged_tool_results ::
    "(string \<Rightarrow> json option) \<Rightarrow> (string \<Rightarrow> json option \<Rightarrow> string \<Rightarrow> string option) \<Rightarrow> prune_config \<Rightarrow>
     json list \<Rightarrow> json list" where
  "summarize_aged_tool_results parse page cfg ms =
     (let aged = aged_len cfg (length ms); paired = pair_tool_results parse ms in
      map (\<lambda>i. if i < aged then summarize_message page cfg paired i (ms ! i) else ms ! i) [0..<length ms])"

text \<open>Pass 3: the arguments of a call, shortened inside their structure.\<close>

definition truncate_chars :: "string \<Rightarrow> nat \<Rightarrow> string option" where
  "truncate_chars s cap =
     (let all_chars = chars_count s in
      if all_chars \<le> cap then None
      else
        (let reserve = chars_count (ellipsis_mark @ '' [+'' @ show_nat all_chars @ '' chars]'');
             keep = cap - reserve
         in Some (take_chars keep s @ ellipsis_mark @ '' [+'' @ show_nat (all_chars - keep) @ '' chars]'')))"

fun shrink_value :: "nat \<Rightarrow> json \<Rightarrow> bool \<times> json" where
  "shrink_value cap (JString s) =
     (case truncate_chars s cap of Some t \<Rightarrow> (True, JString t) | None \<Rightarrow> (False, JString s))"
| "shrink_value cap (JArray items) =
     (let rs = map (shrink_value cap) items in (list_ex fst rs, JArray (map snd rs)))"
| "shrink_value cap (JObject entries) =
     (let rs = map (\<lambda>(k, x). (k, shrink_value cap x)) entries
      in (list_ex (\<lambda>(k, r). fst r) rs, JObject (map (\<lambda>(k, r). (k, snd r)) rs)))"
| "shrink_value cap JNull = (False, JNull)"
| "shrink_value cap (JBool b) = (False, JBool b)"
| "shrink_value cap (JNumber n) = (False, JNumber n)"

definition arguments_placeholder :: "nat \<Rightarrow> json" where
  "arguments_placeholder n =
     JObject [(''truncated'', JString (''original arguments were not valid JSON ('' @ show_nat n @ '' chars elided)''))]"

definition shrink_arguments :: "(string \<Rightarrow> json option) \<Rightarrow> nat \<Rightarrow> nat \<Rightarrow> json \<Rightarrow> json" where
  "shrink_arguments parse max_chars cap arguments =
     (case arguments of
        JString s \<Rightarrow>
          if chars_count s \<le> max_chars then arguments
          else
            (let shrunk = snd (shrink_value cap
                   (case parse s of Some v \<Rightarrow> v | None \<Rightarrow> arguments_placeholder (chars_count s)));
                 new = json_text shrunk
             in if json_str_len new < json_str_len s then JString new else arguments)
      | other \<Rightarrow>
          if json_len other \<le> max_chars then other
          else
            (let (changed, v) = shrink_value cap other
             in if changed \<and> json_len v < json_len other then v else other))"

definition shrink_call :: "(string \<Rightarrow> json option) \<Rightarrow> nat \<Rightarrow> nat \<Rightarrow> json \<Rightarrow> json" where
  "shrink_call parse max_chars cap =
     jmap_entry ''function'' (jmap_entry ''arguments'' (shrink_arguments parse max_chars cap))"

definition shrink_message :: "(string \<Rightarrow> json option) \<Rightarrow> prune_config \<Rightarrow> json \<Rightarrow> json" where
  "shrink_message parse cfg m =
     (if msg_role m \<noteq> Some ''assistant'' then m
      else jmap_entry ''tool_calls''
             (\<lambda>v. case v of
                    JArray tcs \<Rightarrow> JArray (map (shrink_call parse (args_max_chars cfg) (effective_arg_string_cap cfg)) tcs)
                  | _ \<Rightarrow> v) m)"

definition shrink_tool_call_args :: "(string \<Rightarrow> json option) \<Rightarrow> prune_config \<Rightarrow> json list \<Rightarrow> json list" where
  "shrink_tool_call_args parse cfg ms =
     (let aged = aged_len cfg (length ms)
      in map (shrink_message parse cfg) (take aged ms) @ drop aged ms)"

definition serialized_len :: "json list \<Rightarrow> nat" where
  "serialized_len ms = sum_list (map json_len ms)"

text \<open>The three passes, with what they reclaimed.\<close>

definition prune ::
    "(string \<Rightarrow> json option) \<Rightarrow> (string \<Rightarrow> 'h) \<Rightarrow> (string \<Rightarrow> json option \<Rightarrow> string \<Rightarrow> string option) \<Rightarrow>
     prune_config \<Rightarrow> json list \<Rightarrow> json list \<times> nat" where
  "prune parse hash page cfg ms =
     (let out = shrink_tool_call_args parse cfg
                  (summarize_aged_tool_results parse page cfg
                    (collapse_duplicate_tool_results parse hash cfg ms))
      in (out, serialized_len ms - serialized_len out))"
section \<open>Lemmas\<close>

subsection \<open>What a rewrite keeps\<close>

text \<open>The shape that pairs a message with others: its role, the call it answers, the calls it makes.\<close>

definition call_head :: "json \<Rightarrow> json \<times> json" where
  "call_head tc = (jget tc ''id'', jget (jget tc ''function'') ''name'')"

definition shape :: "json \<Rightarrow> string option \<times> string option \<times> (json \<times> json) list option" where
  "shape m = (msg_role m, result_id m, map_option (map call_head) (calls_of m))"

definition rewritten :: "json \<Rightarrow> json \<Rightarrow> bool" where
  "rewritten m m' \<longleftrightarrow>
     shape m' = shape m \<and> json_len m' \<le> json_len m \<and>
     (msg_role m \<noteq> Some ''tool'' \<longrightarrow> content_of m' = content_of m) \<and>
     (msg_role m \<noteq> Some ''assistant'' \<longrightarrow> calls_of m' = calls_of m) \<and>
     (msg_role m \<notin> {Some ''tool'', Some ''assistant''} \<longrightarrow> m' = m)"

lemma rewritten_refl [simp, intro]: "rewritten m m"
  by (simp add: rewritten_def)

lemma rewritten_trans: "rewritten a b \<Longrightarrow> rewritten b c \<Longrightarrow> rewritten a c"
  by (auto simp: rewritten_def shape_def)

lemma set_content_rewritten:
  assumes "msg_role m = Some ''tool''" "content_of m = Some c" "json_str_len line \<le> json_str_len c"
  shows "rewritten m (set_content line m)"
proof -
  have content: "jget m ''content'' = JString c"
    using assms(2) by (auto simp: content_of_def as_str_def split: json.splits)
  have other: "jget (set_content line m) k = jget m k" if "k \<noteq> ''content''" for k
    using that by (simp add: set_content_def jget_map_entry_other)
  have "json_len (set_content line m) \<le> json_len m"
    unfolding set_content_def using assms(3) content by (intro json_len_map_entry) (simp add: json_str_len_def)
  then show ?thesis
    using assms(1) other by (simp add: rewritten_def shape_def msg_role_def result_id_def calls_of_def)
qed

lemma shrink_arguments_len: "json_len (shrink_arguments parse mx cap v) \<le> json_len v"
  by (cases v) (auto simp: shrink_arguments_def Let_def json_str_len_def split: prod.splits)

lemma shrink_arguments_null [simp]: "shrink_arguments parse mx cap JNull = JNull"
  by (simp add: shrink_arguments_def)

lemma shrink_call_head: "call_head (shrink_call parse mx cap tc) = call_head tc"
proof -
  have "jget (jget (shrink_call parse mx cap tc) ''function'') ''name'' = jget (jget tc ''function'') ''name''"
    by (simp add: shrink_call_def jget_map_entry_same jmap_entry_def [of _ _ JNull] jget_map_entry_other)
  then show ?thesis by (simp add: call_head_def shrink_call_def jget_map_entry_other)
qed

lemma shrink_call_len: "json_len (shrink_call parse mx cap tc) \<le> json_len tc"
  by (simp add: shrink_call_def json_len_map_entry shrink_arguments_len)

lemma shrink_message_rewritten: "rewritten m (shrink_message parse cfg m)"
proof (cases "msg_role m = Some ''assistant''")
  case True
  let ?shrink = "shrink_call parse (args_max_chars cfg) (effective_arg_string_cap cfg)"
  let ?f = "\<lambda>v. case v of JArray tcs \<Rightarrow> JArray (map ?shrink tcs) | _ \<Rightarrow> v"
  have m': "shrink_message parse cfg m = jmap_entry ''tool_calls'' ?f m" using True by (simp add: shrink_message_def)
  have other: "jget (shrink_message parse cfg m) k = jget m k" if "k \<noteq> ''tool_calls''" for k
    using that by (simp add: m' jget_map_entry_other)
  have calls: "jget (shrink_message parse cfg m) ''tool_calls'' = ?f (jget m ''tool_calls'')"
    by (simp add: m' jget_map_entry_same)
  have "json_len (?f v) \<le> json_len v" for v
    by (cases v) (auto intro!: json_len_array simp: list_all2_conv_all_nth shrink_call_len)
  then have "json_len (shrink_message parse cfg m) \<le> json_len m" unfolding m' by (rule json_len_map_entry)
  moreover have "map_option (map call_head) (calls_of (shrink_message parse cfg m)) = map_option (map call_head) (calls_of m)"
    using calls by (cases "jget m ''tool_calls''") (simp_all add: calls_of_def as_array_def shrink_call_head)
  ultimately show ?thesis
    using True other by (simp add: rewritten_def shape_def msg_role_def result_id_def content_of_def)
qed (simp add: shrink_message_def)
subsection \<open>The passes\<close>

text \<open>Every replacement of pass 1 is for an aged result and is shorter than it.\<close>

definition shortens :: "prune_config \<Rightarrow> json list \<Rightarrow> nat \<times> string \<Rightarrow> bool" where
  "shortens cfg ms = (\<lambda>(i, line). i < aged_len cfg (length ms) \<and> msg_role (ms ! i) = Some ''tool'' \<and>
     (\<exists>c. content_of (ms ! i) = Some c \<and> json_str_len line < json_str_len c))"

lemma collapse_replacements:
  "list_all (shortens cfg ms) (snd (fold (collapse_step hash cfg ms paired) ks (seen, []))) "
proof -
  have "list_all (shortens cfg ms) (snd (collapse_step hash cfg ms paired i st))"
    if "list_all (shortens cfg ms) (snd st)" for i st
    using that by (cases st) (auto simp: collapse_step_def shortens_def Let_def split: option.splits if_splits)
  then show ?thesis
    by (intro fold_invariant [where P = "\<lambda>st. list_all (shortens cfg ms) (snd st)" and Q = "\<lambda>_. True"]) simp_all
qed

text \<open>A list whose aged messages are each as they were or rewritten by one such replacement.\<close>

definition aged_rewrites :: "nat \<Rightarrow> json list \<Rightarrow> json list \<Rightarrow> bool" where
  "aged_rewrites aged ms out \<longleftrightarrow>
     list_all2 rewritten ms out \<and> drop aged out = drop aged ms"

lemma aged_rewritesI:
  assumes "length out = length ms" "\<And>i. i < length ms \<Longrightarrow> rewritten (ms ! i) (out ! i)"
    and "\<And>i. aged \<le> i \<Longrightarrow> i < length ms \<Longrightarrow> out ! i = ms ! i"
  shows "aged_rewrites aged ms out"
  using assms by (auto simp: aged_rewrites_def list_all2_conv_all_nth intro!: nth_equalityI)

lemma aged_rewrites_trans: "aged_rewrites aged a b \<Longrightarrow> aged_rewrites aged b c \<Longrightarrow> aged_rewrites aged a c"
  unfolding aged_rewrites_def using list_all2_trans [of rewritten rewritten rewritten a b c] rewritten_trans
  by auto

lemma aged_rewrites_length: "aged_rewrites aged ms out \<Longrightarrow> length out = length ms"
  by (auto simp: aged_rewrites_def dest: list_all2_lengthD)

lemma aged_rewrites_len: "aged_rewrites aged ms out \<Longrightarrow> serialized_len out \<le> serialized_len ms"
proof -
  assume "aged_rewrites aged ms out"
  then have "list_all2 rewritten ms out" by (simp add: aged_rewrites_def)
  then show ?thesis
    by (induction rule: list_all2_induct) (auto simp: serialized_len_def rewritten_def)
qed

lemma collapse_rewrites:
  "aged_rewrites (aged_len cfg (length ms)) ms (collapse_duplicate_tool_results parse hash cfg ms)"
proof -
  let ?aged = "aged_len cfg (length ms)"
  let ?step = "\<lambda>(i, line) out. out[i := set_content line (out ! i)]"
  define same where "same = (\<lambda>out. length out = length ms \<and>
    (\<forall>i < length ms. out ! i = ms ! i \<or> (\<exists>line. shortens cfg ms (i, line) \<and> out ! i = set_content line (ms ! i))))"
  have step: "same (?step r out)" if "shortens cfg ms r" "same out" for r out
  proof -
    obtain i line where r: "r = (i, line)" by (cases r)
    have "set_content line (out ! i) = set_content line (ms ! i)" if "i < length ms"
      using \<open>same out\<close> that by (auto simp: same_def set_content_def jmap_entry_twice)
    moreover have "out[i := set_content line (out ! i)] ! j = (if j = i then set_content line (out ! i) else out ! j)"
      if "j < length ms" for j using \<open>same out\<close> that by (simp add: same_def nth_list_update)
    ultimately show ?thesis using that unfolding r same_def by auto
  qed
  have "same (fold ?step rs ms)" if "list_all (shortens cfg ms) rs" for rs
    using that fold_invariant [where P = same and Q = "shortens cfg ms" and f = ?step and xs = rs and s = ms] step
    by (auto simp: same_def list_all_iff)
  then have out: "same (collapse_duplicate_tool_results parse hash cfg ms)"
    unfolding collapse_duplicate_tool_results_def using collapse_replacements by blast
  show ?thesis
  proof (rule aged_rewritesI)
    show "rewritten (ms ! i) (collapse_duplicate_tool_results parse hash cfg ms ! i)" if "i < length ms" for i
    proof (cases "collapse_duplicate_tool_results parse hash cfg ms ! i = ms ! i")
      case False
      then obtain line where "shortens cfg ms (i, line)"
        "collapse_duplicate_tool_results parse hash cfg ms ! i = set_content line (ms ! i)"
        using out \<open>i < length ms\<close> by (auto simp: same_def)
      then show ?thesis by (auto simp: shortens_def intro: set_content_rewritten less_imp_le)
    qed simp
    show "collapse_duplicate_tool_results parse hash cfg ms ! i = ms ! i" if "?aged \<le> i" "i < length ms" for i
      using out that by (auto simp: same_def shortens_def)
  qed (use out in \<open>simp add: same_def\<close>)
qed

lemma summarize_message_rewritten: "rewritten m (summarize_message page cfg paired i m)"
  by (auto simp: summarize_message_def Let_def intro!: set_content_rewritten split: option.splits)

lemma summarize_rewrites:
  "aged_rewrites (aged_len cfg (length ms)) ms (summarize_aged_tool_results parse page cfg ms)"
  by (rule aged_rewritesI) (simp_all add: summarize_aged_tool_results_def Let_def summarize_message_rewritten)

lemma shrink_rewrites:
  "aged_rewrites (aged_len cfg (length ms)) ms (shrink_tool_call_args parse cfg ms)"
  by (rule aged_rewritesI)
    (auto simp: shrink_tool_call_args_def Let_def nth_append min_def aged_len_def shrink_message_rewritten)

lemma prune_rewrites:
  "aged_rewrites (aged_len cfg (length ms)) ms (fst (prune parse hash page cfg ms))"
proof -
  let ?aged = "aged_len cfg (length ms)"
  let ?a = "collapse_duplicate_tool_results parse hash cfg ms"
  let ?b = "summarize_aged_tool_results parse page cfg ?a"
  have a: "aged_rewrites ?aged ms ?a" by (rule collapse_rewrites)
  have b: "aged_rewrites ?aged ?a ?b" using summarize_rewrites [of cfg ?a] aged_rewrites_length [OF a] by simp
  have "aged_rewrites ?aged ?b (shrink_tool_call_args parse cfg ?b)"
    using shrink_rewrites [of cfg ?b] aged_rewrites_length [OF a] aged_rewrites_length [OF b] by simp
  then show ?thesis
    using aged_rewrites_trans [OF aged_rewrites_trans [OF a b]] by (simp add: prune_def Let_def)
qed
subsection \<open>Reading an outcome back\<close>

lemma rsplit_str_absent: "last pat \<notin> set s \<Longrightarrow> pat \<noteq> [] \<Longrightarrow> rsplit_str pat s = None"
proof (induction s)
  case (Cons c cs)
  then have "\<not> prefix pat (c # cs)" by (auto simp: prefix_def) (metis Cons.prems(1) Un_iff append_butlast_last_id in_set_conv_decomp set_append)
  then show ?case using Cons by simp
qed simp

lemma rsplit_str_append: "rsplit_str pat s = Some (a, b) \<Longrightarrow> rsplit_str pat (p @ s) = Some (p @ a, b)"
  by (induction p) auto

text \<open>The last arrow of a line is the producer's when nothing after it holds one.\<close>

lemma rsplit_arrow:
  assumes "CHR ''>'' \<notin> set t" "t \<noteq> []" "hd t \<noteq> CHR ''-''"
  shows "rsplit_str '' -> '' (p @ '' -> '' @ t) = Some (p, t)"
proof -
  have none: "rsplit_str '' -> '' t = None"
    using assms(1) by (induction t) (auto simp: prefix_def)
  have "rsplit_str '' -> '' ('' -> '' @ t) = Some ([], t)"
    using none assms(2,3) by (cases t) auto
  then show ?thesis using rsplit_str_append by fastforce
qed

lemma after_comma:
  "CHR '','' \<notin> set s \<Longrightarrow> after_str '', '' (s @ '', '' @ t) = Some t \<and> before_str '', '' (s @ '', '' @ t) = s"
  by (induction s) auto

lemma parse_show_i32: "- (2 ^ 31) \<le> i \<Longrightarrow> i < 2 ^ 31 \<Longrightarrow> parse_i32 (show_int i) = Some i"
  by (simp add: parse_i32_def parse_show_i64 in_i64_def i64_min_def i64_max_def)

lemma exit_code_range: "exit_code_of c = Some i \<Longrightarrow> - (2 ^ 31) \<le> i \<and> i < 2 ^ 31"
  by (auto simp: exit_code_of_def parse_i32_def bind_eq_Some_conv split: option.splits if_splits)

lemma exit_code_fails: "exit_code_of c = Some i \<Longrightarrow> looks_like_error c"
  by (auto simp: exit_code_of_def looks_like_error_def bind_eq_Some_conv Let_def strip_prefix_Some_iff)

text \<open>The status word that both markers write is read back as the outcome of the raw text.\<close>

definition status_word :: "string \<Rightarrow> string \<Rightarrow> string" where
  "status_word good content = (case failure_label content of Some l \<Rightarrow> l | None \<Rightarrow> good)"

lemma strip_suffix_append [simp]: "strip_suffix p (s @ p) = Some s"
  by (simp add: strip_suffix_def suffix_def)

lemma status_word_outcome:
  assumes "good = ''ok'' \<or> good = ''tool''"
  shows "status_outcome (status_word good content) = raw_outcome content"
proof (cases "failure_label content")
  case None
  then have "exit_code_of content = None"
    using exit_code_fails by (fastforce simp: failure_label_def split: if_splits)
  then show ?thesis
    using None assms by (auto simp: status_word_def status_outcome_def raw_outcome_def strip_prefix_def)
next
  case (Some l)
  show ?thesis
  proof (cases "exit_code_of content")
    case None
    then show ?thesis using Some
      by (auto simp: status_word_def status_outcome_def raw_outcome_def failure_label_def strip_prefix_def split: if_splits)
  next
    case exit: (Some i)
    then have "l = ''error (exit '' @ show_int i @ '')''" using Some by (auto simp: failure_label_def split: if_splits)
    moreover have "strip_suffix '')'' (show_int i @ '')'') = Some (show_int i)" by (rule strip_suffix_append)
    ultimately show ?thesis
      using Some exit exit_code_range [OF exit] parse_show_i32 [of i]
      by (simp add: status_word_def status_outcome_def raw_outcome_def strip_prefix_def)
  qed
qed

lemma show_nat_char_digits: "c \<in> set (show_nat n) \<Longrightarrow> is_ascii_digit c"
  using show_nat_digits [of n] by (simp add: list_all_iff)

lemma show_int_chars: "c \<in> set (show_int i) \<Longrightarrow> is_ascii_digit c \<or> c = CHR ''-''"
  by (auto simp: show_int_def dest: show_nat_char_digits split: if_splits)

lemma no_digits [simp]:
  "\<not> is_ascii_digit CHR ''>''" "\<not> is_ascii_digit CHR '',''" "\<not> is_ascii_digit newline" "newline \<noteq> CHR ''-''"
  "\<not> is_ascii_digit CHR '':''"
  by code_simp+

lemma status_word_cases:
  "status_word good content = good \<or> status_word good content = ''error'' \<or>
   (\<exists>i. status_word good content = ''error (exit '' @ show_int i @ '')'')"
  by (auto simp: status_word_def failure_label_def split: option.splits)
lemma after_bracket: "CHR '']'' \<notin> set t \<Longrightarrow> after_str ''] '' (t @ ''] '' @ w) = Some w"
  by (induction t) auto

lemma plain_trim: "plain_char c \<Longrightarrow> trim_start (c # s) = c # s"
proof -
  assume "plain_char c"
  then have "ws_split white_space (c # s) = None"
    using white_space_not_plain by (fastforce simp: ws_split_None_iff prefix_Cons)
  then show ?thesis by (simp add: trim_start_def trim_start_of_id)
qed

lemma bracket_trim [simp]: "trim_start (CHR ''['' # s) = CHR ''['' # s"
  by (rule plain_trim) code_simp

lemma prefix_to_bracket: "CHR '']'' \<notin> set p \<Longrightarrow> prefix p (t @ CHR '']'' # w) \<Longrightarrow> prefix p t"
  by (auto simp: prefix_append prefix_Cons)

lemma same_to_bracket:
  "CHR '']'' \<notin> set a \<Longrightarrow> CHR '']'' \<notin> set b \<Longrightarrow> prefix (a @ CHR '']'' # c) (b @ CHR '']'' # d) \<Longrightarrow> a = b"
proof (induction a arbitrary: b)
  case (Cons x a)
  then show ?case by (cases b) auto
next
  case Nil
  then show ?case by (cases b) auto
qed

lemma take_chars_set: "set (take_chars n s) \<subseteq> set s"
  by (induction n s rule: take_chars.induct) (auto split: nat.splits)

lemma excerpt_one_line: "newline \<notin> set (excerpt s n)"
proof -
  let ?cleaned = "map (\<lambda>c. if c = newline \<or> c = char_of (13::nat) then CHR '' '' else c) s"
  have "newline \<noteq> CHR '' ''" "newline \<notin> set ellipsis_mark" by code_simp+
  moreover from this have "newline \<notin> set ?cleaned" by auto
  moreover from this have "newline \<notin> set (take_chars n ?cleaned)" using take_chars_set by blast
  ultimately show ?thesis by (simp add: excerpt_def Let_def)
qed

lemma arg_text_one_line [simp]: "newline \<notin> set (arg_text args key)"
proof -
  have "newline \<noteq> CHR ''?''" by code_simp
  then show ?thesis by (auto simp: arg_text_def excerpt_one_line split: option.splits)
qed

lemma query_text_one_line [simp]: "newline \<notin> set (query_text args)"
proof -
  have "newline \<noteq> CHR ''?''" by code_simp
  then show ?thesis by (simp add: query_text_def split: option.splits)
qed

lemma status_word_one_line [simp]: "newline \<notin> set (status_word ''ok'' content)"
proof -
  have "newline \<notin> set ''ok''" "newline \<notin> set ''error (exit )''" by code_simp+
  then show ?thesis
    using status_word_cases [of "''ok''" content] show_int_chars no_digits by fastforce
qed

lemma status_word_marks [simp]:
  "CHR ''>'' \<notin> set (status_word ''ok'' content)" "CHR '','' \<notin> set (status_word ''ok'' content)"
proof -
  have "CHR ''>'' \<notin> set (show_int i)" "CHR '','' \<notin> set (show_int i)" for i
    using show_int_chars no_digits by fastforce+
  then show "CHR ''>'' \<notin> set (status_word ''ok'' content)" "CHR '','' \<notin> set (status_word ''ok'' content)"
    using status_word_cases [of "''ok''" content] by auto
qed

lemma one_liner_recognised:
  assumes "CHR '']'' \<notin> set tag" "newline \<notin> set what" "newline \<notin> set count"
  shows "is_one_line_summary (one_liner tag what (status_word ''ok'' content) count)"
proof -
  let ?status = "status_word ''ok'' content"
  let ?rest = "what @ '' -> '' @ ?status @ '', '' @ count"
  have "newline \<notin> set '' -> ''" "newline \<notin> set '', ''" by code_simp+
  then have flat: "newline \<notin> set ?rest" using assms(2,3) by simp
  have "after_str ''] '' (CHR ''['' # tag @ ''] '' @ ?rest) = Some ?rest"
    using after_bracket [OF assms(1)] by (simp add: prefix_def)
  moreover have "sublist '' -> ok, '' ?rest \<or> sublist '' -> error, '' ?rest \<or> sublist '' -> error (exit '' ?rest"
    using status_word_cases [of "''ok''" content]
  proof (elim disjE exE)
    assume "?status = ''ok''"
    then have "?rest = what @ '' -> ok, '' @ count" by simp
    then show ?thesis by (metis sublist_appendI)
  next
    assume "?status = ''error''"
    then have "?rest = what @ '' -> error, '' @ count" by simp
    then show ?thesis by (metis sublist_appendI)
  next
    fix i assume "?status = ''error (exit '' @ show_int i @ '')''"
    then have "?rest = what @ '' -> error (exit '' @ show_int i @ ''), '' @ count" by simp
    then show ?thesis by (metis sublist_appendI)
  qed
  ultimately show ?thesis using flat by (auto simp: is_one_line_summary_def one_liner_def Let_def)
qed

lemma one_liner_outcome:
  assumes "CHR '']'' \<notin> set tag" "\<not> prefix ''duplicate of message '' tag" "tag \<noteq> ''read_file''"
    and "newline \<notin> set what" "newline \<notin> set unit" "CHR ''>'' \<notin> set unit"
  shows "marker_outcome (one_liner tag what (status_word ''ok'' content) (show_nat n @ unit)) = Some (raw_outcome content)"
proof -
  let ?status = "status_word ''ok'' content" and ?count = "show_nat n @ unit"
  let ?line = "one_liner tag what ?status ?count"
  have "newline \<notin> set ?count" using assms(5) show_nat_char_digits no_digits by fastforce
  then have recognised: "is_one_line_summary ?line" using one_liner_recognised assms(1,4) by blast
  have "\<not> prefix ''duplicate of message '' (tag @ ''] '' @ w)" for w
    using assms(2) prefix_to_bracket [of "''duplicate of message ''" tag "'' '' @ w"] by auto
  then have fresh: "strip_prefix ''[duplicate of message '' ?line = None"
    by (simp add: strip_prefix_def one_liner_def)
  have "\<not> prefix ''read_file] '' (tag @ ''] '' @ w)" for w
    using assms(1,3) same_to_bracket [of "''read_file''" tag "'' ''" "'' '' @ w"] by auto
  then have other: "\<not> prefix ''[read_file] '' ?line" by (simp add: one_liner_def)
  have "rsplit_str '' -> '' ((''['' @ tag @ ''] '' @ what) @ '' -> '' @ (?status @ '', '' @ ?count)) =
    Some (''['' @ tag @ ''] '' @ what, ?status @ '', '' @ ?count)"
  proof (rule rsplit_arrow)
    have "CHR ''>'' \<notin> set (show_nat n)" using show_nat_char_digits no_digits(1) by blast
    then show "CHR ''>'' \<notin> set (?status @ '', '' @ ?count)" using assms(6) by simp
    show "hd (?status @ '', '' @ ?count) \<noteq> CHR ''-''"
      using status_word_cases [of "''ok''" content] by auto
  qed simp
  then have arrow: "rsplit_str '' -> '' ?line = Some (''['' @ tag @ ''] '' @ what, ?status @ '', '' @ ?count)"
    by (simp only: one_liner_def append_assoc)
  note comma = after_comma [OF status_word_marks(2), of content ?count]
  obtain c cs where "show_nat n = c # cs" "is_ascii_digit c"
    using show_nat_hd [of n] by (cases "show_nat n") auto
  then have digit: "(case ?count of c # _ \<Rightarrow> is_ascii_digit c | [] \<Rightarrow> False) = True" by simp
  have "marker_outcome ?line = Some (status_outcome ?status)"
    by (simp only: marker_outcome_def fresh arrow recognised other comma digit option.case prod.case
        bind.simps if_True if_False simp_thms)
  then show ?thesis using status_word_outcome [of "''ok''" content] by simp
qed
lemma after_colon:
  "CHR '':'' \<notin> set s \<Longrightarrow> after_str '': identical '' (s @ '': identical '' @ t) = Some t"
  by (induction s) auto

lemma after_hyphen:
  "CHR ''-'' \<notin> set s \<Longrightarrow> after_str ''-char '' (s @ ''-char '' @ t) = Some t"
  by (induction s) auto

lemma duplicate_outcome: "marker_outcome (duplicate_line first content) = Some (raw_outcome content)"
proof -
  let ?kind = "status_word ''tool'' content"
  let ?rest = "show_nat first @ '': identical '' @ show_nat (chars_count content) @ ''-char '' @ ?kind @ '' result elided]''"
  have "strip_prefix ''[duplicate of message '' (duplicate_line first content) = Some ?rest"
    by (simp add: duplicate_line_def status_word_def strip_prefix_def)
  moreover have "CHR '':'' \<notin> set (show_nat first)" using show_nat_char_digits no_digits(5) by blast
  then have "after_str '': identical '' ?rest = Some (show_nat (chars_count content) @ ''-char '' @ ?kind @ '' result elided]'')"
    by (rule after_colon)
  moreover have "CHR ''-'' \<notin> set (show_nat (chars_count content))" using show_nat_char_digits not_digit(2) by blast
  then have "after_str ''-char '' (show_nat (chars_count content) @ ''-char '' @ ?kind @ '' result elided]'') =
    Some (?kind @ '' result elided]'')" by (rule after_hyphen)
  moreover have "strip_suffix '' result elided]'' (?kind @ '' result elided]'') = Some ?kind"
    by (rule strip_suffix_append)
  ultimately have "marker_outcome (duplicate_line first content) = Some (status_outcome ?kind)"
    by (simp only: marker_outcome_def option.case bind.simps option.map)
  then show ?thesis using status_word_outcome [of "''tool''"] by simp
qed

text \<open>The page of a source file is the one line that carries no status.\<close>

definition status_line :: "string \<Rightarrow> string \<Rightarrow> string \<Rightarrow> bool" where
  "status_line name content line \<longleftrightarrow>
     (\<exists>what n unit. line = one_liner name what (status_word ''ok'' content) (show_nat n @ unit) \<and>
        newline \<notin> set what \<and> newline \<notin> set unit \<and> CHR ''>'' \<notin> set unit)"

lemma status_lineI:
  "newline \<notin> set what \<Longrightarrow> newline \<notin> set unit \<Longrightarrow> CHR ''>'' \<notin> set unit \<Longrightarrow>
   status_line name content (one_liner name what (status_word ''ok'' content) (show_nat n @ unit))"
  unfolding status_line_def by blast

lemma status_line_if:
  "(P \<Longrightarrow> status_line name content a) \<Longrightarrow> (\<not> P \<Longrightarrow> status_line name content b) \<Longrightarrow>
   status_line name content (if P then a else b)"
  by simp

lemma one_line_summary_status:
  assumes "name = ''read_file'' \<longrightarrow> failure_label content \<noteq> None \<or> page (arg_text args ''path'') args content = None"
  shows "status_line name content (one_line_summary page name args content)"
proof -
  let ?chars = "'' lines ('' @ show_nat (chars_count content) @ '' chars)''"
  have "newline \<notin> set '' lines ('' \<and> newline \<notin> set '' chars)''" by code_simp
  moreover have "newline \<notin> set (show_nat k)" "CHR ''>'' \<notin> set (show_nat k)" for k
    using show_nat_char_digits no_digits(1,3) by blast+
  ultimately have chars: "newline \<notin> set ?chars" "CHR ''>'' \<notin> set ?chars" by simp_all
  have units: "newline \<notin> set '' lines output''" "newline \<notin> set '' lines result''" "newline \<notin> set '' entries''"
    "newline \<notin> set '' matching lines''" by code_simp+
  have verbs: "newline \<notin> set ''ran ''" "newline \<notin> set ''read ''" "newline \<notin> set ''wrote ''" "newline \<notin> set ''edited ''"
    "newline \<notin> set ''listed ''" "newline \<notin> set ''searched ''" "newline \<notin> set ''fetched ''"
    "newline \<notin> set ''result elided''" by code_simp+
  have "newline \<noteq> CHR 0x27" by code_simp
  then have quoted: "newline \<notin> set v \<Longrightarrow> newline \<notin> set x \<Longrightarrow> newline \<notin> set (v @ [CHR 0x27] @ x @ [CHR 0x27])" for v x
    by simp
  have page: "status_line name content
      (case if failure_label content = None then page (arg_text args ''path'') args content else None of
         Some p \<Rightarrow> p | None \<Rightarrow> l)" if "name = ''read_file''" "status_line name content l" for l
    using assms that by auto
  show ?thesis
    unfolding one_line_summary_def Let_def status_word_def [symmetric]
    by (intro status_line_if page status_lineI)
      (assumption | rule chars units verbs quoted arg_text_one_line query_text_one_line | simp)+
qed
subsection \<open>Shortened texts\<close>

lemma chars_count_append [simp]: "chars_count (s @ t) = chars_count s + chars_count t"
  by (simp add: chars_count_def)

lemma chars_count_take [simp]: "chars_count (take_chars n s) = min n (chars_count s)"
  by (induction n s rule: take_chars.induct) (auto simp: chars_count_def split: nat.splits)

lemma show_nat_bound: "n < 10 ^ length (show_nat n)"
proof (induction n rule: show_nat.induct)
  case (1 n)
  show ?case
  proof (cases "n < 10")
    case False
    then have "n div 10 < 10 ^ length (show_nat (n div 10))" using 1 by simp
    then have "n < 10 ^ Suc (length (show_nat (n div 10)))" by (simp add: less_mult_imp_div_less div_less_iff_less_mult mult.commute)
    then show ?thesis using False by (subst show_nat.simps) simp
  qed (subst show_nat.simps, simp)
qed

lemma show_nat_length: "n < 10 ^ k \<Longrightarrow> 0 < k \<Longrightarrow> length (show_nat n) \<le> k"
proof (induction n arbitrary: k rule: show_nat.induct)
  case (1 n)
  show ?case
  proof (cases "n < 10")
    case True
    then show ?thesis using 1(3) by (subst show_nat.simps) simp
  next
    case False
    then obtain j where k: "k = Suc j" "0 < j" using 1(2,3) by (cases k; cases "k - 1") auto
    then have "n div 10 < 10 ^ j" using 1(2) by (simp add: div_less_iff_less_mult mult.commute)
    then have "length (show_nat (n div 10)) \<le> j" using 1(1) False k(2) by blast
    then show ?thesis using False k by (subst show_nat.simps) simp
  qed
qed

lemma show_nat_length_mono: "m \<le> n \<Longrightarrow> length (show_nat m) \<le> length (show_nat n)"
  using show_nat_bound [of n] by (intro show_nat_length) auto

lemma omitted_mark_chars:
  "chars_count (ellipsis_mark @ '' [+'' @ show_nat n @ '' chars]'') = 11 + length (show_nat n)"
proof -
  have "\<not> continues_char c" if "is_ascii_digit c" for c
    using that by (simp add: is_ascii_digit_def continues_char_def)
  then have "chars_count (show_nat n) = length (show_nat n)"
    using show_nat_char_digits by (auto simp: chars_count_def intro: filter_True)
  moreover have "chars_count ellipsis_mark = 1" "chars_count '' [+'' = 3" "chars_count '' chars]'' = 7" by code_simp+
  ultimately show ?thesis by (simp only: chars_count_append)
qed

lemma truncate_chars_fits:
  assumes "truncate_chars s cap = Some t" "MIN_ARG_STRING_CAP \<le> cap" "chars_count s < 2 ^ 64"
  shows "chars_count t \<le> cap \<and> cap < chars_count s"
proof -
  let ?n = "chars_count s"
  let ?reserve = "11 + length (show_nat ?n)"
  let ?keep = "cap - ?reserve"
  have t: "cap < ?n" "t = take_chars ?keep s @ ellipsis_mark @ '' [+'' @ show_nat (?n - ?keep) @ '' chars]''"
    using assms(1) unfolding truncate_chars_def Let_def omitted_mark_chars by (auto split: if_splits)
  have "?n < 10 ^ 20" using assms(3) by simp
  then have "length (show_nat ?n) \<le> 20" by (rule show_nat_length) simp
  then have "?keep + ?reserve = cap" using assms(2) by (simp add: MIN_ARG_STRING_CAP_def)
  moreover have "length (show_nat (?n - ?keep)) \<le> length (show_nat ?n)" by (rule show_nat_length_mono) simp
  moreover have "chars_count t = min ?keep ?n + (11 + length (show_nat (?n - ?keep)))"
    unfolding t(2) chars_count_append [of "take_chars ?keep s"] omitted_mark_chars by simp
  ultimately show ?thesis using t(1) by simp
qed

fun texts :: "json \<Rightarrow> string list" where
  "texts (JString s) = [s]"
| "texts (JArray items) = concat (map texts items)"
| "texts (JObject entries) = concat (map (\<lambda>(k, x). texts x) entries)"
| "texts _ = []"

lemma shrink_value_fits:
  "MIN_ARG_STRING_CAP \<le> cap \<Longrightarrow> \<forall>s \<in> set (texts v). chars_count s < 2 ^ 64 \<Longrightarrow>
   \<forall>s \<in> set (texts (snd (shrink_value cap v))). chars_count s \<le> cap"
proof (induction cap v rule: shrink_value.induct)
  case (1 cap s)
  show ?case
  proof (cases "truncate_chars s cap")
    case None
    then show ?thesis by (auto simp: truncate_chars_def Let_def split: if_splits)
  next
    case (Some t)
    then show ?thesis using truncate_chars_fits 1 by simp
  qed
next
  case (2 cap items)
  have "\<forall>s \<in> set (texts (snd (shrink_value cap x))). chars_count s \<le> cap" if "x \<in> set items" for x
    using 2 that by auto
  then show ?case by (simp add: Let_def comp_def)
next
  case (3 cap entries)
  have "\<forall>s \<in> set (texts (snd (shrink_value cap x))). chars_count s \<le> cap" if "(k, x) \<in> set entries" for k x
    using 3(1) [OF that refl] 3(2,3) that by auto
  then show ?case by (auto simp: Let_def comp_def)
qed simp_all

lemma shrink_value_fitting:
  "\<forall>s \<in> set (texts v). chars_count s \<le> cap \<Longrightarrow> shrink_value cap v = (False, v)"
proof (induction cap v rule: shrink_value.induct)
  case (2 cap items)
  then have "map (shrink_value cap) items = map (\<lambda>x. (False, x)) items" by auto
  then show ?case by (simp add: Let_def comp_def list_ex_iff del: map_eq_conv)
next
  case (3 cap entries)
  then have "map (\<lambda>(k, x). (k, shrink_value cap x)) entries = map (\<lambda>(k, x). (k, (False, x))) entries" by fastforce
  then show ?case by (simp add: Let_def comp_def list_ex_iff case_prod_unfold del: map_eq_conv)
qed (simp_all add: truncate_chars_def)
section \<open>Properties\<close>


text \<open>A call that writes a long text, and an answer that is protected.\<close>

definition long_call :: "nat \<Rightarrow> json" where
  "long_call n = sample_message ''assistant'' [(''tool_calls'', JArray [JObject
     [(''id'', JString ''a''), (''function'', JObject [(''name'', JString ''write_file''),
       (''arguments'', JObject [(''text'', JString (replicate n CHR ''x''))])])]])]"

definition tight_config :: prune_config where
  "tight_config = prune_default\<lparr>keep_last := 1, args_max_chars := 20, arg_string_cap := 0\<rparr>"


text \<open>
  C21. What a tool result says of its own outcome survives pruning. The marker of a duplicate, and
  the line that replaces a result, read back as exactly the outcome of the text they replaced -
  whether it failed, and its exit code - whatever the command, the path or the text held, so an
  argument that quotes a status cannot forge one. For the line this is shown for every tool but
  \<^verbatim>\<open>read_file\<close>, whose name neither holds a closing bracket nor opens like the marker of a
  duplicate.
\<close>

theorem outcome_survives_pruning:
  assumes "name \<noteq> ''read_file''" "CHR '']'' \<notin> set name" "\<not> prefix ''duplicate of message '' name"
  shows "marker_outcome (one_line_summary page name args content) = Some (raw_outcome content) \<and>
    marker_outcome (duplicate_line first content) = Some (raw_outcome content) \<and>
    is_one_line_summary (one_line_summary page name args content)"
proof -
  have "status_line name content (one_line_summary page name args content)"
    using assms(1) one_line_summary_status by blast
  then obtain what n unit where line: "one_line_summary page name args content =
      one_liner name what (status_word ''ok'' content) (show_nat n @ unit)"
    "newline \<notin> set what" "newline \<notin> set unit" "CHR ''>'' \<notin> set unit" unfolding status_line_def by blast
  have "newline \<notin> set (show_nat n @ unit)" using line(3) show_nat_char_digits [of newline n] no_digits(3) by auto
  then have "is_one_line_summary (one_line_summary page name args content)"
    unfolding line(1) using one_liner_recognised assms(2) line(2) by blast
  moreover have "marker_outcome (one_line_summary page name args content) = Some (raw_outcome content)"
    unfolding line(1) using one_liner_outcome assms line(2,3,4) by blast
  ultimately show ?thesis using duplicate_outcome by blast
qed

lemma outcome_survives_pruning_witness:
  "marker_outcome (one_line_summary (\<lambda>_ _ _. None) ''run_command''
     (Some (JObject [(''command'', JString ''echo ' -> error (exit 7), 1'')])) ''fine'') = Some (False, None)"
proof -
  have "trim_start ''fine'' = ''fine''" by (rule plain_trim) code_simp
  then have "raw_outcome ''fine'' = (False, None)"
    by (simp add: raw_outcome_def failure_label_def looks_like_error_def tool_result_ok_def exit_code_of_def
        strip_prefix_def)
  then show ?thesis using outcome_survives_pruning [of "''run_command''"] by simp
qed

text \<open>
  Shortening the texts of a JSON value is bounded and stable: with the configured cap, which is
  never below its floor, every text ends within the cap, a second pass finds nothing to do, and a
  value with a longer text is changed.
\<close>

theorem shrinking_is_stable:
  assumes "\<forall>s \<in> set (texts v). chars_count s < 2 ^ 64"
  shows "let cap = effective_arg_string_cap cfg; shrunk = snd (shrink_value cap v) in
    (\<forall>s \<in> set (texts shrunk). chars_count s \<le> cap) \<and> shrink_value cap shrunk = (False, shrunk) \<and>
    (\<not> (\<forall>s \<in> set (texts v). chars_count s \<le> cap) \<longrightarrow> shrunk \<noteq> v)"
proof -
  have "MIN_ARG_STRING_CAP \<le> effective_arg_string_cap cfg" by (simp add: effective_arg_string_cap_def)
  note fits = shrink_value_fits [OF this assms]
  then show ?thesis using shrink_value_fitting [OF fits] by (auto simp: Let_def)
qed

lemma shrinking_is_stable_witness:
  "let v = JObject [(''text'', JString (replicate 40 CHR ''x''))]; cfg = prune_default\<lparr>arg_string_cap := 0\<rparr> in
   shrink_value (effective_arg_string_cap cfg) v =
     (True, JObject [(''text'', JString (replicate 19 CHR ''x'' @ ellipsis_mark @ '' [+21 chars]''))]) \<and>
   (\<forall>s \<in> set (texts (snd (shrink_value (effective_arg_string_cap cfg) v))). chars_count s \<le> 32)"
proof -
  let ?v = "JObject [(''text'', JString (replicate 40 CHR ''x''))]" and ?cfg = "prune_default\<lparr>arg_string_cap := 0\<rparr>"
  have "shrink_value (effective_arg_string_cap ?cfg) ?v =
     (True, JObject [(''text'', JString (replicate 19 CHR ''x'' @ ellipsis_mark @ '' [+21 chars]''))])"
    and "effective_arg_string_cap ?cfg = 32" by code_simp+
  moreover have "chars_count (replicate 40 CHR ''x'') = 40" by code_simp
  then have "\<forall>s \<in> set (texts ?v). chars_count s < 2 ^ 64" by simp
  ultimately show ?thesis using shrinking_is_stable [of ?v ?cfg] by (simp add: Let_def)
qed

end
