(* ===== verification/Float32.thy ===== *)
theory Float32
  imports Complex_Main "HOL-Library.Log_Nat"
begin

text \<open>
  The \<^verbatim>\<open>f32\<close> arithmetic that the budget code does on counts: finite values only, held as the
  rational they stand for, every operation rounded to 24 significant bits, ties to even. A count is
  below 2 to the 64, so nothing overflows or becomes subnormal.
\<close>

definition pow2 :: "int \<Rightarrow> rat" where
  "pow2 e = (if 0 \<le> e then 2 ^ nat e else 1 / 2 ^ nat (- e))"

definition round_half_even :: "rat \<Rightarrow> int" where
  "round_half_even r =
     (let f = \<lfloor>r\<rfloor>; d = r - of_int f
      in if d < 1 / 2 \<or> d = 1 / 2 \<and> even f then f else f + 1)"

text \<open>The exponent of a positive value: the power of two at or below it.\<close>

definition f32_exponent :: "rat \<Rightarrow> int" where
  "f32_exponent r =
     (let (p, q) = quotient_of r; k = bitlen p - bitlen q in if pow2 k \<le> r then k else k - 1)"

definition f32_round_pos :: "rat \<Rightarrow> rat" where
  "f32_round_pos r =
     (let e = f32_exponent r - 23 in of_int (round_half_even (r / pow2 e)) * pow2 e)"

definition f32_round :: "rat \<Rightarrow> rat" where
  "f32_round r =
     (if r = 0 then 0 else if r < 0 then - f32_round_pos (- r) else f32_round_pos r)"

text \<open>\<^verbatim>\<open>n as f32\<close>, and the operations.\<close>

definition f32_of :: "nat \<Rightarrow> rat" where
  "f32_of n = f32_round (of_nat n)"

definition f32_div :: "rat \<Rightarrow> rat \<Rightarrow> rat" where
  "f32_div a b = f32_round (a / b)"

definition f32_mul :: "rat \<Rightarrow> rat \<Rightarrow> rat" where
  "f32_mul a b = f32_round (a * b)"

definition f32_sub :: "rat \<Rightarrow> rat \<Rightarrow> rat" where
  "f32_sub a b = f32_round (a - b)"

section \<open>Lemmas\<close>

lemma pow2_pos [simp]: "0 < pow2 e"
  by (simp add: pow2_def)

lemma pow2_add: "pow2 (a + b) = pow2 a * pow2 b"
proof -
  have "pow2 e = 2 powi e" for e by (simp add: pow2_def power_int_def power_one_over)
  then show ?thesis by (simp add: power_int_add)
qed

lemma round_half_even_bounds: "of_int (round_half_even r) \<le> r + 1 / 2 \<and> r - 1 / 2 \<le> of_int (round_half_even r)"
proof -
  have "of_int \<lfloor>r\<rfloor> \<le> r" "r < of_int \<lfloor>r\<rfloor> + 1" by linarith+
  then show ?thesis unfolding round_half_even_def Let_def by (simp only: of_int_add of_int_1 split: if_split) linarith
qed

lemma round_half_even_int [simp]: "round_half_even (of_int i) = i"
  by (simp add: round_half_even_def)

text \<open>Rounding a positive value up or down stays within half a unit in the last place.\<close>

lemma f32_round_pos_near:
  "\<bar>f32_round_pos r - r\<bar> \<le> pow2 (f32_exponent r - 24)"
proof -
  let ?e = "f32_exponent r - 23"
  have "\<bar>of_int (round_half_even (r / pow2 ?e)) - r / pow2 ?e\<bar> \<le> 1 / 2"
    using round_half_even_bounds [of "r / pow2 ?e"] by linarith
  then have near: "\<bar>of_int (round_half_even (r / pow2 ?e)) - r / pow2 ?e\<bar> * pow2 ?e \<le> 1 / 2 * pow2 ?e"
    by (intro mult_right_mono) (simp_all add: less_imp_le)
  have "pow2 ?e \<noteq> 0" using pow2_pos [of ?e] by linarith
  then have "(of_int (round_half_even (r / pow2 ?e)) - r / pow2 ?e) * pow2 ?e = f32_round_pos r - r"
    by (simp add: f32_round_pos_def Let_def left_diff_distrib)
  then have scaled: "\<bar>of_int (round_half_even (r / pow2 ?e)) - r / pow2 ?e\<bar> * pow2 ?e = \<bar>f32_round_pos r - r\<bar>"
    using abs_mult [of "of_int (round_half_even (r / pow2 ?e)) - r / pow2 ?e" "pow2 ?e"] abs_of_pos [OF pow2_pos [of ?e]]
    by metis
  have double: "pow2 ?e = pow2 (f32_exponent r - 24) * 2"
    using pow2_add [of "f32_exponent r - 24" 1] by (simp add: pow2_def [of 1])
  show ?thesis using near unfolding scaled unfolding double by simp
qed

end
