(* ===== verification/CompressState.thy ===== *)
theory CompressState
  imports Float32 Prelude
begin

text \<open>
  The session's account of its compressions, \<^verbatim>\<open>CompressState\<close> of
  \<^verbatim>\<open>newt-core/src/agentic/compress.rs\<close>: whether the last two passes were worth their cost,
  the latch that stops automatic compression after two that were not, and the notices that are
  shown once. The calibration of estimates that lives in the same struct is not modelled.
\<close>

section \<open>The state\<close>

record compress_state =
  last_savings :: "rat \<times> rat"
  last_effective :: "bool \<times> bool"
  attempts :: nat
  disabled :: bool
  notified :: bool
  failopen_notified :: bool
  append_only_notified :: bool
  last_floor_fraction :: "rat option \<times> rat option"

definition compress_state_new :: compress_state where
  "compress_state_new =
     \<lparr>last_savings = (1, 1), last_effective = (True, True), attempts = 0, disabled = False,
      notified = False, failopen_notified = False, append_only_notified = False,
      last_floor_fraction = (None, None)\<rparr>"

definition record_floor :: "nat \<Rightarrow> nat \<Rightarrow> compress_state \<Rightarrow> compress_state" where
  "record_floor tokens_after budget st =
     (if budget = 0 then st
      else st\<lparr>last_floor_fraction := (snd (last_floor_fraction st), Some (f32_div (f32_of tokens_after) (f32_of budget)))\<rparr>)"

definition THRASH_MIN_SAVINGS :: rat where
  "THRASH_MIN_SAVINGS = f32_round (1 / 10)"

definition GAP_MIN_PROGRESS :: rat where
  "GAP_MIN_PROGRESS = f32_round (1 / 4)"

definition ABS_MIN_RECLAIM_TOKENS :: nat where
  "ABS_MIN_RECLAIM_TOKENS = 200"

definition relative_savings :: "nat \<Rightarrow> nat \<Rightarrow> rat" where
  "relative_savings tok_before tok_after =
     (if 0 < tok_before then f32_sub 1 (f32_div (f32_of tok_after) (f32_of tok_before)) else 0)"

definition effective_pass :: "nat \<Rightarrow> nat \<Rightarrow> nat \<Rightarrow> bool" where
  "effective_pass tok_before tok_after budget \<longleftrightarrow>
     (let gap_before = tok_before - budget; gap_after = tok_after - budget in
      tok_after \<le> budget \<or>
      0 < gap_before \<and> f32_of gap_after \<le> f32_mul (f32_of gap_before) (f32_sub 1 GAP_MIN_PROGRESS) \<or>
      ABS_MIN_RECLAIM_TOKENS \<le> tok_before - tok_after \<or>
      THRASH_MIN_SAVINGS \<le> relative_savings tok_before tok_after)"

definition record_pass :: "nat \<Rightarrow> nat \<Rightarrow> nat \<Rightarrow> compress_state \<Rightarrow> compress_state" where
  "record_pass tok_before tok_after budget st =
     (let st = st\<lparr>last_savings := (snd (last_savings st), relative_savings tok_before tok_after),
                  last_effective := (snd (last_effective st), effective_pass tok_before tok_after budget),
                  attempts := attempts st + 1\<rparr>
      in if 2 \<le> attempts st \<and> \<not> fst (last_effective st) \<and> \<not> snd (last_effective st)
         then st\<lparr>disabled := True\<rparr> else st)"

definition state_reset :: "compress_state \<Rightarrow> compress_state" where
  "state_reset st = compress_state_new"

section \<open>What is shown\<close>

record compress_counters =
  compressions :: nat
  strikes :: nat
  counters_disabled :: bool
  last_reclaim :: "rat option"

definition counters :: "compress_state \<Rightarrow> compress_counters" where
  "counters st =
     \<lparr>compressions = attempts st,
      strikes = (if attempts st = 0 \<or> snd (last_effective st) then 0
                 else if 2 \<le> attempts st \<and> \<not> fst (last_effective st) then 2 else 1),
      counters_disabled = disabled st,
      last_reclaim = (if 0 < attempts st then Some (snd (last_savings st)) else None)\<rparr>"

text \<open>\<^verbatim>\<open>FloorTrend::rising\<close>: both readings exist and the floor grew.\<close>

definition floor_rising :: "compress_state \<Rightarrow> bool" where
  "floor_rising st =
     (case last_floor_fraction st of (Some p, Some l) \<Rightarrow> p < l | _ \<Rightarrow> False)"

datatype notice = Auto_Disabled | Fail_Open | Append_Only_Kept

definition take_notice :: "compress_state \<Rightarrow> notice option \<times> compress_state" where
  "take_notice st =
     (if disabled st \<and> \<not> notified st then (Some Auto_Disabled, st\<lparr>notified := True\<rparr>) else (None, st))"

definition take_failopen_notice :: "compress_state \<Rightarrow> notice option \<times> compress_state" where
  "take_failopen_notice st =
     (if \<not> failopen_notified st then (Some Fail_Open, st\<lparr>failopen_notified := True\<rparr>) else (None, st))"

definition take_append_only_notice :: "compress_state \<Rightarrow> notice option \<times> compress_state" where
  "take_append_only_notice st =
     (if \<not> append_only_notified st then (Some Append_Only_Kept, st\<lparr>append_only_notified := True\<rparr>) else (None, st))"

section \<open>Lemmas\<close>

text \<open>A session: the recorded passes since it began, each with its counts.\<close>

definition record_passes :: "(nat \<times> nat \<times> nat) list \<Rightarrow> compress_state" where
  "record_passes passes = fold (\<lambda>(b, a, g). record_pass b a g) passes compress_state_new"

definition pass_verdict :: "nat \<times> nat \<times> nat \<Rightarrow> bool" where
  "pass_verdict = (\<lambda>(b, a, g). effective_pass b a g)"

lemma record_pass_fields [simp]:
  "attempts (record_pass b a g st) = Suc (attempts st)"
  "last_effective (record_pass b a g st) = (snd (last_effective st), pass_verdict (b, a, g))"
  "disabled (record_pass b a g st) \<longleftrightarrow>
     disabled st \<or> 1 \<le> attempts st \<and> \<not> snd (last_effective st) \<and> \<not> pass_verdict (b, a, g)"
  "notified (record_pass b a g st) = notified st"
  by (auto simp: record_pass_def Let_def pass_verdict_def)

lemma record_passes_snoc: "record_passes (ps @ [p]) = (case p of (b, a, g) \<Rightarrow> record_pass b a g (record_passes ps))"
  by (cases p) (simp add: record_passes_def)

lemma record_passes_fields:
  "attempts (record_passes ps) = length ps \<and>
   snd (last_effective (record_passes ps)) = (ps = [] \<or> pass_verdict (last ps)) \<and>
   fst (last_effective (record_passes ps)) = (length ps < 2 \<or> pass_verdict (ps ! (length ps - 2))) \<and>
   (disabled (record_passes ps) \<longleftrightarrow>
      (\<exists>i. Suc i < length ps \<and> \<not> pass_verdict (ps ! i) \<and> \<not> pass_verdict (ps ! Suc i))) \<and>
   \<not> notified (record_passes ps)"
proof (induction ps rule: rev_induct)
  case Nil
  then show ?case by (simp add: record_passes_def compress_state_new_def)
next
  case (snoc p ps)
  obtain b a g where p: "p = (b, a, g)" by (cases p)
  let ?n = "length ps"
  have pairs: "(\<exists>i. Suc i < length (ps @ [p]) \<and> \<not> pass_verdict ((ps @ [p]) ! i) \<and> \<not> pass_verdict ((ps @ [p]) ! Suc i)) \<longleftrightarrow>
    (\<exists>i. Suc i < ?n \<and> \<not> pass_verdict (ps ! i) \<and> \<not> pass_verdict (ps ! Suc i)) \<or>
    (ps \<noteq> [] \<and> \<not> pass_verdict (last ps) \<and> \<not> pass_verdict p)" (is "?all \<longleftrightarrow> ?old \<or> ?new")
  proof
    assume ?all
    then obtain i where i: "Suc i < Suc ?n" "\<not> pass_verdict ((ps @ [p]) ! i)" "\<not> pass_verdict ((ps @ [p]) ! Suc i)" by auto
    show "?old \<or> ?new"
    proof (cases "Suc i < ?n")
      case False
      then have "Suc i = ?n" using i(1) by simp
      then have "ps \<noteq> []" by auto
      then have "last ps = ps ! i" using \<open>Suc i = ?n\<close> by (metis diff_Suc_1 last_conv_nth)
      then show ?thesis using i(2,3) \<open>Suc i = ?n\<close> \<open>ps \<noteq> []\<close> by (simp add: nth_append)
    qed (use i in \<open>auto simp: nth_append\<close>)
  next
    assume "?old \<or> ?new"
    then show ?all
    proof
      assume ?old
      then obtain i where "Suc i < ?n \<and> \<not> pass_verdict (ps ! i) \<and> \<not> pass_verdict (ps ! Suc i)" by blast
      then show ?all by (intro exI [of _ i]) (simp add: nth_append)
    next
      assume ?new
      then show ?all by (intro exI [of _ "?n - 1"]) (auto simp: nth_append last_conv_nth)
    qed
  qed
  have "pass_verdict ((ps @ [p]) ! (length (ps @ [p]) - 2)) = pass_verdict (last ps)" if "ps \<noteq> []"
    using that by (simp add: nth_append last_conv_nth)
  moreover have "record_passes (ps @ [p]) = record_pass b a g (record_passes ps)" "last (ps @ [p]) = p"
    by (simp_all add: record_passes_snoc p)
  ultimately show ?case
    using snoc unfolding pairs by (cases "ps = []") (simp_all add: p Suc_le_eq)
qed

section \<open>Properties\<close>

text \<open>
  C35. The latch that stops automatic compression is exactly two ineffective passes in a row:
  whatever the counts of a session's passes were, compression is disabled if and only if some two
  consecutive passes since the last reset were both ineffective. So an effective pass between two
  poor ones always keeps it alive, no later success lifts the latch, and a reset does. The strikes
  on display never exceed two, and two strikes are never shown without the latch.
\<close>

theorem latch_is_two_in_a_row:
  "let st = record_passes passes in
   (disabled st \<longleftrightarrow> (\<exists>i. Suc i < length passes \<and> \<not> pass_verdict (passes ! i) \<and> \<not> pass_verdict (passes ! Suc i))) \<and>
   (disabled st \<longrightarrow> disabled (record_pass b a g st)) \<and>
   \<not> disabled (state_reset st) \<and>
   attempts st = length passes \<and> strikes (counters st) \<le> 2 \<and>
   (strikes (counters st) = 2 \<longrightarrow> disabled st)"
proof -
  let ?st = "record_passes passes"
  have fields: "attempts ?st = length passes"
    "snd (last_effective ?st) = (passes = [] \<or> pass_verdict (last passes))"
    "fst (last_effective ?st) = (length passes < 2 \<or> pass_verdict (passes ! (length passes - 2)))"
    "disabled ?st \<longleftrightarrow> (\<exists>i. Suc i < length passes \<and> \<not> pass_verdict (passes ! i) \<and> \<not> pass_verdict (passes ! Suc i))"
    using record_passes_fields [of passes] by blast+
  have "disabled ?st" if "strikes (counters ?st) = 2"
  proof -
    have "2 \<le> length passes" "\<not> pass_verdict (last passes)" "\<not> pass_verdict (passes ! (length passes - 2))"
      using that fields(1-3) by (auto simp: counters_def split: if_splits)
    then have "Suc (length passes - 2) < length passes \<and> \<not> pass_verdict (passes ! (length passes - 2)) \<and>
        \<not> pass_verdict (passes ! Suc (length passes - 2))"
      by (cases passes rule: rev_cases) (auto simp: nth_append Suc_diff_Suc numeral_2_eq_2 split: if_splits)
    then show ?thesis using fields(4) by blast
  qed
  then show ?thesis
    using fields by (simp add: Let_def state_reset_def compress_state_new_def counters_def)
qed

lemma latch_is_two_in_a_row_witness:
  "let poor = (10, 10, 5); good = (10, 4, 5) in
   \<not> pass_verdict poor \<and> pass_verdict good \<and> disabled (record_passes [good, poor, poor]) \<and>
   \<not> disabled (record_passes [poor, good, poor])"
proof -
  have verdicts: "\<not> pass_verdict (10, 10, 5)" "pass_verdict (10, 4, 5)"
    by (simp_all add: pass_verdict_def) code_simp+
  have "disabled (record_passes [(10, 4, 5), (10, 10, 5), (10, 10, 5)])"
    using latch_is_two_in_a_row [of "[(10, 4, 5), (10, 10, 5), (10, 10, 5)]"] verdicts
    by (auto simp: Let_def intro!: exI [of _ 1])
  moreover have "\<not> disabled (record_passes [(10, 10, 5), (10, 4, 5), (10, 10, 5)])"
    using latch_is_two_in_a_row [of "[(10, 10, 5), (10, 4, 5), (10, 10, 5)]"] verdicts
    by (auto simp: Let_def less_Suc_eq nth_Cons split: nat.splits)
  ultimately show ?thesis using verdicts by simp
qed

end
