(* ===== verification/ContextCompress.thy ===== *)
theory ContextCompress
  imports ContextRender DigestFold CompressState
begin

text \<open>
  The compression pipeline, \<^verbatim>\<open>compress\<close> of \<^verbatim>\<open>newt-core/src/agentic/compress.rs\<close>: the
  gates that refuse, let pass or force a marker; pruning and folding; the boundary and the pinned
  working set; the summary or the static marker in place of the middle; the repair and the last
  structural pass. The summariser, the store, the text of the static marker and the arguments of
  pruning and rendering are the fields of the environment. A slice that is out of bounds, which ends
  the program, is \<open>None\<close>.
\<close>

section \<open>Requests and outcomes\<close>

record compress_env =
  env_parse :: "string \<Rightarrow> json option"
  env_hash :: "string \<Rightarrow> string"
  env_page :: "string \<Rightarrow> json option \<Rightarrow> string \<Rightarrow> string option"
  env_redact :: "string \<Rightarrow> string"
  env_summarize :: "(json list \<Rightarrow> nat \<Rightarrow> string option) option"
  env_fallback :: "json list \<Rightarrow> string"
  env_stage :: "string \<Rightarrow> string option"

record compress_request =
  req_messages :: "json list"
  req_budget :: nat
  req_max_messages :: "nat option"
  req_replay_len :: nat
  req_authoritative :: bool
  req_hard_budget :: bool
  req_est :: nat
  req_cap_floor :: nat
  req_rewrites_history :: bool

datatype compress_action = Fit | Pruned | Summarized | Static_Fallback | Refused | Dispatched_Over_Budget

datatype refusal_reason = Irreducible | Append_Only

record compress_outcome =
  out_messages :: "json list"
  out_action :: compress_action
  out_refusal :: "refusal_reason option"
  out_fired :: bool
  out_tokens_before :: nat
  out_tokens_after :: nat
  out_notice :: "notice option"

text \<open>\<^verbatim>\<open>CompressRequest::user_initiated\<close>.\<close>

definition user_initiated :: "json list \<Rightarrow> nat \<Rightarrow> nat \<Rightarrow> bool \<Rightarrow> compress_request" where
  "user_initiated ms est cap_floor rewrites_history =
     \<lparr>req_messages = ms, req_budget = estimate_tokens est ms div 2, req_max_messages = None,
      req_replay_len = 0, req_authoritative = True, req_hard_budget = False, req_est = est,
      req_cap_floor = cap_floor, req_rewrites_history = rewrites_history\<rparr>"

definition request_over :: "compress_request \<Rightarrow> nat \<Rightarrow> nat \<Rightarrow> bool" where
  "request_over req tokens len \<longleftrightarrow>
     req_budget req < tokens \<or> (case req_max_messages req of Some m \<Rightarrow> m < len | None \<Rightarrow> False)"

definition tokens_before :: "compress_request \<Rightarrow> nat" where
  "tokens_before req = estimate_tokens (req_est req) (req_messages req)"

definition over_entry :: "compress_request \<Rightarrow> bool" where
  "over_entry req \<longleftrightarrow> req_hard_budget req \<and> req_budget req < tokens_before req"

section \<open>The gates\<close>

definition untouched :: "compress_request \<Rightarrow> compress_action \<Rightarrow> refusal_reason option \<Rightarrow> notice option \<Rightarrow> compress_outcome" where
  "untouched req action refusal notice =
     \<lparr>out_messages = req_messages req, out_action = action, out_refusal = refusal, out_fired = False,
      out_tokens_before = tokens_before req, out_tokens_after = tokens_before req, out_notice = notice\<rparr>"

text \<open>An early return, or going on, with the marker forced or not.\<close>

datatype gate_step = Return compress_outcome | Go bool

definition return_with ::
    "compress_request \<Rightarrow> compress_action \<Rightarrow> refusal_reason option \<Rightarrow> notice option \<times> compress_state \<Rightarrow> gate_step \<times> compress_state" where
  "return_with req action refusal taken = (Return (untouched req action refusal (fst taken)), snd taken)"

definition compress_gate :: "compress_request \<Rightarrow> compress_state \<Rightarrow> gate_step \<times> compress_state" where
  "compress_gate req st =
     (let tok_before = tokens_before req;
          guarded = req_hard_budget req \<and> req_authoritative req;
          head = protected_prompt_head_len (req_messages req) ACTIVE_PROMPT_PREFIX
      in if \<not> request_over req tok_before (length (req_messages req)) then return_with req Fit None (None, st)
         else if \<not> req_rewrites_history req
         then if guarded then return_with req Refused (Some Append_Only) (None, st)
              else return_with req Dispatched_Over_Budget None (take_append_only_notice st)
         else if guarded \<and> req_budget req < estimate_tokens (req_est req) (take head (req_messages req))
         then return_with req Refused (Some Irreducible) (take_notice st)
         else if disabled st \<and> req_hard_budget req
         then if over_entry req
              then if req_authoritative req then (Go True, st)
                   else return_with req Dispatched_Over_Budget None (take_failopen_notice st)
              else return_with req Fit None (take_notice st)
         else (Go False, st))"

section \<open>Pruning and folding\<close>

definition request_prune_config :: "compress_request \<Rightarrow> prune_config" where
  "request_prune_config req =
     prune_default\<lparr>keep_last := max (keep_last prune_default) (min (req_replay_len req) (length (req_messages req)))\<rparr>"

definition prune_with :: "compress_env \<Rightarrow> prune_config \<Rightarrow> json list \<Rightarrow> json list \<times> nat" where
  "prune_with env cfg ms = prune (env_parse env) (env_hash env) (env_page env) cfg ms"

text \<open>The pruned and folded list, and whether either did anything.\<close>

definition reduce_stage :: "compress_env \<Rightarrow> compress_request \<Rightarrow> json list \<times> bool" where
  "reduce_stage env req =
     (let cfg = request_prune_config req;
          (pruned, reclaimed) = prune_with env cfg (req_messages req);
          (folded, rounds_folded, handle) =
            fold_aged_one_lined_rounds pruned (digest_default\<lparr>fold_keep_last := keep_last cfg\<rparr>) (env_stage env)
      in (folded, 0 < reclaimed \<or> 0 < rounds_folded))"

definition PROACTIVE_SUMMARIZE_FLOOR_FRACTION :: rat where
  "PROACTIVE_SUMMARIZE_FLOOR_FRACTION = f32_round (3 / 4)"

definition proactive_escalate :: "compress_request \<Rightarrow> nat \<Rightarrow> bool" where
  "proactive_escalate req after_prune \<longleftrightarrow>
     req_hard_budget req \<and> req_authoritative req \<and> 0 < req_budget req \<and>
     PROACTIVE_SUMMARIZE_FLOOR_FRACTION \<le> f32_div (f32_of after_prune) (f32_of (req_budget req))"

text \<open>Whether pruning alone settles the request, and the state with the floor recorded.\<close>

definition settle_pruned ::
    "compress_request \<Rightarrow> json list \<times> bool \<Rightarrow> compress_state \<Rightarrow> compress_outcome option \<times> compress_state" where
  "settle_pruned req reduced st =
     (let (pruned, changed) = reduced; after_prune = estimate_tokens (req_est req) pruned in
      if request_over req after_prune (length pruned) then (None, st)
      else
        (let st = (if req_hard_budget req \<and> req_authoritative req then record_floor after_prune (req_budget req) st else st)
         in if proactive_escalate req after_prune then (None, st)
            else
              (let st = (if over_entry req then record_pass (tokens_before req) after_prune (req_budget req) st else st);
                   (notice, st) = take_notice st
               in (Some \<lparr>out_messages = pruned, out_action = Pruned, out_refusal = None, out_fired = changed,
                         out_tokens_before = tokens_before req, out_tokens_after = after_prune,
                         out_notice = notice\<rparr>, st))))"

section \<open>The working set and the boundary\<close>

definition request_boundary :: "compress_request \<Rightarrow> json list \<Rightarrow> (nat \<times> nat) option" where
  "request_boundary req ms =
     compute_boundary (req_est req) ms (req_budget req) (req_max_messages req)
       (min (req_replay_len req) (length (req_messages req)))"

definition insert_at :: "nat \<Rightarrow> 'a \<Rightarrow> 'a list \<Rightarrow> 'a list" where
  "insert_at i x xs = take i xs @ x # drop i xs"

definition card_position :: "json list \<Rightarrow> nat" where
  "card_position ms =
     (case List.find (\<lambda>i. msg_role (ms ! i) = Some ''system'' \<and> starts_with ACTIVE_PROMPT_PREFIX (content_of (ms ! i)))
             [0..<length ms] of
        Some i \<Rightarrow> i | None \<Rightarrow> 0)"

text \<open>
  Earlier cards go, a card for the file read last is put in unless the tail holds its text, and the
  boundary is computed again only when a card was put in.
\<close>

definition pin_working_set ::
    "compress_env \<Rightarrow> compress_request \<Rightarrow> json list \<Rightarrow> nat \<times> nat \<Rightarrow>
     (json list \<times> (nat \<times> nat) \<times> string option) option" where
  "pin_working_set env req ms boundary =
     (let kept = filter (\<lambda>m. \<not> is_working_set_card m) ms;
          in_tail = (\<lambda>content. list_ex (\<lambda>m. content_of m = Some content) (drop (min (snd boundary) (length kept)) kept))
      in case working_set_from_history (env_parse env) (req_est req) (req_messages req) (req_budget req) of
           Some (path, content) \<Rightarrow>
             if \<not> in_tail content
             then (let pinned = insert_at (card_position kept) (working_set_card path content) kept
                   in map_option (\<lambda>b. (pinned, b, Some path)) (request_boundary req pinned))
             else Some (kept, boundary, None)
         | None \<Rightarrow> Some (kept, boundary, None))"

section \<open>Assembly\<close>

definition middle_cap :: "compress_request \<Rightarrow> nat" where
  "middle_cap req = max (chars_for_tokens (req_est req) (req_budget req)) (req_cap_floor req)"

definition handle_note :: "string \<Rightarrow> string" where
  "handle_note handle =
     [newline, newline] @ ''[the full verbatim text of this compacted span is retrievable with memory_fetch('' @
     [CHR 0x22] @ ''compaction:'' @ handle @ [CHR 0x22] @ '') '' @ dash @
     '' use it to recover an exact detail this summary dropped, instead of guessing]''"

definition summary_body ::
    "compress_env \<Rightarrow> json list \<Rightarrow> string option \<Rightarrow> string option \<Rightarrow> string" where
  "summary_body env middle pinned summary =
     (case summary of Some s \<Rightarrow> s | None \<Rightarrow> env_fallback env middle) @
     (case reread_breadcrumb (env_parse env) middle pinned of
        Some crumb \<Rightarrow> [newline, newline] @ crumb | None \<Rightarrow> []) @
     (case env_stage env (join_str [newline] (map (render_message_raw (env_redact env)) middle)) of
        Some handle \<Rightarrow> handle_note handle | None \<Rightarrow> [])"

definition assemble ::
    "compress_env \<Rightarrow> compress_request \<Rightarrow> bool \<Rightarrow> json list \<Rightarrow> nat \<times> nat \<Rightarrow> string option \<Rightarrow>
     (json list \<times> compress_action) option" where
  "assemble env req force ms boundary pinned =
     (let (head, tail) = boundary; middle = drop head (take tail ms) in
      if \<not> (head \<le> tail \<and> tail \<le> length ms) then None
      else if middle = [] then Some (ms, Pruned)
      else
        (let summary = (if force then None
                        else Option.bind (env_summarize env) (\<lambda>f. f middle (middle_cap req)))
         in Some (take head ms @ summary_message (summary_body env middle pinned summary) # drop tail ms,
                  if summary \<noteq> None then Summarized else Static_Fallback)))"

section \<open>The last structural pass\<close>

text \<open>The older results of the trailing group, one at a time, until the list fits.\<close>

fun reclaim_results ::
    "compress_env \<Rightarrow> nat \<Rightarrow> nat \<Rightarrow> nat list \<Rightarrow> json list \<times> bool \<Rightarrow> json list \<times> bool" where
  "reclaim_results env est budget [] acc = acc"
| "reclaim_results env est budget (i # is) (ms, changed) =
     (let (pruned, reclaimed) = prune_with env (prune_default\<lparr>keep_last := length ms - i - 1\<rparr>) ms;
          acc = (if 0 < reclaimed then (pruned, True) else (ms, changed))
      in if estimate_tokens est (fst acc) \<le> budget then acc else reclaim_results env est budget is acc)"

definition reclaim_within_trailing_group ::
    "compress_env \<Rightarrow> json list \<Rightarrow> nat \<Rightarrow> nat \<Rightarrow> nat \<Rightarrow> json list \<times> bool" where
  "reclaim_within_trailing_group env ms budget est replay_len =
     (let group_len = trailing_tool_group_len ms replay_len; start = length ms - group_len in
      if group_len = 0 then (ms, False)
      else if estimate_tokens est (drop start ms) \<le> budget - estimate_tokens est (take start ms) then (ms, False)
      else
        (let results = filter (\<lambda>i. msg_role (ms ! i) = Some ''tool'') [start..<length ms]
         in reclaim_results env est budget (take (length results - 1) results) (ms, False)))"

definition fit_pass :: "compress_env \<Rightarrow> compress_request \<Rightarrow> json list \<times> compress_action \<Rightarrow> json list \<times> compress_action" where
  "fit_pass env req assembled =
     (let (ms, action) = assembled; replay = min (req_replay_len req) (length (req_messages req)) in
      if \<not> req_budget req < estimate_tokens (req_est req) ms then (ms, action)
      else
        (let (pruned, reclaimed) =
               prune_with env (prune_default\<lparr>keep_last := max (trailing_tool_group_len ms replay) 2\<rparr>) ms;
             (ms, action) = (if 0 < reclaimed then (pruned, if action = Fit then Pruned else action) else (ms, action))
         in if req_hard_budget req \<and> req_budget req < estimate_tokens (req_est req) ms
            then (let (ms, changed) = reclaim_within_trailing_group env ms (req_budget req) (req_est req) replay
                  in (ms, if changed \<and> action = Fit then Pruned else action))
            else (ms, action)))"

section \<open>The pipeline\<close>

definition finish ::
    "compress_request \<Rightarrow> bool \<Rightarrow> bool \<Rightarrow> json list \<times> compress_action \<Rightarrow> compress_state \<Rightarrow>
     compress_outcome \<times> compress_state" where
  "finish req force changed assembled st =
     (let (ms, action) = assembled; after = estimate_tokens (req_est req) ms in
      if force \<and> req_budget req < after
      then (let (notice, st) = take_notice st in (untouched req Refused (Some Irreducible) notice, st))
      else
        (let st = (if over_entry req \<and> \<not> force then record_pass (tokens_before req) after (req_budget req) st else st);
             (notice, st) = take_notice st
         in (\<lparr>out_messages = ms, out_action = action, out_refusal = None,
              out_fired = (changed \<or> length ms \<noteq> length (req_messages req) \<or> after \<noteq> tokens_before req),
              out_tokens_before = tokens_before req, out_tokens_after = after, out_notice = notice\<rparr>, st)))"

definition cut_and_fit ::
    "compress_env \<Rightarrow> compress_request \<Rightarrow> bool \<Rightarrow> json list \<Rightarrow> (json list \<times> compress_action) option" where
  "cut_and_fit env req force pruned =
     Option.bind (request_boundary req pruned) (\<lambda>boundary.
     Option.bind (pin_working_set env req pruned boundary) (\<lambda>(ms, boundary, pinned).
     map_option (\<lambda>(assembled, action). fit_pass env req (repair_orphaned_tool_calls assembled, action))
       (assemble env req force ms boundary pinned)))"

definition compress :: "compress_env \<Rightarrow> compress_request \<Rightarrow> compress_state \<Rightarrow> (compress_outcome \<times> compress_state) option" where
  "compress env req st =
     (case compress_gate req st of
        (Return out, st) \<Rightarrow> Some (out, st)
      | (Go force, st) \<Rightarrow>
          let reduced = reduce_stage env req in
          (case settle_pruned req reduced st of
             (Some out, st) \<Rightarrow> Some (out, st)
           | (None, st) \<Rightarrow>
               map_option (\<lambda>assembled. finish req force (snd reduced) assembled st)
                 (cut_and_fit env req force (fst reduced))))"
section \<open>Lemmas\<close>

subsection \<open>The state\<close>

lemma take_notice_keeps [simp]:
  "attempts (snd (take_notice st)) = attempts st" "disabled (snd (take_notice st)) = disabled st"
  "attempts (snd (take_failopen_notice st)) = attempts st" "disabled (snd (take_failopen_notice st)) = disabled st"
  "attempts (snd (take_append_only_notice st)) = attempts st" "disabled (snd (take_append_only_notice st)) = disabled st"
  by (simp_all add: take_notice_def take_failopen_notice_def take_append_only_notice_def)

lemma record_floor_keeps [simp]:
  "attempts (record_floor n b st) = attempts st" "disabled (record_floor n b st) = disabled st"
  by (simp_all add: record_floor_def)

subsection \<open>The gates\<close>

lemma untouched_fields [simp]:
  "out_messages (untouched req action refusal n) = req_messages req"
  "out_action (untouched req action refusal n) = action" "out_refusal (untouched req action refusal n) = refusal"
  "out_fired (untouched req action refusal n) = False"
  "out_tokens_after (untouched req action refusal n) = tokens_before req"
  by (simp_all add: untouched_def)

text \<open>What an early return may be.\<close>

definition sound_return :: "compress_request \<Rightarrow> compress_state \<Rightarrow> compress_outcome \<Rightarrow> bool" where
  "sound_return req st out \<longleftrightarrow>
     out_messages out = req_messages req \<and> \<not> out_fired out \<and>
     out_action out \<in> {Fit, Refused, Dispatched_Over_Budget} \<and>
     (out_action out = Refused \<longleftrightarrow> out_refusal out \<noteq> None) \<and>
     (out_action out = Refused \<longrightarrow> req_hard_budget req \<and> req_authoritative req) \<and>
     (out_refusal out = Some Append_Only \<longleftrightarrow> out_action out = Refused \<and> \<not> req_rewrites_history req) \<and>
     (out_action out = Dispatched_Over_Budget \<longrightarrow>
        \<not> (req_hard_budget req \<and> req_authoritative req) \<and> (\<not> req_rewrites_history req \<or> disabled st)) \<and>
     (out_action out = Fit \<and> req_hard_budget req \<longrightarrow> tokens_before req \<le> req_budget req) \<and>
     out_tokens_after out = tokens_before req"

lemma compress_gate_cases:
  assumes "compress_gate req st = (g, st')"
  shows "attempts st' = attempts st \<and> disabled st' = disabled st \<and>
    (case g of
       Return out \<Rightarrow> sound_return req st out
     | Go force \<Rightarrow> req_rewrites_history req \<and> (force \<longleftrightarrow> disabled st \<and> req_hard_budget req) \<and>
         (force \<longrightarrow> req_authoritative req \<and> over_entry req))"
  using assms
  by (auto simp: compress_gate_def Let_def return_with_def sound_return_def request_over_def over_entry_def split: if_splits)

lemma settle_pruned_cases:
  assumes "settle_pruned req reduced st = (settled, st')"
  shows "(disabled st \<longrightarrow> disabled st') \<and>
    (\<not> req_hard_budget req \<longrightarrow> attempts st' = attempts st \<and> disabled st' = disabled st) \<and>
    (case settled of
       Some out \<Rightarrow> out_messages out = fst reduced \<and> out_action out = Pruned \<and> out_refusal out = None \<and>
         out_tokens_after out \<le> req_budget req
     | None \<Rightarrow> attempts st' = attempts st \<and> disabled st' = disabled st)"
proof -
  have "attempts st' = attempts st \<and> disabled st' = disabled st" if "settled = None"
    using assms that by (auto simp: settle_pruned_def Let_def split: prod.splits if_splits)
  moreover have "(disabled st \<longrightarrow> disabled st') \<and> (\<not> req_hard_budget req \<longrightarrow> attempts st' = attempts st \<and> disabled st' = disabled st) \<and>
      out_messages out = fst reduced \<and> out_action out = Pruned \<and> out_refusal out = None \<and>
      out_tokens_after out \<le> req_budget req" if some: "settled = Some out" for out
  proof -
    obtain pruned changed where r: "reduced = (pruned, changed)" by (cases reduced)
    let ?after = "estimate_tokens (req_est req) pruned"
    define st1 where "st1 = (if req_hard_budget req \<and> req_authoritative req then record_floor ?after (req_budget req) st else st)"
    define st2 where "st2 = (if over_entry req then record_pass (tokens_before req) ?after (req_budget req) st1 else st1)"
    have run: "\<not> request_over req ?after (length pruned)" "st' = snd (take_notice st2)"
      "out_messages out = pruned" "out_action out = Pruned" "out_refusal out = None" "out_tokens_after out = ?after"
      using assms some unfolding settle_pruned_def r Let_def prod.case st1_def [symmetric] st2_def [symmetric]
      by (auto split: if_splits prod.splits)
    have "(disabled st \<longrightarrow> disabled st2) \<and> (\<not> req_hard_budget req \<longrightarrow> attempts st2 = attempts st \<and> disabled st2 = disabled st)"
      by (simp add: st1_def st2_def over_entry_def)
    then show ?thesis using run r by (auto simp: request_over_def)
  qed
  ultimately show ?thesis by (cases settled) auto
qed

lemma finish_cases:
  assumes "finish req force changed (ms, action) st = (out, st')"
  shows "(disabled st \<longrightarrow> disabled st') \<and>
    (\<not> req_hard_budget req \<longrightarrow> attempts st' = attempts st \<and> disabled st' = disabled st) \<and>
    (if force \<and> req_budget req < estimate_tokens (req_est req) ms
     then \<exists>n. out = untouched req Refused (Some Irreducible) n
     else out_messages out = ms \<and> out_action out = action \<and> out_refusal out = None \<and>
       (force \<longrightarrow> out_tokens_after out \<le> req_budget req))"
proof -
  let ?after = "estimate_tokens (req_est req) ms"
  define st1 where "st1 = (if over_entry req \<and> \<not> force then record_pass (tokens_before req) ?after (req_budget req) st else st)"
  have "(disabled st \<longrightarrow> disabled st1) \<and> (\<not> req_hard_budget req \<longrightarrow> attempts st1 = attempts st \<and> disabled st1 = disabled st)"
    by (simp add: st1_def over_entry_def)
  moreover have "if force \<and> req_budget req < ?after
     then st' = snd (take_notice st) \<and> (\<exists>n. out = untouched req Refused (Some Irreducible) n)
     else st' = snd (take_notice st1) \<and> out_messages out = ms \<and> out_action out = action \<and> out_refusal out = None \<and>
       out_tokens_after out = ?after"
    using assms unfolding finish_def Let_def prod.case st1_def [symmetric] by (auto split: if_splits prod.splits)
  ultimately show ?thesis by (auto split: if_splits)
qed
subsection \<open>Shapes and pairs\<close>

text \<open>Whether calls and results pair up depends on the shapes of the messages only.\<close>

lemma call_ids_heads: "map call_head cs = map call_head ds \<Longrightarrow> call_ids cs = call_ids ds"
proof -
  have "call_ids xs = List.map_filter (\<lambda>h. as_str (fst h)) (map call_head xs)" for xs
    by (induction xs) (simp_all add: call_ids_def call_head_def map_filter_simps split: option.split)
  then show "map call_head cs = map call_head ds \<Longrightarrow> call_ids cs = call_ids ds" by simp
qed

lemma shape_calls:
  assumes "shape m = shape m'"
  shows "msg_role m = msg_role m'" "result_id m = result_id m'"
    "map_option call_ids (calls_of m) = map_option call_ids (calls_of m')"
proof -
  show "msg_role m = msg_role m'" "result_id m = result_id m'" using assms by (simp_all add: shape_def)
  have heads: "map_option (map call_head) (calls_of m) = map_option (map call_head) (calls_of m')"
    using assms by (simp add: shape_def)
  show "map_option call_ids (calls_of m) = map_option call_ids (calls_of m')"
  proof (cases "calls_of m")
    case None
    then show ?thesis using heads by (cases "calls_of m'") simp_all
  next
    case (Some cs)
    then obtain ds where "calls_of m' = Some ds" "map call_head cs = map call_head ds"
      using heads by (cases "calls_of m'") simp_all
    then show ?thesis using Some call_ids_heads [of cs ds] by simp
  qed
qed

lemma same_shapes_ids:
  assumes "map shape ms = map shape ns"
  shows "live_call_ids ms = live_call_ids ns" "result_ids ms = result_ids ns"
proof -
  have live: "live_call_ids (m # ms) =
      (if msg_role m = Some ''assistant'' then case map_option call_ids (calls_of m) of Some ids \<Rightarrow> ids | None \<Rightarrow> [] else []) @
      live_call_ids ms" for m ms
    by (simp add: live_call_ids_def map_filter_simps split: option.splits)
  have results: "result_ids (m # ms) =
      (if msg_role m = Some ''tool'' then case result_id m of Some i \<Rightarrow> [i] | None \<Rightarrow> [] else []) @ result_ids ms" for m ms
    by (simp add: result_ids_def map_filter_simps split: option.splits)
  have "list_all2 (\<lambda>m n. shape m = shape n) ms ns"
    using assms by (simp add: list_eq_iff_nth_eq list_all2_conv_all_nth)
  then have "live_call_ids ms = live_call_ids ns \<and> result_ids ms = result_ids ns"
  proof (induction rule: list_all2_induct)
    case (Cons m ms n ns)
    then show ?case unfolding live [of m] live [of n] results [of m] results [of n] shape_calls [OF Cons(1)] by simp
  qed simp
  then show "live_call_ids ms = live_call_ids ns" "result_ids ms = result_ids ns" by blast+
qed

lemma same_shapes_paired:
  assumes "map shape ms = map shape ns"
  shows "results_called ms \<Longrightarrow> results_called ns" "calls_answered ms \<Longrightarrow> calls_answered ns"
proof -
  have source: "\<exists>m \<in> set ms. shape m = shape n" if "n \<in> set ns" for n
  proof -
    have "shape n \<in> set (map shape ms)" using that unfolding assms by simp
    then show ?thesis by fastforce
  qed
  show "results_called ns" if "results_called ms"
    unfolding results_called_def
  proof (intro ballI impI allI, elim conjE)
    fix n i
    assume n: "n \<in> set ns" "msg_role n = Some ''tool''" "result_id n = Some i" "i \<noteq> []"
    then obtain m where m: "m \<in> set ms" "shape m = shape n" using source by blast
    have "msg_role m = Some ''tool''" "result_id m = Some i" using shape_calls(1,2) [OF m(2)] n by simp_all
    then show "i \<in> set (live_call_ids ns)"
      using that m(1) n(4) same_shapes_ids(1) [OF assms] unfolding results_called_def by simp
  qed
  show "calls_answered ns" if "calls_answered ms"
    unfolding calls_answered_def
  proof (intro ballI impI allI)
    fix n cs
    assume n: "n \<in> set ns" "msg_role n = Some ''assistant''" "calls_of n = Some cs"
    then obtain m where m: "m \<in> set ms" "shape m = shape n" using source by blast
    then obtain ds where ds: "calls_of m = Some ds" "call_ids ds = call_ids cs" "msg_role m = Some ''assistant''"
      using shape_calls [OF m(2)] n(2,3) by auto
    then have "set (call_ids ds) \<subseteq> set (result_ids ms)"
      using that m(1) unfolding calls_answered_def by blast
    then show "set (call_ids cs) \<subseteq> set (result_ids ns)" using ds(2) same_shapes_ids(2) [OF assms] by simp
  qed
qed

lemma rewritten_shapes: "list_all2 rewritten ms ns \<Longrightarrow> map shape ms = map shape ns"
  by (auto simp: rewritten_def list_all2_conv_all_nth intro: nth_equalityI)

lemma prune_with_shapes: "map shape (fst (prune_with env cfg ms)) = map shape ms"
  using prune_rewrites [of cfg ms] rewritten_shapes unfolding prune_with_def aged_rewrites_def by metis

lemma reclaim_results_shapes:
  "map shape (fst (reclaim_results env est budget ks (ms, changed))) = map shape ms"
proof (induction ks arbitrary: ms changed)
  case (Cons k ks)
  let ?p = "prune_with env (prune_default\<lparr>keep_last := length ms - k - 1\<rparr>) ms"
  let ?acc = "if 0 < snd ?p then (fst ?p, True) else (ms, changed)"
  have "map shape (fst ?acc) = map shape ms" using prune_with_shapes by simp
  moreover have "reclaim_results env est budget (k # ks) (ms, changed) =
      (if estimate_tokens est (fst ?acc) \<le> budget then ?acc else reclaim_results env est budget ks ?acc)"
    by (simp add: Let_def case_prod_unfold)
  ultimately show ?case using Cons by (cases ?acc) (simp split: if_split)
qed simp

lemma reclaim_group_shapes: "map shape (fst (reclaim_within_trailing_group env ms budget est replay)) = map shape ms"
  by (simp add: reclaim_within_trailing_group_def Let_def reclaim_results_shapes)

lemma fit_pass_shapes: "map shape (fst (fit_pass env req (ms, action))) = map shape ms"
proof -
  let ?replay = "min (req_replay_len req) (length (req_messages req))"
  let ?p = "prune_with env (prune_default\<lparr>keep_last := max (trailing_tool_group_len ms ?replay) 2\<rparr>) ms"
  let ?ms = "if 0 < snd ?p then fst ?p else ms"
  have "map shape ?ms = map shape ms" using prune_with_shapes by simp
  moreover have "fst (fit_pass env req (ms, action)) \<in>
      {ms, ?ms, fst (reclaim_within_trailing_group env ?ms (req_budget req) (req_est req) ?replay)}"
    unfolding fit_pass_def Let_def prod.case case_prod_unfold by (auto split: if_splits)
  ultimately show ?thesis using reclaim_group_shapes by fastforce
qed

lemma fit_pass_action: "action \<noteq> Fit \<Longrightarrow> snd (fit_pass env req (ms, action)) = action"
  unfolding fit_pass_def Let_def prod.case case_prod_unfold by (auto split: if_splits)

text \<open>
  What the pipeline asks of a pass that runs after the repair: it may rewrite contents, and must
  leave the shape of every message. Then it cannot undo the repair.
\<close>

locale content_pass =
  fixes pass :: "json list \<Rightarrow> json list"
  assumes keeps_shapes: "map shape (pass ms) = map shape ms"
begin

lemma keeps_length: "length (pass ms) = length ms"
  using arg_cong [OF keeps_shapes, of length] by simp

lemma keeps_pairs:
  "results_called ms \<Longrightarrow> calls_answered ms \<Longrightarrow> results_called (pass ms) \<and> calls_answered (pass ms)"
  using same_shapes_paired [OF keeps_shapes [symmetric]] by blast

end

interpretation pruning: content_pass "\<lambda>ms. fst (prune_with env cfg ms)" for env cfg
  by unfold_locales (rule prune_with_shapes)

interpretation reclaiming:
  content_pass "\<lambda>ms. fst (reclaim_within_trailing_group env ms budget est replay)" for env budget est replay
  by unfold_locales (rule reclaim_group_shapes)

interpretation fitting: content_pass "\<lambda>ms. fst (fit_pass env req (ms, action))" for env req action
  by unfold_locales (rule fit_pass_shapes)

lemma cut_and_fit_sound:
  assumes "cut_and_fit env req force pruned = Some (out, action)"
  shows "action \<in> {Pruned, Summarized, Static_Fallback} \<and> results_called out \<and> calls_answered out \<and>
    (force \<longrightarrow> action \<noteq> Summarized)"
proof -
  obtain b ms b' pin assembled act where run: "assemble env req force ms b' pin = Some (assembled, act)"
    "fit_pass env req (repair_orphaned_tool_calls assembled, act) = (out, action)"
    using assms by (auto simp: cut_and_fit_def bind_eq_Some_conv)
  have act: "act \<in> {Pruned, Summarized, Static_Fallback} \<and> (force \<longrightarrow> act \<noteq> Summarized)"
    using run(1) by (auto simp: assemble_def Let_def split: prod.splits if_splits)
  then have "action = act" using fit_pass_action [of act env req "repair_orphaned_tool_calls assembled"] run(2) by auto
  moreover have "results_called (repair_orphaned_tool_calls assembled)" "calls_answered (repair_orphaned_tool_calls assembled)"
    using repair_results_called repair_calls_answered by (auto simp: results_called_def calls_answered_def)
  then have "results_called out \<and> calls_answered out"
    using fitting.keeps_pairs [of "repair_orphaned_tool_calls assembled" env req act] run(2) by simp
  ultimately show ?thesis using act by blast
qed

subsection \<open>The whole run\<close>

text \<open>The three ways a run ends: at a gate, settled by pruning, or after the cut.\<close>

lemma compress_cases:
  assumes "compress env req st = Some (out, st')"
  obtains
    (gate) "compress_gate req st = (Return out, st')"
  | (settled) force st1 where "compress_gate req st = (Go force, st1)"
      "settle_pruned req (reduce_stage env req) st1 = (Some out, st')"
  | (cut) force st1 st2 ms action where "compress_gate req st = (Go force, st1)"
      "settle_pruned req (reduce_stage env req) st1 = (None, st2)"
      "cut_and_fit env req force (fst (reduce_stage env req)) = Some (ms, action)"
      "finish req force (snd (reduce_stage env req)) (ms, action) st2 = (out, st')"
  using assms by (auto simp: compress_def Let_def split: prod.splits gate_step.splits option.splits)

lemma pinned_lists:
  assumes "pin_working_set env req ms boundary = Some (out, b, pin)"
  shows "filter (\<lambda>m. \<not> is_working_set_card m) out = filter (\<lambda>m. \<not> is_working_set_card m) ms \<and>
    length (filter is_working_set_card out) = (if pin = None then 0 else 1) \<and>
    (pin \<noteq> None \<longrightarrow> request_boundary req out = Some b) \<and>
    (pin = None \<longrightarrow> out = filter (\<lambda>m. \<not> is_working_set_card m) ms \<and> b = boundary)"
proof -
  let ?kept = "filter (\<lambda>m. \<not> is_working_set_card m) ms"
  have kept: "filter (\<lambda>m. \<not> is_working_set_card m) (insert_at i (working_set_card p c) ?kept) = ?kept \<and>
      length (filter is_working_set_card (insert_at i (working_set_card p c) ?kept)) = 1" for i p c
  proof -
    have "filter is_working_set_card (take i ?kept) = []" "filter is_working_set_card (drop i ?kept) = []"
      by (auto simp: filter_empty_conv dest: in_set_takeD in_set_dropD)
    moreover have "filter (\<lambda>m. \<not> is_working_set_card m) (take i ?kept) = take i ?kept"
      "filter (\<lambda>m. \<not> is_working_set_card m) (drop i ?kept) = drop i ?kept"
      by (auto simp: filter_id_conv dest: in_set_takeD in_set_dropD)
    ultimately show ?thesis by (simp add: insert_at_def)
  qed
  show ?thesis
    using assms kept unfolding pin_working_set_def Let_def
    by (auto simp: filter_empty_conv split: option.splits prod.splits if_splits)
qed

section \<open>Properties\<close>

text \<open>
  C15. A run refuses only what it may refuse, and what it refuses it leaves alone. Refusal carries
  its reason and occurs only against a hard budget that is authoritative; a refused, passed or
  dispatched request comes back as it was, with nothing fired; a session that may not rewrite its
  history never gets it rewritten, whatever the summariser, the store and the state do; the answer
  to dispatch over the budget is given only when the budget is not both hard and authoritative, and
  the answer that a request fits a hard budget only when it does.
\<close>

theorem refusals_are_guarded:
  assumes "compress env req st = Some (out, st')"
  shows "(out_action out = Refused \<longleftrightarrow> out_refusal out \<noteq> None) \<and>
    (out_action out = Refused \<longrightarrow> req_hard_budget req \<and> req_authoritative req) \<and>
    (out_refusal out = Some Append_Only \<longrightarrow> \<not> req_rewrites_history req) \<and>
    (out_action out \<in> {Fit, Refused, Dispatched_Over_Budget} \<or> \<not> req_rewrites_history req \<longrightarrow>
       out_messages out = req_messages req \<and> \<not> out_fired out) \<and>
    (out_action out = Dispatched_Over_Budget \<longrightarrow> \<not> (req_hard_budget req \<and> req_authoritative req)) \<and>
    (out_action out = Fit \<and> req_hard_budget req \<longrightarrow> tokens_before req \<le> req_budget req)"
  using assms
proof (cases rule: compress_cases)
  case gate
  then show ?thesis using compress_gate_cases [OF gate] by (auto simp: sound_return_def)
next
  case (settled force st1)
  then show ?thesis
    using compress_gate_cases [OF settled(1)] settle_pruned_cases [OF settled(2)] by simp
next
  case (cut force st1 st2 ms action)
  have forced: "req_rewrites_history req" "force \<longrightarrow> req_hard_budget req \<and> req_authoritative req"
    using compress_gate_cases [OF cut(1)] by simp_all
  have action: "action \<in> {Pruned, Summarized, Static_Fallback}" using cut_and_fit_sound [OF cut(3)] by blast
  show ?thesis
  proof (cases "force \<and> req_budget req < estimate_tokens (req_est req) ms")
    case True
    then obtain n where "out = untouched req Refused (Some Irreducible) n"
      using finish_cases [OF cut(4)] by auto
    then show ?thesis using forced True by simp
  next
    case False
    then have "out_action out = action" "out_refusal out = None" using finish_cases [OF cut(4)] by auto
    then show ?thesis using forced action by auto
  qed
qed



text \<open>
  At most one card is pinned, and pinning moves nothing else. Every card of an earlier round
  goes, every other message stays in order, and exactly one card is there if a file was pinned; the
  cut is then the boundary of the list with the card in it. When no file is pinned and no earlier
  card was there the cut is still the boundary of the list.
\<close>

theorem pinning_keeps_the_cut:
  assumes "request_boundary req ms = Some boundary" "pin_working_set env req ms boundary = Some (out, b, pin)"
  shows "filter (\<lambda>m. \<not> is_working_set_card m) out = filter (\<lambda>m. \<not> is_working_set_card m) ms \<and>
    length (filter is_working_set_card out) = (if pin = None then 0 else 1) \<and>
    (pin \<noteq> None \<or> filter is_working_set_card ms = [] \<longrightarrow> request_boundary req out = Some b)"
proof -
  have "out = ms" if "pin = None" "filter is_working_set_card ms = []"
    using that pinned_lists [OF assms(2)] by (simp add: filter_empty_conv filter_id_conv)
  then show ?thesis using pinned_lists [OF assms(2)] assms(1) by auto
qed
section \<open>Runs\<close>

text \<open>
  Five short messages against an authoritative budget of four tokens, in a session whose latch is
  set: the first two give way to the marker.
\<close>

definition compress_sample_env :: compress_env where
  "compress_sample_env =
     \<lparr>env_parse = \<lambda>_. None, env_hash = id, env_page = \<lambda>_ _ _. None, env_redact = id,
      env_summarize = None, env_fallback = \<lambda>_. ''cut'', env_stage = \<lambda>_. None\<rparr>"

definition said :: "string \<Rightarrow> json" where
  "said t = sample_message ''assistant'' [(''content'', JString t)]"

definition asked :: "string \<Rightarrow> json" where
  "asked t = sample_message ''user'' [(''content'', JString t)]"

definition long_request :: compress_request where
  "long_request =
     \<lparr>req_messages = replicate 5 (said ''x''), req_budget = 4, req_max_messages = None, req_replay_len = 0,
      req_authoritative = True, req_hard_budget = True, req_est = 1000, req_cap_floor = 0, req_rewrites_history = True\<rparr>"

definition latched :: compress_state where
  "latched = compress_state_new\<lparr>disabled := True\<rparr>"

lemma latched_run:
  "map_option (\<lambda>(out, st). (length (out_messages out), out_action out, out_tokens_after out))
     (compress compress_sample_env long_request latched) = Some (4, Static_Fallback, 4)"
  by code_simp

lemma long_request_over: "over_entry long_request"
  by code_simp



definition kept_request :: compress_request where
  "kept_request = long_request\<lparr>req_rewrites_history := False\<rparr>"

lemma refusals_are_guarded_witness:
  "\<exists>out st'. compress compress_sample_env kept_request compress_state_new = Some (out, st') \<and>
     out_refusal out = Some Append_Only \<and> out_messages out = replicate 5 (said ''x'')"
proof -
  have "request_over kept_request (tokens_before kept_request) (length (req_messages kept_request))" by code_simp
  then have "compress_gate kept_request compress_state_new =
      return_with kept_request Refused (Some Append_Only) (None, compress_state_new)"
    by (simp add: compress_gate_def Let_def) (simp add: kept_request_def long_request_def)
  then have run: "compress compress_sample_env kept_request compress_state_new =
      Some (untouched kept_request Refused (Some Append_Only) None, compress_state_new)"
    by (simp add: compress_def return_with_def)
  have "req_messages kept_request = replicate 5 (said ''x'')" by (simp add: kept_request_def long_request_def)
  then show ?thesis using refusals_are_guarded [OF run] run by simp
qed

text \<open>
  A transcript with the card of an earlier round, in which no file was read since. The boundary was
  computed with the card; the card goes and the boundary stays, one message too far: it is the
  operator's last request that is summarised, and the message before it that is kept.
\<close>

definition carded_transcript :: "json list" where
  "carded_transcript =
     [working_set_card ''f'' ''x'', sample_message ''system'' [(''content'', JString ACTIVE_PROMPT_PREFIX)],
      asked ''task'', said ''old'', asked ''now this'', said ''a'', said ''b'']"

definition carded_request :: compress_request where
  "carded_request = long_request\<lparr>req_messages := carded_transcript\<rparr>"

lemma stale_cut_takes_the_request:
  "request_boundary carded_request carded_transcript = Some (3, 4) \<and>
   pin_working_set compress_sample_env carded_request carded_transcript (3, 4) = Some (tl carded_transcript, (3, 4), None) \<and>
   drop 3 (take 4 (tl carded_transcript)) = [asked ''now this''] \<and>
   request_boundary carded_request (tl carded_transcript) = Some (2, 3) \<and>
   drop 2 (take 3 (tl carded_transcript)) = [said ''old'']"
proof -
  have "request_boundary carded_request carded_transcript = Some (3, 4)" by code_simp
  moreover have "pin_working_set compress_sample_env carded_request carded_transcript (3, 4) = Some (tl carded_transcript, (3, 4), None)"
    by code_simp
  moreover have "request_boundary carded_request (tl carded_transcript) = Some (2, 3)" by code_simp
  ultimately show ?thesis by (simp add: carded_transcript_def)
qed

lemma pinning_keeps_the_cut_witness:
  "\<exists>b. request_boundary long_request (replicate 5 (said ''x'')) = Some b \<and>
     (\<exists>out b'. pin_working_set compress_sample_env long_request (replicate 5 (said ''x'')) b = Some (out, b', None) \<and>
        request_boundary long_request out = Some b')"
proof -
  have cut: "request_boundary long_request (replicate 5 (said ''x'')) = Some (0, 2)" by code_simp
  have pin: "pin_working_set compress_sample_env long_request (replicate 5 (said ''x'')) (0, 2) = Some (replicate 5 (said ''x''), (0, 2), None)"
    by code_simp
  have "filter is_working_set_card (replicate 5 (said ''x'')) = []" by code_simp
  then show ?thesis using pinning_keeps_the_cut [OF cut pin] cut pin by blast
qed

end
